(* ===== verification/QH_Prelude.thy ===== *)
theory QH_Prelude
  imports Main "HOL-Library.Word"
begin

text \<open>
  Shared vocabulary of the development: the machine types of the C sources, the outcome of C
  code that may fault, and the generic facts about lists, words and finite sums that the component
  theories use.
\<close>

section \<open>Machine types\<close>

type_synonym u8 = "8 word"
type_synonym u32 = "32 word"
type_synonym u64 = "64 word"

text \<open>
  \<open>u32\<close> stands for \<open>unsigned int\<close>, \<open>cl_uint\<close> and the bit pattern of \<open>int\<close>; \<open>u64\<close> for
  \<open>unsigned long\<close>, \<open>size_t\<close> and pointers of the x86-64 target.
\<close>

section \<open>Outcomes\<close>

text \<open>
  A C function that can dereference a bad pointer, leave an array, overflow a buffer, fail an
  \<open>assert\<close>, divide by zero or call \<open>abort\<close> or \<open>exit\<close> returns \<open>Inl\<close> of the fault; every other outcome, the error returns
  of the code included, is \<open>Inr\<close> of the result.
\<close>

datatype fault =
    Null_deref
  | Out_of_bounds
  | Use_after_free
  | Buffer_overflow
  | Assert_failed
  | Aborted
  | Div_by_zero

type_synonym 'a res = "fault + 'a"

definition bindR :: "'a res \<Rightarrow> ('a \<Rightarrow> 'b res) \<Rightarrow> 'b res" where
  "bindR m f = (case m of Inl e \<Rightarrow> Inl e | Inr x \<Rightarrow> f x)"

lemma bindR_simps [simp]:
  "bindR (Inl e) f = Inl e"
  "bindR (Inr x) f = f x"
  by (simp_all add: bindR_def)

lemma bindR_eq_Inr [simp]: "bindR m f = Inr y \<longleftrightarrow> (\<exists>x. m = Inr x \<and> f x = Inr y)"
  by (cases m) auto

lemma bindR_assoc: "bindR (bindR m f) g = bindR m (\<lambda>x. bindR (f x) g)"
  by (cases m) auto

text \<open>The result seen through a function.\<close>

definition map_res :: "('a \<Rightarrow> 'b) \<Rightarrow> 'a res \<Rightarrow> 'b res" where
  "map_res f m = bindR m (\<lambda>x. Inr (f x))"

lemma map_res_simps [simp]:
  "map_res f (Inl e) = Inl e"
  "map_res f (Inr x) = Inr (f x)"
  by (simp_all add: map_res_def)

lemma map_res_bindR: "map_res f (bindR m g) = bindR m (\<lambda>x. map_res f (g x))"
  by (simp add: map_res_def bindR_assoc)

lemma bindR_map_res: "bindR (map_res f m) g = bindR m (\<lambda>x. g (f x))"
  by (simp add: map_res_def bindR_assoc)

lemma map_res_eq_Inr: "map_res f m = Inr y \<longleftrightarrow> (\<exists>x. m = Inr x \<and> y = f x)"
  by (cases m) auto

text \<open>
  What a run may end in: a failed \<open>assert\<close>, unless the run is \<open>strict\<close>, or a result with the
  property \<open>Q\<close>. Any other fault is excluded.
\<close>

definition outcome :: "bool \<Rightarrow> 'a res \<Rightarrow> ('a \<Rightarrow> bool) \<Rightarrow> bool" where
  "outcome strict m Q = (case m of Inl e \<Rightarrow> e = Assert_failed \<and> \<not> strict | Inr x \<Rightarrow> Q x)"

lemma outcome_simps [simp]:
  "outcome b (Inr x) Q \<longleftrightarrow> Q x"
  "outcome b (Inl e) Q \<longleftrightarrow> e = Assert_failed \<and> \<not> b"
  by (simp_all add: outcome_def)

lemma outcome_bind:
  assumes "outcome b m P" and "\<And>x. P x \<Longrightarrow> outcome b (f x) Q"
  shows "outcome b (bindR m f) Q"
  using assms by (cases m) auto

lemma outcome_mono: "outcome b m P \<Longrightarrow> (\<And>x. P x \<Longrightarrow> Q x) \<Longrightarrow> outcome b m Q"
  by (cases m) auto

lemma outcome_strict: "outcome True m Q \<longleftrightarrow> (\<exists>x. m = Inr x \<and> Q x)"
  by (cases m) auto

text \<open>The same for code that may not return, where \<open>None\<close> is not returning.\<close>

definition bindO :: "'a res option \<Rightarrow> ('a \<Rightarrow> 'b res option) \<Rightarrow> 'b res option" where
  "bindO m f = (case m of None \<Rightarrow> None | Some (Inl e) \<Rightarrow> Some (Inl e) | Some (Inr x) \<Rightarrow> f x)"

lemma bindO_simps [simp]:
  "bindO (Some (Inr x)) f = f x"
  "bindO (Some (Inl e)) f = Some (Inl e)"
  by (simp_all add: bindO_def)

text \<open>Array accesses: out of range is a fault, as reading past an array is in C.\<close>

definition arr_get :: "'a list \<Rightarrow> nat \<Rightarrow> 'a res" where
  "arr_get xs i = (if i < length xs then Inr (xs ! i) else Inl Out_of_bounds)"

definition arr_set :: "'a list \<Rightarrow> nat \<Rightarrow> 'a \<Rightarrow> 'a list res" where
  "arr_set xs i v = (if i < length xs then Inr (xs[i := v]) else Inl Out_of_bounds)"

definition heap_get :: "('p \<rightharpoonup> 'a) \<Rightarrow> 'p \<Rightarrow> 'a res" where
  "heap_get h p = (case h p of None \<Rightarrow> Inl Use_after_free | Some x \<Rightarrow> Inr x)"

lemma arr_get_ok [simp]: "i < length xs \<Longrightarrow> arr_get xs i = Inr (xs ! i)"
  by (simp add: arr_get_def)

lemma arr_set_ok [simp]: "i < length xs \<Longrightarrow> arr_set xs i v = Inr (xs[i := v])"
  by (simp add: arr_set_def)

lemma arr_get_Inr: "arr_get xs i = Inr v \<longleftrightarrow> i < length xs \<and> v = xs ! i"
  by (auto simp: arr_get_def)

lemma arr_set_Inr: "arr_set xs i v = Inr ys \<longleftrightarrow> i < length xs \<and> ys = xs[i := v]"
  by (auto simp: arr_set_def)

lemma heap_get_ok [simp]: "h p = Some x \<Longrightarrow> heap_get h p = Inr x"
  by (simp add: heap_get_def)

lemma heap_get_Inr [simp]: "heap_get h p = Inr x \<longleftrightarrow> h p = Some x"
  by (auto simp: heap_get_def split: option.splits)

text \<open>An index of type \<open>int\<close> into an array.\<close>

definition idx :: "int \<Rightarrow> nat res" where
  "idx i = (if i < 0 then Inl Out_of_bounds else Inr (nat i))"

lemma idx_ok [simp]: "0 \<le> i \<Longrightarrow> idx i = Inr (nat i)"
  by (simp add: idx_def)

lemma idx_Inr [simp]: "idx i = Inr n \<longleftrightarrow> 0 \<le> i \<and> n = nat i"
  by (auto simp: idx_def)

section \<open>Lists\<close>

lemma remove1_append_middle:
  "x \<notin> set xs \<Longrightarrow> remove1 x (xs @ x # ys) = xs @ ys"
  by (simp add: remove1_append)

lemma split_at_elem:
  assumes "x \<in> set zs"
  obtains xs ys where "zs = xs @ x # ys" "x \<notin> set xs"
  using split_list_first [OF assms] by blast

lemma map_upt_eqI:
  assumes "length xs = n" and "\<And>i. i < n \<Longrightarrow> xs ! i = f i"
  shows "xs = map f [0..<n]"
  using assms by (auto intro: nth_equalityI)

lemma concat_rows_nth:
  assumes "r < R" and "k < length (g r)"
  shows "concat (map g [0..<R]) ! ((\<Sum>r'<r. length (g r')) + k) = g r ! k"
proof -
  have "[0..<R] = [0..<r] @ r # [Suc r..<R]"
    using assms(1) upt_add_eq_append [of 0 r "R - r"] by (simp add: upt_conv_Cons)
  moreover have "length (concat (map g [0..<r])) = (\<Sum>r'<r. length (g r'))"
    by (simp add: length_concat sum_list_sum_nth atLeast0LessThan)
  ultimately show ?thesis
    using assms(2) by (simp add: nth_append)
qed

text \<open>Writing the first cell that is still as it was.\<close>

lemma arr_set_prefix:
  "length p = k \<Longrightarrow> k < length xs \<Longrightarrow> arr_set (p @ drop k xs) k v = Inr ((p @ [v]) @ drop (Suc k) xs)"
  by (simp add: arr_set_def list_update_append Cons_nth_drop_Suc [symmetric])

section \<open>Words\<close>

lemma unat_of_nat_small:
  "n < 2 ^ LENGTH('a) \<Longrightarrow> unat (of_nat n :: 'a :: len word) = n"
  by (simp add: unat_of_nat)

lemma sint_of_nat_small: "k < 2147483648 \<Longrightarrow> sint (of_nat k :: u32) = int k"
  by (simp add: signed_of_nat signed_take_bit_int_eq_self)

lemma unat_less_32: "unat (w :: u32) < 4294967296"
  using unsigned_less [of w] by simp

lemma unat_less_64: "unat (w :: u64) < 18446744073709551616"
  using unsigned_less [of w] by simp

end
