(* ===== verification/QH_List.thy ===== *)
theory QH_List
  imports QH_Prelude
begin

text \<open>
  The intrusive circular lists of \<open>src/qhgpu/list.h\<close>. A \<open>struct list_head\<close> is a node of an
  explicit store that holds its \<open>prev\<close> and \<open>next\<close> pointers, so the functions are the pointer
  assignments of the C text. The predicate \<open>family\<close> relates a store to the sequences that its
  list heads stand for; the theorems show that the pointer operations implement appending to and
  removing from those sequences, that the loops of the header end, and that they visit every entry.
  The locale \<open>queue_family\<close> is the interface the connector and the service registry use.
\<close>

section \<open>Nodes and operations\<close>

text \<open>A pointer is \<open>None\<close> for \<open>NULL\<close> and \<open>Some\<close> of a node otherwise.\<close>

record 'n links =
  nxt :: "'n \<Rightarrow> 'n option"
  prv :: "'n \<Rightarrow> 'n option"

definition set_next :: "'n \<Rightarrow> 'n option \<Rightarrow> 'n links \<Rightarrow> 'n links" where
  "set_next p q s = s\<lparr>nxt := (nxt s)(p := q)\<rparr>"

definition set_prev :: "'n \<Rightarrow> 'n option \<Rightarrow> 'n links \<Rightarrow> 'n links" where
  "set_prev p q s = s\<lparr>prv := (prv s)(p := q)\<rparr>"

definition INIT_LIST_HEAD :: "'n \<Rightarrow> 'n links \<Rightarrow> 'n links" where
  "INIT_LIST_HEAD l s = set_prev l (Some l) (set_next l (Some l) s)"

text \<open>\<open>__list_add\<close>: the four assignments in order; a \<open>NULL\<close> neighbour is dereferenced.\<close>

definition list_add_between ::
  "'n \<Rightarrow> 'n option \<Rightarrow> 'n option \<Rightarrow> 'n links \<Rightarrow> 'n links res" where
  "list_add_between new_item prev next s =
     (case next of
        None \<Rightarrow> Inl Null_deref
      | Some n \<Rightarrow>
          (let s1 = set_prev n (Some new_item) s;
               s2 = set_next new_item next s1;
               s3 = set_prev new_item prev s2
           in case prev of
                None \<Rightarrow> Inl Null_deref
              | Some p \<Rightarrow> Inr (set_next p (Some new_item) s3)))"

definition list_add :: "'n \<Rightarrow> 'n \<Rightarrow> 'n links \<Rightarrow> 'n links res" where
  "list_add new_item head s = list_add_between new_item (Some head) (nxt s head) s"

definition list_add_tail :: "'n \<Rightarrow> 'n \<Rightarrow> 'n links \<Rightarrow> 'n links res" where
  "list_add_tail new_item head s = list_add_between new_item (prv s head) (Some head) s"

text \<open>\<open>__list_del\<close>\<close>

definition list_del_between :: "'n option \<Rightarrow> 'n option \<Rightarrow> 'n links \<Rightarrow> 'n links res" where
  "list_del_between prev next s =
     (case next of
        None \<Rightarrow> Inl Null_deref
      | Some n \<Rightarrow>
          (let s1 = set_prev n prev s
           in case prev of
                None \<Rightarrow> Inl Null_deref
              | Some p \<Rightarrow> Inr (set_next p next s1)))"

definition list_del :: "'n \<Rightarrow> 'n links \<Rightarrow> 'n links res" where
  "list_del entry s =
     bindR (list_del_between (prv s entry) (nxt s entry) s)
       (\<lambda>s1. Inr (set_prev entry None (set_next entry None s1)))"

definition list_empty :: "'n \<Rightarrow> 'n links \<Rightarrow> bool" where
  "list_empty head s \<longleftrightarrow> nxt s head = Some head"

text \<open>
  \<open>list_size\<close> runs \<open>list_for_each\<close> and counts in an \<open>int\<close>. Over a store whose \<open>next\<close>
  pointers do not come back to the head the loop never ends, which is \<open>None\<close>.
\<close>

partial_function (option) list_size_loop ::
  "'n links \<Rightarrow> 'n \<Rightarrow> 'n option \<Rightarrow> u32 \<Rightarrow> u32 res option" where
  "list_size_loop s head p c =
     (if p = Some head then Some (Inr c)
      else case p of
             None \<Rightarrow> Some (Inl Null_deref)
           | Some q \<Rightarrow> list_size_loop s head (nxt s q) (c + 1))"

definition list_size :: "'n \<Rightarrow> 'n links \<Rightarrow> u32 res option" where
  "list_size head s = list_size_loop s head (nxt s head) 0"

text \<open>
  \<open>list_for_each\<close> with a body that may return from the enclosing function: \<open>body\<close> gives
  \<open>Some\<close> of what it returns, \<open>None\<close> to go on. The body does not change the list.
\<close>

partial_function (option) list_for_each ::
  "'n links \<Rightarrow> 'n \<Rightarrow> ('n \<Rightarrow> 'r option res) \<Rightarrow> 'n option \<Rightarrow> 'r option res option" where
  "list_for_each s head body pos =
     (if pos = Some head then Some (Inr None)
      else case pos of
             None \<Rightarrow> Some (Inl Null_deref)
           | Some p \<Rightarrow>
               (case body p of
                  Inl e \<Rightarrow> Some (Inl e)
                | Inr (Some r) \<Rightarrow> Some (Inr (Some r))
                | Inr None \<Rightarrow> list_for_each s head body (nxt s p)))"

text \<open>
  \<open>list_for_each_safe(pos, n, head)\<close>: \<open>n\<close> is read before the body runs, so the body may
  remove \<open>pos\<close>. The body returns whether it breaks out of the loop; \<open>lk\<close> reads the links
  out of the state the body changes.
\<close>

partial_function (option) list_for_each_safe ::
  "('s \<Rightarrow> 'n links) \<Rightarrow> 'n \<Rightarrow> ('n \<Rightarrow> 's \<Rightarrow> (bool \<times> 's) res) \<Rightarrow> 'n option \<Rightarrow> 'n option \<Rightarrow> 's
     \<Rightarrow> 's res option" where
  "list_for_each_safe lk head body pos n st =
     (if pos = Some head then Some (Inr st)
      else case pos of
             None \<Rightarrow> Some (Inl Null_deref)
           | Some p \<Rightarrow>
               (case body p st of
                  Inl e \<Rightarrow> Some (Inl e)
                | Inr (brk, st') \<Rightarrow>
                    if brk then Some (Inr st')
                    else (case n of
                            None \<Rightarrow> Some (Inl Null_deref)
                          | Some m \<Rightarrow>
                              list_for_each_safe lk head body (Some m) (nxt (lk st') m) st')))"

text \<open>The initialisation of the loop: \<open>pos = head->next, n = pos->next\<close>.\<close>

definition for_each_safe ::
  "('s \<Rightarrow> 'n links) \<Rightarrow> 'n \<Rightarrow> ('n \<Rightarrow> 's \<Rightarrow> (bool \<times> 's) res) \<Rightarrow> 's \<Rightarrow> 's res option" where
  "for_each_safe lk head body st =
     (case nxt (lk st) head of
        None \<Rightarrow> Some (Inl Null_deref)
      | Some p \<Rightarrow> list_for_each_safe lk head body (Some p) (nxt (lk st) p) st)"

lemmas list_h_defs =
  set_next_def set_prev_def INIT_LIST_HEAD_def list_add_between_def list_add_def
  list_add_tail_def list_del_between_def list_del_def list_empty_def

section \<open>Segments and rings\<close>

text \<open>\<open>lseg s a xs b\<close>: following \<open>next\<close> from \<open>a\<close> passes \<open>xs\<close> and reaches \<open>b\<close>, and every
  \<open>prev\<close> pointer on the way points back.\<close>

fun lseg :: "'n links \<Rightarrow> 'n \<Rightarrow> 'n list \<Rightarrow> 'n \<Rightarrow> bool" where
  "lseg s a [] b \<longleftrightarrow> nxt s a = Some b \<and> prv s b = Some a"
| "lseg s a (x # xs) b \<longleftrightarrow> nxt s a = Some x \<and> prv s x = Some a \<and> lseg s x xs b"

definition ring :: "'n links \<Rightarrow> 'n \<Rightarrow> 'n list \<Rightarrow> bool" where
  "ring s h xs \<longleftrightarrow> lseg s h xs h \<and> distinct (h # xs)"

lemma lseg_append [simp]: "lseg s a (xs @ y # ys) b \<longleftrightarrow> lseg s a xs y \<and> lseg s y ys b"
  by (induction xs arbitrary: a) auto

lemma lseg_frame:
  assumes "\<And>x. x \<in> insert a (set xs) \<Longrightarrow> nxt s' x = nxt s x"
    and "\<And>x. x \<in> insert b (set xs) \<Longrightarrow> prv s' x = prv s x"
  shows "lseg s' a xs b = lseg s a xs b"
  using assms by (induction xs arbitrary: a) auto

lemma ring_frame:
  assumes "\<And>x. x \<in> insert h (set xs) \<Longrightarrow> nxt s' x = nxt s x \<and> prv s' x = prv s x"
  shows "ring s' h xs = ring s h xs"
  unfolding ring_def using lseg_frame [of h xs s' s h] assms by auto

lemma lseg_last: "lseg s a xs b \<Longrightarrow> prv s b = Some (last (a # xs))"
  by (induction xs arbitrary: a) auto

lemma lseg_first: "lseg s a xs b \<Longrightarrow> nxt s a = Some (hd (xs @ [b]))"
  by (cases xs) auto

lemma lseg_unique:
  "lseg s a xs b \<Longrightarrow> lseg s a ys b \<Longrightarrow> b \<notin> set xs \<Longrightarrow> b \<notin> set ys \<Longrightarrow> xs = ys"
proof (induction xs arbitrary: a ys)
  case Nil
  then show ?case by (cases ys) auto
next
  case (Cons x xs)
  then show ?case by (cases ys) auto
qed

lemma ring_unique: "ring s h xs \<Longrightarrow> ring s h ys \<Longrightarrow> xs = ys"
  by (auto simp: ring_def intro: lseg_unique)

text \<open>Appending to a ring, and removing from its middle.\<close>

lemma ring_add_tail:
  assumes "ring s h xs" and "x \<notin> insert h (set xs)"
  obtains s' where "list_add_tail x h s = Inr s'" and "ring s' h (xs @ [x])"
    and "\<And>y. y \<notin> insert x (insert h (set xs)) \<Longrightarrow> nxt s' y = nxt s y \<and> prv s' y = prv s y"
proof -
  define l where "l = last (h # xs)"
  have prv: "prv s h = Some l"
    using assms(1) unfolding ring_def l_def by (blast dest: lseg_last)
  define s' where "s' = set_next l (Some x) (set_prev x (Some l) (set_next x (Some h)
      (set_prev h (Some x) s)))"
  have eq: "list_add_tail x h s = Inr s'"
    by (simp add: list_add_tail_def list_add_between_def prv s'_def Let_def)
  have l: "l \<in> insert h (set xs)" by (simp add: l_def)
  have "ring s' h (xs @ [x])"
  proof (cases xs rule: rev_cases)
    case Nil
    then show ?thesis using assms by (auto simp: ring_def s'_def l_def set_next_def set_prev_def)
  next
    case (snoc ys y)
    with assms have y: "l = y" "h \<noteq> y" "h \<notin> set ys" "y \<notin> set ys" "x \<noteq> h" "x \<noteq> y" "x \<notin> set ys"
      and seg: "lseg s h ys y" and d: "distinct (h # xs)"
      by (auto simp: ring_def l_def)
    have "lseg s' h ys y = lseg s h ys y"
      by (rule lseg_frame) (use y in \<open>auto simp: s'_def set_next_def set_prev_def\<close>)
    with seg snoc y d assms(2) show ?thesis
      by (auto simp: ring_def s'_def set_next_def set_prev_def)
  qed
  moreover have "\<And>y. y \<notin> insert x (insert h (set xs)) \<Longrightarrow>
      nxt s' y = nxt s y \<and> prv s' y = prv s y"
    using l by (auto simp: s'_def set_next_def set_prev_def)
  ultimately show thesis using eq that by blast
qed

lemma ring_del:
  assumes "ring s h (xs @ x # ys)"
  obtains s' where "list_del x s = Inr s'" and "ring s' h (xs @ ys)"
    and "nxt s' x = None" and "prv s' x = None"
    and "\<And>y. y \<notin> insert h (set (xs @ x # ys)) \<Longrightarrow> nxt s' y = nxt s y \<and> prv s' y = prv s y"
proof -
  define p where "p = last (h # xs)"
  define n where "n = hd (ys @ [h])"
  have seg: "lseg s h xs x" "lseg s x ys h" and dist: "distinct (h # xs @ x # ys)"
    using assms by (auto simp: ring_def)
  have pn: "prv s x = Some p" "nxt s x = Some n"
    using seg by (auto simp: p_def n_def dest: lseg_last lseg_first)
  define s' where "s' = set_prev x None (set_next x None (set_next p (Some n)
      (set_prev n (Some p) s)))"
  have eq: "list_del x s = Inr s'"
    by (simp add: list_del_def list_del_between_def pn s'_def Let_def)
  have p: "p \<in> insert h (set xs)" and n: "n \<in> insert h (set ys)"
    by (auto simp: p_def n_def hd_append)
  have "lseg s' h (xs @ ys) h"
  proof (cases ys)
    case Nil
    show ?thesis
    proof (cases xs rule: rev_cases)
      case Nil
      with \<open>ys = []\<close> dist show ?thesis
        by (auto simp: s'_def p_def n_def set_next_def set_prev_def)
    next
      case (snoc zs z)
      have "lseg s' h zs z = lseg s h zs z"
        by (rule lseg_frame) (use snoc dist \<open>ys = []\<close> in
            \<open>auto simp: s'_def p_def n_def set_next_def set_prev_def\<close>)
      with snoc seg dist \<open>ys = []\<close> show ?thesis
        by (auto simp: s'_def p_def n_def set_next_def set_prev_def)
    qed
  next
    case (Cons b bs)
    have b: "lseg s' b bs h = lseg s b bs h"
      by (rule lseg_frame) (use Cons dist p in
          \<open>auto simp: s'_def n_def set_next_def set_prev_def\<close>)
    show ?thesis
    proof (cases xs rule: rev_cases)
      case Nil
      with Cons seg dist b show ?thesis
        by (auto simp: s'_def p_def n_def set_next_def set_prev_def)
    next
      case (snoc zs z)
      have "lseg s' h zs z = lseg s h zs z"
        by (rule lseg_frame) (use snoc Cons dist in
            \<open>auto simp: s'_def p_def n_def set_next_def set_prev_def\<close>)
      with Cons snoc seg dist b show ?thesis
        by (auto simp: s'_def p_def n_def set_next_def set_prev_def)
    qed
  qed
  then have "ring s' h (xs @ ys)" using dist by (auto simp: ring_def)
  moreover have "nxt s' x = None" "prv s' x = None"
    by (auto simp: s'_def set_next_def set_prev_def)
  moreover have "\<And>y. y \<notin> insert h (set (xs @ x # ys)) \<Longrightarrow>
      nxt s' y = nxt s y \<and> prv s' y = prv s y"
    using p n by (auto simp: s'_def set_next_def set_prev_def)
  ultimately show thesis using eq that by blast
qed


lemma list_del_self:
  assumes "nxt s x = Some x" and "prv s x = Some x"
  obtains s' where "list_del x s = Inr s'"
    and "\<And>y. y \<noteq> x \<Longrightarrow> nxt s' y = nxt s y \<and> prv s' y = prv s y"
  using assms by (auto simp: list_h_defs Let_def)

lemma INIT_LIST_HEAD_ring: "ring (INIT_LIST_HEAD h s) h []"
  by (simp add: ring_def list_h_defs)

lemma INIT_LIST_HEAD_frame:
  "y \<noteq> h \<Longrightarrow> nxt (INIT_LIST_HEAD h s) y = nxt s y \<and> prv (INIT_LIST_HEAD h s) y = prv s y"
  by (simp add: list_h_defs)

section \<open>The interface of a family of queues\<close>

text \<open>
  What the users of \<open>list.h\<close> rely on: a store \<open>s\<close> represents a family \<open>Q\<close> of sequences, one
  for each list head; \<open>add_tail\<close> appends a node that is in no queue, \<open>del\<close> takes a node out of
  the queue it is in, and \<open>empty\<close> tells whether a queue is empty.
\<close>

locale queue_family =
  fixes rep :: "'s \<Rightarrow> ('q \<Rightarrow> 'n list) \<Rightarrow> bool"
    and head :: "'q \<Rightarrow> 'n"
    and add_tail :: "'n \<Rightarrow> 'n \<Rightarrow> 's \<Rightarrow> 's res"
    and del :: "'n \<Rightarrow> 's \<Rightarrow> 's res"
    and empty :: "'n \<Rightarrow> 's \<Rightarrow> bool"
  assumes add_tail_ok:
      "rep s Q \<Longrightarrow> x \<notin> range head \<Longrightarrow> \<forall>q'. x \<notin> set (Q q') \<Longrightarrow>
        \<exists>s'. add_tail x (head q) s = Inr s' \<and> rep s' (Q(q := Q q @ [x]))"
    and del_ok:
      "rep s Q \<Longrightarrow> x \<in> set (Q q) \<Longrightarrow>
        \<exists>s'. del x s = Inr s' \<and> rep s' (Q(q := remove1 x (Q q)))"
    and empty_iff: "rep s Q \<Longrightarrow> empty (head q) s \<longleftrightarrow> Q q = []"
    and rep_distinct: "rep s Q \<Longrightarrow> distinct (Q q)"
    and rep_disjoint: "rep s Q \<Longrightarrow> x \<in> set (Q q) \<Longrightarrow> x \<in> set (Q q') \<Longrightarrow> q = q'"
    and rep_head: "rep s Q \<Longrightarrow> x \<in> set (Q q) \<Longrightarrow> x \<notin> range head"
begin

text \<open>Moving a node between queues, as every state change of a request does.\<close>

lemma move_ok:
  assumes "rep s Q" and "x \<in> set (Q p)"
  shows "\<exists>s'. bindR (del x s) (add_tail x (head q)) = Inr s' \<and>
     rep s' ((Q(p := remove1 x (Q p)))(q := (Q(p := remove1 x (Q p))) q @ [x]))"
proof -
  from del_ok [OF assms] obtain s1 where
    s1: "del x s = Inr s1" "rep s1 (Q(p := remove1 x (Q p)))" by blast
  have "\<forall>q'. x \<notin> set ((Q(p := remove1 x (Q p))) q')"
  proof
    fix q'
    show "x \<notin> set ((Q(p := remove1 x (Q p))) q')"
      using rep_distinct [OF assms(1)] rep_disjoint [OF assms(1,2), of q']
      by (auto simp: set_remove1_eq)
  qed
  with add_tail_ok [OF s1(2) rep_head [OF assms]] s1(1) show ?thesis by auto
qed

lemma move_other:
  assumes "rep s Q" and "x \<in> set (Q p)" and "p \<noteq> q"
  shows "\<exists>s'. bindR (del x s) (add_tail x (head q)) = Inr s' \<and>
     rep s' (Q(p := remove1 x (Q p), q := Q q @ [x]))"
  using move_ok [OF assms(1,2), of q] assms(3) by simp

text \<open>First in, first out: what is added behind \<open>x\<close> stays behind it.\<close>

lemma add_tail_then_del_first:
  assumes "rep s Q" and "Q q = y # ys"
    and "x \<notin> range head" and "\<forall>q'. x \<notin> set (Q q')"
  shows "\<exists>s'. bindR (add_tail x (head q) s) (del y) = Inr s' \<and> rep s' (Q(q := ys @ [x]))"
proof -
  from add_tail_ok [OF assms(1,3,4)] obtain s1 where
    s1: "add_tail x (head q) s = Inr s1" "rep s1 (Q(q := Q q @ [x]))" by blast
  from del_ok [OF s1(2), of y q] s1(1) assms(2) show ?thesis by auto
qed

end

section \<open>The rings implement the interface\<close>

definition family :: "('q \<Rightarrow> 'n) \<Rightarrow> 'n links \<Rightarrow> ('q \<Rightarrow> 'n list) \<Rightarrow> bool" where
  "family hdn s Q \<longleftrightarrow> inj hdn \<and> (\<forall>q. ring s (hdn q) (Q q)) \<and>
     (\<forall>q. set (Q q) \<inter> range hdn = {}) \<and>
     (\<forall>q q'. q \<noteq> q' \<longrightarrow> set (Q q) \<inter> set (Q q') = {})"

lemma family_ring: "family hdn s Q \<Longrightarrow> ring s (hdn q) (Q q)"
  by (simp add: family_def)

lemma family_update_ring:
  assumes fam: "family hdn s Q" and ring: "ring s' (hdn q) ys"
    and frame: "\<And>y. y \<notin> insert (hdn q) (set (Q q) \<union> set ys) \<Longrightarrow>
                   nxt s' y = nxt s y \<and> prv s' y = prv s y"
    and heads: "set ys \<inter> range hdn = {}"
    and other: "\<And>q'. q' \<noteq> q \<Longrightarrow> set ys \<inter> set (Q q') = {}"
  shows "family hdn s' (Q(q := ys))"
proof -
  have "ring s' (hdn q') (Q q')" if ne: "q' \<noteq> q" for q'
  proof -
    have disj: "set (Q q) \<inter> range hdn = {}" "set (Q q') \<inter> range hdn = {}"
        "set (Q q) \<inter> set (Q q') = {}" "hdn q \<noteq> hdn q'"
      using fam ne by (auto simp: family_def inj_eq)
    have "ring s' (hdn q') (Q q') = ring s (hdn q') (Q q')"
      by (rule ring_frame, rule frame) (use disj heads other [OF ne] in \<open>auto\<close>)
    then show ?thesis using fam by (simp add: family_def)
  qed
  with fam ring heads other show ?thesis
    unfolding family_def by (auto simp: disjoint_iff)
qed

lemma family_add_tail:
  assumes fam: "family hdn s Q" and "x \<notin> range hdn" and "\<forall>q'. x \<notin> set (Q q')"
  shows "\<exists>s'. list_add_tail x (hdn q) s = Inr s' \<and> family hdn s' (Q(q := Q q @ [x]))"
proof -
  have "x \<notin> insert (hdn q) (set (Q q))" using assms by auto
  from ring_add_tail [OF family_ring [OF fam] this] obtain s' where
    s': "list_add_tail x (hdn q) s = Inr s'" "ring s' (hdn q) (Q q @ [x])"
      "\<And>y. y \<notin> insert x (insert (hdn q) (set (Q q))) \<Longrightarrow> nxt s' y = nxt s y \<and> prv s' y = prv s y"
    by blast
  have "family hdn s' (Q(q := Q q @ [x]))"
    by (rule family_update_ring [OF fam s'(2)]) (use s'(3) fam assms in \<open>auto simp: family_def\<close>)
  with s'(1) show ?thesis by blast
qed

lemma family_del:
  assumes fam: "family hdn s Q" and "x \<in> set (Q q)"
  shows "\<exists>s'. list_del x s = Inr s' \<and> family hdn s' (Q(q := remove1 x (Q q)))"
proof -
  obtain xs ys where Q: "Q q = xs @ x # ys" and x: "x \<notin> set xs"
    using split_at_elem [OF assms(2)] .
  from family_ring [OF fam, of q] Q have "ring s (hdn q) (xs @ x # ys)" by simp
  from ring_del [OF this] obtain s' where
    s': "list_del x s = Inr s'" "ring s' (hdn q) (xs @ ys)"
      "\<And>y. y \<notin> insert (hdn q) (set (xs @ x # ys)) \<Longrightarrow> nxt s' y = nxt s y \<and> prv s' y = prv s y"
    by blast
  have sub: "set (xs @ ys) \<subseteq> set (Q q)" using Q by auto
  have "family hdn s' (Q(q := xs @ ys))"
  proof (rule family_update_ring [OF fam s'(2)])
    show "nxt s' y = nxt s y \<and> prv s' y = prv s y"
      if "y \<notin> insert (hdn q) (set (Q q) \<union> set (xs @ ys))" for y
      using s'(3) that Q by simp
    show "set (xs @ ys) \<inter> range hdn = {}"
      using fam sub unfolding family_def by blast
    show "set (xs @ ys) \<inter> set (Q q') = {}" if "q' \<noteq> q" for q'
      using fam sub that unfolding family_def by blast
  qed
  with s'(1) Q x show ?thesis by (auto simp: remove1_append_middle)
qed

lemma family_empty:
  assumes "family hdn s Q"
  shows "list_empty (hdn q) s \<longleftrightarrow> Q q = []"
  using family_ring [OF assms, of q]
  by (cases "Q q") (auto simp: ring_def list_empty_def)

interpretation dll: queue_family "family hdn" hdn list_add_tail list_del list_empty for hdn
proof unfold_locales
  fix s :: "'b links" and Q :: "'a \<Rightarrow> 'b list" and x q q'
  assume fam: "family hdn s Q"
  show "distinct (Q q)" using family_ring [OF fam] by (auto simp: ring_def)
  assume x: "x \<in> set (Q q)"
  show "x \<notin> range hdn" using fam x by (auto simp: family_def)
  assume "x \<in> set (Q q')"
  then show "q = q'" using fam x unfolding family_def by blast
qed (simp_all add: family_add_tail family_del family_empty)

text \<open>
  A node that is in no queue can be initialised, or removed from its own singleton ring, without
  touching the family: \<open>qc_fail_request\<close> unlinks a node that was only initialised.
\<close>

lemma family_frame:
  assumes fam: "family hdn s Q"
    and frame: "\<And>y q. y = hdn q \<or> y \<in> set (Q q) \<Longrightarrow> nxt s' y = nxt s y \<and> prv s' y = prv s y"
  shows "family hdn s' Q"
proof -
  have "ring s' (hdn q) (Q q) = ring s (hdn q) (Q q)" for q
    by (rule ring_frame) (use frame [where q = q] in blast)
  with fam show ?thesis by (simp add: family_def)
qed

lemma family_INIT:
  assumes "family hdn s Q" and "x \<notin> range hdn" and "\<forall>q. x \<notin> set (Q q)"
  shows "family hdn (INIT_LIST_HEAD x s) Q"
  by (rule family_frame [OF assms(1)], rule INIT_LIST_HEAD_frame) (use assms in auto)

lemma family_del_self:
  assumes "family hdn s Q" and "x \<notin> range hdn" and "\<forall>q. x \<notin> set (Q q)"
    and "nxt s x = Some x" and "prv s x = Some x"
  shows "\<exists>s'. list_del x s = Inr s' \<and> family hdn s' Q"
proof -
  from list_del_self [OF assms(4,5)] obtain s' where
    s': "list_del x s = Inr s'"
      "\<And>y. y \<noteq> x \<Longrightarrow> nxt s' y = nxt s y \<and> prv s' y = prv s y" by blast
  have "family hdn s' Q"
    by (rule family_frame [OF assms(1)], rule s'(2)) (use assms in auto)
  with s'(1) show ?thesis by blast
qed

section \<open>The loops over a ring\<close>

lemma list_size_loop_lseg:
  "lseg s a xs h \<Longrightarrow> h \<notin> set xs \<Longrightarrow>
     list_size_loop s h (nxt s a) c = Some (Inr (c + of_nat (length xs)))"
proof (induction xs arbitrary: a c)
  case Nil
  then show ?case by (simp add: list_size_loop.simps)
next
  case (Cons x xs)
  from Cons.prems have "nxt s a = Some x" "x \<noteq> h" by auto
  then have "list_size_loop s h (nxt s a) c = list_size_loop s h (nxt s x) (c + 1)"
    by (subst list_size_loop.simps) simp
  with Cons show ?case by (simp add: add.assoc)
qed

text \<open>The loop of \<open>list_for_each\<close> on a ring is the search through its sequence.\<close>

fun visit :: "('n \<Rightarrow> 'r option res) \<Rightarrow> 'n list \<Rightarrow> 'r option res" where
  "visit body [] = Inr None"
| "visit body (x # xs) =
     (case body x of Inl e \<Rightarrow> Inl e | Inr (Some r) \<Rightarrow> Inr (Some r) | Inr None \<Rightarrow> visit body xs)"

lemma list_for_each_lseg:
  "lseg s a xs h \<Longrightarrow> h \<notin> set xs \<Longrightarrow> list_for_each s h body (nxt s a) = Some (visit body xs)"
proof (induction xs arbitrary: a)
  case Nil
  then show ?case by (simp add: list_for_each.simps)
next
  case (Cons x xs)
  from Cons.prems have "nxt s a = Some x" "x \<noteq> h" by auto
  then have "list_for_each s h body (nxt s a) =
      (case body x of Inl e \<Rightarrow> Some (Inl e) | Inr (Some r) \<Rightarrow> Some (Inr (Some r))
       | Inr None \<Rightarrow> list_for_each s h body (nxt s x))"
    by (subst list_for_each.simps) simp
  with Cons show ?case by (auto split: sum.splits option.splits)
qed

lemma list_for_each_ring:
  "ring s h xs \<Longrightarrow> list_for_each s h body (nxt s h) = Some (visit body xs)"
  by (auto simp: ring_def intro: list_for_each_lseg)

text \<open>The loop of \<open>list_for_each_safe\<close>: the body runs once on each entry, until it breaks.\<close>

fun each :: "('n \<Rightarrow> 's \<Rightarrow> (bool \<times> 's) res) \<Rightarrow> 'n list \<Rightarrow> 's \<Rightarrow> 's res" where
  "each body [] st = Inr st"
| "each body (x # xs) st =
     (case body x st of
        Inl e \<Rightarrow> Inl e
      | Inr (brk, st') \<Rightarrow> if brk then Inr st' else each body xs st')"

text \<open>\<open>J d r st\<close>: in the state \<open>st\<close> the list holds \<open>d @ r\<close>, and the loop has still to visit \<open>r\<close>.\<close>

lemma list_for_each_safe_each:
  assumes ring: "\<And>d r st. J d r st \<Longrightarrow> ring (lk st) h (d @ r)"
    and keep: "\<And>d x r st st'. J d (x # r) st \<Longrightarrow> body x st = Inr (False, st') \<Longrightarrow> \<exists>d'. J d' r st'"
  shows "J d r st \<Longrightarrow> m = hd (r @ [h]) \<Longrightarrow>
     list_for_each_safe lk h body (Some m) (nxt (lk st) m) st = Some (each body r st)"
proof (induction r arbitrary: st d m)
  case Nil
  then show ?case by (simp add: list_for_each_safe.simps)
next
  case (Cons x r)
  have rg: "lseg (lk st) x r h" "x \<noteq> h"
    using ring [OF Cons.prems(1)] by (auto simp: ring_def)
  have nx: "nxt (lk st) x = Some (hd (r @ [h]))"
    using rg(1) by (rule lseg_first)
  show ?case
  proof (cases "body x st")
    case (Inl e)
    with Cons.prems rg nx show ?thesis by (simp add: list_for_each_safe.simps)
  next
    case (Inr b)
    obtain brk st' where b: "b = (brk, st')" by force
    show ?thesis
    proof (cases brk)
      case True
      with Inr b Cons.prems rg nx show ?thesis by (simp add: list_for_each_safe.simps)
    next
      case False
      with keep [OF Cons.prems(1), of st'] Inr b obtain d' where "J d' r st'" by auto
      from Cons.IH [OF this refl] Cons.prems rg nx Inr b False show ?thesis
        by (subst list_for_each_safe.simps) simp
    qed
  qed
qed

lemma for_each_safe_each:
  assumes ring: "\<And>d r st. J d r st \<Longrightarrow> ring (lk st) h (d @ r)"
    and keep: "\<And>d x r st st'. J d (x # r) st \<Longrightarrow> body x st = Inr (False, st') \<Longrightarrow> \<exists>d'. J d' r st'"
    and start: "J [] r st"
  shows "for_each_safe lk h body st = Some (each body r st)"
proof -
  have "nxt (lk st) h = Some (hd (r @ [h]))"
    using ring [OF start] by (auto simp: ring_def intro: lseg_first)
  moreover have "list_for_each_safe lk h body (Some (hd (r @ [h]))) (nxt (lk st) (hd (r @ [h]))) st =
      Some (each body r st)"
    by (rule list_for_each_safe_each [where J = J and d = "[]"]) (use ring keep start in auto)
  ultimately show ?thesis by (simp add: for_each_safe_def)
qed

section \<open>Properties of the lists\<close>

text \<open>Moving an entry between two lists, \<open>list_del\<close> followed by \<open>list_add_tail\<close>, takes it out of
  the first sequence, appends it to the second and changes no other list of the store.\<close>

theorem list_move_refines:
  assumes "family hdn s Q" and "x \<in> set (Q p)" and "p \<noteq> q"
  shows "\<exists>s'. bindR (list_del x s) (list_add_tail x (hdn q)) = Inr s' \<and>
     family hdn s' (Q(p := remove1 x (Q p), q := Q q @ [x]))"
  using assms by (rule dll.move_other)

text \<open>\<open>list_size\<close> ends on every well-formed list and returns its length modulo 2 to the 32.\<close>

theorem list_size_length:
  assumes "family hdn s Q"
  shows "list_size (hdn q) s = Some (Inr (of_nat (length (Q q))))"
  using family_ring [OF assms, of q] list_size_loop_lseg [of s "hdn q" "Q q" "hdn q" 0]
  by (simp add: list_size_def ring_def)

lemma each_del:
  assumes "family hdn s Q"
  shows "\<exists>s'. each (\<lambda>x s. bindR (list_del x s) (\<lambda>s. Inr (False, s))) (Q q) s = Inr s' \<and>
     family hdn s' (Q(q := []))"
  using assms
proof (induction "Q q" arbitrary: Q s)
  case Nil
  then show ?case by (auto simp: fun_upd_idem)
next
  case (Cons x xs)
  from family_del [OF Cons.prems, of x q] Cons.hyps(2) [symmetric] obtain s1 where
    s1: "list_del x s = Inr s1" "family hdn s1 (Q(q := xs))" by auto
  from Cons.hyps(1) [OF _ s1(2)] s1(1) Cons.hyps(2) [symmetric] show ?case by simp
qed

text \<open>C39: A \<open>list_for_each_safe\<close> loop whose body removes every entry it visits ends, faults nowhere and
  leaves the list empty and the other lists as they were.\<close>

theorem drain_loop_terminates:
  assumes "family hdn s Q"
  shows "\<exists>s'. for_each_safe id (hdn q) (\<lambda>x s. bindR (list_del x s) (\<lambda>s. Inr (False, s))) s
       = Some (Inr s') \<and> family hdn s' (Q(q := []))"
proof -
  let ?body = "\<lambda>x s. bindR (list_del x s) (\<lambda>s. Inr (False, s))"
  have "for_each_safe id (hdn q) ?body s = Some (each ?body (Q q) s)"
  proof (rule for_each_safe_each [where J = "\<lambda>d r st. d = [] \<and> ring st (hdn q) r"])
    fix d x r st st'
    assume "d = [] \<and> ring st (hdn q) (x # r)" and run: "?body x st = Inr (False, st')"
    then have "ring st (hdn q) ([] @ x # r)" by simp
    from ring_del [OF this] run show "\<exists>d'. d' = [] \<and> ring st' (hdn q) r" by auto
  qed (use family_ring [OF assms] in auto)
  with each_del [OF assms, of q] show ?thesis by simp
qed

section \<open>Concrete runs\<close>

text \<open>Two lists with the heads 0 and 1; the first one holds the nodes 2 and 3.\<close>

definition sample_links :: "nat links" where
  "sample_links = \<lparr>nxt = [0 \<mapsto> 2, 2 \<mapsto> 3, 3 \<mapsto> 0, 1 \<mapsto> 1], prv = [0 \<mapsto> 3, 3 \<mapsto> 2, 2 \<mapsto> 0, 1 \<mapsto> 1]\<rparr>"

definition sample_heads :: "bool \<Rightarrow> nat" where
  "sample_heads b = (if b then 0 else 1)"

definition sample_seqs :: "bool \<Rightarrow> nat list" where
  "sample_seqs b = (if b then [2, 3] else [])"

lemma sample_family: "family sample_heads sample_links sample_seqs"
  by (auto simp: family_def ring_def inj_on_def sample_heads_def sample_links_def sample_seqs_def)

theorem list_move_refines_witness:
  "\<exists>s'. bindR (list_del 2 sample_links) (list_add_tail 2 1) = Inr s' \<and>
     family sample_heads s' (\<lambda>b. if b then [3] else [2])"
proof -
  have "sample_seqs(True := remove1 2 (sample_seqs True), False := sample_seqs False @ [2]) =
      (\<lambda>b. if b then [3] else [2])"
    by (auto simp: sample_seqs_def fun_eq_iff)
  with list_move_refines [OF sample_family, of 2 True False] show ?thesis
    by (simp add: sample_seqs_def sample_heads_def)
qed

theorem list_size_length_witness: "list_size 0 sample_links = Some (Inr 2)"
  using list_size_length [OF sample_family, of True] by (simp add: sample_heads_def sample_seqs_def)

theorem drain_loop_terminates_witness:
  "\<exists>s'. for_each_safe id 0 (\<lambda>x s. bindR (list_del x s) (\<lambda>s. Inr (False, s))) sample_links
     = Some (Inr s') \<and> family sample_heads s' (sample_seqs(True := []))"
  using drain_loop_terminates [OF sample_family, of True] by (simp add: sample_heads_def)

end
