(* ===== verification/QH_Daemon.thy ===== *)
theory QH_Daemon
  imports QH_List
begin

text \<open>
  The service registry of the user-space helper, \<open>src/qhgpu/qhgpu_daemon.c\<close>: the list
  \<open>services\<close> of \<open>struct _qhgpu_sitem\<close>, lookup by name, registration, and loading and
  unloading of service libraries. The dynamic linker and \<open>glob\<close> are parameters: a record
  \<open>dl\<close> says what \<open>dlopen\<close> and \<open>dlsym\<close> return, and the list of paths that \<open>glob\<close> found is an
  argument. Results are wrapped in \<open>option\<close> where a list traversal may not end.
\<close>

section \<open>State\<close>

text \<open>The list head \<open>services\<close> and the \<open>list\<close> member of the item at an address.\<close>

datatype snode = Services | Sitem nat

text \<open>\<open>struct qhgpu_service\<close>; its function pointers are reached through its address.\<close>

record service =
  sname :: string
  sid :: int

text \<open>\<open>struct _qhgpu_sitem\<close> without its list node.\<close>

record sitem =
  s_ptr :: nat
  libhandle :: "nat option"

record registry =
  slinks :: "snode links"
  sitems :: "nat \<rightharpoonup> sitem"
  srv_mem :: "nat \<rightharpoonup> service"
  handles :: "nat list"   \<comment> \<open>libraries opened and not closed\<close>

definition QHGPU_SERVICE_NAME_SIZE :: nat where
  "QHGPU_SERVICE_NAME_SIZE = 32"

text \<open>What the dynamic linker gives for a path and a handle.\<close>

type_synonym service_fn = "nat \<Rightarrow> registry \<Rightarrow> (int \<times> registry) res option"

record dl =
  dl_open :: "string \<Rightarrow> nat option"
  dl_init :: "nat \<Rightarrow> service_fn option"
  dl_finit :: "nat \<Rightarrow> service_fn option"

section \<open>Operations\<close>

text \<open>The character at the front of a C string; the end of the list is its terminating 0.\<close>

definition first_char :: "string \<Rightarrow> int" where
  "first_char s = (case s of [] \<Rightarrow> 0 | c # _ \<Rightarrow> int (of_char c))"

fun strncmp :: "nat \<Rightarrow> string \<Rightarrow> string \<Rightarrow> int" where
  "strncmp 0 a b = 0"
| "strncmp (Suc n) a b =
     (if first_char a \<noteq> first_char b then first_char a - first_char b
      else if first_char a = 0 then 0
      else strncmp n (tl a) (tl b))"

text \<open>The body of the loop in \<open>lookup_qhgpu_sitem\<close>.\<close>

definition lookup_body :: "string \<Rightarrow> registry \<Rightarrow> snode \<Rightarrow> nat option res" where
  "lookup_body name st e =
     (case e of
        Services \<Rightarrow> Inl Out_of_bounds
      | Sitem a \<Rightarrow>
          bindR (heap_get (sitems st) a) (\<lambda>i.
          bindR (heap_get (srv_mem st) (s_ptr i)) (\<lambda>s.
          Inr (if strncmp QHGPU_SERVICE_NAME_SIZE name (sname s) = 0 then Some a else None))))"

definition lookup_qhgpu_sitem :: "string option \<Rightarrow> registry \<Rightarrow> nat option res option" where
  "lookup_qhgpu_sitem name st =
     (case name of
        None \<Rightarrow> Some (Inr None)
      | Some nm \<Rightarrow>
          list_for_each (slinks st) Services (lookup_body nm st) (nxt (slinks st) Services))"

definition qc_lookup_service :: "string option \<Rightarrow> registry \<Rightarrow> nat option res option" where
  "qc_lookup_service name st =
     (case lookup_qhgpu_sitem name st of
        None \<Rightarrow> None
      | Some (Inl e) \<Rightarrow> Some (Inl e)
      | Some (Inr None) \<Rightarrow> Some (Inr None)
      | Some (Inr (Some item)) \<Rightarrow> Some (Inr (Some item)))"

text \<open>\<open>s\<close> is the service pointer, \<open>m\<close> the result of \<open>malloc\<close>.\<close>

definition qc_register_service ::
  "nat option \<Rightarrow> nat option \<Rightarrow> nat option \<Rightarrow> registry \<Rightarrow> (int \<times> registry) res" where
  "qc_register_service s lh m st =
     (case s of
        None \<Rightarrow> Inr (1, st)
      | Some sp \<Rightarrow>
          (case m of
             None \<Rightarrow> Inr (1, st)
           | Some i \<Rightarrow>
               (let st1 = st\<lparr>sitems := (sitems st)(i \<mapsto> \<lparr>s_ptr = sp, libhandle = lh\<rparr>)\<rparr>;
                    l1 = INIT_LIST_HEAD (Sitem i) (slinks st1)
                in bindR (list_add_tail (Sitem i) Services l1) (\<lambda>l2.
                   Inr (0, st1\<lparr>slinks := l2\<rparr>)))))"

text \<open>\<open>__unregister_service\<close>: unlink the item and free it.\<close>

definition unregister_sitem :: "nat option \<Rightarrow> registry \<Rightarrow> (int \<times> registry) res" where
  "unregister_sitem i st =
     (case i of
        None \<Rightarrow> Inr (1, st)
      | Some a \<Rightarrow>
          bindR (heap_get (sitems st) a) (\<lambda>_.
          bindR (list_del (Sitem a) (slinks st)) (\<lambda>l.
          Inr (0, st\<lparr>slinks := l, sitems := (sitems st)(a := None)\<rparr>))))"

definition qc_unregister_service :: "string option \<Rightarrow> registry \<Rightarrow> (int \<times> registry) res option" where
  "qc_unregister_service name st =
     map_option (\<lambda>r. bindR r (\<lambda>i. unregister_sitem i st)) (lookup_qhgpu_sitem name st)"

text \<open>\<open>dlopen\<close> takes a reference to the library, \<open>dlclose\<close> drops one.\<close>

definition dlclose :: "nat \<Rightarrow> registry \<Rightarrow> registry" where
  "dlclose lh st = st\<lparr>handles := remove1 lh (handles st)\<rparr>"

definition qc_load_service :: "dl \<Rightarrow> string \<Rightarrow> registry \<Rightarrow> (int \<times> registry) res option" where
  "qc_load_service d libpath st =
     (case dl_open d libpath of
        None \<Rightarrow> Some (Inr (1, st))
      | Some lh \<Rightarrow>
          (let st = st\<lparr>handles := handles st @ [lh]\<rparr>
           in case dl_init d lh of
                None \<Rightarrow> Some (Inr (1, dlclose lh st))
              | Some init \<Rightarrow>
                  map_option (\<lambda>r. bindR r (\<lambda>(ret, st').
                    Inr (if ret \<noteq> 0 then (1, dlclose lh st') else (0, st')))) (init lh st)))"

text \<open>The pattern given to \<open>glob\<close>: \<open>snprintf(path, 256, "%s/%s*", dir, "libsrv_")\<close>.\<close>

definition service_pattern :: "string \<Rightarrow> string" where
  "service_pattern dir = take 255 (dir @ ''/'' @ ''libsrv_'' @ ''*'')"

text \<open>The loop over the paths; \<open>e\<close> sums up what \<open>qc_load_service\<close> returns.\<close>

fun load_loop ::
  "dl \<Rightarrow> string list \<Rightarrow> nat \<Rightarrow> int \<Rightarrow> registry \<Rightarrow> (nat \<times> int \<times> registry) res option" where
  "load_loop d [] i e st = Some (Inr (i, e, st))"
| "load_loop d (p # ps) i e st =
     (case qc_load_service d p st of
        None \<Rightarrow> None
      | Some (Inl f) \<Rightarrow> Some (Inl f)
      | Some (Inr (r, st')) \<Rightarrow> load_loop d ps (Suc i) (e + r) st')"

definition qc_load_all_services ::
  "dl \<Rightarrow> (string \<Rightarrow> string list) \<Rightarrow> string \<Rightarrow> registry \<Rightarrow> (nat \<times> registry) res option" where
  "qc_load_all_services d glob dir st =
     map_option (\<lambda>r. bindR r (\<lambda>(i, e, st'). Inr (i, st')))
       (load_loop d (glob (service_pattern dir)) 0 0 st)"

text \<open>\<open>__unload_service\<close>\<close>

definition unload_sitem :: "dl \<Rightarrow> nat option \<Rightarrow> registry \<Rightarrow> (int \<times> registry) res option" where
  "unload_sitem d i st =
     (case i of
        None \<Rightarrow> Some (Inr (1, st))
      | Some a \<Rightarrow>
          (case sitems st a of
             None \<Rightarrow> Some (Inl Use_after_free)
           | Some it \<Rightarrow>
               (case libhandle it of
                  Some lh \<Rightarrow>
                    map_option (\<lambda>r. bindR r (\<lambda>(ret, st'). Inr (ret, dlclose lh st')))
                      (case dl_finit d lh of
                         Some finit \<Rightarrow>
                           map_option (\<lambda>r. bindR r (\<lambda>(ret, st').
                             if ret \<noteq> 0
                             then bindR (heap_get (sitems st') a) (\<lambda>it'.
                                  bindR (heap_get (srv_mem st') (s_ptr it')) (\<lambda>_. Inr (1, st')))
                             else Inr (0, st'))) (finit lh st)
                       | None \<Rightarrow>
                           Some (bindR (unregister_sitem (Some a) st) (\<lambda>(_, st'). Inr (0, st'))))
                | None \<Rightarrow>
                    Some (bindR (unregister_sitem (Some a) st) (\<lambda>(_, st'). Inr (0, st'))))))"

definition qc_unload_service :: "dl \<Rightarrow> string option \<Rightarrow> registry \<Rightarrow> (int \<times> registry) res option" where
  "qc_unload_service d name st =
     (case lookup_qhgpu_sitem name st of
        None \<Rightarrow> None
      | Some (Inl e) \<Rightarrow> Some (Inl e)
      | Some (Inr i) \<Rightarrow> unload_sitem d i st)"

text \<open>The traversal of \<open>qc_unload_all_services\<close>; the state carries the sum \<open>e\<close>. An unload that
  does not return makes the whole traversal not return, so its steps are taken one by one.\<close>

partial_function (option) unload_loop ::
  "dl \<Rightarrow> snode option \<Rightarrow> snode option \<Rightarrow> int \<Rightarrow> registry \<Rightarrow> (int \<times> registry) res option" where
  "unload_loop d p n e st =
     (if p = Some Services then Some (Inr (e, st))
      else case p of
             Some (Sitem a) \<Rightarrow>
               (case unload_sitem d (Some a) st of
                  None \<Rightarrow> None
                | Some (Inl f) \<Rightarrow> Some (Inl f)
                | Some (Inr (r, st')) \<Rightarrow>
                    (case n of
                       None \<Rightarrow> Some (Inl Null_deref)
                     | Some m \<Rightarrow> unload_loop d (Some m) (nxt (slinks st') m) (e + r) st'))
           | _ \<Rightarrow> Some (Inl Null_deref))"

definition qc_unload_all_services :: "dl \<Rightarrow> registry \<Rightarrow> (int \<times> registry) res option" where
  "qc_unload_all_services d st =
     (case nxt (slinks st) Services of
        None \<Rightarrow> Some (Inl Null_deref)
      | Some p \<Rightarrow> unload_loop d (Some p) (nxt (slinks st) p) 0 st)"

section \<open>The sequence of registered services\<close>

text \<open>\<open>registered st xs\<close>: the list \<open>services\<close> holds the items \<open>xs\<close>, all of them allocated and
  pointing to service structures.\<close>

definition registered :: "registry \<Rightarrow> nat list \<Rightarrow> bool" where
  "registered st xs \<longleftrightarrow> family (\<lambda>u :: unit. Services) (slinks st) (\<lambda>u. map Sitem xs) \<and>
     (\<forall>a \<in> set xs. \<exists>i s. sitems st a = Some i \<and> srv_mem st (s_ptr i) = Some s)"

text \<open>The name under which an item answers.\<close>

definition item_name :: "registry \<Rightarrow> nat \<Rightarrow> string" where
  "item_name st a =
     (case sitems st a of None \<Rightarrow> []
      | Some i \<Rightarrow> (case srv_mem st (s_ptr i) of None \<Rightarrow> [] | Some s \<Rightarrow> sname s))"

definition answers :: "registry \<Rightarrow> string \<Rightarrow> nat \<Rightarrow> bool" where
  "answers st name a \<longleftrightarrow> strncmp QHGPU_SERVICE_NAME_SIZE name (item_name st a) = 0"

lemma first_char_Nil [simp]: "first_char [] = 0"
  by (simp add: first_char_def)

lemma first_char_Cons_eq_0 [simp]: "first_char (c # cs) = 0 \<longleftrightarrow> c = CHR 0x00"
proof -
  have "(of_char c :: nat) = of_char (CHR 0x00) \<longleftrightarrow> c = CHR 0x00" by (rule of_char_eq_iff)
  then show ?thesis by (simp add: first_char_def)
qed

lemma first_char_Cons_inj [simp]: "first_char (c # cs) = first_char (d # ds) \<longleftrightarrow> c = d"
  by (simp add: first_char_def)

lemma strncmp_eq_iff:
  assumes "CHR 0x00 \<notin> set a" and "CHR 0x00 \<notin> set b"
  shows "strncmp n a b = 0 \<longleftrightarrow> take n a = take n b"
  using assms
proof (induction n arbitrary: a b)
  case 0
  then show ?case by simp
next
  case (Suc n)
  show ?case
  proof (cases "a = [] \<or> b = []")
    case True
    with Suc.prems show ?thesis by (cases a; cases b) auto
  next
    case False
    then obtain c cs d ds where "a = c # cs" "b = d # ds" by (auto simp: neq_Nil_conv)
    with Suc.prems Suc.IH [of cs ds] show ?thesis by auto
  qed
qed

lemma registered_distinct: "registered st xs \<Longrightarrow> distinct xs"
  unfolding registered_def
  by (auto dest: dll.rep_distinct simp: distinct_map)

lemma visit_lookup:
  assumes "\<forall>a \<in> set xs. \<exists>i s. sitems st a = Some i \<and> srv_mem st (s_ptr i) = Some s"
  shows "visit (lookup_body name st) (map Sitem xs) = Inr (find (answers st name) xs)"
  using assms
  by (induction xs) (auto simp: lookup_body_def answers_def item_name_def)

lemma lookup_find:
  assumes "registered st xs"
  shows "lookup_qhgpu_sitem (Some name) st = Some (Inr (find (answers st name) xs))"
proof -
  have "ring (slinks st) Services (map Sitem xs)"
    using assms family_ring unfolding registered_def by fastforce
  with assms visit_lookup [of xs st name] show ?thesis
    by (simp add: lookup_qhgpu_sitem_def list_for_each_ring registered_def)
qed

lemma register_registered:
  assumes reg: "registered st xs" and new: "sitems st i = None" "i \<notin> set xs"
    and srv: "srv_mem st sp = Some s"
  shows "\<exists>st'. qc_register_service (Some sp) lh (Some i) st = Inr (0, st') \<and>
      registered st' (xs @ [i]) \<and> item_name st' i = sname s \<and>
      (\<forall>a \<in> set xs. item_name st' a = item_name st a)"
proof -
  have fam: "family (\<lambda>u :: unit. Services) (slinks st) (\<lambda>u. map Sitem xs)"
    using reg by (simp add: registered_def)
  have out: "Sitem i \<notin> range (\<lambda>u :: unit. Services)" "\<forall>q :: unit. Sitem i \<notin> set (map Sitem xs)"
    using new by auto
  from dll.add_tail_ok [OF family_INIT [OF fam out] out, of "()"] obtain l where
    l: "list_add_tail (Sitem i) Services (INIT_LIST_HEAD (Sitem i) (slinks st)) = Inr l"
      "family (\<lambda>u :: unit. Services) l (\<lambda>u. map Sitem (xs @ [i]))"
    by (auto simp: fun_upd_def)
  with reg srv new show ?thesis
    by (auto simp: qc_register_service_def Let_def registered_def item_name_def)
qed

lemma unregister_registered:
  assumes reg: "registered st xs" and a: "a \<in> set xs"
  shows "\<exists>st'. unregister_sitem (Some a) st = Inr (0, st') \<and> registered st' (remove1 a xs) \<and>
      (\<forall>b \<in> set (remove1 a xs). item_name st' b = item_name st b) \<and> sitems st' a = None"
proof -
  have fam: "family (\<lambda>u :: unit. Services) (slinks st) (\<lambda>u. map Sitem xs)"
    using reg by (simp add: registered_def)
  have "Sitem a \<in> set (map Sitem xs)" using a by simp
  from dll.del_ok [OF fam this] obtain l where
    l: "list_del (Sitem a) (slinks st) = Inr l"
      "family (\<lambda>u :: unit. Services) l (\<lambda>u. remove1 (Sitem a) (map Sitem xs))"
    by (auto simp: fun_upd_def)
  have map: "remove1 (Sitem a) (map Sitem xs) = map Sitem (remove1 a xs)"
    by (induction xs) auto
  obtain it where it: "sitems st a = Some it" using reg a by (auto simp: registered_def)
  have d: "distinct xs" using reg by (rule registered_distinct)
  then have "a \<notin> set (remove1 a xs)" by (simp add: set_remove1_eq)
  with reg l map it show ?thesis
    by (auto simp: unregister_sitem_def registered_def item_name_def dest: notin_set_remove1
        split: option.split)
qed

lemma registered_dlclose [simp]:
  "registered (dlclose lh st) xs = registered st xs" "item_name (dlclose lh st) = item_name st"
  "slinks (dlclose lh st) = slinks st"
  by (auto simp: registered_def item_name_def dlclose_def fun_eq_iff split: option.split)

text \<open>Unloading an item whose library has no finalisation function unlinks and frees it.\<close>

lemma unload_plain:
  assumes reg: "registered st xs" and a: "a \<in> set xs" and no: "\<And>lh. dl_finit d lh = None"
  shows "\<exists>st'. unload_sitem d (Some a) st = Some (Inr (0, st')) \<and> registered st' (remove1 a xs)"
proof -
  obtain it where it: "sitems st a = Some it" using reg a by (auto simp: registered_def)
  from unregister_registered [OF reg a] obtain st' where
    st': "unregister_sitem (Some a) st = Inr (0, st')" "registered st' (remove1 a xs)" by blast
  then show ?thesis using it no by (cases "libhandle it") (auto simp: unload_sitem_def)
qed

lemma registered_next:
  assumes "registered st (x # xs)"
  shows "nxt (slinks st) Services = Some (Sitem x)"
    and "nxt (slinks st) (Sitem x) = Some (hd (map Sitem xs @ [Services]))"
proof -
  have "ring (slinks st) Services (Sitem x # map Sitem xs)"
    using assms family_ring [where q = "()"] unfolding registered_def by fastforce
  then show "nxt (slinks st) Services = Some (Sitem x)"
    and "nxt (slinks st) (Sitem x) = Some (hd (map Sitem xs @ [Services]))"
    by (auto simp: ring_def dest: lseg_first)
qed

lemma unload_loop_all:
  assumes no: "\<And>lh. dl_finit d lh = None"
  shows "registered st xs \<Longrightarrow> p = hd (map Sitem xs @ [Services]) \<Longrightarrow>
     \<exists>st'. unload_loop d (Some p) (nxt (slinks st) p) e st = Some (Inr (e, st')) \<and> registered st' []"
proof (induction xs arbitrary: st p)
  case Nil
  then show ?case by (auto simp: unload_loop.simps)
next
  case (Cons x xs)
  from unload_plain [OF Cons.prems(1) _ no, of x] obtain st' where
    st': "unload_sitem d (Some x) st = Some (Inr (0, st'))" "registered st' xs" by auto
  from Cons.IH [OF st'(2) refl] obtain st'' where
    "unload_loop d (Some (hd (map Sitem xs @ [Services])))
       (nxt (slinks st') (hd (map Sitem xs @ [Services]))) e st' = Some (Inr (e, st''))"
    "registered st'' []" by blast
  then show ?case
    using Cons.prems(2) registered_next(2) [OF Cons.prems(1)] st'(1)
    by (subst unload_loop.simps) simp
qed

lemma load_loop_count: "load_loop d ps i e st = Some (Inr (n, e', st')) \<Longrightarrow> n = i + length ps"
  by (induction ps arbitrary: i e st) (fastforce split: option.splits sum.splits)+

lemma find_append_None: "find P xs = None \<Longrightarrow> find P (xs @ ys) = find P ys"
  by (induction xs) (auto split: if_splits)

lemma find_append_Some: "find P xs = Some y \<Longrightarrow> find P (xs @ ys) = Some y"
  by (induction xs) (auto split: if_splits)

lemma find_answers_cong:
  "(\<And>a. a \<in> set xs \<Longrightarrow> item_name st' a = item_name st a) \<Longrightarrow>
     find (answers st' name) xs = find (answers st name) xs"
  by (rule find_cong) (auto simp: answers_def)

lemma strncmp_refl [simp]: "strncmp n a a = 0"
  by (induction n arbitrary: a) auto

lemma lookup_service_find:
  "registered st xs \<Longrightarrow> qc_lookup_service (Some name) st = Some (Inr (find (answers st name) xs))"
  by (simp add: qc_lookup_service_def lookup_find split: option.split)

section \<open>Properties of the registry\<close>

text \<open>C37: Registering a service makes it answer to its name, unless a service registered before
  answers to that name already: then the earlier one keeps answering. Registration never fails once
  the item is allocated.\<close>

theorem register_then_lookup:
  assumes "registered st xs" and "sitems st i = None" and "srv_mem st sp = Some s"
  shows "\<exists>st'. qc_register_service (Some sp) lh (Some i) st = Inr (0, st') \<and>
     registered st' (xs @ [i]) \<and>
     qc_lookup_service (Some (sname s)) st' =
       Some (Inr (Some (case find (answers st (sname s)) xs of Some a \<Rightarrow> a | None \<Rightarrow> i)))"
proof -
  have "i \<notin> set xs" using assms by (auto simp: registered_def)
  from register_registered [OF assms(1,2) this assms(3)] obtain st' where
    st': "qc_register_service (Some sp) lh (Some i) st = Inr (0, st')" "registered st' (xs @ [i])"
      "item_name st' i = sname s" "\<forall>a \<in> set xs. item_name st' a = item_name st a" by blast
  then have "find (answers st' (sname s)) xs = find (answers st (sname s)) xs"
    by (intro find_answers_cong) blast
  then show ?thesis
    using st' by (auto simp: lookup_service_find find_append_None find_append_Some answers_def
        split: option.split)
qed

text \<open>Unregistering a name removes exactly the first service that answers to it: afterwards the
  next such service answers, or none. A name nobody answers to is an error and changes nothing.\<close>

theorem unregister_then_lookup:
  assumes "registered st xs"
  shows "case find (answers st name) xs of
       None \<Rightarrow> qc_unregister_service (Some name) st = Some (Inr (1, st))
     | Some a \<Rightarrow> \<exists>st'. qc_unregister_service (Some name) st = Some (Inr (0, st')) \<and>
         registered st' (remove1 a xs) \<and> sitems st' a = None \<and>
         qc_lookup_service (Some name) st' = Some (Inr (find (answers st name) (remove1 a xs)))"
proof (cases "find (answers st name) xs")
  case None
  then show ?thesis using assms by (simp add: qc_unregister_service_def lookup_find unregister_sitem_def)
next
  case (Some a)
  then have "a \<in> set xs" by (auto simp: find_Some_iff)
  from unregister_registered [OF assms this] obtain st' where
    st': "unregister_sitem (Some a) st = Inr (0, st')" "registered st' (remove1 a xs)"
      "\<forall>b \<in> set (remove1 a xs). item_name st' b = item_name st b" "sitems st' a = None" by blast
  then have "find (answers st' name) (remove1 a xs) = find (answers st name) (remove1 a xs)"
    by (intro find_answers_cong) blast
  with Some st' assms show ?thesis
    by (simp add: qc_unregister_service_def lookup_find lookup_service_find)
qed

text \<open>\<open>qc_load_all_services\<close> returns the number of libraries found by \<open>glob\<close>, not the number
  loaded: a directory in which no library loads gives the same result.\<close>

theorem load_all_counts_paths:
  assumes "qc_load_all_services d glob dir st = Some (Inr (n, st'))"
  shows "n = length (glob (service_pattern dir))"
  using assms load_loop_count by (fastforce simp: qc_load_all_services_def)

text \<open>C40: When no library has a finalisation function, \<open>qc_unload_all_services\<close> ends, reports no
  failure and leaves the registry empty, although the traversal frees the items it visits.\<close>

theorem unload_all_empties:
  assumes "registered st xs" and "\<And>lh. dl_finit d lh = None"
  shows "\<exists>st'. qc_unload_all_services d st = Some (Inr (0, st')) \<and> registered st' [] \<and>
     (\<forall>name. qc_lookup_service (Some name) st' = Some (Inr None))"
proof -
  have "ring (slinks st) Services (map Sitem xs)"
    using assms(1) family_ring unfolding registered_def by fastforce
  then have "nxt (slinks st) Services = Some (hd (map Sitem xs @ [Services]))"
    by (auto simp: ring_def dest: lseg_first)
  with unload_loop_all [OF assms(2) assms(1) refl, of 0] show ?thesis
    by (auto simp: qc_unload_all_services_def lookup_service_find)
qed

section \<open>Concrete runs\<close>

text \<open>A registry with the one service \<open>radix\<close> in item 0 and an unregistered service structure.\<close>

definition sample_registry :: registry where
  "sample_registry = \<lparr>
     slinks = \<lparr>nxt = [Services \<mapsto> Sitem 0, Sitem 0 \<mapsto> Services],
                prv = [Services \<mapsto> Sitem 0, Sitem 0 \<mapsto> Services]\<rparr>,
     sitems = [0 \<mapsto> \<lparr>s_ptr = 10, libhandle = Some 3\<rparr>],
     srv_mem = [10 \<mapsto> \<lparr>sname = ''radix'', sid = 1\<rparr>, 11 \<mapsto> \<lparr>sname = ''bfs'', sid = 2\<rparr>],
     handles = [3]\<rparr>"

definition sample_dl :: dl where
  "sample_dl = \<lparr>dl_open = \<lambda>p. None, dl_init = \<lambda>h. None, dl_finit = \<lambda>h. None\<rparr>"

lemma sample_registered: "registered sample_registry [0]"
  by (auto simp: registered_def sample_registry_def family_def ring_def inj_on_def)

lemma sample_find:
  "find (answers sample_registry ''radix'') [0] = Some 0"
  "find (answers sample_registry ''bfs'') [0] = None"
  by (simp_all add: answers_def item_name_def sample_registry_def QHGPU_SERVICE_NAME_SIZE_def
      numeral_eq_Suc first_char_def)

theorem register_then_lookup_witness:
  "\<exists>st'. qc_register_service (Some 11) None (Some 1) sample_registry = Inr (0, st') \<and>
     qc_lookup_service (Some ''bfs'') st' = Some (Inr (Some 1))"
  using register_then_lookup [OF sample_registered, of 1 11 "\<lparr>sname = ''bfs'', sid = 2\<rparr>" None]
    sample_find(2) by (auto simp: sample_registry_def)

theorem unregister_then_lookup_witness:
  "\<exists>st'. qc_unregister_service (Some ''radix'') sample_registry = Some (Inr (0, st')) \<and>
     qc_lookup_service (Some ''radix'') st' = Some (Inr None)"
  using unregister_then_lookup [OF sample_registered, of "''radix''"] sample_find(1) by auto

theorem load_all_counts_paths_witness:
  "qc_load_all_services sample_dl (\<lambda>pat. [''a.so'', ''b.so'']) ''lib'' sample_registry =
     Some (Inr (2, sample_registry)) \<and> length [''a.so'', ''b.so''] = 2"
proof -
  have "qc_load_all_services sample_dl (\<lambda>pat. [''a.so'', ''b.so'']) ''lib'' sample_registry =
     Some (Inr (2, sample_registry))"
    by (simp add: qc_load_all_services_def qc_load_service_def sample_dl_def)
  with load_all_counts_paths [OF this] show ?thesis by simp
qed

theorem unload_all_empties_witness:
  "\<exists>st'. qc_unload_all_services sample_dl sample_registry = Some (Inr (0, st')) \<and> registered st' []"
  using unload_all_empties [OF sample_registered, of sample_dl] by (auto simp: sample_dl_def)

end
