(* ===== verification/QH_Mempool.thy ===== *)
theory QH_Mempool
  imports QH_Prelude
begin

text \<open>
  The GPU buffer pool of the kernel module: \<open>struct _qhgpu_mempool\<close>, \<open>set_gpu_mempool\<close>,
  \<open>qhgpu_vmalloc\<close> and \<open>qhgpu_vfree\<close> of \<open>src/qhgpu/main.c\<close>. The pool hands out runs of units of
  50 KiB; a bitmap marks the units in use and \<open>alloc_sz\<close> keeps the length of each run at its first
  unit. Kernel services are parameters: the contents of the blocks \<open>kmalloc\<close> returns, \<open>vmap\<close>,
  the page tables of the caller, and \<open>bitmap_find_next_zero_area\<close>, whose documented contract is the
  predicate \<open>zero_area_fn\<close>. The abstract view of a pool is the map \<open>live\<close> from the first unit
  of each run that is allocated to its length.
\<close>

section \<open>State\<close>

definition PAGE_SIZE :: nat where "PAGE_SIZE = 512"
definition QHGPU_BUF_UNIT_SIZE :: nat where "QHGPU_BUF_UNIT_SIZE = 1024 * 50"
definition QHGPU_BUF_NR_FRAMES_PER_UNIT :: nat where
  "QHGPU_BUF_NR_FRAMES_PER_UNIT = QHGPU_BUF_UNIT_SIZE div PAGE_SIZE"

definition EFAULT :: int where "EFAULT = 14"
definition ENOMEM :: int where "ENOMEM = 12"

lemmas pool_consts = PAGE_SIZE_def QHGPU_BUF_UNIT_SIZE_def QHGPU_BUF_NR_FRAMES_PER_UNIT_def

record mempool =
  uva :: u64
  kva :: u64
  pages :: "nat list option"
  npages :: u32
  nunits :: u32
  bitmap :: "bool list option"
  alloc_sz :: "u32 list option"

text \<open>The kernel services that \<open>set_gpu_mempool\<close> calls; a page is a number, 0 for \<open>NULL\<close>.
  The allocators get the number of elements and return the memory they found. The page tables of
  the calling process are given level by level: \<open>None\<close> is an entry that is absent (\<open>pgd_none\<close>,
  \<open>pud_none\<close>, \<open>pmd_none\<close>, or not \<open>pte_present\<close>).\<close>

record kenv =
  km_pages :: "nat \<Rightarrow> nat list option"
  km_longs :: "nat \<Rightarrow> bool list option"
  km_u32 :: "nat \<Rightarrow> u32 list option"
  pgd_at :: "u64 \<Rightarrow> nat option"
  pud_at :: "nat \<Rightarrow> u64 \<Rightarrow> nat option"
  pmd_at :: "nat \<Rightarrow> u64 \<Rightarrow> nat option"
  pte_at :: "nat \<Rightarrow> u64 \<Rightarrow> nat option"
  vmap :: "nat list \<Rightarrow> nat \<Rightarrow> u64"

definition BITS_TO_LONGS :: "nat \<Rightarrow> nat" where
  "BITS_TO_LONGS n = (n + 63) div 64"

section \<open>Setting up the pool\<close>

text \<open>\<open>memset(&qhgpudev.gmpool, 0, sizeof(struct _qhgpu_mempool))\<close>\<close>

definition zero_mempool :: mempool where
  "zero_mempool = \<lparr>uva = 0, kva = 0, pages = None, npages = 0, nunits = 0, bitmap = None,
     alloc_sz = None\<rparr>"

text \<open>\<open>qhgpu_v2page\<close> walks the page tables.\<close>

definition qhgpu_v2page :: "kenv \<Rightarrow> u64 \<Rightarrow> nat" where
  "qhgpu_v2page env v =
     (case pgd_at env v of
        None \<Rightarrow> 0
      | Some pgd \<Rightarrow>
          (case pud_at env pgd v of
             None \<Rightarrow> 0
           | Some pud \<Rightarrow>
               (case pmd_at env pud v of
                  None \<Rightarrow> 0
                | Some pmd \<Rightarrow>
                    (case pte_at env pmd v of None \<Rightarrow> 0 | Some page \<Rightarrow> page))))"

text \<open>The loop that looks up the page of every frame; \<open>i*PAGE_SIZE\<close> is computed in \<open>int\<close>.\<close>

definition fill_pages :: "kenv \<Rightarrow> u64 \<Rightarrow> nat \<Rightarrow> nat list \<Rightarrow> nat list res" where
  "fill_pages env u n ps =
     (if n \<le> length ps
      then Inr (map (\<lambda>i. qhgpu_v2page env (u + scast (of_nat (i * PAGE_SIZE) :: u32))) [0..<n] @ drop n ps)
      else Inl Out_of_bounds)"

text \<open>\<open>bitmap_zero\<close> clears whole longs; \<open>bits_update\<close> is \<open>bitmap_set\<close> and \<open>bitmap_clear\<close>.\<close>

definition bits_update :: "nat \<Rightarrow> nat \<Rightarrow> bool \<Rightarrow> bool list \<Rightarrow> bool list res" where
  "bits_update i n v b =
     (if i + n \<le> length b
      then Inr (map (\<lambda>j. if i \<le> j \<and> j < i + n then v else b ! j) [0..<length b])
      else Inl Out_of_bounds)"

definition bitmap_zero :: "nat \<Rightarrow> bool list \<Rightarrow> bool list res" where
  "bitmap_zero n b = bits_update 0 (64 * BITS_TO_LONGS n) False b"

text \<open>\<open>memset(p, 0, n)\<close> over an array of 32-bit entries: the first \<open>n\<close> bytes become 0.\<close>

definition clear_low_bytes :: "nat \<Rightarrow> u32 \<Rightarrow> u32" where
  "clear_low_bytes k w = push_bit (8 * min 4 k) (drop_bit (8 * min 4 k) w)"

definition memset0_u32 :: "nat \<Rightarrow> u32 list \<Rightarrow> u32 list res" where
  "memset0_u32 n xs =
     (if n \<le> 4 * length xs
      then Inr (map (\<lambda>i. clear_low_bytes (n - 4 * i) (xs ! i)) [0..<length xs])
      else Inl Buffer_overflow)"

text \<open>The second half of \<open>set_gpu_mempool\<close>: bitmap, sizes and the kernel mapping.\<close>

definition setup_units :: "kenv \<Rightarrow> nat list \<Rightarrow> mempool \<Rightarrow> (int \<times> mempool) res" where
  "setup_units env ps m =
     (let n = unat (npages m) div QHGPU_BUF_NR_FRAMES_PER_UNIT;
          m = m\<lparr>nunits := of_nat n\<rparr>
      in case (case bitmap m of Some b \<Rightarrow> Some b | None \<Rightarrow> km_longs env (BITS_TO_LONGS n)) of
           None \<Rightarrow> Inr (- ENOMEM, m)
         | Some b \<Rightarrow>
             bindR (bitmap_zero n b) (\<lambda>b.
             let m = m\<lparr>bitmap := Some b\<rparr>
             in case (case alloc_sz m of Some a \<Rightarrow> Some a | None \<Rightarrow> km_u32 env n) of
                  None \<Rightarrow> Inr (- ENOMEM, m)
                | Some a \<Rightarrow>
                    bindR (memset0_u32 n a) (\<lambda>a.
                    let m = m\<lparr>alloc_sz := Some a, kva := vmap env ps (unat (npages m))\<rparr>
                    in if kva m = 0 then Inr (- EFAULT, m) else Inr (0, m))))"

text \<open>\<open>set_gpu_mempool\<close>: \<open>u\<close> and \<open>sz\<close> are the fields of the \<open>struct qhgpu_gpu_mem_info\<close> read from
  user space.\<close>

definition set_gpu_mempool :: "kenv \<Rightarrow> u64 \<Rightarrow> u64 \<Rightarrow> mempool \<Rightarrow> (int \<times> mempool) res" where
  "set_gpu_mempool env u sz m =
     (let m = m\<lparr>uva := u, npages := of_nat (unat sz div PAGE_SIZE)\<rparr>;
          n = unat (npages m)
      in case (case pages m of Some ps \<Rightarrow> Some ps | None \<Rightarrow> km_pages env n) of
           None \<Rightarrow> Inr (- ENOMEM, m)
         | Some ps \<Rightarrow>
             bindR (fill_pages env u n ps) (\<lambda>ps. setup_units env ps (m\<lparr>pages := Some ps\<rparr>)))"

section \<open>Allocating and freeing\<close>

text \<open>\<open>DIV_ROUND_UP(nbytes, QHGPU_BUF_UNIT_SIZE)\<close> in \<open>unsigned long\<close>, kept in an \<open>unsigned int\<close>.\<close>

definition req_nunits :: "u64 \<Rightarrow> u32" where
  "req_nunits nbytes =
     of_nat (unat (nbytes + of_nat QHGPU_BUF_UNIT_SIZE - 1) div QHGPU_BUF_UNIT_SIZE)"

type_synonym find_area = "bool list \<Rightarrow> nat \<Rightarrow> nat \<Rightarrow> nat \<Rightarrow> nat"

definition arr_of :: "'a list option \<Rightarrow> 'a list" where
  "arr_of a = (case a of None \<Rightarrow> [] | Some xs \<Rightarrow> xs)"

definition qhgpu_vmalloc :: "find_area \<Rightarrow> u64 \<Rightarrow> mempool \<Rightarrow> (u64 \<times> mempool) res" where
  "qhgpu_vmalloc search nbytes m =
     (let req = req_nunits nbytes;
          idx = search (arr_of (bitmap m)) (unat (nunits m)) 0 (unat req)
      in if idx < unat (nunits m)
         then bindR (bits_update idx (unat req) True (arr_of (bitmap m))) (\<lambda>b.
              bindR (arr_set (arr_of (alloc_sz m)) idx req) (\<lambda>a.
              Inr (kva m + of_nat idx * of_nat QHGPU_BUF_UNIT_SIZE,
                   m\<lparr>bitmap := Some b, alloc_sz := Some a\<rparr>)))
         else Inr (0, m))"

text \<open>\<open>qhgpu_vfree\<close>; the test \<open>idx < 0\<close> on an unsigned value never holds.\<close>

definition free_idx :: "u64 \<Rightarrow> mempool \<Rightarrow> nat" where
  "free_idx p m = unat (p - kva m) div QHGPU_BUF_UNIT_SIZE"

definition qhgpu_vfree :: "u64 \<Rightarrow> mempool \<Rightarrow> mempool res" where
  "qhgpu_vfree p m =
     (let idx = free_idx p m
      in if unat (nunits m) \<le> idx then Inr m
         else bindR (arr_get (arr_of (alloc_sz m)) idx) (\<lambda>n.
              if n = 0 then Inr m
              else if unat (nunits m) - idx < unat n then Inr m
              else bindR (bits_update idx (unat n) False (arr_of (bitmap m))) (\<lambda>b.
                   bindR (arr_set (arr_of (alloc_sz m)) idx 0) (\<lambda>a.
                   Inr (m\<lparr>bitmap := Some b, alloc_sz := Some a\<rparr>)))))"

section \<open>The contract of the bitmap search\<close>

definition zero_run :: "bool list \<Rightarrow> nat \<Rightarrow> nat \<Rightarrow> nat \<Rightarrow> bool" where
  "zero_run b sz r nr \<longleftrightarrow> r + nr \<le> sz \<and> (\<forall>i < nr. \<not> b ! (r + i))"

definition zero_area_fn :: "find_area \<Rightarrow> bool" where
  "zero_area_fn search \<longleftrightarrow>
     (\<forall>b sz start nr. sz \<le> length b \<longrightarrow>
        (if \<exists>r \<ge> start. zero_run b sz r nr
         then start \<le> search b sz start nr \<and> zero_run b sz (search b sz start nr) nr
         else sz < search b sz start nr))"

text \<open>A first-fit search that meets it.\<close>

definition first_fit :: find_area where
  "first_fit b sz start nr =
     (case List.find (\<lambda>r. list_all (\<lambda>i. \<not> b ! (r + i)) [0..<nr]) [start..<Suc (sz - nr)] of
        Some r \<Rightarrow> if r + nr \<le> sz then r else Suc sz
      | None \<Rightarrow> Suc sz)"

section \<open>The abstract pool\<close>

text \<open>The units of an allocated run.\<close>

definition covers :: "(nat \<rightharpoonup> nat) \<Rightarrow> nat \<Rightarrow> bool" where
  "covers live j \<longleftrightarrow> (\<exists>i n. live i = Some n \<and> i \<le> j \<and> j < i + n)"

text \<open>\<open>pool_rep m live\<close>: the concrete pool represents the allocations \<open>live\<close>. Entries of
  \<open>alloc_sz\<close> that do not start a run are unconstrained.\<close>

definition pool_rep :: "mempool \<Rightarrow> (nat \<rightharpoonup> nat) \<Rightarrow> bool" where
  "pool_rep m live \<longleftrightarrow>
     unat (nunits m) \<le> length (arr_of (bitmap m)) \<and>
     unat (nunits m) \<le> length (arr_of (alloc_sz m)) \<and>
     (\<forall>j < unat (nunits m). arr_of (bitmap m) ! j \<longleftrightarrow> covers live j) \<and>
     (\<forall>i n. live i = Some n \<longrightarrow>
        0 < n \<and> i + n \<le> unat (nunits m) \<and> unat (arr_of (alloc_sz m) ! i) = n) \<and>
     (\<forall>i j n k. live i = Some n \<longrightarrow> live j = Some k \<longrightarrow> i < j \<longrightarrow> i + n \<le> j)"

text \<open>The bytes of a run, as offsets from the start of the pool.\<close>

definition run_bytes :: "nat \<Rightarrow> nat \<Rightarrow> nat set" where
  "run_bytes i n = {i * QHGPU_BUF_UNIT_SIZE ..< (i + n) * QHGPU_BUF_UNIT_SIZE}"


text \<open>A pool of four free units and the kernel services that set it up, for concrete runs; the
  memory that \<open>kmalloc\<close> gives for \<open>alloc_sz\<close> holds an old value.\<close>

definition sample_pool :: mempool where
  "sample_pool = \<lparr>uva = 0x7f0000, kva = 0x100000, pages = Some (replicate 400 1), npages = 400,
     nunits = 4, bitmap = Some (replicate 64 False), alloc_sz = Some [0, 0, 0, 0]\<rparr>"

definition sample_kenv :: kenv where
  "sample_kenv = \<lparr>km_pages = \<lambda>n. Some (replicate n 0), km_longs = \<lambda>n. Some (replicate (64 * n) True),
     km_u32 = \<lambda>n. Some (replicate n 7), pgd_at = \<lambda>v. Some 1, pud_at = \<lambda>g v. Some 2,
     pmd_at = \<lambda>u v. Some 3, pte_at = \<lambda>m v. Some (unat v), vmap = \<lambda>ps n. 0x100000\<rparr>"

section \<open>Facts about runs\<close>

lemma bits_update_nth:
  assumes "bits_update i n v b = Inr b'"
  shows "length b' = length b" and "j < length b \<Longrightarrow> b' ! j = (if i \<le> j \<and> j < i + n then v else b ! j)"
  using assms by (auto simp: bits_update_def split: if_splits)

lemma zero_area_fn_cases:
  assumes "zero_area_fn search" and "sz \<le> length b"
  obtains (fit) "zero_run b sz (search b sz 0 nr) nr"
    | (full) "\<nexists>r. zero_run b sz r nr" "sz < search b sz 0 nr"
  using assms unfolding zero_area_fn_def by (metis le0)

lemma pool_rep_lens:
  "pool_rep m live \<Longrightarrow> unat (nunits m) \<le> length (arr_of (bitmap m)) \<and>
     unat (nunits m) \<le> length (arr_of (alloc_sz m))"
  by (simp add: pool_rep_def)

lemma pool_rep_live:
  "pool_rep m live \<Longrightarrow> live i = Some n \<Longrightarrow>
     0 < n \<and> i + n \<le> unat (nunits m) \<and> unat (arr_of (alloc_sz m) ! i) = n"
  by (simp add: pool_rep_def)

lemma pool_rep_free_run:
  assumes rep: "pool_rep m live" and run: "zero_run (arr_of (bitmap m)) (unat (nunits m)) i n"
    and j: "i \<le> j" "j < i + n"
  shows "\<not> covers live j" and "live j = None"
proof -
  have "\<not> arr_of (bitmap m) ! j"
    using run j unfolding zero_run_def by (metis le_add_diff_inverse less_diff_conv2 add.commute)
  with rep run j show nc: "\<not> covers live j"
    unfolding pool_rep_def zero_run_def by auto
  show "live j = None"
  proof (rule ccontr)
    assume "live j \<noteq> None"
    then obtain k where k: "live j = Some k" by auto
    with rep have "0 < k" unfolding pool_rep_def by blast
    with k nc show False unfolding covers_def by auto
  qed
qed

lemma coversI: "live k = Some n \<Longrightarrow> k \<le> j \<Longrightarrow> j < k + n \<Longrightarrow> covers live j"
  unfolding covers_def by blast

lemma covers_upd:
  assumes "live i = None"
  shows "covers (live(i \<mapsto> n)) j \<longleftrightarrow> covers live j \<or> (i \<le> j \<and> j < i + n)"
  using assms unfolding covers_def by (auto split: if_splits)

lemma zero_run_apart:
  assumes rep: "pool_rep m live" and run: "zero_run (arr_of (bitmap m)) (unat (nunits m)) i n"
    and "0 < n" and k: "live j = Some k"
  shows "j + k \<le> i \<or> i + n \<le> j"
proof (rule ccontr)
  assume "\<not> ?thesis"
  then have *: "j < i + n" "i < j + k" by auto
  have "0 < k" using k rep unfolding pool_rep_def by blast
  with * have "covers live (max j i)" "i \<le> max j i" "max j i < i + n"
    using k \<open>0 < n\<close> by (auto simp: max_def intro: coversI)
  then show False using pool_rep_free_run(1) [OF rep run] by blast
qed

text \<open>Adding a run of free units gives a pool that represents the larger map.\<close>

lemma pool_rep_add:
  assumes rep: "pool_rep m live" and run: "zero_run (arr_of (bitmap m)) (unat (nunits m)) i (unat w)"
    and pos: "0 < unat w"
    and b: "bits_update i (unat w) True (arr_of (bitmap m)) = Inr b"
    and a: "a = (arr_of (alloc_sz m))[i := w]"
  shows "pool_rep (m\<lparr>bitmap := Some b, alloc_sz := Some a\<rparr>) (live(i \<mapsto> unat w))"
proof -
  let ?N = "unat (nunits m)"
  have none: "live i = None" using pool_rep_free_run(2) [OF rep run, of i] pos by simp
  have fit: "i + unat w \<le> ?N" using run by (simp add: zero_run_def)
  have lens: "?N \<le> length (arr_of (bitmap m))" "?N \<le> length (arr_of (alloc_sz m))"
    using rep by (auto simp: pool_rep_def)
  have bits: "\<forall>j < ?N. b ! j \<longleftrightarrow> covers (live(i \<mapsto> unat w)) j"
    using rep lens bits_update_nth [OF b] none by (auto simp: covers_upd pool_rep_def)
  have apart: "k + n \<le> i \<or> i + unat w \<le> k" if "live k = Some n" for k n
    using zero_run_apart [OF rep run pos that] .
  have sizes: "\<forall>k n. (live(i \<mapsto> unat w)) k = Some n \<longrightarrow> 0 < n \<and> k + n \<le> ?N \<and> unat (a ! k) = n"
    using rep pos fit lens unfolding pool_rep_def by (auto simp: a nth_list_update)
  have order: "k + n \<le> j" if "(live(i \<mapsto> unat w)) k = Some n" "(live(i \<mapsto> unat w)) j = Some n'" "k < j"
    for k j n n'
    using that rep apart unfolding pool_rep_def by (fastforce split: if_splits)
  show ?thesis
    unfolding pool_rep_def using lens bits sizes order bits_update_nth(1) [OF b] a
    by (simp add: arr_of_def)
qed

lemma pool_rep_remove:
  assumes rep: "pool_rep m live" and i: "live i = Some n"
    and b: "bits_update i n False (arr_of (bitmap m)) = Inr b"
    and a: "a = (arr_of (alloc_sz m))[i := 0]"
  shows "pool_rep (m\<lparr>bitmap := Some b, alloc_sz := Some a\<rparr>) (live(i := None))"
proof -
  let ?N = "unat (nunits m)"
  have lens: "?N \<le> length (arr_of (bitmap m))" "?N \<le> length (arr_of (alloc_sz m))"
    using rep by (auto simp: pool_rep_def)
  have order: "\<forall>i j n k. live i = Some n \<longrightarrow> live j = Some k \<longrightarrow> i < j \<longrightarrow> i + n \<le> j"
    using rep unfolding pool_rep_def by blast
  have cov: "covers (live(i := None)) j \<longleftrightarrow> covers live j \<and> \<not> (i \<le> j \<and> j < i + n)" for j
  proof
    assume "covers (live(i := None)) j"
    then obtain k l where k: "live k = Some l" "k \<noteq> i" "k \<le> j" "j < k + l"
      unfolding covers_def by (auto split: if_splits)
    have "\<not> (i \<le> j \<and> j < i + n)"
      using order i k by (metis leD le_trans linorder_neqE_nat not_less)
    with k show "covers live j \<and> \<not> (i \<le> j \<and> j < i + n)" unfolding covers_def by blast
  next
    assume *: "covers live j \<and> \<not> (i \<le> j \<and> j < i + n)"
    then obtain k l where k: "live k = Some l" "k \<le> j" "j < k + l"
      unfolding covers_def by blast
    with * i have "k \<noteq> i" by auto
    with k show "covers (live(i := None)) j" by (auto intro: coversI)
  qed
  have bits: "\<forall>j < ?N. b ! j \<longleftrightarrow> covers (live(i := None)) j"
    using rep lens bits_update_nth [OF b] by (auto simp: cov pool_rep_def)
  have sizes: "\<forall>k l. (live(i := None)) k = Some l \<longrightarrow> 0 < l \<and> k + l \<le> ?N \<and> unat (a ! k) = l"
    using rep lens unfolding pool_rep_def by (auto simp: a)
  show ?thesis
    unfolding pool_rep_def using lens bits sizes order bits_update_nth(1) [OF b] a
    by (simp add: arr_of_def)
qed

section \<open>The operations on the abstract pool\<close>

lemma vmalloc_cases:
  assumes search: "zero_area_fn search" and rep: "pool_rep m live"
    and pos: "0 < unat (req_nunits nbytes)"
  obtains (full) "qhgpu_vmalloc search nbytes m = Inr (0, m)"
      "\<nexists>r. zero_run (arr_of (bitmap m)) (unat (nunits m)) r (unat (req_nunits nbytes))"
    | (ok) i m' where
      "qhgpu_vmalloc search nbytes m = Inr (kva m + of_nat i * of_nat QHGPU_BUF_UNIT_SIZE, m')"
      "zero_run (arr_of (bitmap m)) (unat (nunits m)) i (unat (req_nunits nbytes))"
      "pool_rep m' (live(i \<mapsto> unat (req_nunits nbytes)))" "kva m' = kva m" "nunits m' = nunits m"
proof -
  let ?b = "arr_of (bitmap m)" and ?N = "unat (nunits m)" and ?w = "req_nunits nbytes"
  let ?i = "search ?b ?N 0 (unat ?w)"
  have lens: "?N \<le> length ?b" "?N \<le> length (arr_of (alloc_sz m))"
    using rep by (auto simp: pool_rep_def)
  from search lens(1) show thesis
  proof (cases rule: zero_area_fn_cases [where nr = "unat ?w"])
    case fit
    then have i: "?i + unat ?w \<le> ?N" "?i < ?N" using pos by (auto simp: zero_run_def)
    then obtain b where b: "bits_update ?i (unat ?w) True ?b = Inr b"
      using lens by (auto simp: bits_update_def)
    let ?m = "m\<lparr>bitmap := Some b, alloc_sz := Some ((arr_of (alloc_sz m))[?i := ?w])\<rparr>"
    show thesis
    proof (rule ok [of ?i ?m])
      show "qhgpu_vmalloc search nbytes m = Inr (kva m + of_nat ?i * of_nat QHGPU_BUF_UNIT_SIZE, ?m)"
        using i lens b by (simp add: qhgpu_vmalloc_def Let_def)
      show "pool_rep ?m (live(?i \<mapsto> unat ?w))"
        by (rule pool_rep_add [OF rep fit pos b refl])
    qed (use fit in auto)
  next
    case full
    then show thesis using that(1) by (simp add: qhgpu_vmalloc_def Let_def)
  qed
qed

lemma free_idx_unit:
  assumes "i < unat (nunits m)"
  shows "free_idx (kva m + of_nat i * of_nat QHGPU_BUF_UNIT_SIZE) m = i"
proof -
  have "unat (nunits m) < 2 ^ 32" using unat_less_32 [of "nunits m"] by simp
  then have "i * QHGPU_BUF_UNIT_SIZE < 2 ^ 64"
    using assms by (simp add: pool_consts)
  then have "unat (of_nat i * of_nat QHGPU_BUF_UNIT_SIZE :: u64) = i * QHGPU_BUF_UNIT_SIZE"
    by (simp add: unat_of_nat_small flip: of_nat_mult)
  then show ?thesis by (simp add: free_idx_def pool_consts)
qed

lemma vfree_live:
  assumes rep: "pool_rep m live" and i: "live i = Some n" and p: "free_idx p m = i"
  obtains m' where "qhgpu_vfree p m = Inr m'" "pool_rep m' (live(i := None))"
    "kva m' = kva m" "nunits m' = nunits m"
    "m' = m\<lparr>bitmap := Some (map (\<lambda>j. if i \<le> j \<and> j < i + n then False else arr_of (bitmap m) ! j)
         [0..<length (arr_of (bitmap m))]), alloc_sz := Some ((arr_of (alloc_sz m))[i := 0])\<rparr>"
proof -
  have n: "0 < n" "i + n \<le> unat (nunits m)" "unat (arr_of (alloc_sz m) ! i) = n"
    and lens: "unat (nunits m) \<le> length (arr_of (bitmap m))"
      "unat (nunits m) \<le> length (arr_of (alloc_sz m))"
    using pool_rep_live [OF rep i] pool_rep_lens [OF rep] by auto
  let ?b = "map (\<lambda>j. if i \<le> j \<and> j < i + n then False else arr_of (bitmap m) ! j)
         [0..<length (arr_of (bitmap m))]"
  let ?m = "m\<lparr>bitmap := Some ?b, alloc_sz := Some ((arr_of (alloc_sz m))[i := 0])\<rparr>"
  have b: "bits_update i n False (arr_of (bitmap m)) = Inr ?b"
    using n lens by (simp add: bits_update_def)
  have nz: "arr_of (alloc_sz m) ! i \<noteq> 0" using n by (auto simp: unat_eq_zero)
  have "qhgpu_vfree p m = Inr ?m"
    using n lens b p nz by (simp add: qhgpu_vfree_def Let_def)
  then show thesis using that pool_rep_remove [OF rep i b refl] by simp
qed

lemma BITS_TO_LONGS_enough: "n \<le> 64 * BITS_TO_LONGS n"
  unfolding BITS_TO_LONGS_def by linarith

lemma memset0_u32_tail: "memset0_u32 n xs = Inr ys \<Longrightarrow> i < length xs \<Longrightarrow> n \<le> 4 * i \<Longrightarrow> ys ! i = xs ! i"
  by (auto simp: memset0_u32_def clear_low_bytes_def split: if_splits)

lemma setup_units_arrays:
  assumes run: "setup_units env ps m = Inr (0, m')" and new: "alloc_sz m = None"
  obtains n b0 b a0 a where "unat (of_nat n :: u32) = n" "bitmap_zero n b0 = Inr b"
    "km_u32 env n = Some a0" "memset0_u32 n a0 = Inr a"
    "bitmap m' = Some b" "alloc_sz m' = Some a" "nunits m' = of_nat n" "kva m' \<noteq> 0"
proof -
  define n where "n = unat (npages m) div QHGPU_BUF_NR_FRAMES_PER_UNIT"
  have "unat (of_nat n :: u32) = n"
  proof (rule unat_of_nat_small)
    have "n \<le> unat (npages m)" by (simp add: n_def)
    then show "n < 2 ^ LENGTH(32)" using unat_less_32 [of "npages m"] by simp
  qed
  with run new that show thesis
    unfolding setup_units_def n_def [symmetric] Let_def
    by (auto split: option.splits if_splits simp: ENOMEM_def EFAULT_def)
qed

lemma setup_units_rep:
  assumes run: "setup_units env ps m = Inr (0, m')"
    and km: "\<And>n xs. km_u32 env n = Some xs \<Longrightarrow> length xs = n"
    and new: "alloc_sz m = None"
  shows "pool_rep m' Map.empty \<and> kva m' \<noteq> 0"
proof -
  from setup_units_arrays [OF run new] obtain n b0 b a0 a where
    n: "unat (of_nat n :: u32) = n" and b: "bitmap_zero n b0 = Inr b"
    and a: "km_u32 env n = Some a0" "memset0_u32 n a0 = Inr a"
    and m': "bitmap m' = Some b" "alloc_sz m' = Some a" "nunits m' = of_nat n" "kva m' \<noteq> 0" .
  have "length a = n" using a km by (auto simp: memset0_u32_def split: if_splits)
  moreover have "n \<le> length b" "\<forall>j < n. \<not> b ! j"
    using b BITS_TO_LONGS_enough [of n] by (auto simp: bitmap_zero_def bits_update_def split: if_splits)
  ultimately show ?thesis
    using m' n by (auto simp: pool_rep_def arr_of_def covers_def)
qed

lemma req_nunits_enough:
  assumes "unat nbytes < 2 ^ 47"
  shows "unat nbytes \<le> unat (req_nunits nbytes) * QHGPU_BUF_UNIT_SIZE"
    and "0 < unat nbytes \<Longrightarrow> 0 < unat (req_nunits nbytes)"
    and "unat (req_nunits nbytes) = (unat nbytes + QHGPU_BUF_UNIT_SIZE - 1) div QHGPU_BUF_UNIT_SIZE"
proof -
  have "unat (nbytes + of_nat QHGPU_BUF_UNIT_SIZE - 1) = unat nbytes + 51199"
  proof -
    have "nbytes + of_nat QHGPU_BUF_UNIT_SIZE - 1 = of_nat (unat nbytes + 51199)"
      by (simp add: pool_consts)
    then show ?thesis using assms by (simp only:) (simp add: unat_of_nat_small del: of_nat_add)
  qed
  then have eq: "unat (req_nunits nbytes) = (unat nbytes + 51199) div 51200"
    using assms by (simp add: req_nunits_def pool_consts unat_of_nat_small)
  show "unat (req_nunits nbytes) = (unat nbytes + QHGPU_BUF_UNIT_SIZE - 1) div QHGPU_BUF_UNIT_SIZE"
    using eq by (simp add: pool_consts)
  show "unat nbytes \<le> unat (req_nunits nbytes) * QHGPU_BUF_UNIT_SIZE"
    using eq by (simp add: pool_consts)
  show "0 < unat (req_nunits nbytes)" if "0 < unat nbytes"
    using eq that by simp
qed

lemma zero_area_fn_first_fit: "zero_area_fn first_fit"
proof -
  have run: "zero_run b sz r nr \<longleftrightarrow> r + nr \<le> sz \<and> list_all (\<lambda>i. \<not> b ! (r + i)) [0..<nr]" for b sz r nr
    by (auto simp: zero_run_def list_all_iff)
  have "if \<exists>r \<ge> start. zero_run b sz r nr
        then start \<le> first_fit b sz start nr \<and> zero_run b sz (first_fit b sz start nr) nr
        else sz < first_fit b sz start nr" for b sz start nr
  proof (cases "List.find (\<lambda>r. list_all (\<lambda>i. \<not> b ! (r + i)) [0..<nr]) [start..<Suc (sz - nr)]")
    case None
    then have "\<nexists>r. start \<le> r \<and> zero_run b sz r nr"
      unfolding find_None_iff by (auto simp: run)
    with None show ?thesis by (auto simp: first_fit_def)
  next
    case (Some r)
    then have r: "start \<le> r" "r < Suc (sz - nr)" "list_all (\<lambda>i. \<not> b ! (r + i)) [0..<nr]"
      unfolding find_Some_iff by (auto simp del: upt_Suc)
    show ?thesis
    proof (cases "r + nr \<le> sz")
      case True
      with Some r show ?thesis by (auto simp: first_fit_def run)
    next
      case False
      with r have "sz < nr" by auto
      with Some False show ?thesis by (auto simp: first_fit_def run)
    qed
  qed
  then show ?thesis by (simp add: zero_area_fn_def)
qed

section \<open>The interface of an allocator\<close>

text \<open>
  What a client of the pool relies on: an allocation gives a run of units apart from every live
  run, and freeing the pointer of a live run takes exactly this run away. \<open>ptr\<close> is the address of
  a run in a pool.
\<close>

locale unit_allocator =
  fixes rep :: "'m \<Rightarrow> (nat \<rightharpoonup> nat) \<Rightarrow> bool"
    and alloc :: "'r \<Rightarrow> 'm \<Rightarrow> ('p \<times> 'm) res"
    and free :: "'p \<Rightarrow> 'm \<Rightarrow> 'm res"
    and ptr :: "'m \<Rightarrow> nat \<Rightarrow> 'p"
    and null :: 'p
    and units :: "'r \<Rightarrow> nat"
  assumes alloc_ok: "rep m live \<Longrightarrow> 0 < units r \<Longrightarrow>
      alloc r m = Inr (null, m) \<or>
      (\<exists>i m'. alloc r m = Inr (ptr m i, m') \<and> rep m' (live(i \<mapsto> units r)) \<and> ptr m' = ptr m \<and>
         (\<forall>j n. live j = Some n \<longrightarrow> j + n \<le> i \<or> i + units r \<le> j))"
    and free_ok: "rep m live \<Longrightarrow> live i = Some n \<Longrightarrow>
      \<exists>m'. free (ptr m i) m = Inr m' \<and> rep m' (live(i := None)) \<and> ptr m' = ptr m"
    and rep_pos: "rep m live \<Longrightarrow> live i = Some n \<Longrightarrow> 0 < n"
begin

text \<open>A run that was just allocated can be freed, which gives back the allocations before it.\<close>

lemma alloc_free:
  assumes rep: "rep m live" and pos: "0 < units r" and run: "alloc r m = Inr (p, m')" and "p \<noteq> null"
  shows "\<exists>m''. free p m' = Inr m'' \<and> rep m'' live"
proof -
  from alloc_ok [OF rep pos] run \<open>p \<noteq> null\<close> obtain i where
    i: "p = ptr m i" "rep m' (live(i \<mapsto> units r))" "ptr m' = ptr m"
      "\<forall>j n. live j = Some n \<longrightarrow> j + n \<le> i \<or> i + units r \<le> j"
    by auto
  have none: "live i = None"
  proof (rule ccontr)
    assume "live i \<noteq> None"
    then obtain n where "live i = Some n" by auto
    with i(4) pos rep_pos [OF rep] show False by fastforce
  qed
  from free_ok [OF i(2), of i] i(1,3) none show ?thesis by (auto simp: fun_upd_idem)
qed

text \<open>Two allocations in a row never overlap.\<close>

lemma alloc_alloc_apart:
  assumes rep: "rep m live" and pos: "0 < units r" "0 < units r'"
    and run: "alloc r m = Inr (p, m')" "alloc r' m' = Inr (p', m'')" and "p \<noteq> null" "p' \<noteq> null"
  shows "\<exists>i j. p = ptr m i \<and> p' = ptr m j \<and> (i + units r \<le> j \<or> j + units r' \<le> i)"
proof -
  from alloc_ok [OF rep pos(1)] run(1) \<open>p \<noteq> null\<close> obtain i where
    i: "p = ptr m i" "rep m' (live(i \<mapsto> units r))" "ptr m' = ptr m" by auto
  from alloc_ok [OF i(2) pos(2)] run(2) \<open>p' \<noteq> null\<close> obtain j where
    j: "p' = ptr m j" "i + units r \<le> j \<or> j + units r' \<le> i"
    by (auto simp: i(3))
  with i show ?thesis by blast
qed

end

text \<open>The pool provides it. The representation carries the contract of the bitmap search.\<close>

definition pool_for :: "find_area \<Rightarrow> mempool \<Rightarrow> (nat \<rightharpoonup> nat) \<Rightarrow> bool" where
  "pool_for search m live \<longleftrightarrow> zero_area_fn search \<and> pool_rep m live"

definition unit_ptr :: "mempool \<Rightarrow> nat \<Rightarrow> u64" where
  "unit_ptr m i = kva m + of_nat i * of_nat QHGPU_BUF_UNIT_SIZE"

interpretation pool: unit_allocator "pool_for search" "qhgpu_vmalloc search" qhgpu_vfree unit_ptr 0
    "\<lambda>b. unat (req_nunits b)" for search
proof unfold_locales
  fix m live and r :: u64
  assume rep: "pool_for search m live" and pos: "0 < unat (req_nunits r)"
  then have s: "zero_area_fn search" "pool_rep m live" by (auto simp: pool_for_def)
  show "qhgpu_vmalloc search r m = Inr (0, m) \<or>
      (\<exists>i m'. qhgpu_vmalloc search r m = Inr (unit_ptr m i, m') \<and>
         pool_for search m' (live(i \<mapsto> unat (req_nunits r))) \<and> unit_ptr m' = unit_ptr m \<and>
         (\<forall>j n. live j = Some n \<longrightarrow> j + n \<le> i \<or> i + unat (req_nunits r) \<le> j))"
  proof (cases rule: vmalloc_cases [OF s pos, case_names full ok])
    case (ok i m')
    have "\<forall>j n. live j = Some n \<longrightarrow> j + n \<le> i \<or> i + unat (req_nunits r) \<le> j"
      using zero_run_apart [OF s(2) ok(2) pos] by blast
    moreover have "unit_ptr m' = unit_ptr m" using ok(4) by (simp add: unit_ptr_def fun_eq_iff)
    ultimately show ?thesis using ok s(1) by (auto simp: unit_ptr_def pool_for_def)
  qed blast
next
  fix m live i n
  assume rep: "pool_for search m live" and i: "live i = Some n"
  then have s: "zero_area_fn search" "pool_rep m live" by (auto simp: pool_for_def)
  have "i + n \<le> unat (nunits m)" "0 < n" using pool_rep_live [OF s(2) i] by auto
  then have "free_idx (unit_ptr m i) m = i" unfolding unit_ptr_def by (intro free_idx_unit) simp
  from vfree_live [OF s(2) i this] obtain m' where
    "qhgpu_vfree (unit_ptr m i) m = Inr m'" "pool_rep m' (live(i := None))" "kva m' = kva m"
    by blast
  then show "\<exists>m'. qhgpu_vfree (unit_ptr m i) m = Inr m' \<and> pool_for search m' (live(i := None)) \<and>
      unit_ptr m' = unit_ptr m"
    using s(1) by (auto simp: pool_for_def unit_ptr_def fun_eq_iff)
  show "0 < n" by fact
qed

section \<open>Properties of the pool\<close>

text \<open>C28: An allocation of a nonempty block that does not fail returns the address of a run of
  units that lies inside the pool, is long enough for the requested bytes and shares no byte with
  any live run; the new pool represents the old allocations and this one.\<close>

theorem vmalloc_fresh_run:
  assumes "zero_area_fn search" and "pool_rep m live" and "0 < unat nbytes" "unat nbytes < 2 ^ 47"
    and "qhgpu_vmalloc search nbytes m = Inr (p, m')" and "p \<noteq> 0"
  shows "\<exists>i k. p = unit_ptr m i \<and> pool_rep m' (live(i \<mapsto> k)) \<and> i + k \<le> unat (nunits m) \<and>
     unat nbytes \<le> k * QHGPU_BUF_UNIT_SIZE \<and>
     (\<forall>j n. live j = Some n \<longrightarrow> run_bytes j n \<inter> run_bytes i k = {})"
proof -
  let ?k = "unat (req_nunits nbytes)"
  have pos: "0 < ?k" and big: "unat nbytes \<le> ?k * QHGPU_BUF_UNIT_SIZE"
    using req_nunits_enough [OF assms(4)] assms(3) by auto
  from assms(1,2) pos show ?thesis
  proof (cases rule: vmalloc_cases [case_names full ok])
    case full
    then show ?thesis using assms(5,6) by simp
  next
    case (ok i m1)
    have "run_bytes j n \<inter> run_bytes i ?k = {}" if "live j = Some n" for j n
      using zero_run_apart [OF assms(2) ok(2) pos that]
      by (auto simp: run_bytes_def pool_consts)
    with ok assms(5) big show ?thesis
      by (intro exI [of _ i] exI [of _ ?k]) (auto simp: unit_ptr_def zero_run_def)
  qed
qed

text \<open>An allocation returns a block whenever some run of enough free units exists; when none
  does it returns \<open>NULL\<close> and leaves the pool as it is.\<close>

theorem vmalloc_fails_iff_full:
  assumes "zero_area_fn search" and "pool_rep m live" and "0 < unat nbytes" "unat nbytes < 2 ^ 47"
    and "\<forall>i < unat (nunits m). unit_ptr m i \<noteq> 0"
  shows "if \<exists>r. zero_run (arr_of (bitmap m)) (unat (nunits m)) r (unat (req_nunits nbytes))
     then \<exists>p m'. qhgpu_vmalloc search nbytes m = Inr (p, m') \<and> p \<noteq> 0
     else qhgpu_vmalloc search nbytes m = Inr (0, m)"
proof -
  have pos: "0 < unat (req_nunits nbytes)"
    using req_nunits_enough [OF assms(4)] assms(3) by auto
  show ?thesis
    using assms(1,2) pos
  proof (cases rule: vmalloc_cases [case_names full ok])
    case (ok i m1)
    then have "unit_ptr m i \<noteq> 0" using assms(5) pos by (auto simp: zero_run_def)
    with ok show ?thesis unfolding unit_ptr_def by auto
  qed auto
qed

text \<open>C29: Freeing the block that an allocation returned succeeds and gives back a pool with the
  allocations from before.\<close>

theorem vmalloc_vfree_roundtrip:
  assumes "zero_area_fn search" and "pool_rep m live" and "0 < unat nbytes" "unat nbytes < 2 ^ 47"
    and "qhgpu_vmalloc search nbytes m = Inr (p, m')" and "p \<noteq> 0"
  shows "\<exists>m''. qhgpu_vfree p m' = Inr m'' \<and> pool_rep m'' live"
proof -
  have "pool_for search m live" using assms(1,2) by (simp add: pool_for_def)
  moreover have "0 < unat (req_nunits nbytes)"
    using req_nunits_enough [OF assms(4)] assms(3) by auto
  ultimately show ?thesis
    using pool.alloc_free [of search m live nbytes p m'] assms(5,6) by (auto simp: pool_for_def)
qed

text \<open>Freeing a live block twice is harmless: the second call changes nothing.\<close>

theorem vfree_twice:
  assumes "pool_rep m live" and "live i = Some n" and "free_idx p m = i"
  shows "\<exists>m'. qhgpu_vfree p m = Inr m' \<and> pool_rep m' (live(i := None)) \<and> qhgpu_vfree p m' = Inr m'"
proof (rule vfree_live [OF assms])
  fix m'
  assume m': "qhgpu_vfree p m = Inr m'" "pool_rep m' (live(i := None))" "kva m' = kva m"
    "nunits m' = nunits m"
    and eq: "m' = m\<lparr>bitmap := Some (map (\<lambda>j. if i \<le> j \<and> j < i + n then False
         else arr_of (bitmap m) ! j) [0..<length (arr_of (bitmap m))]),
       alloc_sz := Some ((arr_of (alloc_sz m))[i := 0])\<rparr>"
  have i: "i < unat (nunits m)" "i < length (arr_of (alloc_sz m))"
    using pool_rep_live [OF assms(1,2)] pool_rep_lens [OF assms(1)] by auto
  have "free_idx p m' = i" using assms(3) m'(3) by (simp add: free_idx_def)
  moreover have "alloc_sz m' = Some ((arr_of (alloc_sz m))[i := 0])" by (simp add: eq)
  ultimately have "qhgpu_vfree p m' = Inr m'"
    using i m'(4) by (simp add: qhgpu_vfree_def Let_def arr_of_def)
  with m' show ?thesis by blast
qed

text \<open>After \<open>set_gpu_mempool\<close> succeeded for the first time the pool is empty, whatever the
  memory that \<open>kmalloc\<close> returned held.\<close>

theorem set_gpu_mempool_empty:
  assumes "set_gpu_mempool env u sz m = Inr (0, m')"
    and "\<And>n xs. km_u32 env n = Some xs \<Longrightarrow> length xs = n"
    and "alloc_sz m = None"
  shows "pool_rep m' Map.empty \<and> kva m' \<noteq> 0"
proof -
  from assms(1) obtain ps m1 where "setup_units env ps m1 = Inr (0, m')" "alloc_sz m1 = alloc_sz m"
    unfolding set_gpu_mempool_def Let_def
    by (auto split: option.splits simp: ENOMEM_def)
  with setup_units_rep [of env ps m1 m'] assms(2,3) show ?thesis by simp
qed

text \<open>\<open>memset(alloc_sz, 0, nunits)\<close> counts bytes, not entries: after a first successful set-up
  the sizes from a quarter of the units on are whatever \<open>kmalloc\<close> returned.\<close>

theorem set_gpu_mempool_stale_sizes:
  assumes "set_gpu_mempool env u sz m = Inr (0, m')" and "alloc_sz m = None"
  shows "\<exists>old. km_u32 env (unat (nunits m')) = Some old \<and>
     (\<forall>i < length old. unat (nunits m') \<le> 4 * i \<longrightarrow> arr_of (alloc_sz m') ! i = old ! i)"
proof -
  from assms obtain ps m1 where m1: "setup_units env ps m1 = Inr (0, m')" "alloc_sz m1 = None"
    unfolding set_gpu_mempool_def Let_def
    by (auto split: option.splits simp: ENOMEM_def)
  from setup_units_arrays [OF m1] obtain n b a0 a where
    "unat (of_nat n :: u32) = n" "km_u32 env n = Some a0" "memset0_u32 n a0 = Inr a"
    "alloc_sz m' = Some a" "nunits m' = of_nat n" by metis
  then show ?thesis by (auto simp: arr_of_def dest: memset0_u32_tail)
qed

section \<open>Concrete runs\<close>

lemma sample_pool_rep: "pool_rep sample_pool Map.empty"
  by (simp add: pool_rep_def sample_pool_def arr_of_def covers_def)

lemma all_less_4: "(\<forall>j < (4 :: nat). P j) \<longleftrightarrow> P 0 \<and> P 1 \<and> P 2 \<and> P 3"
  by (auto simp: less_Suc_eq numeral_eq_Suc)

lemma sample_vmalloc:
  "qhgpu_vmalloc first_fit 60000 sample_pool =
     Inr (0x100000, sample_pool\<lparr>bitmap := Some ([True, True] @ replicate 62 False),
       alloc_sz := Some [2, 0, 0, 0]\<rparr>)"
proof -
  have req: "req_nunits 60000 = 2" by (simp add: req_nunits_def pool_consts)
  have bits: "first_fit (replicate 64 False) 4 0 2 = 0"
    "bits_update 0 2 True (replicate 64 False) = Inr ([True, True] @ replicate 62 False)"
    by code_simp+
  show ?thesis
    by (simp add: qhgpu_vmalloc_def req sample_pool_def arr_of_def bits)
qed

lemma sample_live_rep:
  "pool_rep (sample_pool\<lparr>bitmap := Some ([True, True] @ replicate 62 False),
     alloc_sz := Some [2, 0, 0, 0]\<rparr>) [0 \<mapsto> 2]"
proof -
  have "covers [0 \<mapsto> 2] j \<longleftrightarrow> j < 2" for j by (auto simp: covers_def split: if_splits)
  then show ?thesis
    by (simp add: pool_rep_def sample_pool_def arr_of_def all_less_4)
qed

lemma sample_set_gpu_mempool:
  "\<exists>m'. set_gpu_mempool sample_kenv 0x7f0000 204800 zero_mempool = Inr (0, m')"
  by (simp add: set_gpu_mempool_def sample_kenv_def zero_mempool_def pool_consts fill_pages_def
      setup_units_def bitmap_zero_def bits_update_def memset0_u32_def BITS_TO_LONGS_def)

theorem vmalloc_fresh_run_witness:
  "\<exists>i k. (0x100000 :: u64) = unit_ptr sample_pool i \<and> i + k \<le> 4 \<and> 60000 \<le> k * QHGPU_BUF_UNIT_SIZE"
proof -
  have "unat (nunits sample_pool) = 4" by (simp add: sample_pool_def)
  then show ?thesis
    using vmalloc_fresh_run [OF zero_area_fn_first_fit sample_pool_rep _ _ sample_vmalloc] by auto
qed

theorem vmalloc_fails_iff_full_witness:
  "\<exists>p m'. qhgpu_vmalloc first_fit 60000 sample_pool = Inr (p, m') \<and> p \<noteq> 0"
proof -
  have "\<forall>i < unat (nunits sample_pool). unit_ptr sample_pool i \<noteq> 0"
    by (simp add: sample_pool_def unit_ptr_def pool_consts all_less_4)
  from vmalloc_fails_iff_full [OF zero_area_fn_first_fit sample_pool_rep _ _ this, of 60000]
  show ?thesis
    using sample_vmalloc by (simp split: if_splits)
qed

theorem vmalloc_vfree_roundtrip_witness:
  "\<exists>m''. qhgpu_vfree 0x100000 (sample_pool\<lparr>bitmap := Some ([True, True] @ replicate 62 False),
     alloc_sz := Some [2, 0, 0, 0]\<rparr>) = Inr m'' \<and> pool_rep m'' Map.empty"
  using vmalloc_vfree_roundtrip [OF zero_area_fn_first_fit sample_pool_rep _ _ sample_vmalloc]
  by simp

theorem vfree_twice_witness:
  "\<exists>m'. qhgpu_vfree 0x100000 (sample_pool\<lparr>bitmap := Some ([True, True] @ replicate 62 False),
     alloc_sz := Some [2, 0, 0, 0]\<rparr>) = Inr m' \<and> qhgpu_vfree 0x100000 m' = Inr m'"
proof -
  have "free_idx 0x100000 (sample_pool\<lparr>bitmap := Some ([True, True] @ replicate 62 False),
     alloc_sz := Some [2, 0, 0, 0]\<rparr>) = 0"
    by (simp add: free_idx_def sample_pool_def)
  from vfree_twice [OF sample_live_rep _ this, of 2] show ?thesis by auto
qed

theorem set_gpu_mempool_empty_witness:
  "\<exists>m'. set_gpu_mempool sample_kenv 0x7f0000 204800 zero_mempool = Inr (0, m') \<and>
     pool_rep m' Map.empty"
proof -
  from sample_set_gpu_mempool obtain m' where
    m': "set_gpu_mempool sample_kenv 0x7f0000 204800 zero_mempool = Inr (0, m')" by blast
  from set_gpu_mempool_empty [OF m'] m' show ?thesis
    by (simp add: sample_kenv_def zero_mempool_def)
qed

theorem set_gpu_mempool_stale_sizes_witness:
  "\<exists>m'. set_gpu_mempool sample_kenv 0x7f0000 204800 zero_mempool = Inr (0, m') \<and>
     (\<exists>old. km_u32 sample_kenv (unat (nunits m')) = Some old)"
proof -
  from sample_set_gpu_mempool obtain m' where
    m': "set_gpu_mempool sample_kenv 0x7f0000 204800 zero_mempool = Inr (0, m')" by blast
  from set_gpu_mempool_stale_sizes [OF m'] m' show ?thesis
    by (auto simp: zero_mempool_def)
qed

end
