(* ===== verification/QH_Device.thy ===== *)
theory QH_Device
  imports QH_Mempool "HOL-Library.Signed_Division"
begin

text \<open>
  The kernel module, \<open>src/qhgpu/main.c\<close>: the character device \<open>/dev/qhgpu\<close>, its request queues, the
  calls that client modules make and the table of shared memory areas. The global variables are one
  record \<open>dev\<close>. A request lives at an address of the heap \<open>rheap\<close>; a \<open>struct _qhgpu_request_item\<close>
  in a queue is represented by the request it points to, and the kernel lists \<open>reqs\<close> and
  \<open>rtdreqs\<close> by their sequences. The section between locking and unlocking a spin lock is one atomic
  operation of the model; an array that is \<open>NULL\<close> is the empty list, so that every access to it
  faults. What the kernel decides (whether an allocation succeeds, what uninitialised
  memory holds, whether an address is accessible) is an argument. Calls into client code and wake-ups
  are recorded in \<open>events\<close>.
\<close>

section \<open>Data\<close>

definition QHGPU_OK :: int where "QHGPU_OK = 0"
definition QHGPU_NO_RESPONSE :: int where "QHGPU_NO_RESPONSE = 1"
definition QHGPU_NO_SERVICE :: int where "QHGPU_NO_SERVICE = 2"
definition QHGPU_TERMINATED :: int where "QHGPU_TERMINATED = 3"
definition MAX_BATCH_SIZE :: int where "MAX_BATCH_SIZE = 2 ^ 18"
definition SERVICE_NAME_SIZE :: nat where "SERVICE_NAME_SIZE = 32"
definition EINVAL :: int where "EINVAL = 22"
definition EAGAIN :: int where "EAGAIN = 11"
definition ENOTTY :: int where "ENOTTY = 25"
definition ERESTARTSYS :: int where "ERESTARTSYS = 512"

lemmas errno_defs = EFAULT_def ENOMEM_def EINVAL_def EAGAIN_def ENOTTY_def ERESTARTSYS_def
lemmas qhgpu_codes = QHGPU_OK_def QHGPU_NO_RESPONSE_def QHGPU_NO_SERVICE_def QHGPU_TERMINATED_def

text \<open>\<open>void *kdata\<close>: the pointer of a synchronous call or one of the client.\<close>

datatype kptr = KNull | KSync nat | KUser nat

text \<open>\<open>qhgpu_callback\<close>: no function, \<open>sync_callback\<close>, or a function of a client.\<close>

datatype callback = Cb_null | Cb_sync | Cb_user nat

record request =
  rq_id :: int
  rq_in :: u64
  rq_out :: u64
  rq_udata :: u64
  rq_kdata :: kptr
  rq_mmap_addr :: u64
  rq_kmmap_addr :: u64
  rq_insize :: u64
  rq_outsize :: u64
  rq_udatasize :: u64
  rq_kdatasize :: u64
  rq_mmap_size :: u64
  rq_batch_size :: u64
  rq_service_name :: string
  rq_callback :: callback
  rq_errcode :: int
  rq_module :: "nat option"

record ku_request =
  ku_id :: int
  ku_mmap_addr :: u64
  ku_kmmap_addr :: u64
  ku_service_name :: string
  ku_in :: u64
  ku_out :: u64
  ku_data :: u64
  ku_insize :: u64
  ku_outsize :: u64
  ku_datasize :: u64
  ku_mmap_size :: u64
  ku_batch_size :: u64

record ku_response =
  kr_id :: int
  kr_errcode :: int

record sync_call_data =
  oldkdata :: kptr
  oldcallback :: callback
  sdone :: int

datatype event =
    Called_back nat nat int   \<comment> \<open>client function, request, its error code\<close>
  | Wake_reader
  | Wake_caller nat
  | Batch_loader nat
  | Batch_result nat

record dev =
  rid_sequence :: u32
  qhgpu_av :: int
  dev_state :: int
  reqs :: "nat list"
  rtdreqs :: "nat list"
  rheap :: "nat \<rightharpoonup> request"
  sheap :: "nat \<rightharpoonup> sync_call_data"
  gmpool :: mempool
  module_arr :: "nat option list"
  mmap_addr_arr :: "u64 list"
  kmmap_addr_arr :: "u64 list"
  module_active_checker :: "int list"
  module_cnt :: int
  mmap_count :: nat
  fpos :: int
  events :: "event list"

definition emit :: "event \<Rightarrow> dev \<Rightarrow> dev" where
  "emit e s = s\<lparr>events := events s @ [e]\<rparr>"

section \<open>Request identifiers and constructors\<close>

definition qhgpu_next_request_id :: "dev \<Rightarrow> int \<times> dev" where
  "qhgpu_next_request_id s =
     (let seq = rid_sequence s + 1;
          seq' = (if sint seq < 0 then 0 else seq)
      in (sint seq', s\<lparr>rid_sequence := seq'\<rparr>))"

definition zero_request :: request where
  "zero_request = \<lparr>rq_id = 0, rq_in = 0, rq_out = 0, rq_udata = 0, rq_kdata = KNull,
     rq_mmap_addr = 0, rq_kmmap_addr = 0, rq_insize = 0, rq_outsize = 0, rq_udatasize = 0,
     rq_kdatasize = 0, rq_mmap_size = 0, rq_batch_size = 0, rq_service_name = [],
     rq_callback = Cb_null, rq_errcode = 0, rq_module = None\<rparr>"

definition qhgpu_request_constructor :: "dev \<Rightarrow> request \<times> dev" where
  "qhgpu_request_constructor s =
     (let (i, s') = qhgpu_next_request_id s in (zero_request\<lparr>rq_id := i\<rparr>, s'))"

definition qhgpu_sync_call_data_constructor :: sync_call_data where
  "qhgpu_sync_call_data_constructor = \<lparr>oldkdata = KNull, oldcallback = Cb_null, sdone = 0\<rparr>"

section \<open>Opening the device\<close>

text \<open>\<open>atomic_dec_and_test\<close> decrements and tests for 0.\<close>

definition qhgpu_open :: "dev \<Rightarrow> int \<times> dev" where
  "qhgpu_open s =
     (let av = qhgpu_av s - 1
      in if av \<noteq> 0 then (- 1, s\<lparr>qhgpu_av := av + 1\<rparr>)
         else (0, s\<lparr>qhgpu_av := av\<rparr>))"

section \<open>Shared memory areas of the modules\<close>

function mmap_id_loop :: "nat \<Rightarrow> nat \<Rightarrow> int list \<Rightarrow> (nat \<times> int list) res" where
  "mmap_id_loop i cnt arr =
     (if i < cnt then
        bindR (arr_get arr i) (\<lambda>v.
        if v = 0 then Inr (i, arr[i := 1]) else mmap_id_loop (Suc i) cnt arr)
      else Inr (0, arr))"
  by pat_completeness auto
termination
  by (relation "measure (\<lambda>(i, cnt, arr). cnt - i)") auto

declare mmap_id_loop.simps [simp del]

definition qhgpu_mmap_id :: "dev \<Rightarrow> (int \<times> dev) res" where
  "qhgpu_mmap_id s =
     bindR (mmap_id_loop 0 (nat (module_cnt s)) (module_active_checker s)) (\<lambda>(i, arr).
     Inr (int i, s\<lparr>module_active_checker := arr\<rparr>))"

definition qhgpu_return_mmap :: "int \<Rightarrow> dev \<Rightarrow> dev res" where
  "qhgpu_return_mmap module_id s =
     bindR (idx module_id) (\<lambda>i.
     bindR (arr_set (module_active_checker s) i 0) (\<lambda>arr.
     Inr (s\<lparr>module_active_checker := arr\<rparr>)))"

definition qhgpu_mmap_addr_pass :: "int \<Rightarrow> dev \<Rightarrow> u64 res" where
  "qhgpu_mmap_addr_pass i s = bindR (idx i) (\<lambda>n. arr_get (kmmap_addr_arr s) n)"

section \<open>Allocating and freeing requests\<close>

text \<open>\<open>batch_size\<close>: the divisions are those of \<open>int\<close>, truncating towards 0.\<close>

definition batch_count :: "int \<Rightarrow> int" where
  "batch_count data_size =
     (if data_size smod MAX_BATCH_SIZE = 0 then data_size sdiv MAX_BATCH_SIZE
      else data_size sdiv MAX_BATCH_SIZE + 1)"

text \<open>\<open>obj\<close> is what \<open>kmem_cache_alloc\<close> returns: an address and the contents of the object, which the
  constructor initialised when the slab was created and earlier users may have changed.\<close>

definition qhgpu_alloc_request ::
  "(nat \<times> request) option \<Rightarrow> int \<Rightarrow> string \<Rightarrow> dev \<Rightarrow> (nat \<times> dev) res" where
  "qhgpu_alloc_request obj data_size service_name s =
     (case obj of
        None \<Rightarrow> Inl Null_deref
      | Some (r, req) \<Rightarrow>
          if SERVICE_NAME_SIZE \<le> length service_name then Inl Buffer_overflow
          else bindR (qhgpu_mmap_id s) (\<lambda>(i, s).
               bindR (qhgpu_mmap_addr_pass i s) (\<lambda>a.
               Inr (r, s\<lparr>rheap := (rheap s)(r \<mapsto> req\<lparr>rq_service_name := service_name, rq_id := i,
                         rq_kmmap_addr := a, rq_mmap_size := word_of_int data_size,
                         rq_batch_size := word_of_int (batch_count data_size)\<rparr>)\<rparr>))))"

definition qhgpu_free_request :: "nat \<Rightarrow> dev \<Rightarrow> dev" where
  "qhgpu_free_request r s = s\<lparr>rheap := (rheap s)(r := None)\<rparr>"

section \<open>Calls of client modules\<close>

text \<open>Both calls append an item to \<open>reqs\<close> and wake up the reader. \<open>ialloc\<close> tells whether
  \<open>kmem_cache_alloc\<close> found memory for the item.\<close>

definition enqueue :: "nat \<Rightarrow> dev \<Rightarrow> dev" where
  "enqueue r s = emit Wake_reader (s\<lparr>reqs := reqs s @ [r]\<rparr>)"

definition qhgpu_call_async :: "bool \<Rightarrow> nat \<Rightarrow> dev \<Rightarrow> int \<times> dev" where
  "qhgpu_call_async ialloc r s =
     (if dev_state s = QHGPU_TERMINATED then (QHGPU_TERMINATED, s)
      else if \<not> ialloc then (- ENOMEM, s)
      else (0, enqueue r s))"

text \<open>A synchronous call either returns at once or waits on the \<open>sync_call_data\<close> at an address.\<close>

datatype sync_outcome = Sync_returned int | Sync_waiting nat

text \<open>\<open>qhgpu_call_sync\<close> up to \<open>wait_event_interruptible\<close>; \<open>dalloc\<close> is the address of the call data.\<close>

definition qhgpu_call_sync ::
  "nat option \<Rightarrow> bool \<Rightarrow> nat \<Rightarrow> dev \<Rightarrow> (sync_outcome \<times> dev) res" where
  "qhgpu_call_sync dalloc ialloc r s =
     (if dev_state s = QHGPU_TERMINATED then Inr (Sync_returned QHGPU_TERMINATED, s)
      else case dalloc of
        None \<Rightarrow> Inr (Sync_returned (- ENOMEM), s)
      | Some d \<Rightarrow>
          (let s = s\<lparr>sheap := (sheap s)(d \<mapsto> qhgpu_sync_call_data_constructor)\<rparr>
           in if \<not> ialloc then Inr (Sync_returned (- ENOMEM), s)
              else bindR (heap_get (rheap s) r) (\<lambda>req.
                   bindR (idx (rq_id req)) (\<lambda>i.
                   bindR (arr_set (module_arr s) i (rq_module req)) (\<lambda>mods.
                   Inr (Sync_waiting d,
                     enqueue r (s\<lparr>
                       sheap := (sheap s)(d \<mapsto> \<lparr>oldkdata = rq_kdata req,
                                  oldcallback = rq_callback req, sdone = 0\<rparr>),
                       rheap := (rheap s)(r \<mapsto> req\<lparr>rq_kdata := KSync d, rq_callback := Cb_sync\<rparr>),
                       module_arr := mods\<rparr>)))))))"

text \<open>What follows the wait, which ends when the call is done or a signal arrives.\<close>

definition qhgpu_call_sync_resume :: "nat \<Rightarrow> nat \<Rightarrow> dev \<Rightarrow> (int \<times> dev) res" where
  "qhgpu_call_sync_resume d r s =
     bindR (heap_get (sheap s) d) (\<lambda>data.
     bindR (heap_get (rheap s) r) (\<lambda>req.
     bindR (qhgpu_return_mmap (rq_id req)
              (s\<lparr>rheap := (rheap s)(r \<mapsto> req\<lparr>rq_kdata := oldkdata data,
                                               rq_callback := oldcallback data\<rparr>),
                 sheap := (sheap s)(d := None)\<rparr>)) (\<lambda>s'.
     Inr (0, s'))))"

definition sync_callback :: "nat \<Rightarrow> dev \<Rightarrow> dev res" where
  "sync_callback r s =
     bindR (heap_get (rheap s) r) (\<lambda>req.
     case rq_kdata req of
       KSync d \<Rightarrow>
         bindR (heap_get (sheap s) d) (\<lambda>data.
         Inr (emit (Wake_caller d) (s\<lparr>sheap := (sheap s)(d \<mapsto> data\<lparr>sdone := 1\<rparr>)\<rparr>)))
     | _ \<Rightarrow> Inl Null_deref)"

text \<open>\<open>item->r->callback(item->r)\<close>\<close>

definition run_callback :: "nat \<Rightarrow> dev \<Rightarrow> dev res" where
  "run_callback r s =
     bindR (heap_get (rheap s) r) (\<lambda>req.
     case rq_callback req of
       Cb_null \<Rightarrow> Inl Null_deref
     | Cb_sync \<Rightarrow> sync_callback r s
     | Cb_user k \<Rightarrow> Inr (emit (Called_back k r (rq_errcode req)) s))"

section \<open>Reading requests and writing responses\<close>

definition ADDR_WITHIN :: "u64 \<Rightarrow> u64 \<Rightarrow> u64 \<Rightarrow> bool" where
  "ADDR_WITHIN p base sz \<longleftrightarrow> base \<le> p \<and> p < base + sz"

definition ADDR_REBASE :: "u64 \<Rightarrow> u64 \<Rightarrow> u64 \<Rightarrow> u64" where
  "ADDR_REBASE dst_base src_base p = dst_base + (p - src_base)"

text \<open>A pointer into the pool as user space sees it. \<open>npages << PAGE_SHIFT\<close> is computed in \<open>u32\<close>;
  \<open>page_shift\<close> is the constant of the kernel.\<close>

definition ku_pointer :: "nat \<Rightarrow> mempool \<Rightarrow> u64 \<Rightarrow> u64" where
  "ku_pointer page_shift m p =
     (if ADDR_WITHIN p (kva m) (ucast (push_bit page_shift (npages m)))
      then ADDR_REBASE (uva m) (kva m) p else p)"

text \<open>\<open>fill_ku_request\<close> writes some fields of an uninitialised \<open>kureq\<close>.\<close>

definition fill_ku_request :: "nat \<Rightarrow> request \<Rightarrow> mempool \<Rightarrow> ku_request \<Rightarrow> ku_request" where
  "fill_ku_request page_shift req m kureq =
     kureq\<lparr>ku_id := rq_id req, ku_service_name := rq_service_name req,
       ku_kmmap_addr := rq_kmmap_addr req, ku_mmap_size := rq_mmap_size req,
       ku_batch_size := rq_batch_size req,
       ku_in := ku_pointer page_shift m (rq_in req),
       ku_out := ku_pointer page_shift m (rq_out req),
       ku_data := ku_pointer page_shift m (rq_udata req),
       ku_insize := rq_insize req, ku_outsize := rq_outsize req, ku_datasize := rq_udatasize req\<rparr>"

text \<open>A read blocks, or returns a number (and the request it copied to the caller).\<close>

datatype read_outcome = Read_blocks | Read_returns int "ku_request option"

text \<open>\<open>qhgpu_read\<close>: \<open>nonblock\<close> is \<open>O_NONBLOCK\<close>, \<open>signal\<close> tells whether a signal interrupts the wait,
  \<open>c\<close> is the size the reader passes, \<open>junk\<close> what the stack variable \<open>kureq\<close> held.\<close>

definition qhgpu_read ::
  "nat \<Rightarrow> bool \<Rightarrow> bool \<Rightarrow> nat \<Rightarrow> ku_request \<Rightarrow> dev \<Rightarrow> (read_outcome \<times> dev) res" where
  "qhgpu_read page_shift nonblock signal c junk s =
     (case reqs s of
        [] \<Rightarrow>
          if nonblock then Inr (Read_returns (- EAGAIN) None, s)
          else if signal then Inr (Read_returns (- ERESTARTSYS) None, s)
          else Inr (Read_blocks, s)
      | r # rs \<Rightarrow>
          bindR (heap_get (rheap s) r) (\<lambda>req.
          (let kureq = fill_ku_request page_shift req (gmpool s) junk;
               s1 = s\<lparr>reqs := rs\<rparr>;
               s2 = (if 0 < c then s1\<lparr>rtdreqs := rtdreqs s1 @ [r]\<rparr> else s1)
           in Inr (Read_returns (int c) (Some kureq), s2\<lparr>fpos := fpos s2 + int c\<rparr>))))"

text \<open>\<open>find_request\<close>: the first item of \<open>rtdreqs\<close> with the identifier; with \<open>offlist\<close> it is removed.
  The item is given by its position.\<close>

fun find_request_loop :: "(nat \<rightharpoonup> request) \<Rightarrow> int \<Rightarrow> nat list \<Rightarrow> (nat list \<times> nat \<times> nat list) option res"
where
  "find_request_loop h i [] = Inr None"
| "find_request_loop h i (r # rs) =
     bindR (heap_get h r) (\<lambda>req.
     if rq_id req = i then Inr (Some ([], r, rs))
     else bindR (find_request_loop h i rs) (\<lambda>res.
          Inr (map_option (\<lambda>(before, q, after). (r # before, q, after)) res)))"

definition find_request :: "int \<Rightarrow> bool \<Rightarrow> dev \<Rightarrow> (nat option \<times> dev) res" where
  "find_request i offlist s =
     bindR (find_request_loop (rheap s) i (rtdreqs s)) (\<lambda>res.
     case res of
       None \<Rightarrow> Inr (None, s)
     | Some (before, r, after) \<Rightarrow>
         Inr (Some r, if offlist then s\<lparr>rtdreqs := before @ after\<rparr> else s))"

text \<open>\<open>sizeof(struct qhgpu_ku_response)\<close> is 8.\<close>

definition qhgpu_write :: "nat \<Rightarrow> ku_response \<Rightarrow> dev \<Rightarrow> (int \<times> dev) res" where
  "qhgpu_write count kuresp s =
     (if count < 8 then Inr (- EINVAL, s)
      else bindR (find_request (kr_id kuresp) True s) (\<lambda>(item, s).
           case item of
             None \<Rightarrow> Inr (- EFAULT, s)
           | Some r \<Rightarrow>
               bindR (heap_get (rheap s) r) (\<lambda>req.
               bindR (run_callback r
                  (s\<lparr>rheap := (rheap s)(r \<mapsto> req\<lparr>rq_errcode := kr_errcode kuresp\<rparr>)\<rparr>)) (\<lambda>s'.
               Inr (int count, s'\<lparr>fpos := fpos s' + int count\<rparr>)))))"

text \<open>\<open>qhgpu_poll\<close>: readable when a request waits, always writable.\<close>

definition POLLIN :: nat where "POLLIN = 1"
definition POLLOUT :: nat where "POLLOUT = 4"
definition POLLRDNORM :: nat where "POLLRDNORM = 64"
definition POLLWRNORM :: nat where "POLLWRNORM = 256"

definition qhgpu_poll :: "dev \<Rightarrow> nat" where
  "qhgpu_poll s =
     (if reqs s \<noteq> [] then POLLIN + POLLRDNORM else 0) + (POLLOUT + POLLWRNORM)"

section \<open>Control operations\<close>

text \<open>The fields of an ioctl number.\<close>

definition IOC_NR :: "u32 \<Rightarrow> u32" where "IOC_NR cmd = take_bit 8 cmd"
definition IOC_TYPE :: "u32 \<Rightarrow> u32" where "IOC_TYPE cmd = take_bit 8 (drop_bit 8 cmd)"
definition IOC_SIZE :: "u32 \<Rightarrow> u32" where "IOC_SIZE cmd = take_bit 14 (drop_bit 16 cmd)"
definition IOC_DIR :: "u32 \<Rightarrow> u32" where "IOC_DIR cmd = take_bit 2 (drop_bit 30 cmd)"
definition IOC_WRITE :: u32 where "IOC_WRITE = 1"
definition IOC_READ :: u32 where "IOC_READ = 2"

definition IOC :: "u32 \<Rightarrow> u32 \<Rightarrow> u32 \<Rightarrow> u32 \<Rightarrow> u32" where
  "IOC dir type nr sz = push_bit 30 dir + push_bit 16 sz + push_bit 8 type + nr"

definition QHGPU_IOC_MAGIC :: u32 where "QHGPU_IOC_MAGIC = 103"
definition QHGPU_IOC_MAXNR :: u32 where "QHGPU_IOC_MAXNR = 6"
definition QHGPU_IOC_SET_GPU_BUFS :: u32 where
  "QHGPU_IOC_SET_GPU_BUFS = IOC IOC_WRITE QHGPU_IOC_MAGIC 1 16"
definition QHGPU_IOC_SET_MMAP :: u32 where
  "QHGPU_IOC_SET_MMAP = IOC IOC_READ QHGPU_IOC_MAGIC 2 16"
definition QHGPU_IOC_BATCH_H2D :: u32 where
  "QHGPU_IOC_BATCH_H2D = IOC IOC_READ QHGPU_IOC_MAGIC 3 16"
definition QHGPU_IOC_BATCH_D2H :: u32 where
  "QHGPU_IOC_BATCH_D2H = IOC IOC_READ QHGPU_IOC_MAGIC 4 16"
definition QHGPU_IOC_SET_STOP :: u32 where
  "QHGPU_IOC_SET_STOP = IOC 0 QHGPU_IOC_MAGIC 5 0"

lemmas ioc_defs = IOC_def IOC_NR_def IOC_TYPE_def IOC_SIZE_def IOC_DIR_def IOC_WRITE_def IOC_READ_def
  QHGPU_IOC_MAGIC_def QHGPU_IOC_MAXNR_def QHGPU_IOC_SET_GPU_BUFS_def QHGPU_IOC_SET_MMAP_def
  QHGPU_IOC_BATCH_H2D_def QHGPU_IOC_BATCH_D2H_def QHGPU_IOC_SET_STOP_def

text \<open>What the kernel answers during an ioctl: \<open>access_ok\<close>, the structure at the user address, the
  arrays that \<open>vmalloc\<close> returns for a number of bytes (\<open>[]\<close> for \<open>NULL\<close>), and the blocks that the calls
  of \<open>__get_free_pages\<close> return in turn (0 for \<open>NULL\<close>).\<close>

record ioctl_env =
  io_access_ok :: "bool \<Rightarrow> u64 \<Rightarrow> u32 \<Rightarrow> bool"
  io_mem_info :: "u64 \<Rightarrow> u64 \<times> u64"
  io_kenv :: kenv
  io_ints :: "u64 \<Rightarrow> int list"
  io_kmmap :: "u64 \<Rightarrow> u64 list"
  io_mmap :: "u64 \<Rightarrow> u64 list"
  io_modules :: "u64 \<Rightarrow> nat option list"
  io_free_pages :: "nat \<Rightarrow> u64"

text \<open>The loop over the modules of \<open>QHGPU_IOC_SET_MMAP\<close>; \<open>False\<close> when a block is missing.\<close>

function get_pages_loop :: "(nat \<Rightarrow> u64) \<Rightarrow> nat \<Rightarrow> nat \<Rightarrow> u64 list \<Rightarrow> (bool \<times> u64 list) res" where
  "get_pages_loop fp i n arr =
     (if i < n then
        bindR (arr_set arr i (fp i)) (\<lambda>arr.
        if fp i = 0 then Inr (False, arr) else get_pages_loop fp (Suc i) n arr)
      else Inr (True, arr))"
  by pat_completeness auto
termination
  by (relation "measure (\<lambda>(fp, i, n, arr). n - i)") auto

declare get_pages_loop.simps [simp del]

definition ioctl_set_mmap :: "ioctl_env \<Rightarrow> u64 \<Rightarrow> dev \<Rightarrow> (int \<times> dev) res" where
  "ioctl_set_mmap env arg s =
     (let s = s\<lparr>module_cnt := sint (ucast arg :: u32),
                module_active_checker := io_ints env (8 * arg),
                kmmap_addr_arr := io_kmmap env (8 * arg),
                mmap_addr_arr := io_mmap env (8 * arg),
                module_arr := io_modules env (8 * arg)\<rparr>
      in bindR (get_pages_loop (io_free_pages env) 0 (unat arg) (mmap_addr_arr s)) (\<lambda>(ok, arr).
         Inr (if ok then 0 else - 1, s\<lparr>mmap_addr_arr := arr\<rparr>)))"

text \<open>\<open>module_arr[arg]->batch_data_loader()\<close> and \<open>batch_data_result()\<close>\<close>

definition ioctl_batch :: "(nat \<Rightarrow> event) \<Rightarrow> u64 \<Rightarrow> dev \<Rightarrow> (int \<times> dev) res" where
  "ioctl_batch ev arg s =
     bindR (arr_get (module_arr s) (unat arg)) (\<lambda>p.
     case p of None \<Rightarrow> Inl Null_deref | Some k \<Rightarrow> Inr (0, emit (ev k) s))"

definition ioctl_access :: "ioctl_env \<Rightarrow> u32 \<Rightarrow> u64 \<Rightarrow> bool" where
  "ioctl_access env cmd arg =
     (if and (IOC_DIR cmd) IOC_READ \<noteq> 0 then io_access_ok env True arg (IOC_SIZE cmd)
      else if and (IOC_DIR cmd) IOC_WRITE \<noteq> 0 then io_access_ok env False arg (IOC_SIZE cmd)
      else True)"

definition qhgpu_ioctl :: "ioctl_env \<Rightarrow> u32 \<Rightarrow> u64 \<Rightarrow> dev \<Rightarrow> (int \<times> dev) res" where
  "qhgpu_ioctl env cmd arg s =
     (if IOC_TYPE cmd \<noteq> QHGPU_IOC_MAGIC then Inr (- ENOTTY, s)
      else if QHGPU_IOC_MAXNR < IOC_NR cmd then Inr (- ENOTTY, s)
      else if \<not> ioctl_access env cmd arg then Inr (- EFAULT, s)
      else if cmd = QHGPU_IOC_SET_GPU_BUFS then
        (case io_mem_info env arg of
           (u, sz) \<Rightarrow> bindR (set_gpu_mempool (io_kenv env) u sz (gmpool s)) (\<lambda>(err, m).
                       Inr (err, s\<lparr>gmpool := m\<rparr>)))
      else if cmd = QHGPU_IOC_SET_MMAP then ioctl_set_mmap env arg s
      else if cmd = QHGPU_IOC_BATCH_H2D then ioctl_batch Batch_loader arg s
      else if cmd = QHGPU_IOC_BATCH_D2H then ioctl_batch Batch_result arg s
      else if cmd = QHGPU_IOC_SET_STOP then Inr (0, s)
      else Inr (- ENOTTY, s))"

section \<open>Mapping memory\<close>

text \<open>\<open>qhgpu_mmap\<close>: the next block becomes the private data of the mapping and is recorded for the
  client modules.\<close>

definition qhgpu_mmap :: "dev \<Rightarrow> (int \<times> u64 \<times> dev) res" where
  "qhgpu_mmap s =
     bindR (arr_get (mmap_addr_arr s) (mmap_count s)) (\<lambda>a.
     bindR (arr_set (kmmap_addr_arr s) (mmap_count s) a) (\<lambda>arr.
     Inr (0, a, s\<lparr>kmmap_addr_arr := arr, mmap_count := mmap_count s + 1\<rparr>)))"

text \<open>\<open>vm_fault\<close> returns a code and the page it hands out, 0 for none; \<open>virt_to_page\<close> is a service of
  the kernel.\<close>

definition VM_FAULT_OOM :: int where "VM_FAULT_OOM = 1"
definition VM_FAULT_SIGBUS :: int where "VM_FAULT_SIGBUS = 2"

definition vm_fault :: "nat \<Rightarrow> (u64 \<Rightarrow> nat) \<Rightarrow> u64 \<Rightarrow> u64 \<Rightarrow> int \<times> nat" where
  "vm_fault page_shift virt_to_page vm_private_data pgoff =
     (if vm_private_data = 0 then (VM_FAULT_OOM, 0)
      else let page = virt_to_page (vm_private_data + push_bit page_shift pgoff)
           in if page = 0 then (VM_FAULT_SIGBUS, 0) else (0, page))"

section \<open>Loading and unloading the module\<close>

text \<open>The kernel objects the module holds.\<close>

record kobjs =
  request_cache :: bool
  request_item_cache :: bool
  sync_call_data_cache :: bool
  dev_class :: bool
  chrdev_region :: bool
  cdev_added :: bool
  device_node :: bool

text \<open>What the kernel answers: whether a cache is created, and the error codes of the other calls
  (0 for success).\<close>

record init_env =
  in_request_cache :: bool
  in_item_cache :: bool
  in_data_cache :: bool
  in_class :: int
  in_region :: int
  in_cdev :: int
  in_device :: int

definition init_chrdev :: "init_env \<Rightarrow> kobjs \<Rightarrow> int \<times> kobjs" where
  "init_chrdev env k =
     (if in_region env < 0 then (in_region env, k)
      else let k = k\<lparr>chrdev_region := True\<rparr>;
               k = k\<lparr>cdev_added := (in_cdev env = 0)\<rparr>
           in if in_device env \<noteq> 0 then (in_device env, k)
              else (in_cdev env, k\<lparr>device_node := True\<rparr>))"

definition qhgpu_init :: "init_env \<Rightarrow> dev \<Rightarrow> kobjs \<Rightarrow> int \<times> dev \<times> kobjs" where
  "qhgpu_init env s k =
     (let s = s\<lparr>dev_state := QHGPU_OK, reqs := [], rtdreqs := [], rid_sequence := 0\<rparr>
      in if \<not> in_request_cache env then (- EFAULT, s, k\<lparr>request_cache := False\<rparr>)
         else let k = k\<lparr>request_cache := True\<rparr>
         in if \<not> in_item_cache env
            then (- EFAULT, s, k\<lparr>request_item_cache := False, request_cache := False\<rparr>)
         else let k = k\<lparr>request_item_cache := True\<rparr>
         in if \<not> in_data_cache env
            then (- EFAULT, s, k\<lparr>sync_call_data_cache := False, request_cache := False,
                                 request_item_cache := False\<rparr>)
         else let k = k\<lparr>sync_call_data_cache := True\<rparr>; s = s\<lparr>gmpool := zero_mempool\<rparr>
         in if in_class env \<noteq> 0 then (in_class env, s, k)
         else case init_chrdev env (k\<lparr>dev_class := True\<rparr>) of (r, k) \<Rightarrow> (r, s, k))"

definition qhgpu_clean :: "kobjs \<Rightarrow> int \<times> kobjs" where
  "qhgpu_clean k = (1, k\<lparr>device_node := False, cdev_added := False, dev_class := False,
                          chrdev_region := False\<rparr>)"

definition mod_init :: "init_env \<Rightarrow> dev \<Rightarrow> kobjs \<Rightarrow> int \<times> dev \<times> kobjs" where
  "mod_init env s k = (case qhgpu_init env s k of (_, s, k) \<Rightarrow> (0, s, k))"

definition mod_exit :: "kobjs \<Rightarrow> kobjs" where
  "mod_exit k = snd (qhgpu_clean k)"

text \<open>The globals before the module is loaded.\<close>

definition static_dev :: dev where
  "static_dev = \<lparr>rid_sequence = 0, qhgpu_av = 1, dev_state = 0, reqs = [], rtdreqs = [],
     rheap = Map.empty, sheap = Map.empty, gmpool = zero_mempool, module_arr = [],
     mmap_addr_arr = [], kmmap_addr_arr = [], module_active_checker = [], module_cnt = 0,
     mmap_count = 0, fpos = 0, events = []\<rparr>"

end
