(* ===== verification/QH_Requests.thy ===== *)
theory QH_Requests
  imports QH_Device
begin

text \<open>
  The life of a request in the kernel module: submitted by a client (\<open>reqs\<close>), read by the connector
  (\<open>rtdreqs\<close>), answered by it. The step relation \<open>dev_step\<close> runs the operations of the device under
  the discipline that clients follow (a request in flight is not submitted, changed or freed, and a
  synchronous call waits until it is done); \<open>dev_ok\<close> is its invariant. The locale \<open>request_broker\<close> is
  what the connector relies on.
\<close>

section \<open>Requests in flight\<close>

definition inflight :: "dev \<Rightarrow> nat list" where
  "inflight s = reqs s @ rtdreqs s"

text \<open>A request whose callback can run.\<close>

definition req_ready :: "dev \<Rightarrow> nat \<Rightarrow> bool" where
  "req_ready s r \<longleftrightarrow>
     (case rheap s r of
        None \<Rightarrow> False
      | Some req \<Rightarrow>
          (case rq_callback req of
             Cb_null \<Rightarrow> False
           | Cb_user k \<Rightarrow> True
           | Cb_sync \<Rightarrow>
               (case rq_kdata req of
                  KSync d \<Rightarrow> (case sheap s d of None \<Rightarrow> False | Some data \<Rightarrow> sdone data = 0)
                | _ \<Rightarrow> False)))"

text \<open>The call data a request waits on.\<close>

definition waits_on :: "dev \<Rightarrow> nat \<Rightarrow> nat option" where
  "waits_on s r =
     (case rheap s r of
        None \<Rightarrow> None
      | Some req \<Rightarrow>
          (if rq_callback req = Cb_sync then (case rq_kdata req of KSync d \<Rightarrow> Some d | _ \<Rightarrow> None)
           else None))"

definition ident :: "dev \<Rightarrow> nat \<Rightarrow> int" where
  "ident s r = (case rheap s r of None \<Rightarrow> - 1 | Some req \<Rightarrow> rq_id req)"

definition dev_ok :: "dev \<Rightarrow> bool" where
  "dev_ok s \<longleftrightarrow> distinct (inflight s) \<and> list_all (req_ready s) (inflight s) \<and>
     (\<forall>r \<in> set (inflight s). \<forall>r' \<in> set (inflight s).
        waits_on s r = waits_on s r' \<longrightarrow> waits_on s r \<noteq> None \<longrightarrow> r = r')"

text \<open>Submissions and completions in the trace of events.\<close>

definition submissions :: "dev \<Rightarrow> nat" where
  "submissions s = length (filter (\<lambda>e. e = Wake_reader) (events s))"

fun is_completion :: "event \<Rightarrow> bool" where
  "is_completion (Called_back k r e) = True"
| "is_completion (Wake_caller d) = True"
| "is_completion _ = False"

definition completions :: "dev \<Rightarrow> nat" where
  "completions s = length (filter is_completion (events s))"

section \<open>Steps\<close>

text \<open>The clients and the helper that use the device. The client sets up a request that is not in
  flight (\<open>client\<close>), a call of \<open>read\<close> has room for a request, and \<open>qhgpu_call_sync\<close> goes on once the
  call is done.\<close>

inductive dev_step :: "nat \<Rightarrow> dev \<Rightarrow> dev \<Rightarrow> bool" for page_shift where
  do_alloc: "qhgpu_alloc_request (Some (r, req)) n name s = Inr (r, s') \<Longrightarrow> r \<notin> set (inflight s) \<Longrightarrow>
    dev_step page_shift s s'"
| do_client: "r \<notin> set (inflight s) \<Longrightarrow> dev_step page_shift s (s\<lparr>rheap := (rheap s)(r \<mapsto> req)\<rparr>)"
| do_async: "rheap s r = Some req \<Longrightarrow> rq_callback req = Cb_user k \<Longrightarrow> r \<notin> set (inflight s) \<Longrightarrow>
    qhgpu_call_async ialloc r s = (e, s') \<Longrightarrow> dev_step page_shift s s'"
| do_sync: "r \<notin> set (inflight s) \<Longrightarrow> sheap s d = None \<Longrightarrow>
    qhgpu_call_sync (Some d) ialloc r s = Inr (out, s') \<Longrightarrow> dev_step page_shift s s'"
| do_read: "0 < c \<Longrightarrow> qhgpu_read page_shift nonblock signal c junk s = Inr (out, s') \<Longrightarrow>
    dev_step page_shift s s'"
| do_write: "qhgpu_write count kuresp s = Inr (n, s') \<Longrightarrow> dev_step page_shift s s'"
| do_resume: "waits_on s r = Some d \<Longrightarrow> sheap s d = Some data \<Longrightarrow> sdone data = 1 \<Longrightarrow>
    qhgpu_call_sync_resume d r s = Inr (e, s') \<Longrightarrow> dev_step page_shift s s'"
| do_free: "r \<notin> set (inflight s) \<Longrightarrow> dev_step page_shift s (qhgpu_free_request r s)"
| do_ioctl: "qhgpu_ioctl env cmd arg s = Inr (e, s') \<Longrightarrow> dev_step page_shift s s'"
| do_mmap: "qhgpu_mmap s = Inr (e, a, s') \<Longrightarrow> dev_step page_shift s s'"
| do_opened: "qhgpu_open s = (e, s') \<Longrightarrow> dev_step page_shift s s'"

inductive dev_reach :: "nat \<Rightarrow> dev \<Rightarrow> bool" for page_shift where
  loaded: "mod_init env static_dev k = (e, s, k') \<Longrightarrow> dev_reach page_shift s"
| stepped: "dev_reach page_shift s \<Longrightarrow> dev_step page_shift s s' \<Longrightarrow> dev_reach page_shift s'"

section \<open>The invariant\<close>

text \<open>What an operation that neither queues nor changes requests in flight keeps.\<close>

lemma dev_ok_cong:
  assumes "dev_ok s" and "reqs s' = reqs s" "rtdreqs s' = rtdreqs s"
    and "\<And>r. r \<in> set (inflight s) \<Longrightarrow> rheap s' r = rheap s r"
    and "\<And>r d. r \<in> set (inflight s) \<Longrightarrow> waits_on s r = Some d \<Longrightarrow> sheap s' d = sheap s d"
  shows "dev_ok s'"
proof -
  have inf: "inflight s' = inflight s" using assms(2,3) by (simp add: inflight_def)
  have w: "waits_on s' r = waits_on s r" if "r \<in> set (inflight s)" for r
    using assms(4) [OF that] by (simp add: waits_on_def)
  have "req_ready s' r" if r: "r \<in> set (inflight s)" for r
  proof -
    have "req_ready s r" using assms(1) r by (auto simp: dev_ok_def list_all_iff)
    then show ?thesis
      using assms(4) [OF r] assms(5) [OF r]
      by (auto simp: req_ready_def waits_on_def split: option.splits callback.splits kptr.splits)
  qed
  with assms(1) inf w show ?thesis by (auto simp: dev_ok_def list_all_iff)
qed

lemma ready_wait:
  "req_ready s r \<Longrightarrow> waits_on s r = Some d \<Longrightarrow> \<exists>data. sheap s d = Some data \<and> sdone data = 0"
  by (auto simp: req_ready_def waits_on_def split: option.splits callback.splits kptr.splits if_splits)

lemma ready_heap: "req_ready s r \<Longrightarrow> \<exists>req. rheap s r = Some req"
  by (auto simp: req_ready_def split: option.splits)

lemma dev_ok_ready: "dev_ok s \<Longrightarrow> r \<in> set (inflight s) \<Longrightarrow> req_ready s r"
  by (simp add: dev_ok_def list_all_iff)

lemma req_ready_state:
  assumes "rheap s' = rheap s" and "sheap s' = sheap s"
  shows "req_ready s' = req_ready s" and "waits_on s' = waits_on s"
  unfolding req_ready_def waits_on_def fun_eq_iff assms by auto

lemma dev_ok_fewer:
  assumes ok: "dev_ok s" and "rheap s' = rheap s" "sheap s' = sheap s"
    and "distinct (inflight s')" and sub: "set (inflight s') \<subseteq> set (inflight s)"
  shows "dev_ok s'"
proof -
  have "list_all (req_ready s) (inflight s')"
    using ok sub by (auto simp: dev_ok_def list_all_iff)
  moreover have "\<forall>r \<in> set (inflight s'). \<forall>r' \<in> set (inflight s').
      waits_on s r = waits_on s r' \<longrightarrow> waits_on s r \<noteq> None \<longrightarrow> r = r'"
    using ok sub unfolding dev_ok_def by blast
  ultimately show ?thesis
    using assms(4) unfolding dev_ok_def req_ready_state [OF assms(2,3)] by blast
qed

text \<open>Queueing a request that is ready and waits on data nobody else waits on.\<close>

lemma dev_ok_enqueue:
  assumes ok: "dev_ok s" and new: "r \<notin> set (inflight s)" and ready: "req_ready s r"
    and own: "\<And>r'. r' \<in> set (inflight s) \<Longrightarrow> waits_on s r \<noteq> None \<Longrightarrow> waits_on s r' \<noteq> waits_on s r"
  shows "dev_ok (enqueue r s)"
proof -
  have [simp]: "req_ready (enqueue r s) = req_ready s" "waits_on (enqueue r s) = waits_on s"
    by (auto intro: req_ready_state simp: enqueue_def emit_def)
  have "set (inflight (enqueue r s)) = insert r (set (inflight s))"
    by (auto simp: inflight_def enqueue_def emit_def)
  moreover have "distinct (inflight (enqueue r s))"
    using ok new by (auto simp: inflight_def enqueue_def emit_def dev_ok_def)
  ultimately show ?thesis using ok ready own
    by (auto simp: dev_ok_def list_all_iff)
qed

section \<open>Looking up the answered request\<close>

lemma find_request_loop_miss:
  "\<forall>r \<in> set xs. \<exists>req. h r = Some req \<and> rq_id req \<noteq> i \<Longrightarrow> find_request_loop h i xs = Inr None"
  by (induction xs) auto

lemma find_request_loop_hit:
  "\<forall>x \<in> set before. \<exists>q. h x = Some q \<and> rq_id q \<noteq> i \<Longrightarrow> h r = Some req \<Longrightarrow> rq_id req = i \<Longrightarrow>
     find_request_loop h i (before @ r # after) = Inr (Some (before, r, after))"
  by (induction before) auto

lemma rtd_split:
  assumes "dev_ok s"
  obtains (miss) "\<forall>r \<in> set (rtdreqs s). \<exists>req. rheap s r = Some req \<and> rq_id req \<noteq> i"
    | (hit) before r after req where "rtdreqs s = before @ r # after" "rheap s r = Some req"
        "rq_id req = i" "\<forall>x \<in> set before. \<exists>q. rheap s x = Some q \<and> rq_id q \<noteq> i"
proof -
  have heap: "\<exists>req. rheap s r = Some req" if "r \<in> set (rtdreqs s)" for r
    using that dev_ok_ready [OF assms, of r] ready_heap by (auto simp: inflight_def)
  show thesis
  proof (cases "\<exists>r \<in> set (rtdreqs s). ident s r = i")
    case False
    then show thesis using heap by (intro miss) (fastforce simp: ident_def)
  next
    case True
    then obtain r before after where split: "rtdreqs s = before @ r # after" "ident s r = i"
        "\<forall>x \<in> set before. ident s x \<noteq> i"
      using split_list_first_prop [of "rtdreqs s" "\<lambda>r. ident s r = i"] by blast
    moreover obtain req where "rheap s r = Some req" using heap split(1) by auto
    moreover have "\<forall>x \<in> set before. \<exists>q. rheap s x = Some q \<and> rq_id q \<noteq> i"
      using heap split(1,3) by (fastforce simp: ident_def)
    ultimately show thesis using hit by (auto simp: ident_def)
  qed
qed

text \<open>The effect of the callback of a request that is ready.\<close>

definition completion_event :: "dev \<Rightarrow> nat \<Rightarrow> int \<Rightarrow> event" where
  "completion_event s r e =
     (case rheap s r of
        None \<Rightarrow> Wake_reader
      | Some req \<Rightarrow>
          (case rq_callback req of
             Cb_user k \<Rightarrow> Called_back k r e
           | _ \<Rightarrow> (case rq_kdata req of KSync d \<Rightarrow> Wake_caller d | _ \<Rightarrow> Wake_reader)))"

definition done_data :: "dev \<Rightarrow> nat \<Rightarrow> nat \<rightharpoonup> sync_call_data" where
  "done_data s r =
     (case waits_on s r of
        None \<Rightarrow> sheap s
      | Some d \<Rightarrow> (sheap s)(d := map_option (sdone_update (\<lambda>_. 1)) (sheap s d)))"

lemma write_hit:
  assumes "8 \<le> count" and ok: "dev_ok s" and split: "rtdreqs s = before @ r # after"
    and r: "rheap s r = Some req" "rq_id req = kr_id kuresp"
    and first: "\<forall>x \<in> set before. \<exists>q. rheap s x = Some q \<and> rq_id q \<noteq> kr_id kuresp"
  shows "qhgpu_write count kuresp s = Inr (int count, s\<lparr>rtdreqs := before @ after,
      rheap := (rheap s)(r \<mapsto> req\<lparr>rq_errcode := kr_errcode kuresp\<rparr>), sheap := done_data s r,
      events := events s @ [completion_event s r (kr_errcode kuresp)],
      fpos := fpos s + int count\<rparr>)"
proof -
  have "req_ready s r" using dev_ok_ready [OF ok, of r] split by (simp add: inflight_def)
  with assms find_request_loop_hit [OF first r] show ?thesis
    by (auto simp: qhgpu_write_def find_request_def run_callback_def sync_callback_def req_ready_def
        done_data_def waits_on_def completion_event_def emit_def
        split: callback.splits kptr.splits option.splits)
qed

lemma write_miss:
  assumes "8 \<le> count"
    and "\<forall>r \<in> set (rtdreqs s). \<exists>req. rheap s r = Some req \<and> rq_id req \<noteq> kr_id kuresp"
  shows "qhgpu_write count kuresp s = Inr (- EFAULT, s)"
  using assms find_request_loop_miss [OF assms(2)] by (simp add: qhgpu_write_def find_request_def)

lemma completion_event_completes: "req_ready s r \<Longrightarrow> is_completion (completion_event s r e)"
  by (auto simp: req_ready_def completion_event_def split: option.splits callback.splits kptr.splits)

lemma dev_ok_completed:
  assumes ok: "dev_ok s" and split: "rtdreqs s = before @ r # after" and r: "rheap s r = Some req"
  shows "dev_ok (s\<lparr>rtdreqs := before @ after, rheap := (rheap s)(r \<mapsto> req\<lparr>rq_errcode := e\<rparr>),
      sheap := done_data s r, events := ev, fpos := p\<rparr>)" (is "dev_ok ?s'")
proof -
  let ?s1 = "s\<lparr>rtdreqs := before @ after\<rparr>"
  have [simp]: "req_ready ?s1 = req_ready s" "waits_on ?s1 = waits_on s"
    by (auto intro: req_ready_state)
  have sub: "set (inflight ?s1) \<subseteq> set (inflight s)" "r \<in> set (inflight s)"
    and new: "r \<notin> set (inflight ?s1)" and "distinct (inflight ?s1)"
    using ok split by (auto simp: inflight_def dev_ok_def)
  with ok have ok1: "dev_ok ?s1" by (auto intro: dev_ok_fewer)
  show ?thesis
  proof (rule dev_ok_cong [OF ok1])
    fix r' d
    assume r': "r' \<in> set (inflight ?s1)" and d: "waits_on ?s1 r' = Some d"
    then have "waits_on s r \<noteq> Some d"
      using ok sub new unfolding dev_ok_def by (metis \<open>waits_on ?s1 = waits_on s\<close> in_mono option.distinct(1))
    then show "sheap ?s' d = sheap ?s1 d"
      by (auto simp: done_data_def split: option.splits)
  qed (use new in auto)
qed

section \<open>Every step keeps the invariant\<close>

lemma inflight_heap: "dev_ok s \<Longrightarrow> r \<in> set (inflight s) \<Longrightarrow> \<exists>req. rheap s r = Some req"
  using dev_ok_ready ready_heap by blast

lemma read_next:
  assumes "reqs s = r # rs" and "rheap s r = Some req"
  shows "qhgpu_read page_shift nonblock signal c junk s =
     Inr (Read_returns (int c) (Some (fill_ku_request page_shift req (gmpool s) junk)),
       s\<lparr>reqs := rs, rtdreqs := (if 0 < c then rtdreqs s @ [r] else rtdreqs s),
         fpos := fpos s + int c\<rparr>)"
  using assms by (simp add: qhgpu_read_def)

lemma read_empty:
  assumes "reqs s = []"
  shows "qhgpu_read page_shift nonblock signal c junk s =
     Inr (if nonblock then Read_returns (- EAGAIN) None
          else if signal then Read_returns (- ERESTARTSYS) None else Read_blocks, s)"
  using assms by (simp add: qhgpu_read_def)

lemma read_ok:
  assumes "dev_ok s" and "0 < c" and run: "qhgpu_read page_shift nonblock signal c junk s = Inr (out, s')"
  shows "dev_ok s' \<and> set (inflight s') = set (inflight s) \<and>
     length (inflight s') = length (inflight s) \<and> events s' = events s"
proof (cases "reqs s")
  case Nil
  with read_empty assms show ?thesis by auto
next
  case (Cons r rs)
  then obtain req where req: "rheap s r = Some req"
    using inflight_heap [OF assms(1), of r] by (auto simp: inflight_def)
  from read_next [OF Cons req] assms(2) run
  have s': "s' = s\<lparr>reqs := rs, rtdreqs := rtdreqs s @ [r], fpos := fpos s + int c\<rparr>" by simp
  have inf: "set (inflight s') = set (inflight s)" "length (inflight s') = length (inflight s)"
    "distinct (inflight s')"
    using assms(1) Cons by (auto simp: s' inflight_def dev_ok_def)
  then have "dev_ok s'" using s' by (intro dev_ok_fewer [OF assms(1)]) auto
  with inf show ?thesis by (simp add: s')
qed

lemma write_effect:
  assumes ok: "dev_ok s" and run: "qhgpu_write count kuresp s = Inr (n, s')"
  shows "dev_ok s' \<and> (s' = s \<or>
     (\<exists>ev. length (inflight s) = Suc (length (inflight s')) \<and> events s' = events s @ [ev] \<and>
        is_completion ev))"
proof (cases "count < 8")
  case True
  with run ok show ?thesis by (simp add: qhgpu_write_def)
next
  case False
  from ok show ?thesis
  proof (cases rule: rtd_split [where i = "kr_id kuresp"])
    case miss
    with write_miss [OF _ miss] False run ok show ?thesis by simp
  next
    case (hit before r after req)
    have "req_ready s r" using dev_ok_ready [OF ok, of r] hit(1) by (simp add: inflight_def)
    with write_hit [OF _ ok hit] False run dev_ok_completed [OF ok hit(1,2)] hit(1) show ?thesis
      by (auto simp: completion_event_completes inflight_def)
  qed
qed

lemma async_effect:
  assumes "dev_ok s" "rheap s r = Some req" "rq_callback req = Cb_user k" "r \<notin> set (inflight s)"
    and "qhgpu_call_async ialloc r s = (e, s')"
  shows "dev_ok s' \<and> (s' = s \<or> length (inflight s') = Suc (length (inflight s)) \<and>
     events s' = events s @ [Wake_reader])"
proof -
  have "dev_ok (enqueue r s)"
    by (rule dev_ok_enqueue) (use assms in \<open>auto simp: req_ready_def waits_on_def\<close>)
  with assms show ?thesis
    by (auto simp: qhgpu_call_async_def inflight_def enqueue_def emit_def split: if_splits)
qed

lemma sync_effect:
  assumes ok: "dev_ok s" and new: "r \<notin> set (inflight s)" "sheap s d = None"
    and run: "qhgpu_call_sync (Some d) ialloc r s = Inr (out, s')"
  shows "dev_ok s' \<and>
     (inflight s' = inflight s \<and> events s' = events s \<or>
      length (inflight s') = Suc (length (inflight s)) \<and> events s' = events s @ [Wake_reader])"
proof -
  have free: "waits_on s r' \<noteq> Some d" if "r' \<in> set (inflight s)" for r'
    using ready_wait [OF dev_ok_ready [OF ok that]] new(2) by fastforce
  have mono: "dev_ok (s\<lparr>sheap := (sheap s)(d \<mapsto> v)\<rparr>)" for v
    using free by (intro dev_ok_cong [OF ok]) auto
  show ?thesis
  proof (cases "dev_state s = QHGPU_TERMINATED \<or> \<not> ialloc")
    case True
    with run ok mono show ?thesis
      by (auto simp: qhgpu_call_sync_def Let_def inflight_def split: if_splits)
  next
    case False
    with run obtain req mods where s': "s' = enqueue r (s\<lparr>
        sheap := (sheap s)(d \<mapsto> \<lparr>oldkdata = rq_kdata req, oldcallback = rq_callback req, sdone = 0\<rparr>),
        rheap := (rheap s)(r \<mapsto> req\<lparr>rq_kdata := KSync d, rq_callback := Cb_sync\<rparr>),
        module_arr := mods\<rparr>)" (is "s' = enqueue r ?s1")
      by (auto simp: qhgpu_call_sync_def Let_def)
    have ok1: "dev_ok ?s1"
      by (rule dev_ok_cong [OF ok]) (use new free in auto)
    have w: "waits_on ?s1 r' = waits_on s r'" if "r' \<noteq> r" for r'
      using that by (simp add: waits_on_def)
    have inf: "inflight ?s1 = inflight s" by (simp add: inflight_def)
    have "dev_ok (enqueue r ?s1)"
    proof (rule dev_ok_enqueue [OF ok1])
      show "waits_on ?s1 r' \<noteq> waits_on ?s1 r" if "r' \<in> set (inflight ?s1)" for r'
        using that free w inf new(1) by (cases "r' = r") (auto simp: waits_on_def)
    qed (use new inf in \<open>auto simp: req_ready_def\<close>)
    then show ?thesis using s' by (auto simp: enqueue_def emit_def inflight_def)
  qed
qed

lemma resume_ok:
  assumes ok: "dev_ok s" and w: "waits_on s r = Some d" "sheap s d = Some data" "sdone data = 1"
    and run: "qhgpu_call_sync_resume d r s = Inr (e, s')"
  shows "dev_ok s' \<and> inflight s' = inflight s \<and> events s' = events s"
proof -
  have no: "waits_on s r' \<noteq> Some d" if "r' \<in> set (inflight s)" for r'
    using ready_wait [OF dev_ok_ready [OF ok that], of d] w by auto
  then have r: "r \<notin> set (inflight s)" using w by blast
  from run obtain req arr where s': "s' = s\<lparr>
      rheap := (rheap s)(r \<mapsto> req\<lparr>rq_kdata := oldkdata data, rq_callback := oldcallback data\<rparr>),
      sheap := (sheap s)(d := None), module_active_checker := arr\<rparr>"
    using w by (auto simp: qhgpu_call_sync_resume_def qhgpu_return_mmap_def)
  have "dev_ok s'"
    by (rule dev_ok_cong [OF ok]) (use r no s' in auto)
  then show ?thesis by (simp add: s' inflight_def)
qed

text \<open>Operations that leave the queues and the requests in flight alone.\<close>

lemma quiet_ok:
  assumes "dev_ok s" and "reqs s' = reqs s" "rtdreqs s' = rtdreqs s" "rheap s' = rheap s" "sheap s' = sheap s"
  shows "dev_ok s' \<and> inflight s' = inflight s"
  using dev_ok_cong [OF assms(1-3)] assms by (simp add: inflight_def)

lemma ioctl_quiet:
  assumes "qhgpu_ioctl env cmd arg s = Inr (e, s')"
  shows "reqs s' = reqs s \<and> rtdreqs s' = rtdreqs s \<and> rheap s' = rheap s \<and> sheap s' = sheap s \<and>
     dev_state s' = dev_state s \<and> submissions s' = submissions s \<and> completions s' = completions s"
  using assms
  by (auto simp: qhgpu_ioctl_def ioctl_set_mmap_def ioctl_batch_def Let_def emit_def submissions_def
      completions_def split: if_splits prod.splits option.splits)

lemma mmap_quiet:
  assumes "qhgpu_mmap s = Inr (e, a, s')"
  shows "reqs s' = reqs s \<and> rtdreqs s' = rtdreqs s \<and> rheap s' = rheap s \<and> sheap s' = sheap s \<and>
     dev_state s' = dev_state s \<and> events s' = events s"
  using assms by (auto simp: qhgpu_mmap_def)

lemma open_quiet:
  assumes "qhgpu_open s = (e, s')"
  shows "reqs s' = reqs s \<and> rtdreqs s' = rtdreqs s \<and> rheap s' = rheap s \<and> sheap s' = sheap s \<and>
     dev_state s' = dev_state s \<and> events s' = events s"
  using assms by (auto simp: qhgpu_open_def Let_def split: if_splits)

lemma alloc_quiet:
  assumes "qhgpu_alloc_request (Some (r, req)) n name s = Inr (r', s')"
  shows "reqs s' = reqs s \<and> rtdreqs s' = rtdreqs s \<and> sheap s' = sheap s \<and>
     dev_state s' = dev_state s \<and> events s' = events s \<and> (\<forall>q. q \<noteq> r \<longrightarrow> rheap s' q = rheap s q)"
  using assms by (auto simp: qhgpu_alloc_request_def qhgpu_mmap_id_def split: if_splits)

text \<open>The balance of submissions: what was submitted is in flight or completed.\<close>

definition balanced :: "dev \<Rightarrow> bool" where
  "balanced s \<longleftrightarrow> submissions s = length (inflight s) + completions s"

lemma balanced_same:
  "balanced s \<Longrightarrow> events s' = events s \<Longrightarrow> length (inflight s') = length (inflight s) \<Longrightarrow> balanced s'"
  by (simp add: balanced_def submissions_def completions_def)

lemma balanced_submit:
  "balanced s \<Longrightarrow> events s' = events s @ [Wake_reader] \<Longrightarrow>
     length (inflight s') = Suc (length (inflight s)) \<Longrightarrow> balanced s'"
  by (simp add: balanced_def submissions_def completions_def)

lemma balanced_complete:
  "balanced s \<Longrightarrow> events s' = events s @ [ev] \<Longrightarrow> is_completion ev \<Longrightarrow>
     length (inflight s) = Suc (length (inflight s')) \<Longrightarrow> balanced s'"
  by (cases ev) (auto simp: balanced_def submissions_def completions_def)

lemma dev_step_keeps:
  assumes "dev_step page_shift s s'" and "dev_ok s" and "balanced s"
  shows "dev_ok s' \<and> balanced s'"
  using assms
proof (cases rule: dev_step.cases)
  case (do_alloc r req n name)
  have "dev_ok s'"
    by (rule dev_ok_cong [OF assms(2)]) (use do_alloc alloc_quiet [OF do_alloc(1)] in auto)
  with alloc_quiet [OF do_alloc(1)] assms(3) balanced_same show ?thesis by (auto simp: inflight_def)
next
  case (do_client r req)
  have "dev_ok s'"
    by (rule dev_ok_cong [OF assms(2)]) (use do_client in auto)
  with do_client assms(3) balanced_same show ?thesis by (auto simp: inflight_def)
next
  case (do_async r req k ialloc e)
  from async_effect [OF assms(2) do_async] assms(3) balanced_submit show ?thesis by blast
next
  case (do_sync r d ialloc out)
  from sync_effect [OF assms(2) do_sync] assms(3) balanced_submit balanced_same show ?thesis by metis
next
  case (do_read c nonblock signal junk out)
  from read_ok [OF assms(2) do_read] assms(3) balanced_same show ?thesis by blast
next
  case (do_write count kuresp n)
  from write_effect [OF assms(2) do_write] assms(3) balanced_complete show ?thesis by blast
next
  case (do_resume r d data e)
  from resume_ok [OF assms(2) do_resume] assms(3) balanced_same show ?thesis by metis
next
  case (do_free r)
  have "dev_ok s'"
    by (rule dev_ok_cong [OF assms(2)]) (use do_free in \<open>auto simp: qhgpu_free_request_def\<close>)
  with do_free assms(3) balanced_same show ?thesis
    by (auto simp: inflight_def qhgpu_free_request_def)
next
  case (do_ioctl env cmd arg e)
  from ioctl_quiet [OF do_ioctl] quiet_ok [OF assms(2), of s'] assms(3) show ?thesis
    by (simp add: balanced_def)
next
  case (do_mmap e a)
  from mmap_quiet [OF do_mmap] quiet_ok [OF assms(2), of s'] assms(3) balanced_same show ?thesis
    by metis
next
  case (do_opened e)
  from open_quiet [OF do_opened] quiet_ok [OF assms(2), of s'] assms(3) balanced_same show ?thesis
    by metis
qed

lemma init_idle:
  "mod_init env static_dev k = (e, s, k') \<Longrightarrow>
     reqs s = [] \<and> rtdreqs s = [] \<and> events s = [] \<and> dev_state s = QHGPU_OK"
  by (auto simp: mod_init_def qhgpu_init_def static_dev_def Let_def split: if_splits prod.splits)

lemma dev_reach_ok: "dev_reach page_shift s \<Longrightarrow> dev_ok s \<and> balanced s"
proof (induction rule: dev_reach.induct)
  case (loaded env k e s k')
  with init_idle [OF loaded] show ?case
    by (simp add: dev_ok_def balanced_def inflight_def submissions_def completions_def)
next
  case (stepped s s')
  then show ?case using dev_step_keeps by blast
qed

section \<open>The interface the helper relies on\<close>

text \<open>
  A broker keeps a sequence of pending and a sequence of delivered requests. Fetching delivers the
  oldest pending request and tells its identifier; answering an identifier completes the first
  delivered request that carries it.
\<close>

locale request_broker =
  fixes inv :: "'s \<Rightarrow> bool"
    and pending :: "'s \<Rightarrow> 'r list"
    and delivered :: "'s \<Rightarrow> 'r list"
    and key :: "'s \<Rightarrow> 'r \<Rightarrow> int"
    and fetch :: "'s \<Rightarrow> (int option \<times> 's) res"
    and answer :: "int \<Rightarrow> int \<Rightarrow> 's \<Rightarrow> 's res"
  assumes fetch_empty: "inv s \<Longrightarrow> pending s = [] \<Longrightarrow> fetch s = Inr (None, s)"
    and fetch_ok: "inv s \<Longrightarrow> pending s = r # rs \<Longrightarrow>
      \<exists>s'. fetch s = Inr (Some (key s r), s') \<and> inv s' \<and> pending s' = rs \<and>
        delivered s' = delivered s @ [r] \<and> key s' = key s"
    and answer_ok: "inv s \<Longrightarrow> delivered s = xs @ r # ys \<Longrightarrow> \<forall>x \<in> set xs. key s x \<noteq> key s r \<Longrightarrow>
      \<exists>s'. answer (key s r) e s = Inr s' \<and> inv s' \<and> pending s' = pending s \<and>
        delivered s' = xs @ ys \<and> key s' = key s"
begin

text \<open>One request fetched and answered.\<close>

lemma fetch_answer:
  assumes "inv s" and "pending s = r # rs" and "\<forall>x \<in> set (delivered s). key s x \<noteq> key s r"
  shows "\<exists>s1 s2. fetch s = Inr (Some (key s r), s1) \<and> answer (key s r) e s1 = Inr s2 \<and> inv s2 \<and>
     pending s2 = rs \<and> delivered s2 = delivered s \<and> key s2 = key s"
proof -
  from fetch_ok [OF assms(1,2)] obtain s1 where
    s1: "fetch s = Inr (Some (key s r), s1)" "inv s1" "pending s1 = rs"
      "delivered s1 = delivered s @ r # []" "key s1 = key s" by auto
  from answer_ok [OF s1(2,4), of e] s1 assms(3) show ?thesis by auto
qed

end

text \<open>A helper that answers every request as soon as it has fetched it, for \<open>n\<close> rounds.\<close>

fun serve :: "('s \<Rightarrow> (int option \<times> 's) res) \<Rightarrow> (int \<Rightarrow> int \<Rightarrow> 's \<Rightarrow> 's res) \<Rightarrow> (int \<Rightarrow> int) \<Rightarrow> nat \<Rightarrow> 's
    \<Rightarrow> (int list \<times> 's) res" where
  "serve fetch answer err 0 s = Inr ([], s)"
| "serve fetch answer err (Suc n) s =
     bindR (fetch s) (\<lambda>(i, s).
     case i of
       None \<Rightarrow> Inr ([], s)
     | Some i \<Rightarrow>
         bindR (answer i (err i) s) (\<lambda>s.
         bindR (serve fetch answer err n s) (\<lambda>(is, s). Inr (i # is, s))))"

context request_broker
begin

text \<open>Such a helper answers every pending request, in the order in which they were submitted.\<close>

lemma serve_in_order:
  assumes "inv s" and "\<forall>r \<in> set (pending s). \<forall>x \<in> set (delivered s). key s x \<noteq> key s r"
    and "length (pending s) \<le> n"
  shows "\<exists>s'. serve fetch answer err n s = Inr (map (key s) (pending s), s') \<and> inv s' \<and>
     pending s' = [] \<and> delivered s' = delivered s"
  using assms
proof (induction "pending s" arbitrary: s n)
  case Nil
  then show ?case using fetch_empty [OF Nil.prems(1)] by (cases n) auto
next
  case (Cons r rs)
  then obtain k where n: "n = Suc k" by (cases n) (auto simp flip: Cons.hyps(2))
  have p: "pending s = r # rs" using Cons.hyps(2) by simp
  have no: "\<forall>x \<in> set (delivered s). key s x \<noteq> key s r" using Cons.prems(2) p by auto
  from fetch_answer [OF Cons.prems(1) p no, of "err (key s r)"] obtain s1 s2 where
    s: "fetch s = Inr (Some (key s r), s1)" "answer (key s r) (err (key s r)) s1 = Inr s2" "inv s2"
      "pending s2 = rs" "delivered s2 = delivered s" "key s2 = key s" by blast
  have "\<exists>s'. serve fetch answer err k s2 = Inr (map (key s2) (pending s2), s') \<and> inv s' \<and>
     pending s' = [] \<and> delivered s' = delivered s2"
    by (rule Cons.hyps(1)) (use s Cons.prems p n in auto)
  then show ?case using s p n by auto
qed

end

text \<open>The device as a broker: non-blocking reads of \<open>c\<close> bytes and writes of \<open>count\<close> bytes.\<close>

definition dev_fetch :: "nat \<Rightarrow> nat \<Rightarrow> ku_request \<Rightarrow> dev \<Rightarrow> (int option \<times> dev) res" where
  "dev_fetch page_shift c junk s =
     bindR (qhgpu_read page_shift True False c junk s) (\<lambda>(out, s').
     Inr (case out of Read_returns n (Some k) \<Rightarrow> Some (ku_id k) | _ \<Rightarrow> None, s'))"

definition dev_answer :: "nat \<Rightarrow> int \<Rightarrow> int \<Rightarrow> dev \<Rightarrow> dev res" where
  "dev_answer count i e s =
     bindR (qhgpu_write count \<lparr>kr_id = i, kr_errcode = e\<rparr> s) (\<lambda>(n, s'). Inr s')"

lemma ident_state: "rheap s' = rheap s \<Longrightarrow> ident s' = ident s"
  by (simp add: ident_def fun_eq_iff)

interpretation broker: request_broker dev_ok reqs rtdreqs ident
    "dev_fetch page_shift (Suc c) junk" "dev_answer (8 + k)" for page_shift c junk k
proof unfold_locales
  fix s r rs
  assume ok: "dev_ok s" and rs: "reqs s = r # rs"
  then obtain req where req: "rheap s r = Some req"
    using inflight_heap [OF ok, of r] by (auto simp: inflight_def)
  define s' where "s' = s\<lparr>reqs := rs, rtdreqs := rtdreqs s @ [r], fpos := fpos s + int (Suc c)\<rparr>"
  have run: "qhgpu_read page_shift True False (Suc c) junk s =
      Inr (Read_returns (int (Suc c)) (Some (fill_ku_request page_shift req (gmpool s) junk)), s')"
    using read_next [OF rs req, of page_shift True False "Suc c" junk] by (simp add: s'_def)
  moreover have "dev_ok s'" using read_ok [OF ok _ run] by simp
  moreover have "ident s' = ident s" by (rule ident_state) (simp add: s'_def)
  moreover have "ident s r = rq_id req" using req by (simp add: ident_def)
  ultimately show "\<exists>s'. dev_fetch page_shift (Suc c) junk s = Inr (Some (ident s r), s') \<and> dev_ok s' \<and>
      reqs s' = rs \<and> rtdreqs s' = rtdreqs s @ [r] \<and> ident s' = ident s"
    by (auto simp: dev_fetch_def fill_ku_request_def s'_def)
next
  fix s xs r ys e
  assume ok: "dev_ok s" and split: "rtdreqs s = xs @ r # ys"
    and first: "\<forall>x \<in> set xs. ident s x \<noteq> ident s r"
  have heap: "\<exists>req. rheap s x = Some req" if "x \<in> set (xs @ r # ys)" for x
    using inflight_heap [OF ok, of x] split that by (auto simp: inflight_def)
  then obtain req where req: "rheap s r = Some req" by auto
  have "\<forall>x \<in> set xs. \<exists>q. rheap s x = Some q \<and> rq_id q \<noteq> ident s r"
    using first heap by (fastforce simp: ident_def)
  with write_hit [OF _ ok split req, of "8 + k" "\<lparr>kr_id = ident s r, kr_errcode = e\<rparr>"]
  have run: "qhgpu_write (8 + k) \<lparr>kr_id = ident s r, kr_errcode = e\<rparr> s =
      Inr (int (8 + k), s\<lparr>rtdreqs := xs @ ys, rheap := (rheap s)(r \<mapsto> req\<lparr>rq_errcode := e\<rparr>),
        sheap := done_data s r, events := events s @ [completion_event s r e],
        fpos := fpos s + int (8 + k)\<rparr>)"
    using req by (simp add: ident_def)
  with write_effect [OF ok run] req
  show "\<exists>s'. dev_answer (8 + k) (ident s r) e s = Inr s' \<and> dev_ok s' \<and> reqs s' = reqs s \<and>
      rtdreqs s' = xs @ ys \<and> ident s' = ident s"
    by (auto simp: dev_answer_def ident_def fun_eq_iff)
qed (auto simp: dev_fetch_def read_empty)

end
