(* ===== verification/QH_Kernel.thy ===== *)
theory QH_Kernel
  imports QH_Requests
begin

text \<open>
  What the kernel module promises: no request is lost and no operation faults in any reachable state,
  reads and writes serve requests in order, synchronous calls give the request back as they found it,
  and the module table, the address translation, the control commands and the loading of the module
  behave as stated.
\<close>

section \<open>Facts for single operations\<close>

lemma mmap_id_loop_spec:
  assumes "cnt \<le> length arr"
  shows "mmap_id_loop i cnt arr =
     (case find (\<lambda>j. arr ! j = 0) [i..<cnt] of
        Some j \<Rightarrow> Inr (j, arr[j := 1])
      | None \<Rightarrow> Inr (0, arr))"
  using assms
proof (induction i cnt arr rule: mmap_id_loop.induct)
  case (1 i cnt arr)
  then show ?case
    by (subst mmap_id_loop.simps) (auto simp: upt_conv_Cons)
qed

lemma call_sync_waits:
  assumes "dev_state s \<noteq> QHGPU_TERMINATED" and "rheap s r = Some req"
    and "0 \<le> rq_id req" "nat (rq_id req) < length (module_arr s)"
  shows "qhgpu_call_sync (Some d) True r s = Inr (Sync_waiting d, enqueue r (s\<lparr>
      sheap := (sheap s)(d \<mapsto> \<lparr>oldkdata = rq_kdata req, oldcallback = rq_callback req, sdone = 0\<rparr>),
      rheap := (rheap s)(r \<mapsto> req\<lparr>rq_kdata := KSync d, rq_callback := Cb_sync\<rparr>),
      module_arr := (module_arr s)[nat (rq_id req) := rq_module req]\<rparr>))"
  using assms by (simp add: qhgpu_call_sync_def Let_def)

text \<open>Reading and writing change neither the state of the device nor its availability.\<close>

definition same_mode :: "dev \<Rightarrow> dev \<Rightarrow> bool" where
  "same_mode s s' \<longleftrightarrow> dev_state s' = dev_state s \<and> qhgpu_av s' = qhgpu_av s"

lemma run_callback_mode: "run_callback r s = Inr s' \<Longrightarrow> same_mode s s'"
proof -
  have sync: "sync_callback r s = Inr s' \<Longrightarrow> same_mode s s'"
    by (clarsimp simp: sync_callback_def) (auto simp: emit_def same_mode_def split: kptr.splits)
  assume "run_callback r s = Inr s'"
  then show ?thesis
    using sync by (clarsimp simp: run_callback_def)
      (auto simp: emit_def same_mode_def split: callback.splits)
qed

lemma find_request_mode: "find_request i off s = Inr (x, s') \<Longrightarrow> same_mode s s'"
  by (clarsimp simp: find_request_def) (auto simp: same_mode_def split: option.splits if_splits)

lemma write_mode:
  assumes "qhgpu_write count kuresp s = Inr (n, s')"
  shows "same_mode s s'"
proof (cases "count < 8")
  case True
  with assms show ?thesis by (simp add: qhgpu_write_def same_mode_def)
next
  case False
  with assms obtain item s1 where s1: "find_request (kr_id kuresp) True s = Inr (item, s1)"
    by (auto simp: qhgpu_write_def)
  show ?thesis
  proof (cases item)
    case None
    with assms False s1 find_request_mode [OF s1] show ?thesis by (simp add: qhgpu_write_def)
  next
    case (Some r)
    with assms False s1 obtain req s2 where
      "run_callback r (s1\<lparr>rheap := (rheap s1)(r \<mapsto> req\<lparr>rq_errcode := kr_errcode kuresp\<rparr>)\<rparr>) = Inr s2"
      "s' = s2\<lparr>fpos := fpos s2 + int count\<rparr>"
      by (auto simp: qhgpu_write_def)
    with run_callback_mode find_request_mode [OF s1] show ?thesis by (fastforce simp: same_mode_def)
  qed
qed

lemma read_mode:
  assumes "qhgpu_read page_shift nonblock signal c junk s = Inr (out, s')"
  shows "same_mode s s'"
proof (cases "reqs s")
  case Nil
  with assms show ?thesis by (simp add: read_empty same_mode_def)
next
  case (Cons r rs)
  with assms obtain req where "rheap s r = Some req" by (auto simp: qhgpu_read_def)
  from read_next [OF Cons this] assms show ?thesis by (auto simp: same_mode_def)
qed

lemma dev_step_state:
  assumes "dev_step page_shift s s'"
  shows "dev_state s' = dev_state s"
  using assms
proof (cases rule: dev_step.cases)
  case (do_write count kuresp n)
  then show ?thesis using write_mode by (simp add: same_mode_def)
next
  case (do_read c nonblock signal junk out)
  then show ?thesis using read_mode by (simp add: same_mode_def)
qed (auto dest!: ioctl_quiet mmap_quiet open_quiet alloc_quiet simp: qhgpu_call_async_def
    qhgpu_call_sync_def enqueue_def emit_def Let_def qhgpu_call_sync_resume_def
    qhgpu_return_mmap_def qhgpu_free_request_def split: if_splits)

lemma dev_reach_running: "dev_reach page_shift s \<Longrightarrow> dev_state s = QHGPU_OK"
proof (induction rule: dev_reach.induct)
  case (loaded env k e s k')
  then show ?case using init_idle by blast
next
  case (stepped s s')
  then show ?case using dev_step_state by metis
qed

lemma dev_step_av:
  assumes "dev_step page_shift s s'" and "qhgpu_av s = 0"
  shows "qhgpu_av s' = 0"
  using assms
proof (cases rule: dev_step.cases)
  case (do_write count kuresp n)
  then show ?thesis using write_mode assms(2) by (simp add: same_mode_def)
next
  case (do_read c nonblock signal junk out)
  then show ?thesis using read_mode assms(2) by (simp add: same_mode_def)
next
  case (do_ioctl env cmd arg e)
  then show ?thesis using assms(2)
    by (auto simp: qhgpu_ioctl_def ioctl_set_mmap_def ioctl_batch_def Let_def emit_def
      split: if_splits prod.splits option.splits)
qed (auto simp: qhgpu_call_async_def qhgpu_mmap_def qhgpu_open_def
    qhgpu_call_sync_def enqueue_def emit_def Let_def qhgpu_call_sync_resume_def qhgpu_mmap_id_def
    qhgpu_return_mmap_def qhgpu_free_request_def qhgpu_alloc_request_def split: if_splits)

lemma dev_steps_av: "(dev_step page_shift)\<^sup>*\<^sup>* s s' \<Longrightarrow> qhgpu_av s = 0 \<Longrightarrow> qhgpu_av s' = 0"
  by (induction rule: rtranclp_induct) (auto intro: dev_step_av)

section \<open>Properties\<close>



text \<open>C24: A response completes exactly the first request delivered with its identifier: the error code
  is stored, its callback runs once, it leaves the list, and no other request changes. An identifier
  that no delivered request has gives \<open>-EFAULT\<close>, a short write \<open>-EINVAL\<close>, both without effect.\<close>

theorem write_completes_first_match:
  assumes "dev_ok s"
  shows "if count < 8 then qhgpu_write count kuresp s = Inr (- EINVAL, s)
     else case List.extract (\<lambda>r. ident s r = kr_id kuresp) (rtdreqs s) of
       None \<Rightarrow> qhgpu_write count kuresp s = Inr (- EFAULT, s)
     | Some (before, r, after) \<Rightarrow> \<exists>s' req. qhgpu_write count kuresp s = Inr (int count, s') \<and>
         rheap s r = Some req \<and> rheap s' = (rheap s)(r \<mapsto> req\<lparr>rq_errcode := kr_errcode kuresp\<rparr>) \<and>
         rtdreqs s' = before @ after \<and> reqs s' = reqs s \<and>
         events s' = events s @ [completion_event s r (kr_errcode kuresp)] \<and>
         is_completion (completion_event s r (kr_errcode kuresp))"
proof (cases "count < 8")
  case True
  then show ?thesis by (simp add: qhgpu_write_def)
next
  case False
  have heap: "\<exists>req. rheap s x = Some req" if "x \<in> set (rtdreqs s)" for x
    using inflight_heap [OF assms, of x] that by (auto simp: inflight_def)
  show ?thesis
  proof (cases "List.extract (\<lambda>r. ident s r = kr_id kuresp) (rtdreqs s)")
    case None
    then have "\<forall>r \<in> set (rtdreqs s). \<exists>req. rheap s r = Some req \<and> rq_id req \<noteq> kr_id kuresp"
      using heap unfolding extract_None_iff by (fastforce simp: ident_def)
    with None False write_miss [of count s kuresp] show ?thesis by simp
  next
    case (Some t)
    obtain before r after where t: "t = (before, r, after)" by (cases t) auto
    from Some t have "List.extract (\<lambda>r. ident s r = kr_id kuresp) (rtdreqs s) = Some (before, r, after)"
      by simp
    then have split: "rtdreqs s = before @ r # after" "ident s r = kr_id kuresp"
      "\<forall>x \<in> set before. ident s x \<noteq> kr_id kuresp"
      unfolding extract_Some_iff by auto
    then obtain req where req: "rheap s r = Some req" using heap by auto
    have "\<forall>x \<in> set before. \<exists>q. rheap s x = Some q \<and> rq_id q \<noteq> kr_id kuresp"
      using heap split(1,3) by (fastforce simp: ident_def)
    with write_hit [OF _ assms split(1) req] False split(2) req
    have "qhgpu_write count kuresp s = Inr (int count, s\<lparr>rtdreqs := before @ after,
      rheap := (rheap s)(r \<mapsto> req\<lparr>rq_errcode := kr_errcode kuresp\<rparr>), sheap := done_data s r,
      events := events s @ [completion_event s r (kr_errcode kuresp)], fpos := fpos s + int count\<rparr>)"
      by (simp add: ident_def)
    moreover have "req_ready s r" using dev_ok_ready [OF assms, of r] split(1) by (simp add: inflight_def)
    ultimately show ?thesis using Some t False req by (simp add: completion_event_completes)
  qed
qed


text \<open>A read of 0 bytes hands the request out and forgets it: it is in neither list afterwards, so
  that no response can complete it.\<close>

theorem read_zero_drops_request:
  assumes "dev_ok s" and "reqs s = r # rs"
  shows "\<exists>k s'. qhgpu_read page_shift nonblock signal 0 junk s = Inr (Read_returns 0 (Some k), s') \<and>
     ku_id k = ident s r \<and> r \<notin> set (inflight s') \<and> submissions s' = submissions s \<and>
     completions s' = completions s"
proof -
  obtain req where req: "rheap s r = Some req"
    using inflight_heap [OF assms(1), of r] assms(2) by (auto simp: inflight_def)
  with read_next [OF assms(2) req] assms show ?thesis
    by (auto simp: dev_ok_def inflight_def submissions_def completions_def ident_def
        fill_ku_request_def)
qed

text \<open>C26: A synchronous call on an idle device, read and answered by the helper, returns 0 and gives the
  request back with its old callback and private data and with the error code of the response. The
  call data is freed, the module slot is released and no other request has changed.\<close>

theorem sync_call_roundtrip:
  assumes ok: "dev_ok s" and st: "dev_state s \<noteq> QHGPU_TERMINATED" and idle: "reqs s = []"
    and r: "rheap s r = Some req" "r \<notin> set (inflight s)" and d: "sheap s d = None"
    and slot: "0 \<le> rq_id req" "nat (rq_id req) < length (module_arr s)"
      "nat (rq_id req) < length (module_active_checker s)"
    and uniq: "\<forall>x \<in> set (rtdreqs s). ident s x \<noteq> rq_id req" and "0 < c" and "8 \<le> count"
  shows "\<exists>s1 k s2 s3 s4. qhgpu_call_sync (Some d) True r s = Inr (Sync_waiting d, s1) \<and>
     qhgpu_read page_shift nonblock signal c junk s1 = Inr (Read_returns (int c) (Some k), s2) \<and>
     ku_service_name k = rq_service_name req \<and>
     qhgpu_write count \<lparr>kr_id = ku_id k, kr_errcode = e\<rparr> s2 = Inr (int count, s3) \<and>
     map_option sdone (sheap s3 d) = Some 1 \<and>
     qhgpu_call_sync_resume d r s3 = Inr (0, s4) \<and>
     rheap s4 = (rheap s)(r \<mapsto> req\<lparr>rq_errcode := e\<rparr>) \<and> sheap s4 = sheap s \<and>
     reqs s4 = [] \<and> rtdreqs s4 = rtdreqs s \<and> module_active_checker s4 ! nat (rq_id req) = 0"
proof -
  define s1 where "s1 = enqueue r (s\<lparr>
      sheap := (sheap s)(d \<mapsto> \<lparr>oldkdata = rq_kdata req, oldcallback = rq_callback req, sdone = 0\<rparr>),
      rheap := (rheap s)(r \<mapsto> req\<lparr>rq_kdata := KSync d, rq_callback := Cb_sync\<rparr>),
      module_arr := (module_arr s)[nat (rq_id req) := rq_module req]\<rparr>)"
  have call: "qhgpu_call_sync (Some d) True r s = Inr (Sync_waiting d, s1)"
    unfolding s1_def by (rule call_sync_waits [OF st r(1) slot(1,2)])
  have ok1: "dev_ok s1" using sync_effect [OF ok r(2) d call] by blast
  have q1: "reqs s1 = r # []" "rheap s1 r = Some (req\<lparr>rq_kdata := KSync d, rq_callback := Cb_sync\<rparr>)"
    using idle by (auto simp: s1_def enqueue_def emit_def)
  define s2 where "s2 = s1\<lparr>reqs := [], rtdreqs := rtdreqs s1 @ [r], fpos := fpos s1 + int c\<rparr>"
  define k where "k = fill_ku_request page_shift (req\<lparr>rq_kdata := KSync d, rq_callback := Cb_sync\<rparr>)
      (gmpool s1) junk"
  have rd: "qhgpu_read page_shift nonblock signal c junk s1 = Inr (Read_returns (int c) (Some k), s2)"
    using read_next [OF q1] \<open>0 < c\<close> by (simp add: s2_def k_def)
  have ok2: "dev_ok s2" using read_ok [OF ok1 \<open>0 < c\<close> rd] by blast
  have k: "ku_id k = rq_id req" "ku_service_name k = rq_service_name req"
    by (auto simp: k_def fill_ku_request_def)
  have q2: "rtdreqs s2 = rtdreqs s @ r # []" "rheap s2 r = rheap s1 r" "waits_on s2 r = Some d"
    using q1 by (auto simp: s2_def s1_def enqueue_def emit_def waits_on_def)
  have first: "\<forall>x \<in> set (rtdreqs s). \<exists>q. rheap s2 x = Some q \<and> rq_id q \<noteq> rq_id req"
    using uniq r inflight_heap [OF ok]
    by (fastforce simp: s2_def s1_def enqueue_def emit_def ident_def inflight_def)
  have wr: "qhgpu_write count \<lparr>kr_id = ku_id k, kr_errcode = e\<rparr> s2 = Inr (int count,
      s2\<lparr>rtdreqs := rtdreqs s @ [], rheap := (rheap s2)(r \<mapsto>
          req\<lparr>rq_kdata := KSync d, rq_callback := Cb_sync, rq_errcode := e\<rparr>),
        sheap := done_data s2 r, events := events s2 @ [completion_event s2 r e],
        fpos := fpos s2 + int count\<rparr>)" (is "_ = Inr (_, ?s3)")
    using write_hit [OF \<open>8 \<le> count\<close> ok2 q2(1), of "req\<lparr>rq_kdata := KSync d, rq_callback := Cb_sync\<rparr>"]
      q1 q2 first k by simp
  have "sheap ?s3 = (sheap s)(d \<mapsto> \<lparr>oldkdata = rq_kdata req, oldcallback = rq_callback req, sdone = 1\<rparr>)"
    using q2(3) by (auto simp: done_data_def s2_def s1_def enqueue_def emit_def)
  then have d3: "sheap ?s3 d = Some \<lparr>oldkdata = rq_kdata req, oldcallback = rq_callback req, sdone = 1\<rparr>"
    and d4: "(sheap ?s3)(d := None) = sheap s" using d by (auto simp: fun_eq_iff)
  have len: "length (module_active_checker ?s3) = length (module_active_checker s)"
    by (simp add: s2_def s1_def enqueue_def emit_def)
  define s4 where "s4 = ?s3\<lparr>
      rheap := (rheap s)(r \<mapsto> req\<lparr>rq_errcode := e\<rparr>), sheap := sheap s,
      module_active_checker := (module_active_checker ?s3)[nat (rq_id req) := 0]\<rparr>"
  have "qhgpu_call_sync_resume d r ?s3 = Inr (0, s4)"
    using d3 d4 slot len
    by (simp add: qhgpu_call_sync_resume_def qhgpu_return_mmap_def s4_def s2_def s1_def enqueue_def
        emit_def)
  moreover have "rheap s4 = (rheap s)(r \<mapsto> req\<lparr>rq_errcode := e\<rparr>)" "sheap s4 = sheap s"
    "reqs s4 = []" "rtdreqs s4 = rtdreqs s" "module_active_checker s4 ! nat (rq_id req) = 0"
    using slot len by (auto simp: s4_def s2_def)
  moreover have "map_option sdone (sheap ?s3 d) = Some 1" using d3 by simp
  ultimately show ?thesis using call rd wr k(2) by blast
qed

text \<open>C38: A signal that interrupts the wait of a synchronous call breaks the device: the call takes its
  data back although the request is still delivered, and the response that arrives later calls the
  restored callback. When the client had set none, the write faults.\<close>

theorem interrupted_sync_call_faults:
  assumes "dev_ok s" and "rtdreqs s = before @ r # after" and "waits_on s r = Some d"
    and "sheap s d = Some data" and "oldcallback data = Cb_null"
    and "\<forall>x \<in> set before. ident s x \<noteq> ident s r"
    and "0 \<le> ident s r" "nat (ident s r) < length (module_active_checker s)" and "8 \<le> count"
  shows "\<exists>s'. qhgpu_call_sync_resume d r s = Inr (0, s') \<and>
     qhgpu_write count \<lparr>kr_id = ident s r, kr_errcode = e\<rparr> s' = Inl Null_deref"
proof -
  have heap: "\<exists>q. rheap s x = Some q" if "x \<in> set (rtdreqs s)" for x
    using inflight_heap [OF assms(1), of x] that by (auto simp: inflight_def)
  then obtain req where req: "rheap s r = Some req" using assms(2) by auto
  have notin: "r \<notin> set before" using assms(1,2) by (auto simp: dev_ok_def inflight_def)
  define s' where "s' = s\<lparr>
      rheap := (rheap s)(r \<mapsto> req\<lparr>rq_kdata := oldkdata data, rq_callback := oldcallback data\<rparr>),
      sheap := (sheap s)(d := None),
      module_active_checker := (module_active_checker s)[nat (rq_id req) := 0]\<rparr>"
  have "qhgpu_call_sync_resume d r s = Inr (0, s')"
    using assms(4,7,8) req
    by (simp add: qhgpu_call_sync_resume_def qhgpu_return_mmap_def s'_def ident_def)
  moreover have "find_request_loop (rheap s') (ident s r) (rtdreqs s') = Inr (Some (before, r, after))"
  proof -
    have "\<forall>x \<in> set before. \<exists>q. rheap s' x = Some q \<and> rq_id q \<noteq> ident s r"
      using assms(2,6) heap notin by (fastforce simp: s'_def ident_def)
    from find_request_loop_hit [OF this, of r
        "req\<lparr>rq_kdata := oldkdata data, rq_callback := oldcallback data\<rparr>" after] assms(2) req
    show ?thesis by (simp add: s'_def ident_def fun_upd_def)
  qed
  ultimately show ?thesis
    using assms(5,9) by (auto simp: qhgpu_write_def find_request_def run_callback_def s'_def)
qed

text \<open>\<open>qhgpu_mmap_id\<close> gives the least free slot of the module table and marks it used; when every
  slot is used it gives slot 0, which belongs to another module, and reports no error.\<close>

theorem mmap_id_least_free_or_zero:
  assumes "nat (module_cnt s) \<le> length (module_active_checker s)"
  shows "qhgpu_mmap_id s =
     Inr (case find (\<lambda>j. module_active_checker s ! j = 0) [0..<nat (module_cnt s)] of
            Some j \<Rightarrow> (int j, s\<lparr>module_active_checker := (module_active_checker s)[j := 1]\<rparr>)
          | None \<Rightarrow> (0, s))"
  using mmap_id_loop_spec [OF assms, of 0]
  by (auto simp: qhgpu_mmap_id_def split: option.split)

text \<open>The device can be opened once per load of the module: after a successful \<open>open\<close>, whatever
  happens, every later one fails and changes nothing.\<close>

theorem device_opens_once:
  assumes "qhgpu_open s = (0, s1)" and "(dev_step page_shift)\<^sup>*\<^sup>* s1 s2"
  shows "qhgpu_open s2 = (- 1, s2)"
proof -
  have "qhgpu_av s1 = 0" using assms(1) by (auto simp: qhgpu_open_def Let_def split: if_splits)
  with dev_steps_av [OF assms(2)] show ?thesis by (simp add: qhgpu_open_def)
qed

text \<open>\<open>QHGPU_IOC_SET_STOP\<close> does nothing, and no reachable state refuses calls as terminated: every
  asynchronous call for which an item can be allocated is queued.\<close>

theorem calls_never_refused:
  assumes "dev_reach page_shift s"
  shows "qhgpu_ioctl env QHGPU_IOC_SET_STOP arg s = Inr (0, s) \<and>
     qhgpu_call_async True r s = (0, enqueue r s)"
proof -
  have "dev_state s = QHGPU_OK" by (rule dev_reach_running [OF assms])
  then show ?thesis
    by (simp add: qhgpu_call_async_def qhgpu_codes qhgpu_ioctl_def ioctl_access_def ioc_defs)
qed

text \<open>A control command that is none of the five of the module gives \<open>-ENOTTY\<close>, or \<open>-EFAULT\<close> when the
  address is not accessible, and has no effect.\<close>

theorem ioctl_unknown_rejected:
  assumes "cmd \<notin> {QHGPU_IOC_SET_GPU_BUFS, QHGPU_IOC_SET_MMAP, QHGPU_IOC_BATCH_H2D,
     QHGPU_IOC_BATCH_D2H, QHGPU_IOC_SET_STOP}"
  shows "qhgpu_ioctl env cmd arg s =
     Inr (if IOC_TYPE cmd = QHGPU_IOC_MAGIC \<and> IOC_NR cmd \<le> QHGPU_IOC_MAXNR \<and> \<not> ioctl_access env cmd arg
          then - EFAULT else - ENOTTY, s)"
  using assms by (auto simp: qhgpu_ioctl_def)

lemma pool_range:
  assumes "unat (npages m) * 4096 < 2 ^ 32" and "unat (kva m) + unat (npages m) * 4096 < 2 ^ 64"
  shows "unat (kva m + ucast (push_bit 12 (npages m) :: u32)) = unat (kva m) + unat (npages m) * 4096"
proof -
  have "unat (push_bit 12 (npages m) :: u32) = unat (npages m) * 4096"
    using assms(1) by (simp add: push_bit_eq_mult unat_word_ariths)
  then have "unat (ucast (push_bit 12 (npages m) :: u32) :: u64) = unat (npages m) * 4096"
    using assms(1) by (simp add: unsigned_ucast_eq take_bit_nat_eq_self)
  then show ?thesis using assms(2) by (simp add: unat_word_ariths)
qed

text \<open>A pointer into the buffer pool reaches user space at the same offset of the helper's mapping,
  and a pointer below the pool is passed on as it is.\<close>

theorem ku_pointer_rebases:
  assumes "unat (npages m) * 4096 < 2 ^ 32" and "unat (kva m) + unat (npages m) * 4096 < 2 ^ 64"
  shows "(unat (kva m) \<le> unat p \<and> unat p < unat (kva m) + unat (npages m) * PAGE_SIZE \<longrightarrow>
       ku_pointer 12 m p = uva m + of_nat (unat p - unat (kva m))) \<and>
     (unat p < unat (kva m) \<longrightarrow> ku_pointer 12 m p = p)"
proof -
  note top = pool_range [OF assms]
  have "p - kva m = of_nat (unat p - unat (kva m))" if "kva m \<le> p"
    using that by (simp add: word_le_nat_alt)
  with top show ?thesis
    by (auto simp: ku_pointer_def ADDR_WITHIN_def ADDR_REBASE_def word_le_nat_alt word_less_nat_alt
        PAGE_SIZE_def)
qed

text \<open>The range test shifts the number of pages by the kernel's \<open>PAGE_SHIFT\<close> although the pool counts
  pages of 512 bytes: a pointer just behind the pool is translated as if it were inside.\<close>

theorem ku_pointer_range_too_large:
  assumes "unat (npages m) * 4096 < 2 ^ 32" and "unat (kva m) + unat (npages m) * 4096 < 2 ^ 64"
    and "unat (kva m) + unat (npages m) * PAGE_SIZE \<le> unat p"
    and "unat p < unat (kva m) + unat (npages m) * 4096"
  shows "ku_pointer 12 m p = uva m + (p - kva m)"
  using pool_range [OF assms(1,2)] assms(3,4)
  by (auto simp: ku_pointer_def ADDR_WITHIN_def ADDR_REBASE_def word_le_nat_alt word_less_nat_alt)

text \<open>The number of batches of a request is the least number of blocks of \<open>MAX_BATCH_SIZE\<close> bytes that
  hold its data.\<close>

theorem batch_count_ceiling:
  assumes "0 < n"
  shows "n \<le> batch_count n * MAX_BATCH_SIZE \<and> (batch_count n - 1) * MAX_BATCH_SIZE < n"
proof -
  have *: "n sdiv 262144 = n div 262144" "n smod 262144 = n mod 262144"
    using assms by (simp_all add: signed_divide_int_def signed_modulo_int_def)
  define q r where "q = n div 262144" and "r = n mod 262144"
  have "batch_count n = (if r = 0 then q else q + 1)"
    by (simp add: batch_count_def MAX_BATCH_SIZE_def * q_def r_def)
  moreover have "n = q * 262144 + r" "0 \<le> r" "r < 262144" by (simp_all add: q_def r_def)
  ultimately show ?thesis by (auto simp: MAX_BATCH_SIZE_def)
qed

text \<open>Loading never reports a failure of \<open>qhgpu_init\<close>, and unloading after a successful load leaves
  the three slab caches behind.\<close>

theorem module_load_unload_leaks_caches:
  assumes "in_request_cache env" "in_item_cache env" "in_data_cache env"
  shows "\<exists>s' k'. mod_init env s k = (0, s', k') \<and>
     request_cache (mod_exit k') \<and> request_item_cache (mod_exit k') \<and>
     sync_call_data_cache (mod_exit k') \<and> \<not> device_node (mod_exit k') \<and> \<not> dev_class (mod_exit k')"
  using assms
  by (auto simp: mod_init_def qhgpu_init_def init_chrdev_def mod_exit_def qhgpu_clean_def Let_def
      split: prod.splits if_splits)

text \<open>Request identifiers from the sequence are never negative, and the sequence starts again at 0
  after the largest \<open>int\<close>.\<close>

theorem next_request_id_wraps:
  "\<exists>i s'. qhgpu_next_request_id s = (i, s') \<and> 0 \<le> i \<and> sint (rid_sequence s') = i \<and>
     (0 \<le> sint (rid_sequence s) \<longrightarrow> i = (sint (rid_sequence s) + 1) mod 2 ^ 31)"
proof -
  let ?q = "rid_sequence s"
  have "sint (?q + 1) = (if sint ?q = 2 ^ 31 - 1 then - (2 ^ 31) else sint ?q + 1)" if "0 \<le> sint ?q"
  proof (cases "sint ?q = 2 ^ 31 - 1")
    case True
    then have "?q = 2147483647" by (intro signed_word_eqI) simp
    then show ?thesis by simp
  next
    case False
    have "sint ?q < 2 ^ 31" using sint_lt [of ?q] by simp
    with False that show ?thesis
      by (simp add: sint_word_ariths signed_take_bit_int_eq_self)
  qed
  moreover have "sint ?q < 2 ^ 31" using sint_lt [of ?q] by simp
  ultimately show ?thesis
    by (auto simp: qhgpu_next_request_id_def Let_def)
qed

section \<open>Concrete runs\<close>

text \<open>A loaded module, a client that submitted one asynchronous request, a request that was read, and a
  synchronous call that waits for its answer.\<close>

definition sample_init_env :: init_env where
  "sample_init_env = \<lparr>in_request_cache = True, in_item_cache = True, in_data_cache = True,
     in_class = 0, in_region = 0, in_cdev = 0, in_device = 0\<rparr>"

definition no_kobjs :: kobjs where
  "no_kobjs = \<lparr>request_cache = False, request_item_cache = False, sync_call_data_cache = False,
     dev_class = False, chrdev_region = False, cdev_added = False, device_node = False\<rparr>"

definition sample_client :: dev where
  "sample_client = static_dev\<lparr>rheap := [0 \<mapsto> zero_request\<lparr>rq_callback := Cb_user 5\<rparr>]\<rparr>"

definition sample_busy :: dev where
  "sample_busy = enqueue 0 sample_client"

definition sample_delivered :: dev where
  "sample_delivered = sample_client\<lparr>rtdreqs := [0], events := [Wake_reader]\<rparr>"

definition sample_waiting :: dev where
  "sample_waiting = static_dev\<lparr>rtdreqs := [0],
     rheap := [0 \<mapsto> zero_request\<lparr>rq_kdata := KSync 3, rq_callback := Cb_sync\<rparr>],
     sheap := [3 \<mapsto> \<lparr>oldkdata = KNull, oldcallback = Cb_null, sdone = 0\<rparr>],
     module_active_checker := [1]\<rparr>"

definition sample_junk :: ku_request where
  "sample_junk = \<lparr>ku_id = 77, ku_mmap_addr = 0, ku_kmmap_addr = 0, ku_service_name = [], ku_in = 0,
     ku_out = 0, ku_data = 0, ku_insize = 0, ku_outsize = 0, ku_datasize = 0, ku_mmap_size = 0,
     ku_batch_size = 0\<rparr>"

lemmas sample_dev_defs = sample_client_def sample_busy_def sample_delivered_def sample_waiting_def
  static_dev_def enqueue_def emit_def zero_request_def

lemma sample_loaded: "dev_reach 12 static_dev"
proof (rule dev_reach.loaded)
  show "mod_init sample_init_env static_dev no_kobjs = (0, static_dev,
      \<lparr>request_cache = True, request_item_cache = True, sync_call_data_cache = True,
       dev_class = True, chrdev_region = True, cdev_added = True, device_node = True\<rparr>)"
    by (simp add: mod_init_def qhgpu_init_def init_chrdev_def sample_init_env_def static_dev_def
        no_kobjs_def qhgpu_codes Let_def)
qed

lemma sample_busy_reach: "dev_reach 12 sample_busy"
proof -
  have "dev_step 12 static_dev sample_client"
    using dev_step.do_client [of 0 static_dev 12] by (simp add: sample_dev_defs inflight_def)
  then have "dev_reach 12 sample_client" using sample_loaded dev_reach.stepped by blast
  moreover have "dev_step 12 sample_client sample_busy"
    by (rule dev_step.do_async [where r = 0 and k = 5 and ialloc = True and e = 0])
      (auto simp: sample_dev_defs inflight_def qhgpu_call_async_def qhgpu_codes)
  ultimately show ?thesis using dev_reach.stepped by blast
qed

lemma sample_oks: "dev_ok sample_busy" "dev_ok sample_delivered" "dev_ok sample_waiting"
  "dev_ok (sample_client\<lparr>module_arr := [None], module_active_checker := [1]\<rparr>)"
  by (auto simp: sample_dev_defs dev_ok_def inflight_def req_ready_def)



theorem write_completes_first_match_witness:
  "\<exists>s'. qhgpu_write 8 \<lparr>kr_id = 0, kr_errcode = 2\<rparr> sample_delivered = Inr (8, s') \<and> rtdreqs s' = [] \<and>
     events s' = [Wake_reader, Called_back 5 0 2]"
  using write_completes_first_match [OF sample_oks(2), of 8 "\<lparr>kr_id = 0, kr_errcode = 2\<rparr>"]
  by (auto simp: sample_dev_defs ident_def List.extract_def completion_event_def)


theorem read_zero_drops_request_witness:
  "\<exists>k s'. qhgpu_read 12 False False 0 sample_junk sample_busy = Inr (Read_returns 0 (Some k), s') \<and>
     inflight s' = []"
  using read_zero_drops_request [OF sample_oks(1), of 0 "[]" 12 False False sample_junk]
  by (auto simp: sample_dev_defs inflight_def qhgpu_read_def)

theorem sync_call_roundtrip_witness:
  "\<exists>s1. qhgpu_call_sync (Some 3) True 0 (sample_client\<lparr>module_arr := [None], module_active_checker := [1]\<rparr>) =
     Inr (Sync_waiting 3, s1)"
  using sync_call_roundtrip [OF sample_oks(4), of 0 "zero_request\<lparr>rq_callback := Cb_user 5\<rparr>" 3 1 8]
  by (fastforce simp: sample_dev_defs qhgpu_codes inflight_def)

theorem interrupted_sync_call_faults_witness:
  "\<exists>s'. qhgpu_call_sync_resume 3 0 sample_waiting = Inr (0, s') \<and>
     qhgpu_write 8 \<lparr>kr_id = 0, kr_errcode = 0\<rparr> s' = Inl Null_deref"
  using interrupted_sync_call_faults [OF sample_oks(3), of "[]" 0 "[]" 3 _ 8 0]
  by (auto simp: sample_dev_defs waits_on_def ident_def)

theorem mmap_id_least_free_or_zero_witness:
  "\<exists>s'. qhgpu_mmap_id (static_dev\<lparr>module_cnt := 3, module_active_checker := [1, 0, 0]\<rparr>) = Inr (1, s') \<and>
     module_active_checker s' = [1, 1, 0]"
proof -
  have upt: "[0..<3] = [0, 1, 2 :: nat]" by (simp add: numeral_eq_Suc)
  show ?thesis
    using mmap_id_least_free_or_zero [of "static_dev\<lparr>module_cnt := 3, module_active_checker := [1, 0, 0]\<rparr>"]
    by (simp add: upt)
qed

theorem device_opens_once_witness:
  "qhgpu_open (static_dev\<lparr>qhgpu_av := 0\<rparr>) = (- 1, static_dev\<lparr>qhgpu_av := 0\<rparr>)"
  using device_opens_once [of static_dev "static_dev\<lparr>qhgpu_av := 0\<rparr>"]
  by (auto simp: qhgpu_open_def static_dev_def)

theorem calls_never_refused_witness:
  "qhgpu_call_async True 1 sample_busy = (0, enqueue 1 sample_busy)"
  using calls_never_refused [OF sample_busy_reach] by blast

definition sample_ioctl_env :: ioctl_env where
  "sample_ioctl_env = \<lparr>io_access_ok = \<lambda>w a n. True, io_mem_info = \<lambda>a. (0x7f0000, 204800),
     io_kenv = sample_kenv, io_ints = \<lambda>n. replicate (unat n div 4) 0,
     io_kmmap = \<lambda>n. replicate (unat n div 8) 0, io_mmap = \<lambda>n. replicate (unat n div 8) 0,
     io_modules = \<lambda>n. replicate (unat n div 8) None, io_free_pages = \<lambda>i. 0x1000\<rparr>"

theorem ioctl_unknown_rejected_witness:
  "qhgpu_ioctl sample_ioctl_env 0 0 static_dev = Inr (- ENOTTY, static_dev)"
  using ioctl_unknown_rejected [of 0 sample_ioctl_env 0 static_dev]
  by (simp add: ioc_defs)

theorem ku_pointer_rebases_witness:
  "ku_pointer 12 sample_pool 0x100100 = 0x7f0100"
  using ku_pointer_rebases [of sample_pool "0x100100"]
  by (simp add: sample_pool_def PAGE_SIZE_def)

theorem ku_pointer_range_too_large_witness:
  "ku_pointer 12 sample_pool 0x140000 = 0x830000"
  using ku_pointer_range_too_large [of sample_pool "0x140000"]
  by (simp add: sample_pool_def PAGE_SIZE_def)

theorem batch_count_ceiling_witness: "batch_count 300000 * MAX_BATCH_SIZE \<ge> 300000"
  using batch_count_ceiling [of 300000] by simp

theorem module_load_unload_leaks_caches_witness:
  "\<exists>s' k'. mod_init sample_init_env static_dev no_kobjs = (0, s', k') \<and> request_cache (mod_exit k')"
  using module_load_unload_leaks_caches [of sample_init_env static_dev no_kobjs]
  by (auto simp: sample_init_env_def)

theorem next_request_id_wraps_witness:
  "\<exists>i s'. qhgpu_next_request_id (static_dev\<lparr>rid_sequence := 0x7fffffff\<rparr>) = (i, s') \<and> i = 0"
  using next_request_id_wraps [of "static_dev\<lparr>rid_sequence := 0x7fffffff\<rparr>"]
  by (auto simp: static_dev_def)

end
