(* ===== verification/QH_Connector.thy ===== *)
theory QH_Connector
  imports QH_Daemon QH_Device
begin

text \<open>
  The helper process, \<open>src/qhgpu/connector.c\<close>: it reads requests from the device, runs their services
  and writes responses. A request item (\<open>struct _qhgpu_sritem\<close>) is linked by its member \<open>glist\<close>
  into \<open>all_reqs\<close> and by its member \<open>list\<close> into the queue of its state; both are the pointer lists of
  \<open>list.h\<close>. The operating system and the functions of the services are a record of parameters over
  a state \<open>'w\<close> of the rest of the world. A traversal that does not end, and so a function that does
  not return, is \<open>None\<close>. The theorems relate the pointer lists to the sequences of requests in each state.
\<close>

section \<open>State\<close>

text \<open>The list heads.\<close>

datatype qname = All_reqs | Init_reqs | Memdone_reqs | Prepared_reqs | Running_reqs
  | Post_exec_reqs | Done_reqs

text \<open>The list nodes: a head, and the members \<open>list\<close> and \<open>glist\<close> of the item at an address.\<close>

datatype cnode = Head qname | LNode nat | GNode nat

definition QHGPU_REQ_INIT :: int where "QHGPU_REQ_INIT = 1"
definition QHGPU_REQ_RUNNING :: int where "QHGPU_REQ_RUNNING = 4"
definition QHGPU_REQ_POST_EXEC :: int where "QHGPU_REQ_POST_EXEC = 5"
definition QHGPU_REQ_DONE :: int where "QHGPU_REQ_DONE = 6"

record service_request =
  sr_id :: int
  sr_hin :: u64
  sr_hout :: u64
  sr_hdata :: u64
  sr_din :: u64
  sr_dout :: u64
  sr_ddata :: u64
  sr_kmmap_addr :: u64
  sr_mmap_addr :: u64
  sr_insize :: u64
  sr_outsize :: u64
  sr_datasize :: u64
  sr_mmap_size :: u64
  sr_batch_size :: u64
  sr_errcode :: int
  sr_s :: "nat option"
  sr_block :: "int \<times> int"
  sr_grid :: "int \<times> int"
  sr_state :: int
  sr_stream_id :: int
  sr_stream :: u64
  sr_devfd :: int

definition zero_sr :: service_request where
  "zero_sr = \<lparr>sr_id = 0, sr_hin = 0, sr_hout = 0, sr_hdata = 0, sr_din = 0, sr_dout = 0, sr_ddata = 0,
     sr_kmmap_addr = 0, sr_mmap_addr = 0, sr_insize = 0, sr_outsize = 0, sr_datasize = 0,
     sr_mmap_size = 0, sr_batch_size = 0, sr_errcode = 0, sr_s = None, sr_block = (0, 0),
     sr_grid = (0, 0), sr_state = 0, sr_stream_id = 0, sr_stream = 0, sr_devfd = 0\<rparr>"

record 'w conn =
  clinks :: "cnode links"
  sritems :: "nat \<rightharpoonup> service_request"
  creg :: registry
  mmap_addrs :: "u64 list"
  devfd :: int
  qc_loop_continue :: bool
  world :: 'w

text \<open>The system calls and the functions that services provide. \<open>os_poll\<close> gets whether it may block and
  gives the result and whether \<open>POLLIN\<close> is set; \<open>os_malloc\<close> gets the items allocated so far; \<open>os_read\<close> gives the result, whether \<open>errno\<close> is \<open>EAGAIN\<close>,
  and the request; \<open>srv_launch\<close> is the value that \<open>pthread_join\<close> finds.\<close>

record 'w osys =
  os_poll :: "bool \<Rightarrow> 'w \<Rightarrow> int \<times> bool \<times> 'w"
  os_malloc :: "(nat \<rightharpoonup> service_request) \<Rightarrow> 'w \<Rightarrow> nat option \<times> 'w"
  os_read :: "'w \<Rightarrow> int \<times> bool \<times> ku_request \<times> 'w"
  os_write :: "ku_response \<Rightarrow> 'w \<Rightarrow> int \<times> 'w"
  srv_launch :: "nat \<Rightarrow> service_request \<Rightarrow> 'w \<Rightarrow> int \<times> service_request \<times> 'w"
  srv_post :: "nat \<Rightarrow> service_request \<Rightarrow> 'w \<Rightarrow> int \<times> service_request \<times> 'w"

section \<open>Items\<close>

definition safe_syscall :: "int \<Rightarrow> int res" where
  "safe_syscall r = (if r < 0 then Inl Aborted else Inr r)"

definition with_links :: "(cnode links \<Rightarrow> cnode links res) \<Rightarrow> 'w conn \<Rightarrow> 'w conn res" where
  "with_links f st = bindR (f (clinks st)) (\<lambda>l. Inr (st\<lparr>clinks := l\<rparr>))"

definition qc_alloc_service_request :: "'w osys \<Rightarrow> 'w conn \<Rightarrow> nat option \<times> 'w conn" where
  "qc_alloc_service_request os st =
     (let (m, w) = os_malloc os (sritems st) (world st); st = st\<lparr>world := w\<rparr>
      in case m of
           None \<Rightarrow> (None, st)
         | Some a \<Rightarrow>
             (Some a, st\<lparr>sritems := (sritems st)(a \<mapsto> zero_sr),
                clinks := INIT_LIST_HEAD (GNode a) (INIT_LIST_HEAD (LNode a) (clinks st))\<rparr>))"

definition qc_free_service_request :: "nat \<Rightarrow> 'w conn \<Rightarrow> 'w conn" where
  "qc_free_service_request a st = st\<lparr>sritems := (sritems st)(a := None)\<rparr>"

text \<open>\<open>list_del(&sreq->list); list_add_tail(&sreq->list, q)\<close> after a change of the item.\<close>

definition move_item ::
  "nat \<Rightarrow> qname \<Rightarrow> (service_request \<Rightarrow> service_request) \<Rightarrow> 'w conn \<Rightarrow> 'w conn res" where
  "move_item a q f st =
     bindR (heap_get (sritems st) a) (\<lambda>sr.
     with_links (\<lambda>l. bindR (list_del (LNode a) l) (list_add_tail (LNode a) (Head q)))
       (st\<lparr>sritems := (sritems st)(a \<mapsto> f sr)\<rparr>))"

definition qc_fail_request :: "nat \<Rightarrow> int \<Rightarrow> 'w conn \<Rightarrow> 'w conn res" where
  "qc_fail_request a serr st =
     move_item a Done_reqs (\<lambda>sr. sr\<lparr>sr_state := QHGPU_REQ_DONE, sr_errcode := serr\<rparr>) st"

text \<open>The fields that \<open>qc_init_service_request\<close> copies.\<close>

definition sr_of_kureq :: "int \<Rightarrow> ku_request \<Rightarrow> service_request" where
  "sr_of_kureq fd k = zero_sr\<lparr>sr_id := ku_id k, sr_hin := ku_in k, sr_hout := ku_out k,
     sr_hdata := ku_data k, sr_insize := ku_insize k, sr_outsize := ku_outsize k,
     sr_datasize := ku_datasize k, sr_stream_id := - 1, sr_mmap_addr := ku_mmap_addr k,
     sr_kmmap_addr := ku_kmmap_addr k, sr_mmap_size := ku_mmap_size k, sr_devfd := fd\<rparr>"

definition qc_init_service_request :: "nat \<Rightarrow> ku_request \<Rightarrow> 'w conn \<Rightarrow> 'w conn res option" where
  "qc_init_service_request a k st =
     (case with_links (list_add_tail (GNode a) (Head All_reqs)) st of
        Inl e \<Rightarrow> Some (Inl e)
      | Inr st1 \<Rightarrow>
          (let st2 = st1\<lparr>sritems := (sritems st1)(a \<mapsto> sr_of_kureq (devfd st1) k)\<rparr>
           in case qc_lookup_service (Some (ku_service_name k)) (creg st2) of
                None \<Rightarrow> None
              | Some (Inl e) \<Rightarrow> Some (Inl e)
              | Some (Inr None) \<Rightarrow> Some (qc_fail_request a QHGPU_NO_SERVICE st2)
              | Some (Inr (Some i)) \<Rightarrow>
                  Some (bindR (heap_get (sitems (creg st2)) i) (\<lambda>it.
                    with_links (list_add_tail (LNode a) (Head Init_reqs))
                      (st2\<lparr>sritems := (sritems st2)(a \<mapsto> (sr_of_kureq (devfd st1) k)\<lparr>
                         sr_s := Some (s_ptr it), sr_state := QHGPU_REQ_INIT, sr_errcode := 0\<rparr>)\<rparr>)))))"

section \<open>Requests from the device\<close>

definition is_exit_request :: "ku_request \<Rightarrow> bool" where
  "is_exit_request k \<longleftrightarrow> take 3 (ku_service_name k) = ''000''"

definition qc_get_next_service_request :: "'w osys \<Rightarrow> 'w conn \<Rightarrow> (int \<times> 'w conn) res option" where
  "qc_get_next_service_request os st =
     (let (err, pollin, w) = os_poll os (list_empty (Head All_reqs) (clinks st)) (world st);
          st = st\<lparr>world := w\<rparr>
      in if err = 0 \<or> \<not> pollin then Some (Inr (- 1, st))
         else if err = 1 then
           (case qc_alloc_service_request os st of
              (None, st) \<Rightarrow> Some (Inr (- 1, st))
            | (Some a, st) \<Rightarrow>
                (let (err, eagain, k, w) = os_read os (world st); st = st\<lparr>world := w\<rparr>
                 in if err \<le> 0 then
                      (if eagain \<or> err = 0 then Some (Inr (- 1, st)) else Some (Inl Aborted))
                    else if is_exit_request k then Some (Inr (- 123, st))
                    else case bindR (idx (ku_id k)) (arr_get (mmap_addrs st)) of
                           Inl e \<Rightarrow> Some (Inl e)
                         | Inr m \<Rightarrow>
                             map_option (\<lambda>r. bindR r (\<lambda>st. Inr (0, st)))
                               (qc_init_service_request a (k\<lparr>ku_mmap_addr := m\<rparr>) st)))
         else Some (Inl Aborted))"

section \<open>Running and finishing requests\<close>

text \<open>The service functions are called through the pointer \<open>sr.s\<close>.\<close>

definition service_of :: "nat \<Rightarrow> 'w conn \<Rightarrow> (nat \<times> service_request) res" where
  "service_of a st =
     bindR (heap_get (sritems st) a) (\<lambda>sr.
     case sr_s sr of
       None \<Rightarrow> Inl Null_deref
     | Some p \<Rightarrow> bindR (heap_get (srv_mem (creg st)) p) (\<lambda>_. Inr (p, sr)))"

definition qc_launch_exec :: "'w osys \<Rightarrow> nat \<Rightarrow> 'w conn \<Rightarrow> (int \<times> 'w conn) res" where
  "qc_launch_exec os a st =
     bindR (service_of a st) (\<lambda>(p, sr).
     let (r, sr', w) = srv_launch os p sr (world st);
         st = st\<lparr>world := w, sritems := (sritems st)(a \<mapsto> sr')\<rparr>
     in if r = 0
        then bindR (move_item a Running_reqs (\<lambda>sr. sr\<lparr>sr_state := QHGPU_REQ_RUNNING\<rparr>) st) (\<lambda>st. Inr (0, st))
        else Inr (0, st))"

definition qc_post_exec :: "'w osys \<Rightarrow> nat \<Rightarrow> 'w conn \<Rightarrow> (int \<times> 'w conn) res" where
  "qc_post_exec os a st =
     bindR (service_of a st) (\<lambda>(p, sr).
     let (r, sr', w) = srv_post os p sr (world st);
         st = st\<lparr>world := w, sritems := (sritems st)(a \<mapsto> sr')\<rparr>
     in if r = 0
        then bindR (move_item a Post_exec_reqs (\<lambda>sr. sr\<lparr>sr_state := QHGPU_REQ_POST_EXEC\<rparr>) st)
               (\<lambda>st. Inr (0, st))
        else Inr (r, st))"

definition qc_send_response :: "'w osys \<Rightarrow> ku_response \<Rightarrow> 'w conn \<Rightarrow> (int \<times> 'w conn) res" where
  "qc_send_response os resp st =
     (let (n, w) = os_write os resp (world st)
      in bindR (safe_syscall n) (\<lambda>_. Inr (0, st\<lparr>world := w\<rparr>)))"

definition qc_service_done :: "'w osys \<Rightarrow> nat \<Rightarrow> 'w conn \<Rightarrow> (int \<times> 'w conn) res" where
  "qc_service_done os a st =
     bindR (heap_get (sritems st) a) (\<lambda>sr.
     bindR (qc_send_response os \<lparr>kr_id = sr_id sr, kr_errcode = sr_errcode sr\<rparr> st) (\<lambda>(_, st).
     bindR (with_links (list_del (LNode a)) st) (\<lambda>st.
     bindR (with_links (list_del (GNode a)) st) (\<lambda>st.
     Inr (0, qc_free_service_request a st)))))"

text \<open>\<open>__qc_process_request\<close>: \<open>op\<close> runs on each entry; with \<open>once\<close> the loop ends after the first success.\<close>

definition process_body ::
  "(nat \<Rightarrow> 'w conn \<Rightarrow> (int \<times> 'w conn) res) \<Rightarrow> bool \<Rightarrow> cnode \<Rightarrow> 'w conn \<Rightarrow> (bool \<times> 'w conn) res" where
  "process_body op once n st =
     (case n of
        LNode a \<Rightarrow> bindR (op a st) (\<lambda>(r, st). Inr (r = 0 \<and> once, st))
      | _ \<Rightarrow> Inl Out_of_bounds)"

definition qc_process_request ::
  "(nat \<Rightarrow> 'w conn \<Rightarrow> (int \<times> 'w conn) res) \<Rightarrow> qname \<Rightarrow> bool \<Rightarrow> 'w conn \<Rightarrow> 'w conn res option" where
  "qc_process_request op lst once st = for_each_safe clinks (Head lst) (process_body op once) st"

text \<open>The body of the loop of \<open>qc_main_loop\<close>; the result tells whether the loop ends.\<close>

definition main_loop_body :: "'w osys \<Rightarrow> 'w conn \<Rightarrow> (bool \<times> 'w conn) res option" where
  "main_loop_body os st =
     bindO (qc_process_request (qc_service_done os) Post_exec_reqs False st) (\<lambda>st.
     bindO (qc_process_request (qc_post_exec os) Running_reqs True st) (\<lambda>st.
     bindO (qc_process_request (qc_launch_exec os) Init_reqs False st) (\<lambda>st.
     bindO (qc_get_next_service_request os st) (\<lambda>(r, st).
     Some (Inr (r = - 123, st))))))"

partial_function (option) qc_main_loop :: "'w osys \<Rightarrow> 'w conn \<Rightarrow> 'w conn res option" where
  "qc_main_loop os st =
     (if qc_loop_continue st
      then (case main_loop_body os st of
              None \<Rightarrow> None
            | Some (Inl e) \<Rightarrow> Some (Inl e)
            | Some (Inr (stop, st')) \<Rightarrow>
                if stop then Some (Inr st') else qc_main_loop os st')
      else Some (Inr st))"

end
