(* ===== verification/QH_Queues.thy ===== *)
theory QH_Queues
  imports QH_Connector "HOL-Library.Multiset"
begin

text \<open>
  The queues of the helper as sequences. \<open>conn_rep st A\<close> relates the pointer lists of a state to the
  sequences \<open>A\<close> of the items in each queue; every operation of the helper is shown to act on these
  sequences. The locale \<open>helper_os\<close> collects what the helper relies on from the device and the services,
  \<open>reliable_services\<close> adds that services succeed; the lemmas inside give the effect of one round of the
  main loop.
\<close>

section \<open>Representation\<close>

definition nodes :: "(qname \<Rightarrow> nat list) \<Rightarrow> qname \<Rightarrow> cnode list" where
  "nodes A q = map (if q = All_reqs then GNode else LNode) (A q)"

definition has_service :: "'w conn \<Rightarrow> nat \<Rightarrow> bool" where
  "has_service st a \<longleftrightarrow> (\<exists>sr p v. sritems st a = Some sr \<and> sr_s sr = Some p \<and> srv_mem (creg st) p = Some v)"

text \<open>The queues of requests that services still work on.\<close>

definition served :: "qname set" where
  "served = {Init_reqs, Running_reqs, Post_exec_reqs}"

definition conn_rep :: "'w conn \<Rightarrow> (qname \<Rightarrow> nat list) \<Rightarrow> bool" where
  "conn_rep st A \<longleftrightarrow> family Head (clinks st) (nodes A) \<and>
     (\<forall>a. a \<in> set (A All_reqs) \<longleftrightarrow> (\<exists>q. q \<noteq> All_reqs \<and> a \<in> set (A q))) \<and>
     (\<forall>a \<in> set (A All_reqs). sritems st a \<noteq> None) \<and>
     (\<forall>q \<in> served. \<forall>a \<in> set (A q). has_service st a) \<and>
     (\<exists>xs. registered (creg st) xs)"

definition iid :: "'w conn \<Rightarrow> nat \<Rightarrow> int" where
  "iid st a = (case map_option sr_id (sritems st a) of None \<Rightarrow> - 1 | Some i \<Rightarrow> i)"

lemma conn_family: "conn_rep st A \<Longrightarrow> family Head (clinks st) (nodes A)"
  by (simp add: conn_rep_def)

lemma conn_ring: "conn_rep st A \<Longrightarrow> ring (clinks st) (Head q) (nodes A q)"
  by (rule family_ring [OF conn_family])

lemma nodes_simps:
  "q \<noteq> All_reqs \<Longrightarrow> nodes A q = map LNode (A q)" "nodes A All_reqs = map GNode (A All_reqs)"
  by (simp_all add: nodes_def)

lemma nodes_upd: "nodes (A(q := xs)) = (nodes A)(q := map (if q = All_reqs then GNode else LNode) xs)"
  by (auto simp: nodes_def)

lemma LNode_in [simp]: "q \<noteq> All_reqs \<Longrightarrow> LNode a \<in> set (nodes A q) \<longleftrightarrow> a \<in> set (A q)"
  by (auto simp: nodes_def)

lemma LNode_notin_all [simp]: "LNode a \<notin> set (nodes A All_reqs)"
  by (auto simp: nodes_def)

lemma GNode_in [simp]: "GNode a \<in> set (nodes A q) \<longleftrightarrow> q = All_reqs \<and> a \<in> set (A q)"
  by (auto simp: nodes_def)

lemma remove1_LNode: "remove1 (LNode a) (map LNode xs) = map LNode (remove1 a xs)"
  by (induction xs) auto

lemma remove1_GNode: "remove1 (GNode a) (map GNode xs) = map GNode (remove1 a xs)"
  by (induction xs) auto

lemma conn_disjoint:
  assumes "conn_rep st A" and "a \<in> set (A p)" "a \<in> set (A q)" "p \<noteq> All_reqs" "q \<noteq> All_reqs"
  shows "p = q"
  using dll.rep_disjoint [OF conn_family [OF assms(1)], of "LNode a" p q] assms by simp

lemma conn_distinct: "conn_rep st A \<Longrightarrow> distinct (A q)"
  using dll.rep_distinct [OF conn_family, of st A q] by (simp add: nodes_def distinct_map)

lemma conn_all: "conn_rep st A \<Longrightarrow> q \<noteq> All_reqs \<Longrightarrow> a \<in> set (A q) \<Longrightarrow> a \<in> set (A All_reqs)"
  by (auto simp: conn_rep_def)

lemma conn_item: "conn_rep st A \<Longrightarrow> a \<in> set (A q) \<Longrightarrow> \<exists>sr. sritems st a = Some sr"
  by (cases "q = All_reqs") (auto simp: conn_rep_def)

section \<open>Moving and removing items\<close>

lemma move_links:
  assumes "conn_rep st A" and "a \<in> set (A p)" and "p \<noteq> q" "p \<noteq> All_reqs" "q \<noteq> All_reqs"
  obtains l where "bindR (list_del (LNode a) (clinks st)) (list_add_tail (LNode a) (Head q)) = Inr l"
    "family Head l (nodes (A(p := remove1 a (A p), q := A q @ [a])))"
proof -
  have "(nodes A)(p := remove1 (LNode a) (nodes A p), q := nodes A q @ [LNode a]) =
      nodes (A(p := remove1 a (A p), q := A q @ [a]))"
    using assms(3-5) by (auto simp: nodes_def remove1_LNode fun_eq_iff)
  with dll.move_other [OF conn_family [OF assms(1)], of "LNode a" p q] assms that show thesis by auto
qed

text \<open>Moving an item between the queues of its life.\<close>

lemma move_item_rep:
  assumes rep: "conn_rep st A" and a: "a \<in> set (A p)" and pq: "p \<noteq> q" "p \<noteq> All_reqs" "q \<noteq> All_reqs"
    and sr: "sritems st a = Some sr" and srv: "q \<in> served \<Longrightarrow> sr_s (f sr) = sr_s sr \<and> has_service st a"
  obtains st' where "move_item a q f st = Inr st'"
    "conn_rep st' (A(p := remove1 a (A p), q := A q @ [a]))"
    "sritems st' = (sritems st)(a \<mapsto> f sr)" "world st' = world st" "creg st' = creg st"
    "devfd st' = devfd st" "mmap_addrs st' = mmap_addrs st" "qc_loop_continue st' = qc_loop_continue st"
proof -
  obtain l where l: "bindR (list_del (LNode a) (clinks st)) (list_add_tail (LNode a) (Head q)) = Inr l"
    and fam: "family Head l (nodes (A(p := remove1 a (A p), q := A q @ [a])))"
    using move_links [OF rep a pq] .
  define st' where "st' = st\<lparr>sritems := (sritems st)(a \<mapsto> f sr), clinks := l\<rparr>"
  let ?A = "A(p := remove1 a (A p), q := A q @ [a])"
  have run: "move_item a q f st = Inr st'"
    using sr by (simp add: move_item_def with_links_def st'_def l del: bindR_eq_Inr)
  have mem: "b \<in> set (?A q') \<longleftrightarrow> (if q' = q then b \<in> set (A q) \<or> b = a
       else if q' = p then b \<in> set (A p) \<and> b \<noteq> a else b \<in> set (A q'))" for b q'
    using pq(1) conn_distinct [OF rep] by auto
  have "\<forall>b. b \<in> set (?A All_reqs) \<longleftrightarrow> (\<exists>q'. q' \<noteq> All_reqs \<and> b \<in> set (?A q'))"
  proof
    fix b
    have "(\<exists>q'. q' \<noteq> All_reqs \<and> b \<in> set (?A q')) \<longleftrightarrow> (\<exists>q'. q' \<noteq> All_reqs \<and> b \<in> set (A q'))"
      unfolding mem using a pq by (metis (full_types))
    then show "b \<in> set (?A All_reqs) \<longleftrightarrow> (\<exists>q'. q' \<noteq> All_reqs \<and> b \<in> set (?A q'))"
      using rep pq unfolding conn_rep_def by auto
  qed
  moreover have "has_service st' b" if "q' \<in> served" "b \<in> set (?A q')" for q' b
  proof (cases "b = a")
    case True
    have "q' = q"
    proof (rule ccontr)
      assume "q' \<noteq> q"
      then have "a \<in> set (A q')" "q' \<noteq> p" using that True unfolding mem by (auto split: if_splits)
      then show False using conn_disjoint [OF rep, of a p q'] a pq that(1) by (auto simp: served_def)
    qed
    then show ?thesis using srv that(1) True sr by (auto simp: has_service_def st'_def)
  next
    case False
    then have "b \<in> set (A q')" using that(2) unfolding mem by (auto split: if_splits)
    then have "has_service st b" using rep that(1) by (simp add: conn_rep_def)
    then show ?thesis using False by (auto simp: has_service_def st'_def)
  qed
  moreover have "\<forall>b \<in> set (?A All_reqs). sritems st' b \<noteq> None"
    using rep pq by (auto simp: conn_rep_def st'_def)
  moreover have "\<exists>xs. registered (creg st') xs" using rep by (simp add: conn_rep_def st'_def)
  ultimately have "conn_rep st' ?A"
    using fam unfolding conn_rep_def by (simp add: st'_def)
  with run that show thesis by (simp add: st'_def)
qed

text \<open>A service may change an item, but not the service it belongs to.\<close>

lemma conn_rep_serviced:
  assumes "conn_rep st A" and "sritems st a = Some sr" and "sr_s sr' = sr_s sr"
  shows "conn_rep (st\<lparr>world := w, sritems := (sritems st)(a \<mapsto> sr')\<rparr>) A"
proof -
  have "has_service (st\<lparr>world := w, sritems := (sritems st)(a \<mapsto> sr')\<rparr>) b" if "has_service st b" for b
    using that assms(2,3) by (auto simp: has_service_def)
  with assms(1) show ?thesis unfolding conn_rep_def by auto
qed

lemma conn_rep_world:
  assumes "conn_rep st A"
  shows "conn_rep (st\<lparr>world := w\<rparr>) A"
  using assms unfolding conn_rep_def has_service_def by simp

text \<open>Removing an item that is done.\<close>

lemma remove_item_rep:
  assumes rep: "conn_rep st A" and a: "a \<in> set (A p)" and p: "p \<noteq> All_reqs"
  obtains l l' where "list_del (LNode a) (clinks st) = Inr l" "list_del (GNode a) l = Inr l'"
    "conn_rep (qc_free_service_request a (st\<lparr>clinks := l'\<rparr>))
       (A(p := remove1 a (A p), All_reqs := remove1 a (A All_reqs)))"
proof -
  from dll.del_ok [OF conn_family [OF rep], of "LNode a" p] a p obtain l where
    l: "list_del (LNode a) (clinks st) = Inr l"
      "family Head l ((nodes A)(p := remove1 (LNode a) (nodes A p)))" by auto
  have n1: "(nodes A)(p := remove1 (LNode a) (nodes A p)) = nodes (A(p := remove1 a (A p)))"
    using p by (auto simp: nodes_def remove1_LNode fun_eq_iff)
  have "a \<in> set (A All_reqs)" using conn_all [OF rep p a] .
  with dll.del_ok [OF l(2) [unfolded n1], of "GNode a" All_reqs] p obtain l' where
    l': "list_del (GNode a) l = Inr l'"
      "family Head l' ((nodes (A(p := remove1 a (A p))))(All_reqs :=
         remove1 (GNode a) (nodes (A(p := remove1 a (A p))) All_reqs)))" by auto
  let ?A = "A(p := remove1 a (A p), All_reqs := remove1 a (A All_reqs))"
  have n2: "(nodes (A(p := remove1 a (A p))))(All_reqs :=
         remove1 (GNode a) (nodes (A(p := remove1 a (A p))) All_reqs)) = nodes ?A"
    using p by (auto simp: nodes_def remove1_GNode fun_eq_iff)
  have out: "a \<notin> set (A q)" if "q \<noteq> p" "q \<noteq> All_reqs" for q
    using conn_disjoint [OF rep a, of q] that p by blast
  obtain B where B: "B = ?A" by blast
  have mem: "b \<in> set (B q) \<longleftrightarrow> b \<in> set (A q) \<and> b \<noteq> a" for b q
    unfolding B
    using out [of q] conn_distinct [OF rep, of p] conn_distinct [OF rep, of All_reqs] p by auto
  have "family Head l' (nodes B)" using l'(2) n2 by (simp add: B)
  with rep have "conn_rep (qc_free_service_request a (st\<lparr>clinks := l'\<rparr>)) B"
    unfolding conn_rep_def Ball_def mem by (auto simp: qc_free_service_request_def has_service_def)
  then have "conn_rep (qc_free_service_request a (st\<lparr>clinks := l'\<rparr>)) ?A" by (simp only: B)
  with l(1) l'(1) that show thesis by blast
qed

section \<open>New items\<close>

lemma conn_rep_alloc:
  assumes rep: "conn_rep st A" and a: "sritems st a = None"
  shows "conn_rep (st\<lparr>sritems := (sritems st)(a \<mapsto> sr),
      clinks := INIT_LIST_HEAD (GNode a) (INIT_LIST_HEAD (LNode a) (clinks st)), world := w\<rparr>) A"
    and "\<And>q. a \<notin> set (A q)"
proof -
  show out: "a \<notin> set (A q)" for q using conn_item [OF rep, of a q] a by auto
  have "family Head (INIT_LIST_HEAD (LNode a) (clinks st)) (nodes A)"
    by (rule family_INIT [OF conn_family [OF rep]]) (use out in \<open>auto simp: nodes_def\<close>)
  then have "family Head (INIT_LIST_HEAD (GNode a) (INIT_LIST_HEAD (LNode a) (clinks st))) (nodes A)"
    by (rule family_INIT) (use out in \<open>auto simp: nodes_def\<close>)
  then show "conn_rep (st\<lparr>sritems := (sritems st)(a \<mapsto> sr),
      clinks := INIT_LIST_HEAD (GNode a) (INIT_LIST_HEAD (LNode a) (clinks st)), world := w\<rparr>) A"
    using rep out unfolding conn_rep_def has_service_def by auto
qed

lemma add_tail_frame:
  assumes "list_add_tail x h s = Inr s'" and "y \<noteq> x" "y \<noteq> h" "prv s h \<noteq> Some y"
  shows "nxt s' y = nxt s y \<and> prv s' y = prv s y"
  using assms by (auto simp: list_h_defs Let_def split: option.splits)

text \<open>Adding an item that is in no queue to \<open>all_reqs\<close> and to the queue \<open>q\<close>.\<close>

lemma conn_rep_add:
  assumes rep: "conn_rep st A" and a: "\<And>q. a \<notin> set (A q)" and q: "q \<noteq> All_reqs"
    and fam: "family Head l (nodes (A(All_reqs := A All_reqs @ [a], q := A q @ [a])))"
    and srv: "q \<in> served \<Longrightarrow> \<exists>p v. sr_s sr = Some p \<and> srv_mem (creg st) p = Some v"
  shows "conn_rep (st\<lparr>sritems := (sritems st)(a \<mapsto> sr), clinks := l\<rparr>)
     (A(All_reqs := A All_reqs @ [a], q := A q @ [a]))" (is "conn_rep ?st ?A")
proof -
  obtain B where B: "B = ?A" by blast
  have mem: "b \<in> set (B q') \<longleftrightarrow> b \<in> set (A q') \<or> (b = a \<and> q' \<in> {q, All_reqs})" for b q'
    using q by (auto simp: B)
  have "\<forall>b. b \<in> set (B All_reqs) \<longleftrightarrow> (\<exists>q'. q' \<noteq> All_reqs \<and> b \<in> set (B q'))"
    unfolding mem using rep q unfolding conn_rep_def by auto
  moreover have "\<forall>b \<in> set (B All_reqs). sritems ?st b \<noteq> None"
    unfolding Ball_def mem using rep by (auto simp: conn_rep_def)
  moreover have "has_service ?st b" if "q' \<in> served" "b \<in> set (B q')" for q' b
  proof (cases "b = a")
    case True
    with that a [of q'] have "q' = q" unfolding mem by (auto simp: served_def)
    with srv that(1) True show ?thesis by (auto simp: has_service_def)
  next
    case False
    with that have "has_service st b" using rep unfolding mem by (auto simp: conn_rep_def)
    with False show ?thesis by (auto simp: has_service_def)
  qed
  moreover have "\<exists>xs. registered (creg ?st) xs" using rep by (simp add: conn_rep_def)
  moreover have "family Head (clinks ?st) (nodes B)" using fam by (simp add: B)
  ultimately have "conn_rep ?st B" unfolding conn_rep_def by blast
  then show ?thesis by (simp only: B)
qed

lemma init_request_rep:
  assumes rep: "conn_rep st A" and a: "\<And>q. a \<notin> set (A q)"
    and self: "nxt (clinks st) (LNode a) = Some (LNode a)" "prv (clinks st) (LNode a) = Some (LNode a)"
  shows "\<exists>st' q sr. qc_init_service_request a k st = Some (Inr st') \<and>
     conn_rep st' (A(All_reqs := A All_reqs @ [a], q := A q @ [a])) \<and> q \<in> {Init_reqs, Done_reqs} \<and>
     sritems st' = (sritems st)(a \<mapsto> sr) \<and> sr_id sr = ku_id k \<and> sr_batch_size sr = 0 \<and>
     world st' = world st \<and> creg st' = creg st \<and> mmap_addrs st' = mmap_addrs st \<and>
     qc_loop_continue st' = qc_loop_continue st \<and>
     (case qc_lookup_service (Some (ku_service_name k)) (creg st) of
        Some (Inr (Some i)) \<Rightarrow> q = Init_reqs
      | _ \<Rightarrow> q = Done_reqs \<and> sr_errcode sr = QHGPU_NO_SERVICE)"
proof -
  have out: "GNode a \<notin> range Head" "\<forall>q. GNode a \<notin> set (nodes A q)"
    "LNode a \<notin> range Head" "\<forall>q. LNode a \<notin> set (nodes A q)" using a by (auto simp: nodes_def)
  have fam: "family Head (clinks st) (nodes A)" using rep by (rule conn_family)
  from dll.add_tail_ok [OF fam out(1,2), of All_reqs] obtain l1 where
    l1: "list_add_tail (GNode a) (Head All_reqs) (clinks st) = Inr l1"
      "family Head l1 ((nodes A)(All_reqs := nodes A All_reqs @ [GNode a]))" by blast
  let ?A1 = "A(All_reqs := A All_reqs @ [a])"
  have n1: "(nodes A)(All_reqs := nodes A All_reqs @ [GNode a]) = nodes ?A1"
    by (auto simp: nodes_def fun_eq_iff)
  have "prv (clinks st) (Head All_reqs) = Some (last (Head All_reqs # nodes A All_reqs))"
    using conn_ring [OF rep, of All_reqs] lseg_last [of "clinks st" "Head All_reqs" "nodes A All_reqs"]
    by (simp add: ring_def)
  moreover have "last (Head All_reqs # nodes A All_reqs) \<noteq> LNode a"
    by (cases "A All_reqs" rule: rev_cases) (auto simp: nodes_simps)
  ultimately have self1: "nxt l1 (LNode a) = Some (LNode a)" "prv l1 (LNode a) = Some (LNode a)"
    using add_tail_frame [OF l1(1), of "LNode a"] self by auto
  have out1: "\<forall>q. LNode a \<notin> set (nodes ?A1 q)" using out(4) a by (auto simp: nodes_def)
  obtain xs where xs: "registered (creg st) xs" using rep by (auto simp: conn_rep_def)
  have n2: "(nodes ?A1)(q := nodes ?A1 q @ [LNode a]) = nodes (A(All_reqs := A All_reqs @ [a], q := A q @ [a]))"
    if "q \<noteq> All_reqs" for q
    using that by (auto simp: nodes_def fun_eq_iff)
  let ?sr = "sr_of_kureq (devfd st) k"
  show ?thesis
  proof (cases "find (answers (creg st) (ku_service_name k)) xs")
    case None
    from family_del_self [OF l1(2) [unfolded n1] out(3) out1 self1] obtain l2 where
      l2: "list_del (LNode a) l1 = Inr l2" "family Head l2 (nodes ?A1)" by blast
    from dll.add_tail_ok [OF l2(2) out(3) out1, of Done_reqs] n2 obtain l3 where
      l3: "list_add_tail (LNode a) (Head Done_reqs) l2 = Inr l3"
        "family Head l3 (nodes (A(All_reqs := A All_reqs @ [a], Done_reqs := A Done_reqs @ [a])))" by auto
    define sr where "sr = ?sr\<lparr>sr_state := QHGPU_REQ_DONE, sr_errcode := QHGPU_NO_SERVICE\<rparr>"
    have "conn_rep (st\<lparr>sritems := (sritems st)(a \<mapsto> sr), clinks := l3\<rparr>)
        (A(All_reqs := A All_reqs @ [a], Done_reqs := A Done_reqs @ [a]))"
      by (rule conn_rep_add [OF rep a _ l3(2)]) (auto simp: served_def)
    moreover have "qc_init_service_request a k st =
        Some (Inr (st\<lparr>sritems := (sritems st)(a \<mapsto> sr), clinks := l3\<rparr>))"
      using l1(1) l2(1) l3(1) None lookup_service_find [OF xs]
      by (simp add: qc_init_service_request_def with_links_def qc_fail_request_def move_item_def sr_def)
    moreover have "sr_id sr = ku_id k" "sr_batch_size sr = 0" by (simp_all add: sr_def sr_of_kureq_def zero_sr_def)
    ultimately show ?thesis
      using None lookup_service_find [OF xs]
      by (intro exI [of _ "st\<lparr>sritems := (sritems st)(a \<mapsto> sr), clinks := l3\<rparr>"]
          exI [of _ Done_reqs] exI [of _ sr]) (simp add: sr_def)
  next
    case (Some i)
    then have "i \<in> set xs" by (auto simp: find_Some_iff)
    then obtain it v where it: "sitems (creg st) i = Some it" "srv_mem (creg st) (s_ptr it) = Some v"
      using xs by (auto simp: registered_def)
    from dll.add_tail_ok [OF l1(2) [unfolded n1] out(3) out1, of Init_reqs] n2 obtain l3 where
      l3: "list_add_tail (LNode a) (Head Init_reqs) l1 = Inr l3"
        "family Head l3 (nodes (A(All_reqs := A All_reqs @ [a], Init_reqs := A Init_reqs @ [a])))" by auto
    define sr where "sr = ?sr\<lparr>sr_s := Some (s_ptr it), sr_state := QHGPU_REQ_INIT, sr_errcode := 0\<rparr>"
    have "conn_rep (st\<lparr>sritems := (sritems st)(a \<mapsto> sr), clinks := l3\<rparr>)
        (A(All_reqs := A All_reqs @ [a], Init_reqs := A Init_reqs @ [a]))"
      by (rule conn_rep_add [OF rep a _ l3(2)]) (auto simp: sr_def it)
    moreover have "qc_init_service_request a k st =
        Some (Inr (st\<lparr>sritems := (sritems st)(a \<mapsto> sr), clinks := l3\<rparr>))"
      using l1(1) l3(1) Some it lookup_service_find [OF xs]
      by (simp add: qc_init_service_request_def with_links_def sr_def)
    moreover have "sr_id sr = ku_id k" "sr_batch_size sr = 0" by (simp_all add: sr_def sr_of_kureq_def zero_sr_def)
    ultimately show ?thesis
      using Some lookup_service_find [OF xs]
      by (intro exI [of _ "st\<lparr>sritems := (sritems st)(a \<mapsto> sr), clinks := l3\<rparr>"]
          exI [of _ Init_reqs] exI [of _ sr]) simp
  qed
qed

section \<open>The traversals\<close>

text \<open>A traversal whose operation, on any entry, keeps an invariant and leaves the entries behind it.\<close>

lemma each_keeps:
  assumes step: "\<And>A st d a r. I A st \<Longrightarrow> A q = d @ a # r \<Longrightarrow>
       \<exists>c st' A' d'. op a st = Inr (c, st') \<and> I A' st' \<and> A' q = d' @ r"
  shows "I A st \<Longrightarrow> A q = d @ r \<Longrightarrow>
     \<exists>st' A'. each (process_body op once) (map LNode r) st = Inr st' \<and> I A' st'"
proof (induction r arbitrary: A st d)
  case Nil
  then show ?case by auto
next
  case (Cons a r)
  from step [OF Cons.prems] obtain c st' A' d' where
    s: "op a st = Inr (c, st')" "I A' st'" "A' q = d' @ r" by blast
  with Cons.IH [OF s(2,3)] show ?case by (auto simp: process_body_def)
qed

lemma process_keeps:
  assumes rep: "\<And>A st. I A st \<Longrightarrow> conn_rep st A" and q: "q \<noteq> All_reqs"
    and step: "\<And>A st d a r. I A st \<Longrightarrow> A q = d @ a # r \<Longrightarrow>
       \<exists>c st' A' d'. op a st = Inr (c, st') \<and> I A' st' \<and> A' q = d' @ r"
    and start: "I A st"
  shows "\<exists>st' A'. qc_process_request op q once st = Some (Inr st') \<and> I A' st'"
proof -
  have "qc_process_request op q once st = Some (each (process_body op once) (nodes A q) st)"
    unfolding qc_process_request_def
  proof (rule for_each_safe_each [where
        J = "\<lambda>d r st. \<exists>A d' r'. I A st \<and> A q = d' @ r' \<and> d = map LNode d' \<and> r = map LNode r'"])
    fix d r :: "cnode list" and st
    assume "\<exists>A d' r'. I A st \<and> A q = d' @ r' \<and> d = map LNode d' \<and> r = map LNode r'"
    then show "ring (clinks st) (Head q) (d @ r)"
      using conn_ring [OF rep, of _ st q] q by (metis map_append nodes_simps(1))
  next
    fix d x r st st'
    assume "\<exists>A d' r'. I A st \<and> A q = d' @ r' \<and> d = map LNode d' \<and> x # r = map LNode r'"
      and run: "process_body op once x st = Inr (False, st')"
    then obtain A d' a r' where "I A st" "A q = d' @ a # r'" "x = LNode a" "r = map LNode r'"
      by (auto simp: Cons_eq_map_conv)
    with step [of A st d' a r'] run
    show "\<exists>d A d' r'. I A st' \<and> A q = d' @ r' \<and> d = map LNode d' \<and> r = map LNode r'"
      by (fastforce simp: process_body_def)
  qed (use start q in \<open>auto simp: nodes_simps\<close>)
  with each_keeps [where I = I and op = op and q = q and A = A and st = st and d = "[]" and r = "A q"
      and once = once, OF step start] q show ?thesis
    by (auto simp: nodes_simps)
qed

text \<open>A traversal whose operation takes every entry out of the queue empties it.\<close>

lemma each_drains:
  assumes step: "\<And>A st a r. I A st \<Longrightarrow> A q = a # r \<Longrightarrow>
       \<exists>c st' A'. op a st = Inr (c, st') \<and> I A' st' \<and> A' q = r"
  shows "I A st \<Longrightarrow> A q = r \<Longrightarrow>
     \<exists>st' A'. each (process_body op False) (map LNode r) st = Inr st' \<and> I A' st' \<and> A' q = []"
proof (induction r arbitrary: A st)
  case Nil
  then show ?case by auto
next
  case (Cons a r)
  from step [OF Cons.prems] obtain c st' A' where
    s: "op a st = Inr (c, st')" "I A' st'" "A' q = r" by blast
  with Cons.IH [OF s(2,3)] show ?case by (auto simp: process_body_def)
qed

lemma process_drains:
  assumes rep: "\<And>A st. I A st \<Longrightarrow> conn_rep st A" and q: "q \<noteq> All_reqs"
    and step: "\<And>A st a r. I A st \<Longrightarrow> A q = a # r \<Longrightarrow>
       \<exists>c st' A'. op a st = Inr (c, st') \<and> I A' st' \<and> A' q = r"
    and start: "I A st"
  shows "\<exists>st' A'. qc_process_request op q False st = Some (Inr st') \<and> I A' st' \<and> A' q = []"
proof -
  have "qc_process_request op q False st = Some (each (process_body op False) (nodes A q) st)"
    unfolding qc_process_request_def
  proof (rule for_each_safe_each [where
        J = "\<lambda>d r st. d = [] \<and> (\<exists>A. I A st \<and> r = map LNode (A q))"])
    fix d r :: "cnode list" and st
    assume "d = [] \<and> (\<exists>A. I A st \<and> r = map LNode (A q))"
    then show "ring (clinks st) (Head q) (d @ r)"
      using conn_ring [OF rep, of _ st q] q by (auto simp: nodes_simps)
  next
    fix d :: "cnode list" and x r st st'
    assume "d = [] \<and> (\<exists>A. I A st \<and> x # r = map LNode (A q))"
      and run: "process_body op False x st = Inr (False, st')"
    then obtain A a r' where "I A st" "A q = a # r'" "x = LNode a" "r = map LNode r'"
      by (auto simp: Cons_eq_map_conv)
    with step [of A st a r'] run
    show "\<exists>d. d = [] \<and> (\<exists>A. I A st' \<and> r = map LNode (A q))"
      by (fastforce simp: process_body_def)
  qed (use start q in \<open>auto simp: nodes_simps\<close>)
  with each_drains [where I = I and op = op and q = q and A = A and st = st and r = "A q",
      OF step start refl] q show ?thesis
    by (auto simp: nodes_simps)
qed

text \<open>A traversal that ends after the first success.\<close>

lemma process_once_empty:
  assumes "conn_rep st A" and "A q = []" and "q \<noteq> All_reqs"
  shows "qc_process_request op q once st = Some (Inr st)"
proof -
  have "nxt (clinks st) (Head q) = Some (Head q)"
    using conn_ring [OF assms(1), of q] assms(2,3) by (simp add: nodes_simps ring_def)
  then show ?thesis by (simp add: qc_process_request_def for_each_safe_def list_for_each_safe.simps)
qed

lemma process_once_first:
  assumes "conn_rep st A" and "A q = a # r" and "q \<noteq> All_reqs" and "op a st = Inr (0, st')"
  shows "qc_process_request op q True st = Some (Inr st')"
proof -
  have "nxt (clinks st) (Head q) = Some (LNode a)"
    using conn_ring [OF assms(1), of q] assms(2,3) by (simp add: nodes_simps ring_def)
  then show ?thesis
    using assms(4) by (simp add: qc_process_request_def for_each_safe_def list_for_each_safe.simps
        process_body_def)
qed

section \<open>What the helper relies on\<close>

text \<open>
  \<open>W w M\<close> is the invariant of the world, with the identifiers \<open>M\<close> of the requests that were read and
  not answered; \<open>readable w\<close> tells that a read finds a request, and \<open>nmods\<close> bounds the identifiers.
\<close>

locale helper_world =
  fixes os :: "'w osys"
    and W :: "'w \<Rightarrow> int multiset \<Rightarrow> bool"
    and readable :: "'w \<Rightarrow> bool"
    and nmods :: nat
  assumes poll_law: "W w M \<Longrightarrow> os_poll os b w = (e, pin, w') \<Longrightarrow>
      W w' M \<and> (pin \<longrightarrow> e = 1 \<and> readable w')"
    and malloc_law: "W w M \<Longrightarrow> os_malloc os h w = (m, w') \<Longrightarrow>
      W w' M \<and> (readable w \<longrightarrow> readable w') \<and> (\<forall>a. m = Some a \<longrightarrow> h a = None)"
    and read_law: "W w M \<Longrightarrow> readable w \<Longrightarrow> os_read os w = (e, again, k, w') \<Longrightarrow>
      0 < e \<and> W w' (add_mset (ku_id k) M) \<and> 0 \<le> ku_id k \<and> nat (ku_id k) < nmods"
    and launch_law: "W w M \<Longrightarrow> srv_launch os p sr w = (r, sr', w') \<Longrightarrow>
      W w' M \<and> sr_s sr' = sr_s sr \<and> sr_id sr' = sr_id sr"
    and post_law: "W w M \<Longrightarrow> srv_post os p sr w = (r, sr', w') \<Longrightarrow>
      W w' M \<and> sr_s sr' = sr_s sr \<and> sr_id sr' = sr_id sr"

text \<open>Answering a request that was read succeeds.\<close>

locale helper_os = helper_world +
  assumes write_law: "W w (add_mset i M) \<Longrightarrow> os_write os \<lparr>kr_id = i, kr_errcode = c\<rparr> w = (n, w') \<Longrightarrow>
      0 \<le> n \<and> W w' M"

text \<open>Services that always succeed, and a log of the identifiers that were answered.\<close>

locale reliable_services = helper_os os W readable nmods
  for os :: "'w osys" and W readable nmods +
  fixes answers :: "'w \<Rightarrow> int list"
  assumes launch_reliable: "W w M \<Longrightarrow> srv_launch os p sr w = (r, sr', w') \<Longrightarrow> r = 0 \<and> answers w' = answers w"
    and post_reliable: "W w M \<Longrightarrow> srv_post os p sr w = (r, sr', w') \<Longrightarrow> r = 0 \<and> answers w' = answers w"
    and poll_quiet: "W w M \<Longrightarrow> os_poll os b w = (e, pin, w') \<Longrightarrow> answers w' = answers w"
    and malloc_quiet: "W w M \<Longrightarrow> os_malloc os h w = (m, w') \<Longrightarrow> answers w' = answers w"
    and read_quiet: "W w M \<Longrightarrow> readable w \<Longrightarrow> os_read os w = (e, again, k, w') \<Longrightarrow> answers w' = answers w"
    and write_logged: "W w (add_mset i M) \<Longrightarrow> os_write os \<lparr>kr_id = i, kr_errcode = c\<rparr> w = (n, w') \<Longrightarrow>
      answers w' = answers w @ [i]"

text \<open>The invariant of the helper: \<open>L\<close> are identifiers read before and outside the queues.\<close>

definition helper_inv ::
  "('w \<Rightarrow> int multiset \<Rightarrow> bool) \<Rightarrow> nat \<Rightarrow> int multiset \<Rightarrow> (qname \<Rightarrow> nat list) \<Rightarrow> 'w conn \<Rightarrow> bool" where
  "helper_inv W nmods L A st \<longleftrightarrow> conn_rep st A \<and> length (mmap_addrs st) = nmods \<and>
     W (world st) (image_mset (iid st) (mset (A All_reqs)) + L)"

lemma helper_rep: "helper_inv W nmods L A st \<Longrightarrow> conn_rep st A"
  by (simp add: helper_inv_def)

lemma served_item:
  assumes "conn_rep st A" and "q \<in> served" and "a \<in> set (A q)"
  shows "\<exists>sr p. sritems st a = Some sr \<and> service_of a st = Inr (p, sr)"
proof -
  have "has_service st a" using assms by (simp add: conn_rep_def)
  then show ?thesis by (auto simp: has_service_def service_of_def)
qed

lemma iid_cong: "(\<And>a. map_option sr_id (sritems st' a) = map_option sr_id (sritems st a)) \<Longrightarrow> iid st' = iid st"
  by (simp add: iid_def fun_eq_iff)

lemma iid_upd [simp]: "iid (st\<lparr>world := w\<rparr>) = iid st" "iid (st\<lparr>clinks := l\<rparr>) = iid st"
  by (auto intro: iid_cong)

context helper_world
begin

text \<open>A service function that succeeds moves the item on; one that fails leaves it where it is.\<close>

lemma serviced_item:
  assumes inv: "helper_inv W nmods L A st" and a: "a \<in> set (A p)" "p \<in> served" and q: "q \<in> served" "p \<noteq> q"
    and sr: "sritems st a = Some sr" "sr_s sr' = sr_s sr" "sr_id sr' = sr_id sr"
    and w: "W w (image_mset (iid st) (mset (A All_reqs)) + L)"
    and f: "\<And>x. sr_s (f x) = sr_s x \<and> sr_id (f x) = sr_id x"
  shows "helper_inv W nmods L A (st\<lparr>world := w, sritems := (sritems st)(a \<mapsto> sr')\<rparr>)"
    and "iid (st\<lparr>world := w, sritems := (sritems st)(a \<mapsto> sr')\<rparr>) = iid st"
    and "\<exists>st'. move_item a q f (st\<lparr>world := w, sritems := (sritems st)(a \<mapsto> sr')\<rparr>) = Inr st' \<and>
      helper_inv W nmods L (A(p := remove1 a (A p), q := A q @ [a])) st' \<and> iid st' = iid st \<and>
      world st' = w"
proof -
  let ?st = "st\<lparr>world := w, sritems := (sritems st)(a \<mapsto> sr')\<rparr>"
  have rep: "conn_rep ?st A" using conn_rep_serviced [OF helper_rep [OF inv] sr(1,2)] .
  show ids: "iid ?st = iid st" using sr by (intro iid_cong) auto
  show "helper_inv W nmods L A ?st"
    using rep inv w by (simp add: helper_inv_def ids)
  have ne: "p \<noteq> All_reqs" "q \<noteq> All_reqs" using a q by (auto simp: served_def)
  have "has_service ?st a" using rep a by (simp add: conn_rep_def)
  with move_item_rep [OF rep a(1) q(2) ne, of sr' f] f obtain st' where
    st': "move_item a q f ?st = Inr st'" "conn_rep st' (A(p := remove1 a (A p), q := A q @ [a]))"
      "sritems st' = (sritems ?st)(a \<mapsto> f sr')" "world st' = world ?st" "mmap_addrs st' = mmap_addrs ?st"
    by auto
  have "iid st' = iid ?st" using st'(3) f by (intro iid_cong) auto
  with st' ids inv w ne have "helper_inv W nmods L (A(p := remove1 a (A p), q := A q @ [a])) st'"
    "iid st' = iid st" "world st' = w"
    by (simp_all add: helper_inv_def)
  with st'(1) show "\<exists>st'. move_item a q f ?st = Inr st' \<and>
      helper_inv W nmods L (A(p := remove1 a (A p), q := A q @ [a])) st' \<and> iid st' = iid st \<and>
      world st' = w" by blast
qed

lemma launch_step:
  assumes inv: "helper_inv W nmods L A st" and a: "a \<in> set (A Init_reqs)"
  shows "\<exists>r st'. qc_launch_exec os a st = Inr (0, st') \<and>
     (if r = 0 then helper_inv W nmods L (A(Init_reqs := remove1 a (A Init_reqs),
        Running_reqs := A Running_reqs @ [a])) st' else helper_inv W nmods L A st') \<and>
     iid st' = iid st \<and> (\<exists>p sr sr'. srv_launch os p sr (world st) = (r, sr', world st'))"
proof -
  obtain sr p where sr: "sritems st a = Some sr" "service_of a st = Inr (p, sr)"
    using served_item [OF helper_rep [OF inv] _ a] by (auto simp: served_def)
  obtain r sr' w where run: "srv_launch os p sr (world st) = (r, sr', w)" by (metis prod_cases3)
  have law: "W w (image_mset (iid st) (mset (A All_reqs)) + L)" "sr_s sr' = sr_s sr" "sr_id sr' = sr_id sr"
    using launch_law [OF _ run] inv by (auto simp: helper_inv_def)
  note * = serviced_item [OF inv a _ _ _ sr(1) law(2,3,1), of Running_reqs
      "\<lambda>sr. sr\<lparr>sr_state := QHGPU_REQ_RUNNING\<rparr>"]
  show ?thesis
  proof (cases "r = 0")
    case True
    from *(3) obtain st' where
      "move_item a Running_reqs (\<lambda>sr. sr\<lparr>sr_state := QHGPU_REQ_RUNNING\<rparr>)
         (st\<lparr>world := w, sritems := (sritems st)(a \<mapsto> sr')\<rparr>) = Inr st'"
      "helper_inv W nmods L (A(Init_reqs := remove1 a (A Init_reqs),
        Running_reqs := A Running_reqs @ [a])) st'" "iid st' = iid st" "world st' = w"
      by (auto simp: served_def)
    with True sr run show ?thesis
      by (intro exI [of _ r] exI [of _ st']) (auto simp: qc_launch_exec_def)
  next
    case False
    with *(1,2) sr run show ?thesis
      by (intro exI [of _ r] exI [of _ "st\<lparr>world := w, sritems := (sritems st)(a \<mapsto> sr')\<rparr>"])
        (auto simp: qc_launch_exec_def served_def)
  qed
qed

lemma post_step:
  assumes inv: "helper_inv W nmods L A st" and a: "a \<in> set (A Running_reqs)"
  shows "\<exists>r st'. qc_post_exec os a st = Inr (r, st') \<and>
     (if r = 0 then helper_inv W nmods L (A(Running_reqs := remove1 a (A Running_reqs),
        Post_exec_reqs := A Post_exec_reqs @ [a])) st' else helper_inv W nmods L A st') \<and>
     iid st' = iid st \<and> (\<exists>p sr sr'. srv_post os p sr (world st) = (r, sr', world st'))"
proof -
  obtain sr p where sr: "sritems st a = Some sr" "service_of a st = Inr (p, sr)"
    using served_item [OF helper_rep [OF inv] _ a] by (auto simp: served_def)
  obtain r sr' w where run: "srv_post os p sr (world st) = (r, sr', w)" by (metis prod_cases3)
  have law: "W w (image_mset (iid st) (mset (A All_reqs)) + L)" "sr_s sr' = sr_s sr" "sr_id sr' = sr_id sr"
    using post_law [OF _ run] inv by (auto simp: helper_inv_def)
  note * = serviced_item [OF inv a _ _ _ sr(1) law(2,3,1), of Post_exec_reqs
      "\<lambda>sr. sr\<lparr>sr_state := QHGPU_REQ_POST_EXEC\<rparr>"]
  show ?thesis
  proof (cases "r = 0")
    case True
    from *(3) obtain st' where
      "move_item a Post_exec_reqs (\<lambda>sr. sr\<lparr>sr_state := QHGPU_REQ_POST_EXEC\<rparr>)
         (st\<lparr>world := w, sritems := (sritems st)(a \<mapsto> sr')\<rparr>) = Inr st'"
      "helper_inv W nmods L (A(Running_reqs := remove1 a (A Running_reqs),
        Post_exec_reqs := A Post_exec_reqs @ [a])) st'" "iid st' = iid st" "world st' = w"
      by (auto simp: served_def)
    with True sr run show ?thesis
      by (intro exI [of _ r] exI [of _ st']) (auto simp: qc_post_exec_def)
  next
    case False
    with *(1,2) sr run show ?thesis
      by (intro exI [of _ r] exI [of _ "st\<lparr>world := w, sritems := (sritems st)(a \<mapsto> sr')\<rparr>"])
        (auto simp: qc_post_exec_def served_def)
  qed
qed

text \<open>Reading the next request: nothing new, a new item for a service or without one, or the request to
  stop, whose identifier is never answered.\<close>

lemma next_step:
  assumes inv: "helper_inv W nmods L A st"
  shows "\<exists>c st'. qc_get_next_service_request os st = Some (Inr (c, st')) \<and>
     (c = - 123 \<and> (\<exists>i. helper_inv W nmods (add_mset i L) A st') \<or>
      c = - 1 \<and> helper_inv W nmods L A st' \<or>
      c = 0 \<and> (\<exists>a q. q \<in> {Init_reqs, Done_reqs} \<and> a \<notin> set (A All_reqs) \<and>
        helper_inv W nmods L (A(All_reqs := A All_reqs @ [a], q := A q @ [a])) st')) \<and>
     (\<forall>b \<in> set (A All_reqs). iid st' b = iid st b)"
proof -
  let ?M = "image_mset (iid st) (mset (A All_reqs)) + L"
  obtain e pin w1 where poll: "os_poll os (list_empty (Head All_reqs) (clinks st)) (world st) = (e, pin, w1)"
    by (metis prod_cases3)
  have rep: "conn_rep st A" and W0: "W (world st) ?M" and len: "length (mmap_addrs st) = nmods"
    using inv by (auto simp: helper_inv_def)
  from poll_law [OF W0 poll] have w1: "W w1 ?M" "pin \<longrightarrow> e = 1 \<and> readable w1" by auto
  have same: "helper_inv W nmods L A (st\<lparr>world := w\<rparr>)" if "W w ?M" for w
    using that inv conn_rep_world [OF rep] by (simp add: helper_inv_def iid_def)
  show ?thesis
  proof (cases pin)
    case False
    then show ?thesis using poll same [OF w1(1)] by (simp add: qc_get_next_service_request_def)
  next
    case pin: True
    obtain m w2 where mal: "os_malloc os (sritems st) w1 = (m, w2)" by force
    from malloc_law [OF w1(1) mal] w1(2) pin have w2: "W w2 ?M" "readable w2"
      "\<And>a. m = Some a \<Longrightarrow> sritems st a = None" by auto
    show ?thesis
    proof (cases m)
      case None
      then show ?thesis
        using poll mal pin w1(2) same [OF w2(1)]
        by (simp add: qc_get_next_service_request_def qc_alloc_service_request_def)
    next
      case (Some a)
      have a: "sritems st a = None" using w2(3) Some by blast
      obtain e' again k w3 where rd: "os_read os w2 = (e', again, k, w3)" by (metis prod_cases4)
      from read_law [OF w2(1,2) rd] have rd': "0 < e'" "W w3 (add_mset (ku_id k) ?M)" "0 \<le> ku_id k"
        "nat (ku_id k) < nmods" by auto
      define st1 where "st1 = st\<lparr>sritems := (sritems st)(a \<mapsto> zero_sr),
          clinks := INIT_LIST_HEAD (GNode a) (INIT_LIST_HEAD (LNode a) (clinks st)), world := w3\<rparr>"
      have eq: "qc_get_next_service_request os st =
          (if is_exit_request k then Some (Inr (- 123, st1))
           else map_option (\<lambda>r. bindR r (\<lambda>st. Inr (0, st)))
             (qc_init_service_request a (k\<lparr>ku_mmap_addr := mmap_addrs st ! nat (ku_id k)\<rparr>) st1))"
        using poll mal pin w1(2) Some rd rd' len
        by (simp add: qc_get_next_service_request_def qc_alloc_service_request_def st1_def)
      have fresh: "iid st1 b = iid st b" if "b \<in> set (A All_reqs)" for b
        using that conn_item [OF rep, of b All_reqs] a by (auto simp: iid_def st1_def)
      have rep1: "conn_rep st1 A" and out: "\<And>q. a \<notin> set (A q)"
        using conn_rep_alloc [OF rep a] by (auto simp: st1_def)
      have ids: "image_mset (iid st1) (mset (A All_reqs)) = image_mset (iid st) (mset (A All_reqs))"
        using fresh by (intro image_mset_cong) simp
      show ?thesis
      proof (cases "is_exit_request k")
        case True
        have "helper_inv W nmods (add_mset (ku_id k) L) A st1"
          using rep1 rd'(2) len ids by (simp add: helper_inv_def st1_def)
        with eq True fresh show ?thesis by auto
      next
        case False
        have "nxt (clinks st1) (LNode a) = Some (LNode a)" "prv (clinks st1) (LNode a) = Some (LNode a)"
          by (simp_all add: st1_def list_h_defs)
        from init_request_rep [OF rep1 out this, of "k\<lparr>ku_mmap_addr := mmap_addrs st ! nat (ku_id k)\<rparr>"]
        obtain st' q sr where
          st': "qc_init_service_request a (k\<lparr>ku_mmap_addr := mmap_addrs st ! nat (ku_id k)\<rparr>) st1 = Some (Inr st')"
            "conn_rep st' (A(All_reqs := A All_reqs @ [a], q := A q @ [a]))" "q \<in> {Init_reqs, Done_reqs}"
            "sritems st' = (sritems st1)(a \<mapsto> sr)" "sr_id sr = ku_id k" "world st' = world st1"
            "mmap_addrs st' = mmap_addrs st1"
          by auto
        have same': "iid st' b = iid st1 b" if "b \<in> set (A All_reqs)" for b
          using that out [of All_reqs] st'(4) by (auto simp: iid_def)
        then have "image_mset (iid st') (mset (A All_reqs)) = image_mset (iid st1) (mset (A All_reqs))"
          by (intro image_mset_cong) simp
        moreover have "iid st' a = ku_id k" using st'(4,5) by (simp add: iid_def)
        moreover have "world st1 = w3" "mmap_addrs st1 = mmap_addrs st" by (auto simp: st1_def)
        ultimately have "helper_inv W nmods L (A(All_reqs := A All_reqs @ [a], q := A q @ [a])) st'"
          using st' rd'(2) len ids by (auto simp: helper_inv_def)
        with eq False st'(1,3) out [of All_reqs] fresh same' show ?thesis by auto
      qed
    qed
  qed
qed

end

context helper_os
begin

lemma done_step:
  assumes inv: "helper_inv W nmods L A st" and a: "a \<in> set (A Post_exec_reqs)"
  shows "\<exists>st' M e n. qc_service_done os a st = Inr (0, st') \<and>
     helper_inv W nmods L (A(Post_exec_reqs := remove1 a (A Post_exec_reqs),
       All_reqs := remove1 a (A All_reqs))) st' \<and>
     (\<forall>b. b \<noteq> a \<longrightarrow> iid st' b = iid st b) \<and> W (world st) (add_mset (iid st a) M) \<and>
     os_write os \<lparr>kr_id = iid st a, kr_errcode = e\<rparr> (world st) = (n, world st')"
proof -
  have rep: "conn_rep st A" using inv by (rule helper_rep)
  obtain sr where sr: "sritems st a = Some sr" using conn_item [OF rep a] by blast
  have all: "a \<in> set (A All_reqs)" using conn_all [OF rep _ a] by simp
  let ?A = "A(Post_exec_reqs := remove1 a (A Post_exec_reqs), All_reqs := remove1 a (A All_reqs))"
  obtain n w where wr: "os_write os \<lparr>kr_id = sr_id sr, kr_errcode = sr_errcode sr\<rparr> (world st) = (n, w)"
    by force
  have M: "image_mset (iid st) (mset (A All_reqs)) =
      add_mset (sr_id sr) (image_mset (iid st) (mset (remove1 a (A All_reqs))))"
  proof -
    have "mset (A All_reqs) = add_mset a (mset (remove1 a (A All_reqs)))" using all by simp
    moreover have "iid st a = sr_id sr" using sr by (simp add: iid_def)
    ultimately show ?thesis by (metis image_mset_add_mset)
  qed
  then have W: "W (world st) (add_mset (sr_id sr) (image_mset (iid st) (mset (remove1 a (A All_reqs))) + L))"
    using inv by (simp add: helper_inv_def)
  from write_law [OF W wr] have n: "0 \<le> n"
    "W w (image_mset (iid st) (mset (remove1 a (A All_reqs))) + L)" by auto
  have rep': "conn_rep (st\<lparr>world := w\<rparr>) A" using rep by (rule conn_rep_world)
  from remove_item_rep [OF rep' a] obtain l l' where
    l: "list_del (LNode a) (clinks st) = Inr l" "list_del (GNode a) l = Inr l'"
      "conn_rep (qc_free_service_request a (st\<lparr>world := w, clinks := l'\<rparr>)) ?A"
    by auto
  have "image_mset (iid (qc_free_service_request a (st\<lparr>world := w, clinks := l'\<rparr>)))
      (mset (remove1 a (A All_reqs))) = image_mset (iid st) (mset (remove1 a (A All_reqs)))"
  proof (rule image_mset_cong)
    fix b
    assume "b \<in># mset (remove1 a (A All_reqs))"
    then have "b \<in> set (remove1 a (A All_reqs))" by (simp only: set_mset_mset)
    then have "b \<noteq> a" using conn_distinct [OF rep, of All_reqs] by (auto simp: set_remove1_eq)
    then show "iid (qc_free_service_request a (st\<lparr>world := w, clinks := l'\<rparr>)) b = iid st b"
      by (simp add: iid_def qc_free_service_request_def)
  qed
  then have "helper_inv W nmods L ?A (qc_free_service_request a (st\<lparr>world := w, clinks := l'\<rparr>))"
    using l(3) n(2) inv by (simp add: helper_inv_def qc_free_service_request_def)
  moreover have "qc_service_done os a st =
      Inr (0, qc_free_service_request a (st\<lparr>world := w, clinks := l'\<rparr>))"
    using sr wr n(1) l(1,2)
    by (simp add: qc_service_done_def qc_send_response_def safe_syscall_def with_links_def)
  moreover have "\<forall>b. b \<noteq> a \<longrightarrow>
      iid (qc_free_service_request a (st\<lparr>world := w, clinks := l'\<rparr>)) b = iid st b"
    by (simp add: iid_def qc_free_service_request_def)
  moreover have "iid st a = sr_id sr" using sr by (simp add: iid_def)
  moreover have "world (qc_free_service_request a (st\<lparr>world := w, clinks := l'\<rparr>)) = w"
    by (simp add: qc_free_service_request_def)
  ultimately show ?thesis using W wr by metis
qed


text \<open>One round of the main loop returns, whatever the services return, and keeps the invariant. The
  queue of requests without a service only grows.\<close>

lemma round_ok:
  assumes inv: "helper_inv W nmods L A st"
  shows "\<exists>stop st' A' L' xs. main_loop_body os st = Some (Inr (stop, st')) \<and>
     helper_inv W nmods L' A' st' \<and> (\<not> stop \<longrightarrow> L' = L) \<and> A' Done_reqs = A Done_reqs @ xs"
proof -
  let ?I = "\<lambda>B st. helper_inv W nmods L B st \<and> B Done_reqs = A Done_reqs"
  have rep: "\<And>B st. ?I B st \<Longrightarrow> conn_rep st B" using helper_rep by blast
  have split: "remove1 a (B q) = d @ r" if "?I B st" "B q = d @ a # r" for B st q d a r
    using conn_distinct [OF rep [OF that(1)], of q] that(2) by (simp add: remove1_append_middle)
  obtain st1 A1 where s1: "qc_process_request (qc_service_done os) Post_exec_reqs False st = Some (Inr st1)"
    "?I A1 st1"
  proof (atomize_elim, rule process_keeps [where I = ?I, OF rep])
    fix B st d a r
    assume I: "?I B st" and B: "B Post_exec_reqs = d @ a # r"
    let ?B = "B(Post_exec_reqs := remove1 a (B Post_exec_reqs), All_reqs := remove1 a (B All_reqs))"
    from I B obtain st' where
      "qc_service_done os a st = Inr (0, st')" "helper_inv W nmods L ?B st'"
      using done_step [of L B st a] by auto
    with I split [OF I B]
    show "\<exists>c st' B' d'. qc_service_done os a st = Inr (c, st') \<and> ?I B' st' \<and> B' Post_exec_reqs = d' @ r"
      by (intro exI [of _ 0] exI [of _ st'] exI [of _ ?B] exI [of _ d]) simp
  qed (use inv in auto)
  obtain st2 A2 where s2: "qc_process_request (qc_post_exec os) Running_reqs True st1 = Some (Inr st2)"
    "?I A2 st2"
  proof (atomize_elim, rule process_keeps [where I = ?I, OF rep])
    fix B st d a r
    assume I: "?I B st" and B: "B Running_reqs = d @ a # r"
    then have "helper_inv W nmods L B st" "a \<in> set (B Running_reqs)" by auto
    from post_step [OF this] obtain c st' where c: "qc_post_exec os a st = Inr (c, st')"
      "if c = 0 then helper_inv W nmods L (B(Running_reqs := remove1 a (B Running_reqs),
         Post_exec_reqs := B Post_exec_reqs @ [a])) st' else helper_inv W nmods L B st'" by blast
    with I B split [OF I B]
    show "\<exists>c st' B' d'. qc_post_exec os a st = Inr (c, st') \<and> ?I B' st' \<and> B' Running_reqs = d' @ r"
      by (cases "c = 0") (fastforce, force intro: exI [of _ B] exI [of _ "d @ [a]"])
  qed (use s1 in auto)
  obtain st3 A3 where s3: "qc_process_request (qc_launch_exec os) Init_reqs False st2 = Some (Inr st3)"
    "?I A3 st3"
  proof (atomize_elim, rule process_keeps [where I = ?I, OF rep])
    fix B st d a r
    assume I: "?I B st" and B: "B Init_reqs = d @ a # r"
    then have "helper_inv W nmods L B st" "a \<in> set (B Init_reqs)" by auto
    from launch_step [OF this] obtain st' and c :: int where c: "qc_launch_exec os a st = Inr (0, st')"
      "if c = 0 then helper_inv W nmods L (B(Init_reqs := remove1 a (B Init_reqs),
         Running_reqs := B Running_reqs @ [a])) st' else helper_inv W nmods L B st'" by blast
    with I B split [OF I B]
    show "\<exists>c st' B' d'. qc_launch_exec os a st = Inr (c, st') \<and> ?I B' st' \<and> B' Init_reqs = d' @ r"
      by (cases "c = 0") (fastforce, force intro: exI [of _ B] exI [of _ "d @ [a]"])
  qed (use s2 in auto)
  from next_step [of L A3 st3] s3(2) obtain c st' where
    n: "qc_get_next_service_request os st3 = Some (Inr (c, st'))"
      "c = - 123 \<and> (\<exists>i. helper_inv W nmods (add_mset i L) A3 st') \<or> c = - 1 \<and> helper_inv W nmods L A3 st' \<or>
       c = 0 \<and> (\<exists>a q. q \<in> {Init_reqs, Done_reqs} \<and> a \<notin> set (A3 All_reqs) \<and>
        helper_inv W nmods L (A3(All_reqs := A3 All_reqs @ [a], q := A3 q @ [a])) st')" by blast
  have run: "main_loop_body os st = Some (Inr (c = - 123, st'))"
    using s1 s2 s3 n(1) by (simp add: main_loop_body_def)
  from n(2) show ?thesis
  proof (elim disjE conjE exE)
    fix i
    assume "c = - 123" "helper_inv W nmods (add_mset i L) A3 st'"
    with run s3(2) show ?thesis
      by (intro exI [of _ True] exI [of _ st'] exI [of _ A3] exI [of _ "add_mset i L"] exI [of _ "[]"]) simp
  next
    assume "c = - 1" "helper_inv W nmods L A3 st'"
    with run s3(2) show ?thesis
      by (intro exI [of _ False] exI [of _ st'] exI [of _ A3] exI [of _ L] exI [of _ "[]"]) simp
  next
    fix a q
    let ?A = "A3(All_reqs := A3 All_reqs @ [a], q := A3 q @ [a])"
    assume "c = 0" "helper_inv W nmods L ?A st'" and q: "q \<in> {Init_reqs, Done_reqs}"
    moreover have "\<exists>xs. ?A Done_reqs = A3 Done_reqs @ xs" using q by auto
    ultimately show ?thesis
      using run s3(2) by (intro exI [of _ False] exI [of _ st'] exI [of _ ?A] exI [of _ L]) simp
  qed
qed

end

end
