(* ===== verification/QH_Progress.thy ===== *)
theory QH_Progress
  imports QH_Queues
begin

text \<open>
  Progress of the helper: when services succeed, the requests in its queues are answered in the order in
  which they were read, at most \<open>length running + length init + 2\<close> rounds of the main loop after.
\<close>

section \<open>The backlog\<close>

text \<open>The identifiers of the requests that services work on, in the order in which they are answered.\<close>

definition backlog :: "'w conn \<Rightarrow> (qname \<Rightarrow> nat list) \<Rightarrow> int list" where
  "backlog st A = map (iid st) (A Post_exec_reqs @ A Running_reqs @ A Init_reqs)"

text \<open>Several rounds of the main loop.\<close>

fun rounds :: "'w osys \<Rightarrow> nat \<Rightarrow> 'w conn \<Rightarrow> (bool \<times> 'w conn) res option" where
  "rounds os 0 st = Some (Inr (False, st))"
| "rounds os (Suc n) st =
     bindO (main_loop_body os st) (\<lambda>(stop, st).
     if stop then Some (Inr (True, st)) else rounds os n st)"

lemma conn_queue_apart:
  assumes "conn_rep st A" and "A p = d @ a # r" and "p \<noteq> q" "p \<noteq> All_reqs" "q \<noteq> All_reqs"
  shows "a \<notin> set (A q)" "a \<notin> set r"
  using conn_disjoint [OF assms(1), of a p q] conn_distinct [OF assms(1), of p] assms(2-5) by auto

sublocale reliable_services \<subseteq> logged: helper_world os "\<lambda>w M. W w M \<and> answers w = ans" readable nmods
  for ans
proof unfold_locales
  fix w M b e pin w'
  assume *: "W w M \<and> answers w = ans" "os_poll os b w = (e, pin, w')"
  show "(W w' M \<and> answers w' = ans) \<and> (pin \<longrightarrow> e = 1 \<and> readable w')"
    using * poll_law [of w M b e pin w'] poll_quiet [of w M b e pin w'] by auto
next
  fix w M h m w'
  assume *: "W w M \<and> answers w = ans" "os_malloc os h w = (m, w')"
  show "(W w' M \<and> answers w' = ans) \<and> (readable w \<longrightarrow> readable w') \<and> (\<forall>a. m = Some a \<longrightarrow> h a = None)"
    using * malloc_law [of w M h m w'] malloc_quiet [of w M h m w'] by auto
next
  fix w M e again k w'
  assume *: "W w M \<and> answers w = ans" "readable w" "os_read os w = (e, again, k, w')"
  show "0 < e \<and> (W w' (add_mset (ku_id k) M) \<and> answers w' = ans) \<and> 0 \<le> ku_id k \<and> nat (ku_id k) < nmods"
    using * read_law [of w M e again k w'] read_quiet [of w M e again k w'] by auto
next
  fix w M p sr r sr' w'
  assume *: "W w M \<and> answers w = ans"
  show "(W w' M \<and> answers w' = ans) \<and> sr_s sr' = sr_s sr \<and> sr_id sr' = sr_id sr"
    if "srv_launch os p sr w = (r, sr', w')"
    using * that launch_law [of w M p sr r sr' w'] launch_reliable [of w M p sr r sr' w'] by auto
  show "(W w' M \<and> answers w' = ans) \<and> sr_s sr' = sr_s sr \<and> sr_id sr' = sr_id sr"
    if "srv_post os p sr w = (r, sr', w')"
    using * that post_law [of w M p sr r sr' w'] post_reliable [of w M p sr r sr' w'] by auto
qed

context reliable_services
begin

text \<open>The four parts of a round.\<close>

lemma reliable_done:
  assumes inv: "helper_inv W nmods L A st"
  shows "\<exists>st' A'. qc_process_request (qc_service_done os) Post_exec_reqs False st = Some (Inr st') \<and>
     helper_inv W nmods L A' st' \<and> A' Post_exec_reqs = [] \<and> A' Running_reqs = A Running_reqs \<and>
     A' Init_reqs = A Init_reqs \<and> (\<forall>b \<in> set (A Running_reqs @ A Init_reqs). iid st' b = iid st b) \<and>
     answers (world st') = answers (world st) @ map (iid st) (A Post_exec_reqs)"
proof -
  let ?I = "\<lambda>B s. helper_inv W nmods L B s \<and> B Running_reqs = A Running_reqs \<and> B Init_reqs = A Init_reqs \<and>
     (\<forall>b \<in> set (B Post_exec_reqs @ A Running_reqs @ A Init_reqs). iid s b = iid st b) \<and>
     answers (world s) @ map (iid st) (B Post_exec_reqs) =
       answers (world st) @ map (iid st) (A Post_exec_reqs)"
  have "\<exists>st' A'. qc_process_request (qc_service_done os) Post_exec_reqs False st = Some (Inr st') \<and>
     ?I A' st' \<and> A' Post_exec_reqs = []"
  proof (rule process_drains [where I = ?I])
    fix B s a r
    assume I: "?I B s" and B: "B Post_exec_reqs = a # r"
    then have rep: "conn_rep s B" using helper_rep by blast
    let ?B = "B(Post_exec_reqs := remove1 a (B Post_exec_reqs), All_reqs := remove1 a (B All_reqs))"
    from I B have "helper_inv W nmods L B s" "a \<in> set (B Post_exec_reqs)" by auto
    from done_step [OF this] obtain s' M e n where
      s': "qc_service_done os a s = Inr (0, s')" "helper_inv W nmods L ?B s'"
        "\<forall>b. b \<noteq> a \<longrightarrow> iid s' b = iid s b" "W (world s) (add_mset (iid s a) M)"
        "os_write os \<lparr>kr_id = iid s a, kr_errcode = e\<rparr> (world s) = (n, world s')" by blast
    have log: "answers (world s') = answers (world s) @ [iid s a]" by (rule write_logged [OF s'(4,5)])
    have split: "B Post_exec_reqs = [] @ a # r" using B by simp
    have "a \<notin> set (r @ A Running_reqs @ A Init_reqs)"
      using I conn_queue_apart [OF rep split, of Running_reqs] conn_queue_apart [OF rep split, of Init_reqs]
      by auto
    then have "\<forall>b \<in> set (r @ A Running_reqs @ A Init_reqs). iid s' b = iid st b"
      using s'(3) I B by auto
    with s'(1,2) I B log
    show "\<exists>c s' B'. qc_service_done os a s = Inr (c, s') \<and> ?I B' s' \<and> B' Post_exec_reqs = r"
      by (intro exI [of _ 0] exI [of _ s'] exI [of _ ?B]) simp
  qed (use inv helper_rep in auto)
  then show ?thesis by auto
qed

lemma reliable_post:
  assumes inv: "helper_inv W nmods L A st" and post: "A Post_exec_reqs = []"
  shows "\<exists>st' A'. qc_process_request (qc_post_exec os) Running_reqs True st = Some (Inr st') \<and>
     helper_inv W nmods L A' st' \<and> A' Post_exec_reqs = take 1 (A Running_reqs) \<and>
     A' Running_reqs = drop 1 (A Running_reqs) \<and> A' Init_reqs = A Init_reqs \<and> iid st' = iid st \<and>
     answers (world st') = answers (world st)"
proof (cases "A Running_reqs")
  case Nil
  with process_once_empty [OF helper_rep [OF inv] Nil] inv post show ?thesis by auto
next
  case (Cons a r)
  then have "a \<in> set (A Running_reqs)" by simp
  from post_step [OF inv this] obtain c st' p sr sr' where
    c: "qc_post_exec os a st = Inr (c, st')"
      "if c = 0 then helper_inv W nmods L (A(Running_reqs := remove1 a (A Running_reqs),
         Post_exec_reqs := A Post_exec_reqs @ [a])) st' else helper_inv W nmods L A st'"
      "iid st' = iid st" "srv_post os p sr (world st) = (c, sr', world st')" by blast
  have "W (world st) (image_mset (iid st) (mset (A All_reqs)) + L)" using inv by (simp add: helper_inv_def)
  from post_reliable [OF this c(4)] have c0: "c = 0" "answers (world st') = answers (world st)" by auto
  with process_once_first [OF helper_rep [OF inv] Cons, of "qc_post_exec os" st'] c Cons post
  show ?thesis by auto
qed

lemma reliable_launch:
  assumes inv: "helper_inv W nmods L A st"
  shows "\<exists>st' A'. qc_process_request (qc_launch_exec os) Init_reqs False st = Some (Inr st') \<and>
     helper_inv W nmods L A' st' \<and> A' Post_exec_reqs = A Post_exec_reqs \<and>
     A' Running_reqs = A Running_reqs @ A Init_reqs \<and> A' Init_reqs = [] \<and> iid st' = iid st \<and>
     answers (world st') = answers (world st)"
proof -
  let ?I = "\<lambda>B s. helper_inv W nmods L B s \<and> B Post_exec_reqs = A Post_exec_reqs \<and>
     B Running_reqs @ B Init_reqs = A Running_reqs @ A Init_reqs \<and> iid s = iid st \<and>
     answers (world s) = answers (world st)"
  have "\<exists>st' A'. qc_process_request (qc_launch_exec os) Init_reqs False st = Some (Inr st') \<and>
     ?I A' st' \<and> A' Init_reqs = []"
  proof (rule process_drains [where I = ?I])
    fix B s a r
    assume I: "?I B s" and B: "B Init_reqs = a # r"
    then have inv: "helper_inv W nmods L B s" and "a \<in> set (B Init_reqs)" by auto
    from launch_step [OF this] obtain c s' p sr sr' where
      c: "qc_launch_exec os a s = Inr (0, s')"
        "if c = 0 then helper_inv W nmods L (B(Init_reqs := remove1 a (B Init_reqs),
           Running_reqs := B Running_reqs @ [a])) s' else helper_inv W nmods L B s'"
        "iid s' = iid s" "srv_launch os p sr (world s) = (c, sr', world s')" by blast
    have "W (world s) (image_mset (iid s) (mset (B All_reqs)) + L)" using inv by (simp add: helper_inv_def)
    from launch_reliable [OF this c(4)] have "c = 0" "answers (world s') = answers (world s)" by auto
    with c I B show "\<exists>c s' B'. qc_launch_exec os a s = Inr (c, s') \<and> ?I B' s' \<and> B' Init_reqs = r"
      by (intro exI [of _ 0] exI [of _ s'] exI [of _ "B(Init_reqs := remove1 a (B Init_reqs),
           Running_reqs := B Running_reqs @ [a])"]) simp
  qed (use inv helper_rep in auto)
  then show ?thesis by auto
qed

lemma reliable_next:
  assumes inv: "helper_inv W nmods L A st" and init: "A Init_reqs = []"
  shows "\<exists>c st' A' L' new. qc_get_next_service_request os st = Some (Inr (c, st')) \<and>
     helper_inv W nmods L' A' st' \<and> (c \<noteq> - 123 \<longrightarrow> L' = L) \<and> A' Post_exec_reqs = A Post_exec_reqs \<and>
     A' Running_reqs = A Running_reqs \<and> A' Init_reqs = new \<and>
     (\<forall>b \<in> set (A Post_exec_reqs @ A Running_reqs). iid st' b = iid st b) \<and>
     answers (world st') = answers (world st)"
proof -
  have iff: "helper_inv (\<lambda>w M. W w M \<and> answers w = answers (world st)) nmods K B s \<longleftrightarrow>
      helper_inv W nmods K B s \<and> answers (world s) = answers (world st)" for K B s
    by (auto simp: helper_inv_def)
  have log: "helper_inv (\<lambda>w M. W w M \<and> answers w = answers (world st)) nmods L A st"
    using inv by (simp add: iff)
  have sub: "b \<in> set (A All_reqs)" if "b \<in> set (A Post_exec_reqs @ A Running_reqs)" for b
    using that conn_all [OF helper_rep [OF inv]] by auto
  from logged.next_step [OF log] obtain c st' where
    n: "qc_get_next_service_request os st = Some (Inr (c, st'))"
      "\<forall>b \<in> set (A All_reqs). iid st' b = iid st b"
      "(c = - 123 \<and> (\<exists>i. helper_inv W nmods (add_mset i L) A st') \<or> c = - 1 \<and> helper_inv W nmods L A st' \<or>
       c = 0 \<and> (\<exists>a q. q \<in> {Init_reqs, Done_reqs} \<and> a \<notin> set (A All_reqs) \<and>
        helper_inv W nmods L (A(All_reqs := A All_reqs @ [a], q := A q @ [a])) st')) \<and>
      answers (world st') = answers (world st)"
    unfolding iff by blast
  have ids: "\<forall>b \<in> set (A Post_exec_reqs @ A Running_reqs). iid st' b = iid st b"
    using n(2) sub by blast
  from n(3) obtain L' A' where "helper_inv W nmods L' A' st'" "c \<noteq> - 123 \<longrightarrow> L' = L"
    "A' Post_exec_reqs = A Post_exec_reqs" "A' Running_reqs = A Running_reqs"
  proof (elim conjE disjE exE)
    fix a q
    assume h: "helper_inv W nmods L (A(All_reqs := A All_reqs @ [a], q := A q @ [a])) st'"
      and "q \<in> {Init_reqs, Done_reqs}"
    with that [OF h] show thesis by auto
  qed (use that in auto)
  with n(1,3) ids show ?thesis by blast
qed

text \<open>One round answers what was post-processed, and moves the rest on.\<close>

lemma reliable_round:
  assumes inv: "helper_inv W nmods L A st"
  shows "\<exists>stop st' A' L'. main_loop_body os st = Some (Inr (stop, st')) \<and>
     helper_inv W nmods L' A' st' \<and> (\<not> stop \<longrightarrow> L' = L) \<and>
     answers (world st') = answers (world st) @ map (iid st) (A Post_exec_reqs) \<and>
     A' Post_exec_reqs = take 1 (A Running_reqs) \<and>
     A' Running_reqs = drop 1 (A Running_reqs) @ A Init_reqs \<and>
     (\<forall>b \<in> set (A Running_reqs @ A Init_reqs). iid st' b = iid st b)"
proof -
  from reliable_done [OF inv] obtain st1 A1 where
    1: "qc_process_request (qc_service_done os) Post_exec_reqs False st = Some (Inr st1)"
      "helper_inv W nmods L A1 st1" "A1 Post_exec_reqs = []" "A1 Running_reqs = A Running_reqs"
      "A1 Init_reqs = A Init_reqs" "\<forall>b \<in> set (A Running_reqs @ A Init_reqs). iid st1 b = iid st b"
      "answers (world st1) = answers (world st) @ map (iid st) (A Post_exec_reqs)" by blast
  from reliable_post [OF 1(2,3)] obtain st2 A2 where
    2: "qc_process_request (qc_post_exec os) Running_reqs True st1 = Some (Inr st2)"
      "helper_inv W nmods L A2 st2" "A2 Post_exec_reqs = take 1 (A Running_reqs)"
      "A2 Running_reqs = drop 1 (A Running_reqs)" "A2 Init_reqs = A Init_reqs" "iid st2 = iid st1"
      "answers (world st2) = answers (world st1)" using 1(4,5) by auto
  from reliable_launch [OF 2(2)] obtain st3 A3 where
    3: "qc_process_request (qc_launch_exec os) Init_reqs False st2 = Some (Inr st3)"
      "helper_inv W nmods L A3 st3" "A3 Post_exec_reqs = take 1 (A Running_reqs)"
      "A3 Running_reqs = drop 1 (A Running_reqs) @ A Init_reqs" "A3 Init_reqs = []" "iid st3 = iid st2"
      "answers (world st3) = answers (world st2)" using 2(3-5) by auto
  from reliable_next [OF 3(2,5)] obtain c st' A' L' where
    4: "qc_get_next_service_request os st3 = Some (Inr (c, st'))" "helper_inv W nmods L' A' st'"
      "c \<noteq> - 123 \<longrightarrow> L' = L" "A' Post_exec_reqs = A3 Post_exec_reqs" "A' Running_reqs = A3 Running_reqs"
      "\<forall>b \<in> set (A3 Post_exec_reqs @ A3 Running_reqs). iid st' b = iid st3 b"
      "answers (world st') = answers (world st3)" by blast
  have "set (A3 Post_exec_reqs @ A3 Running_reqs) = set (A Running_reqs @ A Init_reqs)"
    using 3(3,4) by (cases "A Running_reqs") auto
  then have "\<forall>b \<in> set (A Running_reqs @ A Init_reqs). iid st' b = iid st b"
    using 4(6) 3(6) 2(6) 1(6) by auto
  moreover have "main_loop_body os st = Some (Inr (c = - 123, st'))"
    using 1(1) 2(1) 3(1) 4(1) by (simp add: main_loop_body_def)
  ultimately show ?thesis using 1 2 3 4 by (intro exI [of _ "c = - 123"] exI) auto
qed

text \<open>In terms of the backlog: what is answered is its front.\<close>

lemma round_backlog:
  assumes inv: "helper_inv W nmods L A st"
  shows "\<exists>stop st' A' L' new. main_loop_body os st = Some (Inr (stop, st')) \<and>
     helper_inv W nmods L' A' st' \<and>
     answers (world st') = answers (world st) @ map (iid st) (A Post_exec_reqs) \<and>
     map (iid st) (A Post_exec_reqs) @ backlog st' A' = backlog st A @ new \<and>
     length (A' Post_exec_reqs) = min 1 (length (A Running_reqs)) \<and>
     length (A' Running_reqs) = length (A Running_reqs) - 1 + length (A Init_reqs)"
proof -
  from reliable_round [OF inv] obtain stop st' A' L' where
    r: "main_loop_body os st = Some (Inr (stop, st'))" "helper_inv W nmods L' A' st'"
      "answers (world st') = answers (world st) @ map (iid st) (A Post_exec_reqs)"
      "A' Post_exec_reqs = take 1 (A Running_reqs)" "A' Running_reqs = drop 1 (A Running_reqs) @ A Init_reqs"
      "\<forall>b \<in> set (A Running_reqs @ A Init_reqs). iid st' b = iid st b" by blast
  have "A' Post_exec_reqs @ A' Running_reqs = A Running_reqs @ A Init_reqs"
    using r(4,5) by (metis append.assoc append_take_drop_id)
  then have "map (iid st') (A' Post_exec_reqs @ A' Running_reqs) = map (iid st) (A Running_reqs @ A Init_reqs)"
    using r(6) by auto
  then have "backlog st' A' = map (iid st) (A Running_reqs @ A Init_reqs) @ map (iid st') (A' Init_reqs)"
    by (simp add: backlog_def)
  then have "map (iid st) (A Post_exec_reqs) @ backlog st' A' = backlog st A @ map (iid st') (A' Init_reqs)"
    by (simp add: backlog_def)
  with r show ?thesis by (intro exI [of _ stop] exI [of _ st'] exI [of _ A'] exI) auto
qed

lemma rounds_backlog:
  assumes "helper_inv W nmods L A st"
  shows "\<exists>stop st' A' L' out new. rounds os n st = Some (Inr (stop, st')) \<and>
     helper_inv W nmods L' A' st' \<and> answers (world st') = answers (world st) @ out \<and>
     out @ backlog st' A' = backlog st A @ new \<and>
     (\<not> stop \<longrightarrow> 0 < n \<longrightarrow> min (length (backlog st A)) (length (A Post_exec_reqs) +
        (if A Running_reqs = [] then n - 2 else n - 1)) \<le> length out)"
  using assms
proof (induction n arbitrary: L A st)
  case 0
  then show ?case
    by (intro exI [of _ False] exI [of _ st] exI [of _ A] exI [of _ L] exI [of _ "[]"]) simp
next
  case (Suc n)
  let ?P = "map (iid st) (A Post_exec_reqs)"
  from round_backlog [OF Suc.prems] obtain stop s1 A1 L1 new1 where
    1: "main_loop_body os st = Some (Inr (stop, s1))" "helper_inv W nmods L1 A1 s1"
      "answers (world s1) = answers (world st) @ ?P" "?P @ backlog s1 A1 = backlog st A @ new1"
      "length (A1 Post_exec_reqs) = min 1 (length (A Running_reqs))"
      "length (A1 Running_reqs) = length (A Running_reqs) - 1 + length (A Init_reqs)" by blast
  show ?case
  proof (cases stop)
    case True
    with 1 show ?thesis
      by (intro exI [of _ True] exI [of _ s1] exI [of _ A1] exI [of _ L1] exI [of _ ?P] exI [of _ new1]) simp
  next
    case False
    from Suc.IH [OF 1(2)] obtain stop' st' A' L' out new where
      2: "rounds os n s1 = Some (Inr (stop', st'))" "helper_inv W nmods L' A' st'"
        "answers (world st') = answers (world s1) @ out" "out @ backlog st' A' = backlog s1 A1 @ new"
        "\<not> stop' \<longrightarrow> 0 < n \<longrightarrow> min (length (backlog s1 A1)) (length (A1 Post_exec_reqs) +
           (if A1 Running_reqs = [] then n - 2 else n - 1)) \<le> length out" by blast
    have eq: "(?P @ out) @ backlog st' A' = backlog st A @ (new1 @ new)"
      using 2(4) 1(4) by (metis append.assoc)
    have len: "length (A Post_exec_reqs) + length (backlog s1 A1) = length (backlog st A) + length new1"
      using arg_cong [OF 1(4), of length] by simp
    have bl: "length (backlog st A) = length (A Post_exec_reqs) + length (A Running_reqs) + length (A Init_reqs)"
      by (simp add: backlog_def)
    have "min (length (backlog st A)) (length (A Post_exec_reqs) +
        (if A Running_reqs = [] then Suc n - 2 else Suc n - 1)) \<le> length (?P @ out)" if "\<not> stop'"
    proof (cases n)
      case 0
      then show ?thesis using bl by auto
    next
      case (Suc k)
      then have out: "min (length (backlog s1 A1)) (length (A1 Post_exec_reqs) +
           (if A1 Running_reqs = [] then n - 2 else n - 1)) \<le> length out" using 2(5) that by simp
      show ?thesis
      proof (cases "A Running_reqs")
        case Nil
        then have "length (A1 Running_reqs) = length (A Init_reqs)" "length (A1 Post_exec_reqs) = 0"
          using 1(5,6) by auto
        with out Nil bl len Suc show ?thesis by (cases "A Init_reqs") (auto split: if_splits)
      next
        case (Cons a r)
        then have "length (A1 Running_reqs) = length r + length (A Init_reqs)" "length (A1 Post_exec_reqs) = 1"
          using 1(5,6) by auto
        with out Cons bl len Suc show ?thesis
          by (cases "A1 Running_reqs = []") (auto split: if_splits)
      qed
    qed
    with 1 2 eq False show ?thesis
      by (intro exI [of _ stop'] exI [of _ st'] exI [of _ A'] exI [of _ L'] exI [of _ "?P @ out"]
          exI [of _ "new1 @ new"]) simp
  qed
qed

text \<open>Every request of the backlog is answered, in order, after enough rounds.\<close>

lemma backlog_answered:
  assumes inv: "helper_inv W nmods L A st"
    and n: "length (A Running_reqs) + length (A Init_reqs) + 2 \<le> n"
    and run: "rounds os n st = Some (Inr (False, st'))"
  shows "\<exists>later. answers (world st') = answers (world st) @ backlog st A @ later"
proof -
  from rounds_backlog [OF inv, of n] run obtain A' out new where
    o: "answers (world st') = answers (world st) @ out" "out @ backlog st' A' = backlog st A @ new"
      "0 < n \<longrightarrow> min (length (backlog st A)) (length (A Post_exec_reqs) +
         (if A Running_reqs = [] then n - 2 else n - 1)) \<le> length out" by auto
  have "length (backlog st A) \<le> length out"
    using o(3) n by (auto simp: backlog_def split: if_splits)
  with o(2) obtain later where "out = backlog st A @ later" by (metis append_eq_append_conv_if append_take_drop_id)
  with o(1) show ?thesis by auto
qed

end

end
