(* ===== verification/QH_System.thy ===== *)
theory QH_System
  imports QH_Progress QH_Kernel
begin

text \<open>
  The helper and the kernel module together: the system calls of the helper are the file operations of
  the device. Between two of them clients may submit and finish calls; they, the services and the
  allocator of the C library are the fields of a record \<open>kernel_env\<close>, with what the system relies on as
  the predicate \<open>env_ok\<close>. The interpretations show that the device meets the interface \<open>helper_os\<close>, so
  that everything proved about the helper holds for the composed system.
\<close>

section \<open>The device as the operating system of the helper\<close>

record kworld =
  kdev :: dev
  kanswers :: "int list"   \<comment> \<open>identifiers of the responses that were accepted\<close>

record kernel_env =
  ke_page_shift :: nat
  ke_junk :: ku_request
  ke_clients :: "dev \<Rightarrow> dev"
  ke_malloc :: "(nat \<rightharpoonup> service_request) \<Rightarrow> nat option"
  ke_launch :: "nat \<Rightarrow> service_request \<Rightarrow> dev \<Rightarrow> int \<times> service_request \<times> dev"
  ke_post :: "nat \<Rightarrow> service_request \<Rightarrow> dev \<Rightarrow> int \<times> service_request \<times> dev"

text \<open>\<open>sizeof(struct qhgpu_ku_request)\<close> and \<open>sizeof(struct qhgpu_ku_response)\<close>\<close>

definition ku_request_size :: nat where "ku_request_size = 120"
definition ku_response_size :: nat where "ku_response_size = 8"

text \<open>\<open>poll\<close> reports \<open>POLLIN\<close>, the lowest bit of what \<open>qhgpu_poll\<close> returns; a poll that blocks returns when
  clients have submitted something or a signal arrives.\<close>

definition sys_poll :: "kernel_env \<Rightarrow> bool \<Rightarrow> kworld \<Rightarrow> int \<times> bool \<times> kworld" where
  "sys_poll env block w =
     (let s = ke_clients env (kdev w)
      in (if odd (qhgpu_poll s) then 1 else if block then - 1 else 0, odd (qhgpu_poll s), w\<lparr>kdev := s\<rparr>))"

text \<open>A call of the device that faults ends in no defined result; \<open>- 1\<close> stands for it, and
  the theorems show that it does not occur.\<close>

definition sys_read :: "kernel_env \<Rightarrow> kworld \<Rightarrow> int \<times> bool \<times> ku_request \<times> kworld" where
  "sys_read env w =
     (case qhgpu_read (ke_page_shift env) False False ku_request_size (ke_junk env) (kdev w) of
        Inr (Read_returns n (Some k), s) \<Rightarrow> (n, False, k, w\<lparr>kdev := s\<rparr>)
      | Inr (_, s) \<Rightarrow> (- 1, True, ke_junk env, w\<lparr>kdev := s\<rparr>)
      | Inl e \<Rightarrow> (- 1, False, ke_junk env, w))"

definition sys_write :: "kernel_env \<Rightarrow> ku_response \<Rightarrow> kworld \<Rightarrow> int \<times> kworld" where
  "sys_write env resp w =
     (case qhgpu_write ku_response_size resp (kdev w) of
        Inr (n, s) \<Rightarrow>
          if 0 \<le> n then (n, w\<lparr>kdev := s, kanswers := kanswers w @ [kr_id resp]\<rparr>)
          else (- 1, w\<lparr>kdev := s\<rparr>)
      | Inl e \<Rightarrow> (- 1, w))"

definition kernel_os :: "kernel_env \<Rightarrow> kworld osys" where
  "kernel_os env = \<lparr>
     os_poll = sys_poll env,
     os_malloc = \<lambda>h w. (ke_malloc env h, w),
     os_read = sys_read env,
     os_write = sys_write env,
     srv_launch = \<lambda>p sr w. (case ke_launch env p sr (kdev w) of (r, sr', s) \<Rightarrow> (r, sr', w\<lparr>kdev := s\<rparr>)),
     srv_post = \<lambda>p sr w. (case ke_post env p sr (kdev w) of (r, sr', s) \<Rightarrow> (r, sr', w\<lparr>kdev := s\<rparr>))\<rparr>"

section \<open>What runs beside the helper\<close>

definition ids_ok :: "nat \<Rightarrow> dev \<Rightarrow> bool" where
  "ids_ok nmods s \<longleftrightarrow> (\<forall>r \<in> set (inflight s). 0 \<le> ident s r \<and> nat (ident s r) < nmods)"

text \<open>A step of a client: a step of the device that reads and answers nothing, and submits only requests
  whose identifier is a slot of the module table.\<close>

definition bg_step :: "nat \<Rightarrow> nat \<Rightarrow> dev \<Rightarrow> dev \<Rightarrow> bool" where
  "bg_step page_shift nmods s s' \<longleftrightarrow> dev_step page_shift s s' \<and> rtdreqs s' = rtdreqs s \<and>
     length (reqs s) \<le> length (reqs s') \<and> ids_ok nmods s'"

definition env_ok :: "kernel_env \<Rightarrow> nat \<Rightarrow> bool" where
  "env_ok env nmods \<longleftrightarrow>
     (\<forall>s. (bg_step (ke_page_shift env) nmods)\<^sup>*\<^sup>* s (ke_clients env s)) \<and>
     (\<forall>h a. ke_malloc env h = Some a \<longrightarrow> h a = None) \<and>
     (\<forall>p sr s r sr' s'. ke_launch env p sr s = (r, sr', s') \<longrightarrow>
        (bg_step (ke_page_shift env) nmods)\<^sup>*\<^sup>* s s' \<and> sr_s sr' = sr_s sr \<and> sr_id sr' = sr_id sr) \<and>
     (\<forall>p sr s r sr' s'. ke_post env p sr s = (r, sr', s') \<longrightarrow>
        (bg_step (ke_page_shift env) nmods)\<^sup>*\<^sup>* s s' \<and> sr_s sr' = sr_s sr \<and> sr_id sr' = sr_id sr)"

definition always_succeed :: "kernel_env \<Rightarrow> bool" where
  "always_succeed env \<longleftrightarrow> (\<forall>p sr s. fst (ke_launch env p sr s) = 0 \<and> fst (ke_post env p sr s) = 0)"

text \<open>The invariant of the world: the requests delivered and not answered are those the helper has read.\<close>

definition kernel_W :: "kernel_env \<Rightarrow> nat \<Rightarrow> kworld \<Rightarrow> int multiset \<Rightarrow> bool" where
  "kernel_W env nmods w M \<longleftrightarrow> env_ok env nmods \<and> dev_ok (kdev w) \<and> balanced (kdev w) \<and>
     ids_ok nmods (kdev w) \<and> image_mset (ident (kdev w)) (mset (rtdreqs (kdev w))) = M"

section \<open>Steps of clients\<close>

lemma async_queue: "qhgpu_call_async ialloc r s = (e, s') \<Longrightarrow>
    rheap s' = rheap s \<and> (s' = s \<or> reqs s' = reqs s @ [r])"
  by (auto simp: qhgpu_call_async_def enqueue_def emit_def split: if_splits)

lemma sync_queue:
  assumes "qhgpu_call_sync (Some d) ialloc r s = Inr (out, s')"
  shows "(\<forall>q. q \<noteq> r \<longrightarrow> rheap s' q = rheap s q) \<and> (reqs s' = reqs s \<or> reqs s' = reqs s @ [r])"
  using assms by (auto simp: qhgpu_call_sync_def enqueue_def emit_def Let_def split: if_splits)

lemma resume_queue:
  assumes "qhgpu_call_sync_resume d r s = Inr (e, s')"
  shows "(\<forall>q. q \<noteq> r \<longrightarrow> rheap s' q = rheap s q) \<and> reqs s' = reqs s"
  using assms by (auto simp: qhgpu_call_sync_resume_def qhgpu_return_mmap_def)

text \<open>Requests in flight keep their place and their identifier.\<close>

lemma bg_step_frame:
  assumes bg: "bg_step page_shift nmods s s'" and ok: "dev_ok s"
  shows "(\<exists>xs. reqs s' = reqs s @ xs) \<and> (\<forall>r \<in> set (inflight s). ident s' r = ident s r)"
proof -
  have step: "dev_step page_shift s s'" and rtd: "rtdreqs s' = rtdreqs s"
    and len: "length (reqs s) \<le> length (reqs s')" using bg by (auto simp: bg_step_def)
  from step show ?thesis
  proof (cases rule: dev_step.cases)
    case (do_alloc r req n name)
    then show ?thesis using alloc_quiet [OF do_alloc(1)] by (auto simp: ident_def)
  next
    case (do_async r req k ialloc e)
    then show ?thesis using async_queue [OF do_async(4)] by (auto simp: ident_def)
  next
    case (do_sync r d ialloc out)
    then show ?thesis using sync_queue [OF do_sync(3)] by (auto simp: ident_def)
  next
    case (do_read c nonblock signal junk out)
    show ?thesis
    proof (cases "reqs s")
      case Nil
      then show ?thesis using do_read by (auto simp: read_empty)
    next
      case (Cons r rs)
      then obtain req where "rheap s r = Some req"
        using inflight_heap [OF ok, of r] by (auto simp: inflight_def)
      from read_next [OF Cons this] do_read len Cons show ?thesis by auto
    qed
  next
    case (do_write count kuresp n)
    from write_effect [OF ok do_write] have "s' = s \<or> length (inflight s) = Suc (length (inflight s'))"
      by blast
    then show ?thesis using rtd len by (auto simp: inflight_def)
  next
    case (do_resume r d data e)
    have "r \<notin> set (inflight s)"
      using ready_wait [OF dev_ok_ready [OF ok], of r d] do_resume by auto
    then show ?thesis using resume_queue [OF do_resume(4)] by (auto simp: ident_def)
  next
    case (do_ioctl env cmd arg e)
    then show ?thesis using ioctl_quiet [OF do_ioctl] by (auto simp: ident_def)
  next
    case (do_mmap e a)
    then show ?thesis using mmap_quiet [OF do_mmap] by (auto simp: ident_def)
  next
    case (do_opened e)
    then show ?thesis using open_quiet [OF do_opened] by (auto simp: ident_def)
  qed (auto simp: ident_def qhgpu_free_request_def)
qed

lemma bg_steps_frame:
  assumes "(bg_step page_shift nmods)\<^sup>*\<^sup>* s s'" and "dev_ok s" "balanced s" "ids_ok nmods s"
  shows "dev_ok s' \<and> balanced s' \<and> ids_ok nmods s' \<and> rtdreqs s' = rtdreqs s \<and>
     (reqs s \<noteq> [] \<longrightarrow> reqs s' \<noteq> []) \<and> (\<forall>r \<in> set (rtdreqs s). ident s' r = ident s r)"
  using assms
proof (induction rule: rtranclp_induct)
  case base
  then show ?case by simp
next
  case (step t u)
  then have t: "dev_ok t" "balanced t" "rtdreqs t = rtdreqs s" "reqs s \<noteq> [] \<longrightarrow> reqs t \<noteq> []"
    "\<forall>r \<in> set (rtdreqs s). ident t r = ident s r" by auto
  have "dev_ok u \<and> balanced u"
    using dev_step_keeps [OF _ t(1,2)] step.hyps(2) by (auto simp: bg_step_def)
  moreover have "rtdreqs u = rtdreqs t" "ids_ok nmods u" using step.hyps(2) by (auto simp: bg_step_def)
  moreover have "(\<exists>xs. reqs u = reqs t @ xs) \<and> (\<forall>r \<in> set (inflight t). ident u r = ident t r)"
    by (rule bg_step_frame [OF step.hyps(2) t(1)])
  ultimately show ?case using t by (auto simp: inflight_def)
qed

lemma kernel_W_bg:
  assumes "kernel_W env nmods w M" and "(bg_step (ke_page_shift env) nmods)\<^sup>*\<^sup>* (kdev w) s"
  shows "kernel_W env nmods (w\<lparr>kdev := s\<rparr>) M \<and> (reqs (kdev w) \<noteq> [] \<longrightarrow> reqs s \<noteq> [])"
proof -
  have f: "dev_ok s \<and> balanced s \<and> ids_ok nmods s \<and> rtdreqs s = rtdreqs (kdev w) \<and>
     (reqs (kdev w) \<noteq> [] \<longrightarrow> reqs s \<noteq> []) \<and> (\<forall>r \<in> set (rtdreqs (kdev w)). ident s r = ident (kdev w) r)"
    using assms by (intro bg_steps_frame) (auto simp: kernel_W_def)
  then have rt: "rtdreqs s = rtdreqs (kdev w)" by blast
  have "image_mset (ident s) (mset (rtdreqs s)) = image_mset (ident (kdev w)) (mset (rtdreqs (kdev w)))"
    unfolding rt by (rule image_mset_cong) (use f in auto)
  with f assms(1) show ?thesis by (auto simp: kernel_W_def)
qed

section \<open>The system calls\<close>

lemma sys_poll_law:
  assumes "kernel_W env nmods w M" and "sys_poll env b w = (e, pin, w')"
  shows "kernel_W env nmods w' M \<and> (pin \<longrightarrow> e = 1 \<and> reqs (kdev w') \<noteq> []) \<and> kanswers w' = kanswers w"
proof -
  have "(bg_step (ke_page_shift env) nmods)\<^sup>*\<^sup>* (kdev w) (ke_clients env (kdev w))"
    using assms(1) by (simp add: kernel_W_def env_ok_def)
  from kernel_W_bg [OF assms(1) this] assms(2) show ?thesis
    by (auto simp: sys_poll_def Let_def qhgpu_poll_def POLLIN_def POLLRDNORM_def POLLOUT_def
        POLLWRNORM_def split: if_splits)
qed

lemma sys_read_law:
  assumes W: "kernel_W env nmods w M" and q: "reqs (kdev w) \<noteq> []"
    and run: "sys_read env w = (e, again, k, w')"
  shows "0 < e \<and> kernel_W env nmods w' (add_mset (ku_id k) M) \<and> 0 \<le> ku_id k \<and> nat (ku_id k) < nmods \<and>
     kanswers w' = kanswers w"
proof -
  let ?s = "kdev w"
  obtain r rs where rs: "reqs ?s = r # rs" using q by (cases "reqs ?s") auto
  have ok: "dev_ok ?s" "balanced ?s" "ids_ok nmods ?s" using W by (auto simp: kernel_W_def)
  obtain req where req: "rheap ?s r = Some req"
    using inflight_heap [OF ok(1), of r] rs by (auto simp: inflight_def)
  define s' where "s' = ?s\<lparr>reqs := rs, rtdreqs := rtdreqs ?s @ [r], fpos := fpos ?s + int ku_request_size\<rparr>"
  let ?k = "fill_ku_request (ke_page_shift env) req (gmpool ?s) (ke_junk env)"
  have rd: "qhgpu_read (ke_page_shift env) False False ku_request_size (ke_junk env) ?s =
      Inr (Read_returns (int ku_request_size) (Some ?k), s')"
    using read_next [OF rs req] by (simp add: s'_def ku_request_size_def)
  then have res: "e = 120" "k = ?k" "w' = w\<lparr>kdev := s'\<rparr>"
    using run by (auto simp: sys_read_def ku_request_size_def)
  have "dev_step (ke_page_shift env) ?s s'"
    by (rule dev_step.do_read [OF _ rd]) (simp add: ku_request_size_def)
  from dev_step_keeps [OF this ok(1,2)] have ok': "dev_ok s'" "balanced s'" by auto
  have id: "ku_id k = ident ?s r" using req by (simp add: res(2) fill_ku_request_def ident_def)
  have ids: "ident s' = ident ?s" by (rule ident_state) (simp add: s'_def)
  have "ids_ok nmods s'" using ok(3) rs ids by (auto simp: ids_ok_def s'_def inflight_def)
  moreover have "0 \<le> ident ?s r \<and> nat (ident ?s r) < nmods"
    using ok(3) rs by (simp add: ids_ok_def inflight_def)
  ultimately show ?thesis using W ok' id ids res by (auto simp: kernel_W_def s'_def)
qed

lemma sys_write_law:
  assumes W: "kernel_W env nmods w (add_mset i M)"
    and run: "sys_write env \<lparr>kr_id = i, kr_errcode = c\<rparr> w = (n, w')"
  shows "0 \<le> n \<and> kernel_W env nmods w' M \<and> kanswers w' = kanswers w @ [i]"
proof -
  let ?s = "kdev w"
  have ok: "dev_ok ?s" "balanced ?s" "ids_ok nmods ?s"
    and M: "image_mset (ident ?s) (mset (rtdreqs ?s)) = add_mset i M" using W by (auto simp: kernel_W_def)
  have "i \<in># image_mset (ident ?s) (mset (rtdreqs ?s))" by (simp add: M)
  then obtain before r after where split: "rtdreqs ?s = before @ r # after" "ident ?s r = i"
      "\<forall>x \<in> set before. ident ?s x \<noteq> i"
    using split_list_first_prop [of "rtdreqs ?s" "\<lambda>r. ident ?s r = i"] by auto
  have heap: "\<exists>req. rheap ?s x = Some req" if "x \<in> set (rtdreqs ?s)" for x
    using inflight_heap [OF ok(1), of x] that by (auto simp: inflight_def)
  obtain req where req: "rheap ?s r = Some req" "rq_id req = i"
    using heap [of r] split(1,2) by (auto simp: ident_def)
  have first: "\<forall>x \<in> set before. \<exists>q. rheap ?s x = Some q \<and> rq_id q \<noteq> i"
    using heap split(1,3) by (fastforce simp: ident_def)
  let ?s' = "?s\<lparr>rtdreqs := before @ after, rheap := (rheap ?s)(r \<mapsto> req\<lparr>rq_errcode := c\<rparr>),
      sheap := done_data ?s r, events := events ?s @ [completion_event ?s r c], fpos := fpos ?s + 8\<rparr>"
  have wr: "qhgpu_write ku_response_size \<lparr>kr_id = i, kr_errcode = c\<rparr> ?s = Inr (8, ?s')"
    using write_hit [OF _ ok(1) split(1) req(1), of 8 "\<lparr>kr_id = i, kr_errcode = c\<rparr>"] req(2) first
    by (simp add: ku_response_size_def)
  then have res: "n = 8" "w' = w\<lparr>kdev := ?s', kanswers := kanswers w @ [i]\<rparr>"
    using run by (auto simp: sys_write_def)
  from dev_step_keeps [OF dev_step.do_write [OF wr] ok(1,2)] have ok': "dev_ok ?s'" "balanced ?s'" by auto
  have ids: "ident ?s' = ident ?s" using req by (auto simp: ident_def fun_eq_iff)
  have "ids_ok nmods ?s'" using ok(3) split(1) unfolding ids_ok_def ids by (auto simp: inflight_def)
  moreover have "image_mset (ident ?s) (mset (before @ after)) = M" using M split by simp
  ultimately show ?thesis using W ok' ids res by (simp add: kernel_W_def)
qed

lemma sys_service_law:
  assumes "kernel_W env nmods w M" and "env_ok env nmods \<Longrightarrow>
      (bg_step (ke_page_shift env) nmods)\<^sup>*\<^sup>* (kdev w) s \<and> sr_s sr' = sr_s sr \<and> sr_id sr' = sr_id sr"
  shows "kernel_W env nmods (w\<lparr>kdev := s\<rparr>) M \<and> sr_s sr' = sr_s sr \<and> sr_id sr' = sr_id sr"
  using assms kernel_W_bg [OF assms(1), of s] by (auto simp: kernel_W_def)

text \<open>The device and its clients give the helper what it relies on.\<close>

interpretation sys: helper_os "kernel_os env" "kernel_W env nmods" "\<lambda>w. reqs (kdev w) \<noteq> []" nmods
  for env nmods
proof unfold_locales
  fix w M b e pin w'
  assume "kernel_W env nmods w M" "os_poll (kernel_os env) b w = (e, pin, w')"
  then show "kernel_W env nmods w' M \<and> (pin \<longrightarrow> e = 1 \<and> reqs (kdev w') \<noteq> [])"
    using sys_poll_law [of env nmods w M b e pin w'] by (simp add: kernel_os_def)
next
  fix w M h m w'
  assume "kernel_W env nmods w M" "os_malloc (kernel_os env) h w = (m, w')"
  then show "kernel_W env nmods w' M \<and> (reqs (kdev w) \<noteq> [] \<longrightarrow> reqs (kdev w') \<noteq> []) \<and>
      (\<forall>a. m = Some a \<longrightarrow> h a = None)"
    by (auto simp: kernel_os_def kernel_W_def env_ok_def)
next
  fix w M e again k w'
  assume "kernel_W env nmods w M" "reqs (kdev w) \<noteq> []" "os_read (kernel_os env) w = (e, again, k, w')"
  then show "0 < e \<and> kernel_W env nmods w' (add_mset (ku_id k) M) \<and> 0 \<le> ku_id k \<and> nat (ku_id k) < nmods"
    using sys_read_law [of env nmods w M e again k w'] by (simp add: kernel_os_def)
next
  fix w i M c n w'
  assume "kernel_W env nmods w (add_mset i M)"
    "os_write (kernel_os env) \<lparr>kr_id = i, kr_errcode = c\<rparr> w = (n, w')"
  then show "0 \<le> n \<and> kernel_W env nmods w' M"
    using sys_write_law [of env nmods w i M c n w'] by (simp add: kernel_os_def)
next
  fix w M p sr r sr' w'
  assume W: "kernel_W env nmods w M"
  then have env: "env_ok env nmods" by (simp add: kernel_W_def)
  show "kernel_W env nmods w' M \<and> sr_s sr' = sr_s sr \<and> sr_id sr' = sr_id sr"
    if "srv_launch (kernel_os env) p sr w = (r, sr', w')"
    using that sys_service_law [OF W, of "kdev w'" sr' sr] env
    by (auto simp: kernel_os_def env_ok_def split: prod.splits)
  show "kernel_W env nmods w' M \<and> sr_s sr' = sr_s sr \<and> sr_id sr' = sr_id sr"
    if "srv_post (kernel_os env) p sr w = (r, sr', w')"
    using that sys_service_law [OF W, of "kdev w'" sr' sr] env
    by (auto simp: kernel_os_def env_ok_def split: prod.splits)
qed

text \<open>With services that succeed, the log of accepted responses is the log of answers.\<close>

definition reliable_W :: "kernel_env \<Rightarrow> nat \<Rightarrow> kworld \<Rightarrow> int multiset \<Rightarrow> bool" where
  "reliable_W env nmods w M \<longleftrightarrow> kernel_W env nmods w M \<and> always_succeed env"

interpretation rel: reliable_services "kernel_os env" "reliable_W env nmods" "\<lambda>w. reqs (kdev w) \<noteq> []"
    nmods kanswers for env nmods
proof unfold_locales
  fix w M b e pin w'
  assume *: "reliable_W env nmods w M" "os_poll (kernel_os env) b w = (e, pin, w')"
  then show "reliable_W env nmods w' M \<and> (pin \<longrightarrow> e = 1 \<and> reqs (kdev w') \<noteq> [])"
    using sys.poll_law [of env nmods w M b e pin w'] by (simp add: reliable_W_def)
  show "kanswers w' = kanswers w"
    using * sys_poll_law [of env nmods w M b e pin w'] by (simp add: reliable_W_def kernel_os_def)
next
  fix w M h m w'
  assume *: "reliable_W env nmods w M" "os_malloc (kernel_os env) h w = (m, w')"
  then show "reliable_W env nmods w' M \<and> (reqs (kdev w) \<noteq> [] \<longrightarrow> reqs (kdev w') \<noteq> []) \<and>
      (\<forall>a. m = Some a \<longrightarrow> h a = None)"
    using sys.malloc_law [of env nmods w M h m w'] by (simp add: reliable_W_def)
  show "kanswers w' = kanswers w" using * by (simp add: kernel_os_def)
next
  fix w M e again k w'
  assume *: "reliable_W env nmods w M" "reqs (kdev w) \<noteq> []" "os_read (kernel_os env) w = (e, again, k, w')"
  then show "0 < e \<and> reliable_W env nmods w' (add_mset (ku_id k) M) \<and> 0 \<le> ku_id k \<and> nat (ku_id k) < nmods"
    using sys.read_law [of env nmods w M e again k w'] by (simp add: reliable_W_def)
  show "kanswers w' = kanswers w"
    using * sys_read_law [of env nmods w M e again k w'] by (simp add: reliable_W_def kernel_os_def)
next
  fix w i M c n w'
  assume *: "reliable_W env nmods w (add_mset i M)"
    "os_write (kernel_os env) \<lparr>kr_id = i, kr_errcode = c\<rparr> w = (n, w')"
  then show "0 \<le> n \<and> reliable_W env nmods w' M"
    using sys.write_law [of env nmods w i M c n w'] by (simp add: reliable_W_def)
  show "kanswers w' = kanswers w @ [i]"
    using * sys_write_law [of env nmods w i M c n w'] by (simp add: reliable_W_def kernel_os_def)
next
  fix w M p sr r sr' w'
  assume W: "reliable_W env nmods w M"
  then have ok: "fst (ke_launch env p sr (kdev w)) = 0" "fst (ke_post env p sr (kdev w)) = 0"
    by (auto simp: reliable_W_def always_succeed_def)
  show "reliable_W env nmods w' M \<and> sr_s sr' = sr_s sr \<and> sr_id sr' = sr_id sr"
    "r = 0 \<and> kanswers w' = kanswers w"
    if "srv_launch (kernel_os env) p sr w = (r, sr', w')"
    using that W ok sys.launch_law [of env nmods w M p sr r sr' w']
    by (auto simp: reliable_W_def kernel_os_def split: prod.splits)
  show "reliable_W env nmods w' M \<and> sr_s sr' = sr_s sr \<and> sr_id sr' = sr_id sr"
    "r = 0 \<and> kanswers w' = kanswers w"
    if "srv_post (kernel_os env) p sr w = (r, sr', w')"
    using that W ok sys.post_law [of env nmods w M p sr r sr' w']
    by (auto simp: reliable_W_def kernel_os_def split: prod.splits)
qed

lemma system_rounds:
  assumes "helper_inv (kernel_W env nmods) nmods L A st"
  shows "\<exists>stop st' A' L' xs. rounds (kernel_os env) n st = Some (Inr (stop, st')) \<and>
     helper_inv (kernel_W env nmods) nmods L' A' st' \<and> A' Done_reqs = A Done_reqs @ xs"
  using assms
proof (induction n arbitrary: L A st)
  case 0
  then show ?case by auto
next
  case (Suc n)
  from sys.round_ok [OF Suc.prems] obtain stop s1 A1 L1 xs where
    1: "main_loop_body (kernel_os env) st = Some (Inr (stop, s1))"
      "helper_inv (kernel_W env nmods) nmods L1 A1 s1" "A1 Done_reqs = A Done_reqs @ xs" by blast
  show ?case
  proof (cases stop)
    case True
    with 1 show ?thesis by auto
  next
    case False
    from Suc.IH [OF 1(2)] obtain stop' st' A' L' ys where
      "rounds (kernel_os env) n s1 = Some (Inr (stop', st'))"
      "helper_inv (kernel_W env nmods) nmods L' A' st'" "A' Done_reqs = A1 Done_reqs @ ys" by blast
    with 1 False show ?thesis by auto
  qed
qed

section \<open>Properties of the system\<close>



text \<open>C35: A request for a service that is not registered is never answered: it stays in the queue
  \<open>done_reqs\<close> that no operation empties, and the device still holds a delivered request with its
  identifier after any number of rounds.\<close>

theorem unknown_service_never_answered:
  assumes "helper_inv (kernel_W env nmods) nmods L A st" and "a \<in> set (A Done_reqs)"
  shows "\<exists>stop st' A' L'. rounds (kernel_os env) n st = Some (Inr (stop, st')) \<and>
     helper_inv (kernel_W env nmods) nmods L' A' st' \<and> a \<in> set (A' Done_reqs) \<and>
     (\<exists>r \<in> set (rtdreqs (kdev (world st'))). ident (kdev (world st')) r = iid st' a)"
proof -
  from system_rounds [OF assms(1), of n] obtain stop st' A' L' xs where
    r: "rounds (kernel_os env) n st = Some (Inr (stop, st'))"
      "helper_inv (kernel_W env nmods) nmods L' A' st'" "A' Done_reqs = A Done_reqs @ xs" by blast
  have a: "a \<in> set (A' Done_reqs)" using assms(2) r(3) by simp
  then have "a \<in> set (A' All_reqs)" by (intro conn_all [OF helper_rep [OF r(2)], of Done_reqs]) auto
  then have "iid st' a \<in># image_mset (iid st') (mset (A' All_reqs)) + L'" by auto
  then have "iid st' a \<in># image_mset (ident (kdev (world st'))) (mset (rtdreqs (kdev (world st'))))"
    using r(2) by (simp add: helper_inv_def kernel_W_def)
  then have "\<exists>r \<in> set (rtdreqs (kdev (world st'))). ident (kdev (world st')) r = iid st' a" by auto
  with r(1,2) a show ?thesis by blast
qed

text \<open>Initialising an item for a request puts it into \<open>all_reqs\<close> and into the queue of new requests when
  its service is registered, and otherwise into \<open>done_reqs\<close> with the error \<open>QHGPU_NO_SERVICE\<close>. The
  identifier is copied; the number of batches is not, it is 0 whatever the request said.\<close>

theorem init_request_queued_without_batches:
  assumes "conn_rep st A" and "\<And>q. a \<notin> set (A q)"
    and "nxt (clinks st) (LNode a) = Some (LNode a)" "prv (clinks st) (LNode a) = Some (LNode a)"
  shows "\<exists>st' q sr. qc_init_service_request a k st = Some (Inr st') \<and>
     conn_rep st' (A(All_reqs := A All_reqs @ [a], q := A q @ [a])) \<and>
     sritems st' a = Some sr \<and> sr_id sr = ku_id k \<and> sr_batch_size sr = 0 \<and>
     (case qc_lookup_service (Some (ku_service_name k)) (creg st) of
        Some (Inr (Some i)) \<Rightarrow> q = Init_reqs
      | _ \<Rightarrow> q = Done_reqs \<and> sr_errcode sr = QHGPU_NO_SERVICE)"
  using init_request_rep [OF assms, of k] by fastforce

section \<open>Concrete runs\<close>

text \<open>The helper has read one request, which is in the queue \<open>q\<close>; the device has delivered it.\<close>

definition sample_clinks :: "qname \<Rightarrow> cnode links" where
  "sample_clinks q =
     (let next = (\<lambda>n. if n = Head All_reqs then Some (GNode 5) else if n = GNode 5 then Some (Head All_reqs)
        else if n = Head q then Some (LNode 5) else if n = LNode 5 then Some (Head q)
        else (case n of Head p \<Rightarrow> Some (Head p) | _ \<Rightarrow> None))
      in \<lparr>nxt = next, prv = next\<rparr>)"

definition sample_queues :: "qname \<Rightarrow> qname \<Rightarrow> nat list" where
  "sample_queues q p = (if p = All_reqs \<or> p = q then [5] else [])"

definition sample_conn :: "qname \<Rightarrow> kworld conn" where
  "sample_conn q = \<lparr>clinks = sample_clinks q, sritems = [5 \<mapsto> zero_sr\<lparr>sr_s := Some 10\<rparr>],
     creg = sample_registry, mmap_addrs = [0x1000], devfd = 3, qc_loop_continue = True,
     world = \<lparr>kdev = sample_delivered, kanswers = []\<rparr>\<rparr>"

definition sample_env :: kernel_env where
  "sample_env = \<lparr>ke_page_shift = 12, ke_junk = sample_junk, ke_clients = \<lambda>s. s, ke_malloc = \<lambda>h. None,
     ke_launch = \<lambda>p sr s. (0, sr, s), ke_post = \<lambda>p sr s. (0, sr, s)\<rparr>"

lemma sample_env_ok: "env_ok sample_env 1" "always_succeed sample_env"
  by (auto simp: env_ok_def sample_env_def always_succeed_def)

lemma sample_conn_rep:
  assumes "q \<noteq> All_reqs"
  shows "conn_rep (sample_conn q) (sample_queues q)"
proof -
  have "ring (sample_clinks q) (Head p) (nodes (sample_queues q) p)" for p
    using assms by (cases "p = All_reqs"; cases "p = q")
      (auto simp: sample_clinks_def sample_queues_def nodes_def ring_def Let_def)
  then have "family Head (sample_clinks q) (nodes (sample_queues q))"
    using assms by (auto simp: family_def inj_on_def nodes_def sample_queues_def)
  moreover have "\<exists>xs. registered sample_registry xs" using sample_registered by blast
  ultimately show ?thesis
    using assms unfolding conn_rep_def
    by (auto simp: sample_conn_def sample_queues_def has_service_def sample_registry_def zero_sr_def)
qed

lemma sample_helper_inv:
  assumes "q \<noteq> All_reqs"
  shows "helper_inv (kernel_W sample_env 1) 1 {#} (sample_queues q) (sample_conn q)"
  using sample_conn_rep [OF assms] sample_env_ok(1) sample_oks(2)
  by (simp add: helper_inv_def kernel_W_def balanced_def ids_ok_def sample_conn_def sample_queues_def
      sample_dev_defs inflight_def submissions_def completions_def ident_def iid_def zero_sr_def)



theorem unknown_service_never_answered_witness:
  "\<exists>stop st'. rounds (kernel_os sample_env) 9 (sample_conn Done_reqs) = Some (Inr (stop, st')) \<and>
     (\<exists>r \<in> set (rtdreqs (kdev (world st'))). ident (kdev (world st')) r = iid st' 5)"
  using unknown_service_never_answered [OF sample_helper_inv, of Done_reqs 5 9]
  by (fastforce simp: sample_queues_def)

text \<open>A helper with empty queues and a fresh item.\<close>

definition sample_fresh_conn :: "kworld conn" where
  "sample_fresh_conn = (sample_conn Init_reqs)\<lparr>
     clinks := \<lparr>nxt = \<lambda>n. Some n, prv = \<lambda>n. Some n\<rparr>, sritems := [5 \<mapsto> zero_sr]\<rparr>"

lemma sample_fresh_rep: "conn_rep sample_fresh_conn (\<lambda>q. [])"
proof -
  have "\<exists>xs. registered sample_registry xs" using sample_registered by blast
  then show ?thesis
    unfolding conn_rep_def
    by (auto simp: sample_fresh_conn_def sample_conn_def family_def ring_def inj_on_def nodes_def)
qed

theorem init_request_queued_without_batches_witness:
  "\<exists>st' sr. qc_init_service_request 5 (sample_junk\<lparr>ku_service_name := ''radix'', ku_batch_size := 9\<rparr>)
       sample_fresh_conn = Some (Inr st') \<and> sritems st' 5 = Some sr \<and> sr_batch_size sr = 0"
  using init_request_queued_without_batches [OF sample_fresh_rep, of 5
      "sample_junk\<lparr>ku_service_name := ''radix'', ku_batch_size := 9\<rparr>"]
  by (fastforce simp: sample_fresh_conn_def)

end
