(* ===== verification/QH_Startup.thy ===== *)
theory QH_Startup
  imports QH_Queues
begin

text \<open>
  Start and end of the helper process: \<open>gpu_init\<close> and \<open>gpu_alloc_pinned_mem\<close> of
  \<open>src/qhgpu/cl_operator.c\<close>, \<open>init_mmap\<close>, \<open>qc_init\<close>, \<open>qc_finit\<close> and \<open>main\<close> of
  \<open>src/qhgpu/connector.c\<close>, and the filter of \<open>src/qhgpu/qhgpu_log.c\<close>. The answers of the operating
  system and of the OpenCL platform are parameters over the state \<open>'w\<close> of the rest of the world.
  The theorems say what is known when the main loop starts.
\<close>

unbundle bit_operations_syntax

section \<open>Parameters\<close>

datatype command = Set_gpu_bufs u64 nat | Set_mmap nat | Set_stop

text \<open>Questions to the OpenCL platform whose answer, besides the status, is a number or a handle.\<close>

datatype query =
    Platform_count | Platform_ids nat | Platform_info nat string
  | Device_count bool nat | Device_ids bool nat | Device_info nat string
  | Create_context nat | Create_queue | Map_buffer u64 | Create_buffer bool | Write_buffer u64 | Finish

record 'w host =
  h_open :: "string \<Rightarrow> 'w \<Rightarrow> int \<times> 'w"
  h_malloc :: "nat \<Rightarrow> 'w \<Rightarrow> u64 \<times> 'w"
  h_mlock :: "u64 \<Rightarrow> nat \<Rightarrow> 'w \<Rightarrow> int \<times> 'w"
  h_ioctl :: "int \<Rightarrow> command \<Rightarrow> 'w \<Rightarrow> int \<times> 'w"
  h_mmap :: "int \<Rightarrow> nat \<Rightarrow> 'w \<Rightarrow> u64 \<times> 'w"
  h_munmap :: "u64 \<Rightarrow> nat \<Rightarrow> 'w \<Rightarrow> int \<times> 'w"
  h_close :: "int \<Rightarrow> 'w \<Rightarrow> 'w"
  h_cl :: "query \<Rightarrow> 'w \<Rightarrow> bool \<times> u64 \<times> 'w"

text \<open>\<open>MAP_FAILED\<close>\<close>

definition MAP_FAILED :: u64 where "MAP_FAILED = - 1"

section \<open>cl_operator.c\<close>

definition QHGPU_MEM_SIZE :: nat where "QHGPU_MEM_SIZE = 100 * 1024"

text \<open>The names of the platforms, one call each; the loop of \<open>gpu_init\<close> ends at a failure.\<close>

fun platform_names :: "'w host \<Rightarrow> nat list \<Rightarrow> 'w \<Rightarrow> bool \<times> 'w" where
  "platform_names h [] w = (True, w)"
| "platform_names h (i # is) w = (
     let (ok, _, w) = h_cl h (Platform_info i ''NAME'') w in
     if ok then platform_names h is w else (False, w))"

text \<open>
  The last part of \<open>gpu_init\<close> maps the handle \<open>cmPinnedData\<close>, which is \<open>NULL\<close>. The function has
  no \<open>return\<close> at its end, where its value is undefined: \<open>None\<close>.
\<close>

definition gpu_init_buffers :: "'w host \<Rightarrow> 'w \<Rightarrow> int option \<times> 'w" where
  "gpu_init_buffers h w = (
     let (ok, _, w) = h_cl h (Map_buffer 0) w in
     if \<not> ok then (Some (- 1), w)
     else let (ok, _, w) = h_cl h (Create_buffer True) w in
     if \<not> ok then (Some (- 1), w) else (None, w))"

definition gpu_init_devices :: "'w host \<Rightarrow> 'w \<Rightarrow> int option \<times> 'w" where
  "gpu_init_devices h w = (
     let (ok, cnt, w) = h_cl h (Device_count True 0) w in
     if \<not> ok then (Some (- 1), w)
     else if cnt = 0 then (Some (- 1), w)
     else let (_, w) = h_malloc h (8 * unat cnt) w;
              (ids, _, w) = h_cl h (Device_ids True (unat cnt)) w;
              (_, ctx, w) = h_cl h (Create_context (unat cnt)) w in
     if ctx = 0 then (Some (- 1), w)
     else let (_, que, w) = h_cl h Create_queue w in
     if \<not> ids \<or> que = 0 then (Some (- 1), w)
     else gpu_init_buffers h w)"

definition gpu_init :: "'w host \<Rightarrow> 'w \<Rightarrow> (int option \<times> 'w) res" where
  "gpu_init h w = (
     let (ok, cnt, w) = h_cl h Platform_count w in
     if \<not> ok then Inr (Some (- 1), w)
     else let (p, w) = h_malloc h (8 * unat cnt) w; (ok, _, w) = h_cl h (Platform_ids (unat cnt)) w in
     if \<not> ok then Inr (Some (- 1), w)
     else if p = 0 then Inl Null_deref
     else if cnt = 0 then Inl Out_of_bounds
     else let (ok, w) = platform_names h [0..<unat cnt] w in
     if \<not> ok then Inr (Some (- 1), w) else Inr (gpu_init_devices h w))"

text \<open>
  \<open>gpu_alloc_pinned_mem\<close> writes \<open>QHGPU_MEM_SIZE\<close> cells of four bytes into a buffer of
  \<open>QHGPU_MEM_SIZE\<close> bytes.
\<close>

definition fill_pinned :: "nat \<Rightarrow> u32 list \<Rightarrow> u32 list res" where
  "fill_pinned n buf = foldl (\<lambda>r i. bindR r (\<lambda>b. arr_set b i (of_nat i AND 0xff))) (Inr buf) [0..<n]"

definition gpu_alloc_pinned_mem :: "'w host \<Rightarrow> (u64 \<Rightarrow> 'w \<Rightarrow> u32 list) \<Rightarrow> 'w \<Rightarrow> (u64 \<times> 'w) res" where
  "gpu_alloc_pinned_mem h mapped w = (
     let (ok, b, w) = h_cl h (Create_buffer True) w in
     if \<not> ok then Inr (0, w)
     else let (ok, p, w) = h_cl h (Map_buffer b) w in
     if \<not> ok then Inr (0, w)
     else bindR (fill_pinned QHGPU_MEM_SIZE (mapped p w)) (\<lambda>_.
     bindR (fill_pinned QHGPU_MEM_SIZE (mapped p w)) (\<lambda>_.
     let (ok, d, w) = h_cl h (Create_buffer False) w in
     if \<not> ok then Inr (- 1, w)
     else let (ok, _, w) = h_cl h (Write_buffer d) w in
     if \<not> ok then Inr (- 1, w)
     else let (ok, _, w) = h_cl h Finish w in
     if \<not> ok then Inr (- 1, w) else Inr (p, w))))"

section \<open>connector.c: init_mmap\<close>

text \<open>
  The loop stores what \<open>mmap\<close> returns and stops at \<open>NULL\<close>; a mapping that fails is
  \<open>MAP_FAILED\<close>. The result is the return value with the array.
\<close>

definition MMAP_SIZE :: nat where "MMAP_SIZE = 0x400000"

fun mmap_loop :: "'w host \<Rightarrow> int \<Rightarrow> nat \<Rightarrow> u64 list \<Rightarrow> 'w \<Rightarrow> int \<times> u64 list \<times> 'w" where
  "mmap_loop h fd 0 arr w = (0, arr, w)"
| "mmap_loop h fd (Suc n) arr w = (
     let (a, w) = h_mmap h fd MMAP_SIZE w in
     if a = 0 then (- 1, arr @ [a], w) else mmap_loop h fd n (arr @ [a]) w)"

definition init_mmap :: "'w host \<Rightarrow> int \<Rightarrow> nat \<Rightarrow> 'w \<Rightarrow> (int \<times> u64 list \<times> 'w) res" where
  "init_mmap h fd cnt w = (
     let (p, w) = h_malloc h (8 * cnt) w in
     if p = 0 \<and> 0 < cnt then Inl Null_deref else Inr (mmap_loop h fd cnt [] w))"

section \<open>qc_init\<close>

definition QHGPU_BUF_SIZE :: nat where "QHGPU_BUF_SIZE = 1024 * 200"
definition CONN_PAGE_SIZE :: nat where "CONN_PAGE_SIZE = 1024 * 1024 * 2"

text \<open>The part up to the \<open>ioctl\<close>: the device file and the buffer shared with the kernel.\<close>

definition qc_init_device :: "'w host \<Rightarrow> string \<Rightarrow> 'w \<Rightarrow> (int \<times> 'w) res" where
  "qc_init_device h path w = (
     let (fd, w) = h_open h path w in
     bindR (gpu_init h w) (\<lambda>(_, w).
     let (p, w) = h_malloc h (QHGPU_BUF_SIZE + CONN_PAGE_SIZE) w in
     if p = 0 then Inl Null_deref
     else let (r, w) = h_mlock h p QHGPU_BUF_SIZE w in
     bindR (safe_syscall r) (\<lambda>_.
     let (r, w) = h_ioctl h fd (Set_gpu_bufs p QHGPU_BUF_SIZE) w in
     if r < 0 then Inl Aborted else Inr (fd, w))))"

text \<open>A call whose status is asserted; \<open>f\<close> gets its answer.\<close>

definition cl_assert :: "'w host \<Rightarrow> query \<Rightarrow> 'w \<Rightarrow> (u64 \<Rightarrow> 'w \<Rightarrow> 'b res) \<Rightarrow> 'b res" where
  "cl_assert h q w f = (let (ok, v, w) = h_cl h q w in if ok then f v w else Inl Assert_failed)"

text \<open>One of the three loops over the platforms; each call asks about the first platform.\<close>

fun platform_infos :: "'w host \<Rightarrow> string \<Rightarrow> nat \<Rightarrow> 'w \<Rightarrow> 'w res" where
  "platform_infos h what 0 w = Inr w"
| "platform_infos h what (Suc n) w =
     cl_assert h (Platform_info 0 what) w (\<lambda>_. platform_infos h what n)"

definition qc_init_platforms :: "'w host \<Rightarrow> 'w \<Rightarrow> 'w res" where
  "qc_init_platforms h w =
     cl_assert h Platform_count w (\<lambda>nb w.
     if nb = 0 then Inl Assert_failed
     else let (p, w) = h_malloc h (8 * unat nb) w in
     cl_assert h (Platform_ids (unat nb)) w (\<lambda>_ w.
     if p = 0 then Inl Null_deref
     else bindR (platform_infos h ''VENDOR'' (unat nb) w) (\<lambda>w.
     bindR (platform_infos h ''VERSION'' (unat nb) w) (\<lambda>w.
     platform_infos h ''NAME'' (unat nb) w))))"

definition qc_init_context :: "'w host \<Rightarrow> 'w \<Rightarrow> 'w res" where
  "qc_init_context h w =
     cl_assert h (Device_count False 0) w (\<lambda>nb w.
     if nb = 0 then Inl Assert_failed
     else let (p, w) = h_malloc h (8 * unat nb) w; numdev = 0 :: u64 in
     if \<not> numdev < nb then Inl Assert_failed
     else cl_assert h (Device_ids False (unat nb)) w (\<lambda>_ w.
     if p = 0 then Inl Null_deref
     else cl_assert h (Device_info (unat numdev) ''TYPE'') w (\<lambda>_ w.
     cl_assert h (Device_info (unat numdev) ''TYPE'') w (\<lambda>_ w.
     cl_assert h (Device_info (unat numdev) ''LOCAL_MEM_SIZE'') w (\<lambda>_ w.
     cl_assert h (Device_info (unat numdev) ''MAX_COMPUTE_UNITS'') w (\<lambda>_ w.
     cl_assert h (Create_context 1) w (\<lambda>_ w. Inr w)))))))"

definition qc_init :: "'w host \<Rightarrow> string \<Rightarrow> 'w \<Rightarrow> (int \<times> int \<times> 'w) res" where
  "qc_init h path w =
     bindR (qc_init_device h path w) (\<lambda>(fd, w).
     bindR (qc_init_platforms h w) (\<lambda>w.
     bindR (qc_init_context h w) (\<lambda>w. Inr (0, fd, w))))"

text \<open>\<open>mmap_address\<close> is never assigned, so \<open>munmap\<close> gets \<open>NULL\<close>.\<close>

definition qc_finit :: "'w host \<Rightarrow> int \<Rightarrow> 'w \<Rightarrow> int \<times> 'w" where
  "qc_finit h fd w = (
     let (_, w) = h_munmap h 0 MMAP_SIZE w; (_, w) = h_ioctl h fd Set_stop w in (0, h_close h fd w))"

section \<open>main\<close>

text \<open>The request lists as \<open>LIST_HEAD\<close> declares them.\<close>

definition empty_queues :: "cnode links" where
  "empty_queues = foldr (\<lambda>q. INIT_LIST_HEAD (Head q))
     [All_reqs, Init_reqs, Memdone_reqs, Prepared_reqs, Running_reqs, Post_exec_reqs, Done_reqs]
     \<lparr>nxt = (\<lambda>_. None), prv = (\<lambda>_. None)\<rparr>"

text \<open>
  From the start to the main loop. The local \<open>service_cnt\<close> is the number of library paths found, and
  at least 1. The value of \<open>init_mmap\<close> is not looked at.
\<close>

definition helper_start ::
  "'w host \<Rightarrow> dl \<Rightarrow> (string \<Rightarrow> string list) \<Rightarrow> registry \<Rightarrow> 'w \<Rightarrow> 'w conn res option" where
  "helper_start h d glob reg w = (
     case qc_init h ''/dev/qhgpu'' w of
       Inl e \<Rightarrow> Some (Inl e)
     | Inr (_, fd, w) \<Rightarrow>
         bindO (qc_load_all_services d glob ''./'' reg) (\<lambda>(cnt, reg).
         let cnt = (if cnt = 0 then 1 else cnt); (r, w) = h_ioctl h fd (Set_mmap cnt) w in
         if r < 0 then Some (Inl Aborted)
         else Some (bindR (init_mmap h fd cnt w) (\<lambda>(_, arr, w).
           Inr \<lparr>clinks = empty_queues, sritems = (\<lambda>_. None), creg = reg, mmap_addrs = arr, devfd = fd,
             qc_loop_continue = True, world = w\<rparr>))))"

definition helper_main ::
  "'w host \<Rightarrow> 'w osys \<Rightarrow> dl \<Rightarrow> (string \<Rightarrow> string list) \<Rightarrow> registry \<Rightarrow> 'w \<Rightarrow> (int \<times> 'w) res option" where
  "helper_main h os d glob reg w =
     bindO (helper_start h d glob reg w) (\<lambda>st.
     bindO (qc_main_loop os st) (\<lambda>st.
     let (_, w) = qc_finit h (devfd st) (world st) in Some (Inr (0, w))))"

section \<open>qhgpu_log.c\<close>

text \<open>
  The head of a message, \<open>None\<close> when the level is below \<open>QH_LOG_LEVEL\<close>; \<open>num\<close> prints the line number.
\<close>

definition QH_LOG_PRINT :: int where "QH_LOG_PRINT = 4"
definition QH_LOG_INFO :: int where "QH_LOG_INFO = 3"
definition QH_LOG_DEBUG :: int where "QH_LOG_DEBUG = 2"
definition QH_LOG_ALERT :: int where "QH_LOG_ALERT = 1"
definition QH_LOG_ERROR :: int where "QH_LOG_ERROR = 0"

definition qhgpu_log ::
  "int option \<Rightarrow> int \<Rightarrow> string \<Rightarrow> string \<Rightarrow> string \<Rightarrow> string \<Rightarrow> string option" where
  "qhgpu_log threshold level module func line msg = (
     if (case threshold of Some t \<Rightarrow> level < t | None \<Rightarrow> False) then None
     else Some (''['' @ module @ ''] '' @ func @ ''() '' @ line @
       (if level = QH_LOG_ERROR then '' ERROR: ''
        else if level = QH_LOG_ALERT then '' ALERT: ''
        else if level = QH_LOG_DEBUG then '' DEBUG: ''
        else if level = QH_LOG_INFO then '' INFO: ''
        else '': '') @ msg))"

section \<open>Properties\<close>

lemma mmap_loop_result:
  assumes "\<And>w. fst (h_mmap h fd MMAP_SIZE w) \<noteq> 0"
  shows "\<exists>as w'. mmap_loop h fd n arr w = (0, arr @ as, w') \<and> length as = n \<and>
    (\<forall>a \<in> set as. \<exists>w. a = fst (h_mmap h fd MMAP_SIZE w))"
proof (induction n arbitrary: arr w)
  case (Suc n)
  obtain a w1 where a: "h_mmap h fd MMAP_SIZE w = (a, w1)"
    by (cases "h_mmap h fd MMAP_SIZE w")
  obtain as w' where "mmap_loop h fd n (arr @ [a]) w1 = (0, (arr @ [a]) @ as, w')" "length as = n"
    "\<forall>a \<in> set as. \<exists>w. a = fst (h_mmap h fd MMAP_SIZE w)"
    using Suc by blast
  moreover have "\<exists>w. a = fst (h_mmap h fd MMAP_SIZE w)"
    using a by (metis fst_conv)
  ultimately show ?case
    using a assms [of w] by (intro exI [of _ "a # as"]) auto
qed simp

lemma init_mmap_result:
  assumes "\<And>w. fst (h_mmap h fd MMAP_SIZE w) \<noteq> 0" and "init_mmap h fd cnt w = Inr (r, arr, w')"
  shows "r = 0 \<and> length arr = cnt \<and> (\<forall>a \<in> set arr. \<exists>w. a = fst (h_mmap h fd MMAP_SIZE w))"
proof -
  obtain p w1 where "h_malloc h (8 * cnt) w = (p, w1)"
    by (cases "h_malloc h (8 * cnt) w")
  moreover obtain as w2 where "mmap_loop h fd cnt [] w1 = (0, [] @ as, w2)" "length as = cnt"
    "\<forall>a \<in> set as. \<exists>w. a = fst (h_mmap h fd MMAP_SIZE w)"
    using mmap_loop_result [of h fd cnt "[]" w1] assms(1) by blast
  ultimately show ?thesis
    using assms(2) by (simp add: init_mmap_def split: if_splits)
qed

lemma empty_queues_rep: "family Head empty_queues (nodes (\<lambda>_. []))"
proof -
  have "nxt empty_queues (Head q) = Some (Head q) \<and> prv empty_queues (Head q) = Some (Head q)" for q
    by (cases q) (simp_all add: empty_queues_def INIT_LIST_HEAD_def set_next_def set_prev_def)
  then show ?thesis
    by (auto simp: family_def inj_on_def nodes_def ring_def)
qed

text \<open>C27: When the helper reaches its main loop its queues are empty and well formed, as the theorems
  about the loop require, and it has one mapping for every library path found, at least one, provided
  \<open>mmap\<close> does not return \<open>NULL\<close> and the libraries leave the registry well formed.\<close>

theorem helper_starts_with_empty_queues:
  assumes run: "helper_start h d glob reg w = Some (Inr st)" and reg: "registered (creg st) xs"
    and mm: "\<And>fd w. fst (h_mmap h fd MMAP_SIZE w) \<noteq> 0"
  shows "conn_rep st (\<lambda>_. []) \<and> qc_loop_continue st \<and>
    length (mmap_addrs st) = max 1 (length (glob (service_pattern ''./'')))"
proof -
  let ?n = "length (glob (service_pattern ''./''))"
  obtain v fd w1 where q: "qc_init h ''/dev/qhgpu'' w = Inr (v, fd, w1)"
    using run by (cases "qc_init h ''/dev/qhgpu'' w") (auto simp: helper_start_def)
  then obtain cnt reg1 where l: "qc_load_all_services d glob ''./'' reg = Some (Inr (cnt, reg1))"
    using run by (auto simp: helper_start_def bindO_def split: option.splits sum.splits)
  then have cnt: "cnt = ?n"
    by (auto simp: qc_load_all_services_def dest!: load_loop_count)
  obtain r w2 where i: "h_ioctl h fd (Set_mmap (if cnt = 0 then 1 else cnt)) w1 = (r, w2)"
    by fastforce
  have "\<exists>r arr w3. init_mmap h fd (if cnt = 0 then 1 else cnt) w2 = Inr (r, arr, w3) \<and>
      st = \<lparr>clinks = empty_queues, sritems = (\<lambda>_. None), creg = reg1, mmap_addrs = arr, devfd = fd,
             qc_loop_continue = True, world = w3\<rparr>"
    using run q l i by (auto simp: helper_start_def Let_def split: if_splits)
  then obtain r arr w3 where m: "init_mmap h fd (if cnt = 0 then 1 else cnt) w2 = Inr (r, arr, w3)"
    and st: "st = \<lparr>clinks = empty_queues, sritems = (\<lambda>_. None), creg = reg1, mmap_addrs = arr, devfd = fd,
             qc_loop_continue = True, world = w3\<rparr>"
    by blast
  have "conn_rep st (\<lambda>_. [])"
    using empty_queues_rep reg by (auto simp: conn_rep_def st)
  then show ?thesis
    using init_mmap_result [OF mm m] cnt by (auto simp: st max_def Suc_le_eq)
qed

text \<open>\<open>init_mmap\<close> reports success when every mapping fails: \<open>MAP_FAILED\<close> is not \<open>NULL\<close>, so the
  array is full of it.\<close>

theorem init_mmap_accepts_failed_mappings:
  assumes "\<And>w. fst (h_mmap h fd MMAP_SIZE w) = MAP_FAILED" and "fst (h_malloc h (8 * cnt) w) \<noteq> 0"
  shows "\<exists>w'. init_mmap h fd cnt w = Inr (0, replicate cnt MAP_FAILED, w')"
proof -
  obtain p w1 where p: "h_malloc h (8 * cnt) w = (p, w1)" "p \<noteq> 0"
    using assms(2) by (cases "h_malloc h (8 * cnt) w") simp
  then obtain r arr w' where i: "init_mmap h fd cnt w = Inr (r, arr, w')"
    by (cases "mmap_loop h fd cnt [] w1") (simp add: init_mmap_def)
  have "r = 0 \<and> length arr = cnt \<and> (\<forall>a \<in> set arr. \<exists>w. a = fst (h_mmap h fd MMAP_SIZE w))"
    by (rule init_mmap_result [OF _ i]) (simp add: assms(1) MAP_FAILED_def)
  then show ?thesis
    using i assms(1) by (auto simp: replicate_length_same)
qed

text \<open>\<open>gpu_init\<close> maps the handle \<open>NULL\<close>; when the platform refuses that, as OpenCL demands, it
  never reaches its end: every result is \<open>-1\<close>.\<close>

theorem gpu_init_always_fails:
  assumes "\<And>w. \<not> fst (h_cl h (Map_buffer 0) w)"
  shows "case gpu_init h w of Inl e \<Rightarrow> e \<in> {Null_deref, Out_of_bounds} | Inr (r, w') \<Rightarrow> r = Some (- 1)"
proof -
  have b: "fst (gpu_init_buffers h w) = Some (- 1)" for w
    using assms [of w] by (simp add: gpu_init_buffers_def split_beta)
  have "fst (gpu_init_devices h w) = Some (- 1)" for w
    by (simp add: gpu_init_devices_def b Let_def split_beta)
  then show ?thesis
    by (simp add: gpu_init_def Let_def split_beta)
qed

text \<open>A device file that cannot be opened ends in \<open>abort\<close>, or an earlier fault: \<open>qc_init\<close> never
  returns, because the \<open>ioctl\<close> on the descriptor fails.\<close>

theorem open_failure_aborts:
  assumes "fst (h_open h path w) < 0" and "\<And>fd c w. fd < 0 \<Longrightarrow> fst (h_ioctl h fd c w) < 0"
  shows "\<exists>e. qc_init h path w = Inl e"
proof -
  obtain fd w1 where fd: "h_open h path w = (fd, w1)" "fd < 0"
    using assms(1) by (cases "h_open h path w") simp
  have "qc_init_device h path w \<noteq> Inr r" for r
    using fd assms(2) [OF fd(2)]
    by (auto simp: qc_init_device_def Let_def split_beta split: if_splits)
  then have "\<exists>e. qc_init_device h path w = Inl e"
    by (cases "qc_init_device h path w") auto
  then show ?thesis
    by (auto simp: qc_init_def)
qed

text \<open>The filter of the log drops the low levels, which are the errors: with a threshold above
  \<open>QH_LOG_ERROR\<close> an error is never printed, while an unclassified message is at any threshold up to
  \<open>QH_LOG_PRINT\<close>.\<close>

theorem log_threshold_drops_errors:
  assumes "QH_LOG_ERROR < t" and "t \<le> QH_LOG_PRINT"
  shows "qhgpu_log (Some t) QH_LOG_ERROR m f l s = None \<and> qhgpu_log (Some t) QH_LOG_PRINT m f l s \<noteq> None"
  using assms by (simp add: qhgpu_log_def)

lemma fill_pinned_overflows:
  assumes "length buf < n"
  shows "fill_pinned n buf = Inl Out_of_bounds"
proof -
  have step: "foldl (\<lambda>r i. bindR r (\<lambda>b. arr_set b i (of_nat i AND 0xff))) (Inl e) xs = Inl e" for e :: fault and xs
    by (induction xs) simp_all
  have "foldl (\<lambda>r i. bindR r (\<lambda>b. arr_set b i (of_nat i AND (0xff :: u32)))) (Inr buf) [0..<m] = Inl Out_of_bounds"
    if "length buf < m" for m
    using that
  proof (induction m)
    case (Suc m)
    show ?case
    proof (cases "length buf < m")
      case False
      then have m: "m = length buf"
        using Suc.prems by simp
      have "\<exists>b. foldl (\<lambda>r i. bindR r (\<lambda>b. arr_set b i (of_nat i AND (0xff :: u32)))) (Inr buf) [0..<k] = Inr b \<and>
          length b = length buf" if "k \<le> length buf" for k
        using that by (induction k) auto
      from this [of m] show ?thesis
        by (auto simp: m arr_set_def)
    qed (use Suc.IH in simp)
  qed simp
  then show ?thesis
    using assms by (simp add: fill_pinned_def)
qed

text \<open>\<open>gpu_alloc_pinned_mem\<close> writes past the buffer it maps: the buffer has \<open>QHGPU_MEM_SIZE\<close>
  bytes and the loop fills as many cells of four bytes.\<close>

theorem gpu_alloc_pinned_mem_overflows:
  assumes "\<And>p w. length (mapped p w) = QHGPU_MEM_SIZE div 4"
  shows "gpu_alloc_pinned_mem h mapped w = Inl Out_of_bounds \<or>
    (\<exists>w'. gpu_alloc_pinned_mem h mapped w = Inr (0, w'))"
proof -
  have "fill_pinned QHGPU_MEM_SIZE (mapped p w) = Inl Out_of_bounds" for p w
    by (rule fill_pinned_overflows) (simp add: assms QHGPU_MEM_SIZE_def)
  then show ?thesis
    by (simp add: gpu_alloc_pinned_mem_def Let_def split_beta)
qed

section \<open>Concrete inputs\<close>

definition sample_host :: "u64 \<Rightarrow> int \<Rightarrow> unit host" where
  "sample_host m fd = \<lparr>h_open = (\<lambda>_ w. (fd, w)), h_malloc = (\<lambda>_ w. (16, w)), h_mlock = (\<lambda>_ _ w. (0, w)),
     h_ioctl = (\<lambda>fd _ w. (if fd < 0 then - 1 else 0, w)), h_mmap = (\<lambda>_ _ w. (m, w)), h_munmap = (\<lambda>_ _ w. (0, w)),
     h_close = (\<lambda>_ w. w), h_cl = (\<lambda>q w. (q \<noteq> Map_buffer 0, 1, w))\<rparr>"

definition no_libs :: dl where
  "no_libs = \<lparr>dl_open = (\<lambda>_. None), dl_init = (\<lambda>_. None), dl_finit = (\<lambda>_. None)\<rparr>"

definition empty_registry :: registry where
  "empty_registry = \<lparr>slinks = INIT_LIST_HEAD Services \<lparr>nxt = (\<lambda>_. None), prv = (\<lambda>_. None)\<rparr>,
     sitems = (\<lambda>_. None), srv_mem = (\<lambda>_. None), handles = []\<rparr>"

definition sample_start :: "unit conn" where
  "sample_start = \<lparr>clinks = empty_queues, sritems = (\<lambda>_. None), creg = empty_registry, mmap_addrs = [4096], devfd = 3,
     qc_loop_continue = True, world = ()\<rparr>"

lemma sample_gpu_init: "gpu_init (sample_host 4096 fd) () = Inr (Some (- 1), ())"
  by (simp add: gpu_init_def gpu_init_devices_def gpu_init_buffers_def sample_host_def Let_def)

lemma sample_start_run:
  "helper_start (sample_host 4096 3) no_libs (\<lambda>_. []) empty_registry () = Some (Inr sample_start)"
proof -
  have "qc_init (sample_host 4096 3) ''/dev/qhgpu'' () = Inr (0, 3, ())"
    using sample_gpu_init [of 3]
    by (simp add: qc_init_def qc_init_device_def qc_init_platforms_def qc_init_context_def cl_assert_def
      sample_host_def safe_syscall_def Let_def)
  then show ?thesis
    by (simp add: helper_start_def qc_load_all_services_def init_mmap_def sample_start_def sample_host_def bindO_def)
qed

theorem helper_starts_with_empty_queues_witness:
  "conn_rep sample_start (\<lambda>_. []) \<and> qc_loop_continue sample_start \<and>
    length (mmap_addrs sample_start) = max 1 (length ([] :: string list))"
  by (rule helper_starts_with_empty_queues [OF sample_start_run, of "[]"])
    (simp_all add: sample_start_def empty_registry_def registered_def sample_host_def ring_def family_def inj_on_def INIT_LIST_HEAD_def
      set_next_def set_prev_def)

theorem init_mmap_accepts_failed_mappings_witness:
  "\<exists>w'. init_mmap (sample_host MAP_FAILED 3) 3 2 () = Inr (0, replicate 2 MAP_FAILED, w')"
  by (rule init_mmap_accepts_failed_mappings) (simp_all add: sample_host_def)

theorem gpu_init_always_fails_witness:
  "case gpu_init (sample_host 4096 3) () of Inl e \<Rightarrow> e \<in> {Null_deref, Out_of_bounds} | Inr (r, w') \<Rightarrow> r = Some (- 1)"
  by (rule gpu_init_always_fails) (simp add: sample_host_def)

theorem open_failure_aborts_witness: "\<exists>e. qc_init (sample_host 4096 (- 1)) ''/dev/qhgpu'' () = Inl e"
  by (rule open_failure_aborts) (simp_all add: sample_host_def)

theorem log_threshold_drops_errors_witness:
  "qhgpu_log (Some 2) QH_LOG_ERROR ''m'' ''f'' ''7'' ''lost'' = None \<and>
    qhgpu_log (Some 2) QH_LOG_PRINT ''m'' ''f'' ''7'' ''lost'' \<noteq> None"
  by (rule log_threshold_drops_errors) (simp_all add: QH_LOG_ERROR_def QH_LOG_PRINT_def)

theorem gpu_alloc_pinned_mem_overflows_witness:
  "gpu_alloc_pinned_mem (sample_host 4096 3) (\<lambda>_ _. replicate 25600 0) () = Inl Out_of_bounds \<or>
    (\<exists>w'. gpu_alloc_pinned_mem (sample_host 4096 3) (\<lambda>_ _. replicate 25600 0) () = Inr (0, w'))"
  by (rule gpu_alloc_pinned_mem_overflows) (simp add: QHGPU_MEM_SIZE_def)

end
