(* ===== verification/QH_Gpu.thy ===== *)
theory QH_Gpu
  imports QH_Prelude
begin

text \<open>
  The execution model of OpenCL C kernels. A kernel runs a number of work groups of work items
  over global buffers; every group has a local memory of its own, and a barrier separates the phases
  in which the items of a group run. Groups run one after the other in an order the device chooses,
  and the items of a group run each phase in an order that the device chooses anew for every phase.
  The theorems about kernels hold for every such order. Local memory starts with contents the device
  chooses.
\<close>

section \<open>Loops\<close>

primrec for_each :: "'i list \<Rightarrow> ('i \<Rightarrow> 's \<Rightarrow> 's res) \<Rightarrow> 's \<Rightarrow> 's res" where
  "for_each [] f s = Inr s"
| "for_each (i # is) f s = bindR (f i s) (for_each is f)"

lemma for_each_append:
  "for_each (xs @ ys) f s = bindR (for_each xs f s) (for_each ys f)"
proof (induction xs arbitrary: s)
  case (Cons i xs)
  then have "for_each (xs @ ys) f = (\<lambda>t. bindR (for_each xs f t) (for_each ys f))"
    by blast
  then show ?case
    by (simp add: bindR_assoc)
qed simp

lemma for_each_snoc: "for_each (xs @ [i]) f s = bindR (for_each xs f s) (f i)"
proof -
  have "for_each [i] f = f i"
  proof
    show "for_each [i] f t = f i t" for t
      by (cases "f i t") simp_all
  qed
  then show ?thesis
    unfolding for_each_append by simp
qed

lemma step_result: "r = Inr t \<Longrightarrow> Q t \<Longrightarrow> \<exists>t. r = Inr t \<and> Q t"
  by blast

text \<open>A loop over distinct indices keeps an invariant on the set of indices already done.\<close>

lemma for_each_invariant:
  assumes "distinct xs" and "Inv {} s"
    and step: "\<And>i D s. i \<in> set xs \<Longrightarrow> i \<notin> D \<Longrightarrow> D \<subseteq> set xs \<Longrightarrow> Inv D s \<Longrightarrow>
      \<exists>s'. f i s = Inr s' \<and> Inv (insert i D) s'"
  shows "\<exists>s'. for_each xs f s = Inr s' \<and> Inv (set xs) s'"
proof -
  have "\<exists>s'. for_each ys f t = Inr s' \<and> Inv (D \<union> set ys) s'"
    if "distinct ys" "set ys \<inter> D = {}" "Inv D t" "D \<union> set ys \<subseteq> set xs" for ys D t
    using that
  proof (induction ys arbitrary: D t)
    case (Cons i ys)
    have "\<exists>s'. f i t = Inr s' \<and> Inv (insert i D) s'"
      by (rule step) (use Cons.prems in auto)
    then obtain t' where t': "f i t = Inr t'" "Inv (insert i D) t'"
      by blast
    have "\<exists>s'. for_each ys f t' = Inr s' \<and> Inv (insert i D \<union> set ys) s'"
      by (rule Cons.IH) (use Cons.prems t' in auto)
    then show ?case
      using t' by simp
  qed simp
  from this [of xs "{}" s] show ?thesis
    using assms by simp
qed

text \<open>The same for a counting loop, with the invariant on the prefix done.\<close>

lemma for_range_invariant:
  assumes "a \<le> b" and "Inv a s"
    and step: "\<And>i s. a \<le> i \<Longrightarrow> i < b \<Longrightarrow> Inv i s \<Longrightarrow> \<exists>s'. f i s = Inr s' \<and> Inv (Suc i) s'"
  shows "\<exists>s'. for_each [a..<b] f s = Inr s' \<and> Inv b s'"
  using assms
proof (induction b rule: dec_induct)
  case base
  then show ?case by simp
next
  case (step n)
  then obtain t where t: "for_each [a..<n] f s = Inr t" "Inv n t"
    by (metis less_SucI)
  obtain t' where "f n t = Inr t'" "Inv (Suc n) t'"
    using step.prems(2) [OF step.hyps(1) lessI t(2)] by blast
  then show ?case
    using t step.hyps by (simp add: for_each_append)
qed

text \<open>And for a list whose entries may repeat, with the invariant on the entries done.\<close>

lemma for_each_prefix:
  assumes "Inv [] s"
    and step: "\<And>ys i zs s. xs = ys @ i # zs \<Longrightarrow> Inv ys s \<Longrightarrow> \<exists>s'. f i s = Inr s' \<and> Inv (ys @ [i]) s'"
  shows "\<exists>s'. for_each xs f s = Inr s' \<and> Inv xs s'"
proof -
  have "\<exists>s'. for_each ys f s = Inr s' \<and> Inv ys s'" if "xs = ys @ zs" for ys zs
    using that
  proof (induction ys arbitrary: zs rule: rev_induct)
    case Nil
    then show ?case using assms(1) by simp
  next
    case (snoc i ys)
    obtain t where t: "for_each ys f s = Inr t" "Inv ys t"
      using snoc.IH [of "i # zs"] snoc.prems by auto
    obtain t' where "f i t = Inr t'" "Inv (ys @ [i]) t'"
      using step [of ys i zs t] snoc.prems t(2) by auto
    then show ?case using t(1) by (simp add: for_each_snoc)
  qed
  then show ?thesis by simp
qed

text \<open>Nested loops and loops over a list of results.\<close>

lemma for_each_map: "for_each (map g xs) f s = for_each xs (\<lambda>i. f (g i)) s"
proof (induction xs arbitrary: s)
  case (Cons i xs)
  then have "for_each (map g xs) f = for_each xs (\<lambda>i. f (g i))"
    by blast
  then show ?case by simp
qed simp

lemma for_each_nested:
  "for_each gs (\<lambda>g. for_each (xs g) (h g)) s =
     for_each (concat (map (\<lambda>g. map (Pair g) (xs g)) gs)) (\<lambda>(g, i). h g i) s"
proof (induction gs arbitrary: s)
  case (Cons g gs)
  then have "for_each gs (\<lambda>g. for_each (xs g) (h g)) =
      for_each (concat (map (\<lambda>g. map (Pair g) (xs g)) gs)) (\<lambda>(g, i). h g i)"
    by blast
  then show ?case
    by (simp add: for_each_append for_each_map)
qed simp

text \<open>Steps that do nothing can be left out.\<close>

lemma for_each_filter:
  assumes "\<And>i s. i \<in> set xs \<Longrightarrow> \<not> P i \<Longrightarrow> f i s = Inr s"
  shows "for_each xs f s = for_each (filter P xs) f s"
  using assms
proof (induction xs arbitrary: s)
  case (Cons i xs)
  have "for_each xs f = for_each (filter P xs) f"
    using Cons by (intro ext) auto
  then show ?case using Cons.prems [of i s] by auto
qed simp

text \<open>A loop on a more abstract state.\<close>

lemma for_each_simulation:
  assumes "P s"
    and "\<And>i s. i \<in> set xs \<Longrightarrow> P s \<Longrightarrow> map_res A (f i s) = g i (A s)"
    and "\<And>i s s'. i \<in> set xs \<Longrightarrow> P s \<Longrightarrow> f i s = Inr s' \<Longrightarrow> P s'"
  shows "map_res A (for_each xs f s) = for_each xs g (A s)"
  using assms
proof (induction xs arbitrary: s)
  case (Cons i xs)
  show ?case
  proof (cases "f i s")
    case (Inl e)
    then have "g i (A s) = Inl e"
      using Cons.prems(2) [of i s] Cons.prems(1) by simp
    then show ?thesis using Inl by simp
  next
    case (Inr t)
    then have "g i (A s) = Inr (A t)"
      using Cons.prems(2) [of i s] Cons.prems(1) by simp
    moreover have "P t"
      using Cons.prems(3) [of i s t] Cons.prems(1) Inr by simp
    moreover have "map_res A (for_each xs f t) = for_each xs g (A t)"
      by (rule Cons.IH [OF \<open>P t\<close>]) (simp add: Cons.prems(2), erule (1) Cons.prems(3) [OF list.set_intros(2)])
    ultimately show ?thesis using Inr by simp
  qed
qed simp

section \<open>Phases\<close>

text \<open>
  A phase is free of data races when every item writes its own cells and the cells it reads are
  written by no other item. Then each order of the items gives the same buffer: the cells of an item
  hold what the item writes when it runs alone on the buffer at the start of the phase.
\<close>

definition race_free ::
  "'i set \<Rightarrow> ('i \<Rightarrow> nat set) \<Rightarrow> ('i \<Rightarrow> nat set) \<Rightarrow> bool" where
  "race_free Is wr rd \<longleftrightarrow> (\<forall>i\<in>Is. \<forall>j\<in>Is. i \<noteq> j \<longrightarrow> wr i \<inter> (wr j \<union> rd j) = {})"

lemma race_freeD:
  "race_free Is wr rd \<Longrightarrow> i \<in> Is \<Longrightarrow> j \<in> Is \<Longrightarrow> i \<noteq> j \<Longrightarrow> wr i \<inter> (wr j \<union> rd j) = {}"
  by (simp add: race_free_def)

lemma phase_result:
  assumes d: "distinct xs" and rf: "race_free (set xs) wr rd"
    and step: "\<And>i t. i \<in> set xs \<Longrightarrow> length t = length s \<Longrightarrow>
      (\<And>j. j < length s \<Longrightarrow> j \<in> rd i \<union> wr i \<Longrightarrow> t ! j = s ! j) \<Longrightarrow>
      \<exists>t'. f i t = Inr t' \<and> length t' = length s \<and>
        (\<forall>j < length s. t' ! j = (if j \<in> wr i then new i j else t ! j))"
  shows "\<exists>t. for_each xs f s = Inr t \<and> length t = length s \<and>
    (\<forall>j < length s. (\<forall>i \<in> set xs. j \<in> wr i \<longrightarrow> t ! j = new i j) \<and>
      ((\<forall>i \<in> set xs. j \<notin> wr i) \<longrightarrow> t ! j = s ! j))"
proof (rule for_each_invariant [where Inv = "\<lambda>D t. length t = length s \<and>
    (\<forall>j < length s. (\<forall>i \<in> D. j \<in> wr i \<longrightarrow> t ! j = new i j) \<and>
      ((\<forall>i \<in> D. j \<notin> wr i) \<longrightarrow> t ! j = s ! j))", OF d], simp)
  fix i D t
  assume i: "i \<in> set xs" "i \<notin> D" "D \<subseteq> set xs"
    and inv: "length t = length s \<and>
    (\<forall>j < length s. (\<forall>i \<in> D. j \<in> wr i \<longrightarrow> t ! j = new i j) \<and>
      ((\<forall>i \<in> D. j \<notin> wr i) \<longrightarrow> t ! j = s ! j))"
  then have len: "length t = length s"
    and inw: "\<And>j k. j < length s \<Longrightarrow> k \<in> D \<Longrightarrow> j \<in> wr k \<Longrightarrow> t ! j = new k j"
    and outw: "\<And>j. j < length s \<Longrightarrow> \<forall>k \<in> D. j \<notin> wr k \<Longrightarrow> t ! j = s ! j"
    by simp_all
  have sep: "wr k \<inter> (wr i \<union> rd i) = {}" if "k \<in> D" for k
    by (rule race_freeD [OF rf]) (use i that in auto)
  have same: "t ! j = s ! j" if "j < length s" "j \<in> rd i \<union> wr i" for j
  proof -
    have "\<forall>k \<in> D. j \<notin> wr k"
      using sep that(2) by blast
    then show ?thesis
      using outw that(1) by simp
  qed
  obtain t' where r: "f i t = Inr t' \<and> length t' = length s \<and>
      (\<forall>j < length s. t' ! j = (if j \<in> wr i then new i j else t ! j))"
    using step [OF i(1) len same] ..
  then have t': "\<And>j. j < length s \<Longrightarrow> t' ! j = (if j \<in> wr i then new i j else t ! j)"
    by simp
  from r have "f i t = Inr t'" "length t' = length s"
    by simp_all
  moreover have "t' ! j = new k j" if "j < length s" "k \<in> insert i D" "j \<in> wr k" for j k
  proof (cases "k = i")
    case False
    then have "j \<notin> wr i"
      using sep [of k] that by blast
    then show ?thesis
      using t' [OF that(1)] inw that False by auto
  qed (use t' that in simp)
  moreover have "t' ! j = s ! j" if "j < length s" "\<forall>k \<in> insert i D. j \<notin> wr k" for j
    using t' [OF that(1)] outw [OF that(1)] that(2) by simp
  ultimately show "\<exists>t'. f i t = Inr t' \<and> length t' = length s \<and>
    (\<forall>j < length s. (\<forall>k \<in> insert i D. j \<in> wr k \<longrightarrow> t' ! j = new k j) \<and>
      ((\<forall>k \<in> insert i D. j \<notin> wr k) \<longrightarrow> t' ! j = s ! j))"
    by (intro exI [of _ t']) simp
qed

text \<open>The common case of a phase that fills a buffer: the result as a list.\<close>

lemma phase_fills:
  assumes d: "distinct xs" and rf: "race_free (set xs) wr rd"
    and cover: "\<And>j. j < length s \<Longrightarrow> \<exists>i \<in> set xs. j \<in> wr i"
    and new: "\<And>i j. i \<in> set xs \<Longrightarrow> j \<in> wr i \<Longrightarrow> j < length s \<Longrightarrow> new i j = v j"
    and step: "\<And>i t. i \<in> set xs \<Longrightarrow> length t = length s \<Longrightarrow>
      (\<And>j. j < length s \<Longrightarrow> j \<in> rd i \<union> wr i \<Longrightarrow> t ! j = s ! j) \<Longrightarrow>
      \<exists>t'. f i t = Inr t' \<and> length t' = length s \<and>
        (\<forall>j < length s. t' ! j = (if j \<in> wr i then new i j else t ! j))"
  shows "for_each xs f s = Inr (map v [0..<length s])"
proof -
  obtain t where t: "for_each xs f s = Inr t" "length t = length s"
    "\<And>j i. j < length s \<Longrightarrow> i \<in> set xs \<Longrightarrow> j \<in> wr i \<Longrightarrow> t ! j = new i j"
    using phase_result [OF d rf step] by blast
  have "t = map v [0..<length s]"
    by (rule map_upt_eqI [OF t(2)]) (metis cover new t(3))
  then show ?thesis
    using t by simp
qed

section \<open>Devices\<close>

text \<open>
  \<open>group_order d n\<close> is the order of the \<open>n\<close> groups of a launch, \<open>item_order d g p m\<close> the order of the
  \<open>m\<close> items of group \<open>g\<close> in its phase \<open>p\<close>, and \<open>local_init d g m\<close> the contents of the \<open>m\<close> cells of
  local memory when group \<open>g\<close> starts.
\<close>

record gpu =
  group_order :: "nat \<Rightarrow> nat list"
  item_order :: "nat \<Rightarrow> nat \<Rightarrow> nat \<Rightarrow> nat list"
  local_init :: "nat \<Rightarrow> nat \<Rightarrow> u32 list"

text \<open>What the OpenCL specification promises of a device: all groups and items run, once each.\<close>

definition fair_gpu :: "gpu \<Rightarrow> bool" where
  "fair_gpu d \<longleftrightarrow>
     (\<forall>n. distinct (group_order d n) \<and> set (group_order d n) = {..<n}) \<and>
     (\<forall>g p m. distinct (item_order d g p m) \<and> set (item_order d g p m) = {..<m}) \<and>
     (\<forall>g m. length (local_init d g m) = m)"

lemma fair_groups:
  "fair_gpu d \<Longrightarrow> distinct (group_order d n)"
  "fair_gpu d \<Longrightarrow> set (group_order d n) = {..<n}"
  by (simp_all add: fair_gpu_def)

lemma fair_items:
  "fair_gpu d \<Longrightarrow> distinct (item_order d g p m)"
  "fair_gpu d \<Longrightarrow> set (item_order d g p m) = {..<m}"
  by (simp_all add: fair_gpu_def)

lemma fair_local: "fair_gpu d \<Longrightarrow> length (local_init d g m) = m"
  by (simp add: fair_gpu_def)

lemmas fair_simps [simp] = fair_groups fair_items fair_local

text \<open>
  A launch over two dimensions, for a kernel without barriers: \<open>gsz\<close> are the numbers of items, \<open>lsz\<close> the sizes
  of a group. Every item runs \<open>f\<close> with its two global identifiers.
\<close>

definition launch_2d ::
  "gpu \<Rightarrow> nat \<times> nat \<Rightarrow> nat \<times> nat \<Rightarrow> (nat \<Rightarrow> nat \<Rightarrow> 's \<Rightarrow> 's res) \<Rightarrow> 's \<Rightarrow> 's res" where
  "launch_2d d gsz lsz f = (
     let gx = fst gsz div fst lsz; gy = snd gsz div snd lsz in
     for_each (group_order d (gx * gy)) (\<lambda>g. for_each (item_order d g 0 (fst lsz * snd lsz)) (\<lambda>it.
       f (g mod gx * fst lsz + it mod fst lsz) (g div gx * snd lsz + it div fst lsz))))"

text \<open>The identifiers in the order in which they run.\<close>

definition global_ids :: "gpu \<Rightarrow> nat \<times> nat \<Rightarrow> nat \<times> nat \<Rightarrow> (nat \<times> nat) list" where
  "global_ids d gsz lsz = (
     let gx = fst gsz div fst lsz; gy = snd gsz div snd lsz in
     map (\<lambda>(g, it). (g mod gx * fst lsz + it mod fst lsz, g div gx * snd lsz + it div fst lsz))
     (concat (map (\<lambda>g. map (Pair g) (item_order d g 0 (fst lsz * snd lsz))) (group_order d (gx * gy)))))"

lemma launch_2d_flat: "launch_2d d gsz lsz f s = for_each (global_ids d gsz lsz) (\<lambda>(x, y). f x y) s"
  unfolding launch_2d_def global_ids_def Let_def for_each_map for_each_nested
  by (simp add: case_prod_unfold)

lemma distinct_pairs:
  assumes "distinct gs" and "\<And>g. distinct (xs g)"
  shows "distinct (concat (map (\<lambda>g. map (Pair g) (xs g)) gs))"
  using assms(1) by (induction gs) (auto simp: distinct_map inj_on_def assms(2))

text \<open>Group and local identifiers determine the global ones, and every pair of them occurs.\<close>

lemma block_ids:
  fixes a b c e :: nat
  assumes "a * m + b = c * m + e" and "b < m" and "e < m"
  shows "a = c" "b = e"
proof -
  have "(a * m + b) div m = a" "(c * m + e) div m = c"
    using assms(2,3) by simp_all
  then show "a = c" using assms(1) by metis
  then show "b = e" using assms(1) by simp
qed

lemma block_bound: "i < (m::nat) \<Longrightarrow> g < k \<Longrightarrow> g * m + i < k * m"
proof -
  assume "i < m" "g < k"
  then have "g * m + i < Suc g * m" by simp
  also have "\<dots> \<le> k * m" using \<open>g < k\<close> by (intro mult_le_mono1) simp
  finally show ?thesis .
qed

lemma global_ids:
  assumes d: "fair_gpu d" and l: "0 < lx" "0 < ly"
  shows "distinct (global_ids d (kx * lx, ky * ly) (lx, ly))"
    and "set (global_ids d (kx * lx, ky * ly) (lx, ly)) = {..<kx * lx} \<times> {..<ky * ly}"
proof -
  let ?ps = "concat (map (\<lambda>g. map (Pair g) (item_order d g 0 (lx * ly))) (group_order d (kx * ky)))"
  let ?f = "\<lambda>(g, it). (g mod kx * lx + it mod lx, g div kx * ly + it div lx)"
  have ids: "global_ids d (kx * lx, ky * ly) (lx, ly) = map ?f ?ps"
    using l by (simp add: global_ids_def)
  have ps: "distinct ?ps" "set ?ps = {..<kx * ky} \<times> {..<lx * ly}"
    using d by (auto intro: distinct_pairs)
  have less: "it mod lx < lx" "it div lx < ly" if "it < lx * ly" for it
    using that l by (simp_all add: less_mult_imp_div_less mult.commute)
  have "inj_on ?f ({..<kx * ky} \<times> {..<lx * ly})"
  proof (rule inj_onI, clarsimp)
    fix g i h j
    assume ij: "i < lx * ly" "j < lx * ly"
      and x: "g mod kx * lx + i mod lx = h mod kx * lx + j mod lx"
      and y: "g div kx * ly + i div lx = h div kx * ly + j div lx"
    have "g mod kx = h mod kx" "i mod lx = j mod lx" "g div kx = h div kx" "i div lx = j div lx"
      using block_ids [OF x] block_ids [OF y] less [OF ij(1)] less [OF ij(2)] by simp_all
    then show "g = h \<and> i = j" by (metis div_mult_mod_eq)
  qed
  then show "distinct (global_ids d (kx * lx, ky * ly) (lx, ly))"
    unfolding ids distinct_map ps(2) using ps(1) by simp
  have "?f ` ({..<kx * ky} \<times> {..<lx * ly}) = {..<kx * lx} \<times> {..<ky * ly}" (is "?I = ?J")
  proof (rule subset_antisym)
    show "?I \<subseteq> ?J"
    proof (clarsimp, intro conjI)
      fix g i assume gi: "g < kx * ky" "i < lx * ly"
      then have "0 < kx" by (cases kx) auto
      show "g mod kx * lx + i mod lx < kx * lx"
        by (rule block_bound) (use less [OF gi(2)] \<open>0 < kx\<close> in auto)
      show "g div kx * ly + i div lx < ky * ly"
        by (rule block_bound) (use less [OF gi(2)] gi in \<open>auto simp: less_mult_imp_div_less mult.commute\<close>)
    qed
    show "?J \<subseteq> ?I"
    proof clarsimp
      fix x y assume xy: "x < kx * lx" "y < ky * ly"
      let ?g = "y div ly * kx + x div lx" and ?i = "y mod ly * lx + x mod lx"
      have k: "x div lx < kx" "y div ly < ky"
        using xy by (simp_all add: less_mult_imp_div_less)
      have "?g < kx * ky" "?i < lx * ly"
        using block_bound [OF k] block_bound [of "x mod lx" lx "y mod ly" ly] l by (simp_all add: mult.commute)
      moreover have "(x, y) = ?f (?g, ?i)"
        using k l by simp
      ultimately show "(x, y) \<in> ?I"
        by (intro image_eqI [of _ _ "(?g, ?i)"]) auto
    qed
  qed
  then show "set (global_ids d (kx * lx, ky * ly) (lx, ly)) = {..<kx * lx} \<times> {..<ky * ly}"
    unfolding ids set_map ps(2) .
qed

text \<open>Two devices: one runs everything in ascending order, the other in descending order.\<close>

definition forward_gpu :: gpu where
  "forward_gpu = \<lparr>group_order = (\<lambda>n. [0..<n]), item_order = (\<lambda>g p m. [0..<m]),
     local_init = (\<lambda>g m. replicate m 0)\<rparr>"

definition backward_gpu :: gpu where
  "backward_gpu = \<lparr>group_order = (\<lambda>n. rev [0..<n]), item_order = (\<lambda>g p m. rev [0..<m]),
     local_init = (\<lambda>g m. replicate m 4294967295)\<rparr>"

lemma fair_forward [simp]: "fair_gpu forward_gpu"
  by (auto simp: fair_gpu_def forward_gpu_def)

lemma fair_backward [simp]: "fair_gpu backward_gpu"
  by (auto simp: fair_gpu_def backward_gpu_def)

end
