(* ===== verification/QH_Radix_Kernels.thy ===== *)
theory QH_Radix_Kernels
  imports QH_Gpu
begin

text \<open>
  The OpenCL C kernels of the radix sort (\<open>src/kernel/cl_radix_sort.cl\<close>), in the order of the file.
  A kernel is a function of the device, the arguments of the launch and the buffers; it returns the
  buffers it writes. Indices, which the code keeps in \<open>int\<close>, are natural numbers: they stay below
  the number of keys or the size of the histogram, both less than \<open>2 ^ 31\<close>. Cells are 32 bits wide.
\<close>

unbundle bit_operations_syntax

section \<open>Parameters\<close>

definition BITS :: nat where "BITS = 5"
definition TOTALBITS :: nat where "TOTALBITS = 25"
definition RADIX :: nat where "RADIX = 2 ^ BITS"
definition PASS :: nat where "PASS = TOTALBITS div BITS"
definition TRANSPOSE :: bool where "TRANSPOSE = False"
definition PERMUT :: bool where "PERMUT = True"
definition CL_ITEMS :: nat where "CL_ITEMS = 16"
definition CL_GROUPS :: nat where "CL_GROUPS = 16"

lemmas param_defs = BITS_def TOTALBITS_def RADIX_def PASS_def TRANSPOSE_def PERMUT_def

text \<open>The change of index for the transposition.\<close>

definition index :: "nat \<Rightarrow> nat \<Rightarrow> nat" where
  "index i n = (if TRANSPOSE
     then (let k = i div (n div CL_GROUPS div CL_ITEMS); l = i mod (n div CL_GROUPS div CL_ITEMS)
           in l * (CL_GROUPS * CL_ITEMS) + k)
     else i)"

text \<open>The digit of a key in a pass: the shift of an \<open>int\<close> keeps its sign.\<close>

definition shortkey :: "nat \<Rightarrow> u32 \<Rightarrow> nat" where
  "shortkey pass key = unat (signed_drop_bit (pass * BITS) key AND (of_nat RADIX - 1))"

section \<open>histogram\<close>

definition hist_clear :: "nat \<Rightarrow> nat \<Rightarrow> u32 list \<Rightarrow> u32 list res" where
  "hist_clear items it loc = for_each [0..<RADIX] (\<lambda>ir l. arr_set l (ir * items + it) 0) loc"

definition hist_count ::
  "u32 list \<Rightarrow> nat \<Rightarrow> nat \<Rightarrow> nat \<Rightarrow> nat \<Rightarrow> nat \<Rightarrow> nat \<Rightarrow> u32 list \<Rightarrow> u32 list res" where
  "hist_count keys pass n groups items ig it loc = (
     let start = ig * (n div groups div items); sz = n div groups div items
     in for_each [start..<start + sz] (\<lambda>i l.
          bindR (arr_get keys (index i n)) (\<lambda>key.
          bindR (arr_get l (shortkey pass key * items + it)) (\<lambda>c.
          arr_set l (shortkey pass key * items + it) (c + 1)))) loc)"

definition hist_copy ::
  "u32 list \<Rightarrow> nat \<Rightarrow> nat \<Rightarrow> nat \<Rightarrow> nat \<Rightarrow> u32 list \<Rightarrow> u32 list res" where
  "hist_copy loc groups items gr it d_Histograms = for_each [0..<RADIX] (\<lambda>ir h.
     bindR (arr_get loc (ir * items + it)) (\<lambda>v.
     arr_set h (ir * groups * items + items * gr + it) v)) d_Histograms"

text \<open>A work group of the launch, in three phases.\<close>

definition hist_group ::
  "gpu \<Rightarrow> nat \<Rightarrow> nat \<Rightarrow> u32 list \<Rightarrow> nat \<Rightarrow> nat \<Rightarrow> nat \<Rightarrow> nat \<Rightarrow> u32 list \<Rightarrow> u32 list res" where
  "hist_group dev groups items d_Keys pass lsize n gr d_Histograms =
     bindR (for_each (item_order dev gr 0 items) (hist_clear items) (local_init dev gr lsize)) (\<lambda>l.
     bindR (for_each (item_order dev gr 1 items)
       (\<lambda>it. hist_count d_Keys pass n groups items (gr * items + it) it) l) (\<lambda>l.
     for_each (item_order dev gr 2 items) (hist_copy l groups items gr) d_Histograms))"

definition histogram ::
  "gpu \<Rightarrow> nat \<Rightarrow> nat \<Rightarrow> u32 list \<Rightarrow> nat \<Rightarrow> nat \<Rightarrow> nat \<Rightarrow> u32 list \<Rightarrow> u32 list res" where
  "histogram dev groups items d_Keys pass lsize n d_Histograms =
     for_each (group_order dev groups) (hist_group dev groups items d_Keys pass lsize n) d_Histograms"

section \<open>transpose\<close>

text \<open>The launch has one item per column; the local row index runs in the item.\<close>

definition tr_load ::
  "u32 list \<Rightarrow> u32 list \<Rightarrow> nat \<Rightarrow> nat \<Rightarrow> nat \<Rightarrow> nat \<Rightarrow> nat \<Rightarrow> u32 list \<times> u32 list \<Rightarrow> (u32 list \<times> u32 list) res"
where
  "tr_load invect inperm nbcol tilesize i0 j jloc bm = for_each [0..<tilesize] (\<lambda>iloc (blockmat, blockperm).
     let k = (i0 + iloc) * nbcol + j in
     bindR (arr_get invect k) (\<lambda>v.
     bindR (arr_set blockmat (iloc * tilesize + jloc) v) (\<lambda>blockmat.
     if PERMUT then
       bindR (arr_get inperm k) (\<lambda>p.
       bindR (arr_set blockperm (iloc * tilesize + jloc) p) (\<lambda>blockperm. Inr (blockmat, blockperm)))
     else Inr (blockmat, blockperm)))) bm"

definition tr_store ::
  "u32 list \<times> u32 list \<Rightarrow> nat \<Rightarrow> nat \<Rightarrow> nat \<Rightarrow> nat \<Rightarrow> nat \<Rightarrow> u32 list \<times> u32 list \<Rightarrow> (u32 list \<times> u32 list) res"
where
  "tr_store bm nbrow tilesize i0 j0 jloc out = for_each [0..<tilesize] (\<lambda>iloc (outvect, outperm).
     let kt = (j0 + iloc) * nbrow + i0 + jloc in
     bindR (arr_get (fst bm) (jloc * tilesize + iloc)) (\<lambda>v.
     bindR (arr_set outvect kt v) (\<lambda>outvect.
     if PERMUT then
       bindR (arr_get (snd bm) (jloc * tilesize + iloc)) (\<lambda>p.
       bindR (arr_set outperm kt p) (\<lambda>outperm. Inr (outvect, outperm)))
     else Inr (outvect, outperm)))) out"

text \<open>
  The launch has \<open>gx\<close> times \<open>gy\<close> groups of one by \<open>items\<close> work items: group \<open>g\<close> has the identifiers
  \<open>g mod gx\<close> and \<open>g div gx\<close>.
\<close>

definition transpose_kernel ::
  "gpu \<Rightarrow> nat \<Rightarrow> nat \<Rightarrow> nat \<Rightarrow> u32 list \<Rightarrow> nat \<Rightarrow> nat \<Rightarrow> u32 list \<Rightarrow> nat \<Rightarrow> nat \<Rightarrow> nat \<Rightarrow>
    u32 list \<times> u32 list \<Rightarrow> (u32 list \<times> u32 list) res" where
  "transpose_kernel dev gx gy items invect nbcol nbrow inperm matsize permsize tilesize out =
     for_each (group_order dev (gx * gy)) (\<lambda>g out.
       let i0 = (g mod gx) * tilesize; gr1 = g div gx in
       bindR (for_each (item_order dev g 0 items)
         (\<lambda>jloc. tr_load invect inperm nbcol tilesize i0 (gr1 * items + jloc) jloc)
         (local_init dev g matsize, local_init dev g permsize)) (\<lambda>bm.
       for_each (item_order dev g 1 items)
         (\<lambda>jloc. tr_store bm nbrow tilesize i0 (gr1 * tilesize) jloc) out)) out"

section \<open>reorder\<close>

definition reorder_load ::
  "u32 list \<Rightarrow> nat \<Rightarrow> nat \<Rightarrow> nat \<Rightarrow> nat \<Rightarrow> u32 list \<Rightarrow> u32 list res" where
  "reorder_load d_Histograms groups items gr it loc = for_each [0..<RADIX] (\<lambda>ir l.
     bindR (arr_get d_Histograms (ir * groups * items + items * gr + it)) (\<lambda>v.
     arr_set l (ir * items + it) v)) loc"

definition reorder_move ::
  "u32 list \<Rightarrow> u32 list \<Rightarrow> nat \<Rightarrow> nat \<Rightarrow> nat \<Rightarrow> nat \<Rightarrow> nat \<Rightarrow> nat \<Rightarrow>
    u32 list \<times> u32 list \<times> u32 list \<Rightarrow> (u32 list \<times> u32 list \<times> u32 list) res" where
  "reorder_move inKeys inPermut pass n groups items ig it st = (
     let start = ig * (n div groups div items); sz = n div groups div items
     in for_each [start..<start + sz] (\<lambda>i (outKeys, outPermut, l).
          bindR (arr_get inKeys (index i n)) (\<lambda>key.
          bindR (arr_get l (shortkey pass key * items + it)) (\<lambda>newpos.
          bindR (arr_set outKeys (index (unat newpos) n) key) (\<lambda>outKeys.
          bindR (if PERMUT
                 then bindR (arr_get inPermut (index i n)) (arr_set outPermut (index (unat newpos) n))
                 else Inr outPermut) (\<lambda>outPermut.
          bindR (arr_set l (shortkey pass key * items + it) (newpos + 1)) (\<lambda>l.
          Inr (outKeys, outPermut, l))))))) st)"

definition reorder_group ::
  "gpu \<Rightarrow> nat \<Rightarrow> nat \<Rightarrow> u32 list \<Rightarrow> u32 list \<Rightarrow> nat \<Rightarrow> u32 list \<Rightarrow> nat \<Rightarrow> nat \<Rightarrow> nat \<Rightarrow>
    u32 list \<times> u32 list \<Rightarrow> (u32 list \<times> u32 list) res" where
  "reorder_group dev groups items inKeys d_Histograms pass inPermut lsize n gr = (\<lambda>(outKeys, outPermut).
     bindR (for_each (item_order dev gr 0 items) (reorder_load d_Histograms groups items gr)
       (local_init dev gr lsize)) (\<lambda>l.
     bindR (for_each (item_order dev gr 1 items)
       (\<lambda>it. reorder_move inKeys inPermut pass n groups items (gr * items + it) it)
       (outKeys, outPermut, l)) (\<lambda>(outKeys, outPermut, l).
     Inr (outKeys, outPermut))))"

definition reorder ::
  "gpu \<Rightarrow> nat \<Rightarrow> nat \<Rightarrow> u32 list \<Rightarrow> u32 list \<Rightarrow> nat \<Rightarrow> u32 list \<Rightarrow> nat \<Rightarrow> nat \<Rightarrow>
    u32 list \<times> u32 list \<Rightarrow> (u32 list \<times> u32 list) res" where
  "reorder dev groups items inKeys d_Histograms pass inPermut lsize n out =
     for_each (group_order dev groups)
       (reorder_group dev groups items inKeys d_Histograms pass inPermut lsize n) out"

section \<open>scanhistograms\<close>

definition scan_load :: "u32 list \<Rightarrow> nat \<Rightarrow> nat \<Rightarrow> nat \<Rightarrow> u32 list \<Rightarrow> u32 list res" where
  "scan_load histo items gr it temp = (
     let ig = gr * items + it in
     bindR (arr_get histo (2 * ig)) (\<lambda>a. bindR (arr_set temp (2 * it) a) (\<lambda>temp.
     bindR (arr_get histo (2 * ig + 1)) (\<lambda>b. arr_set temp (2 * it + 1) b))))"

definition up_step :: "nat \<Rightarrow> nat \<Rightarrow> nat \<Rightarrow> u32 list \<Rightarrow> u32 list res" where
  "up_step d decale it temp = (if it < d then
     (let ai = decale * (2 * it + 1) - 1; bi = decale * (2 * it + 2) - 1 in
      bindR (arr_get temp bi) (\<lambda>b. bindR (arr_get temp ai) (\<lambda>a. arr_set temp bi (b + a))))
     else Inr temp)"

text \<open>One iteration of a sweep is one phase; \<open>ph\<close> numbers the phases.\<close>

fun up_sweep ::
  "gpu \<Rightarrow> nat \<Rightarrow> nat \<Rightarrow> nat \<Rightarrow> nat \<Rightarrow> nat \<Rightarrow> u32 list \<Rightarrow> (u32 list \<times> nat \<times> nat) res" where
  "up_sweep dev gr items ph d decale temp = (if d = 0 then Inr (temp, decale, ph) else
     bindR (for_each (item_order dev gr ph items) (up_step d decale) temp) (\<lambda>temp.
     up_sweep dev gr items (Suc ph) (d div 2) (decale * 2) temp))"

definition down_step :: "nat \<Rightarrow> nat \<Rightarrow> nat \<Rightarrow> u32 list \<Rightarrow> u32 list res" where
  "down_step d decale it temp = (if it < d then
     (let ai = decale * (2 * it + 1) - 1; bi = decale * (2 * it + 2) - 1 in
      bindR (arr_get temp ai) (\<lambda>t. bindR (arr_get temp bi) (\<lambda>b.
      bindR (arr_set temp ai b) (\<lambda>temp. bindR (arr_get temp bi) (\<lambda>b. arr_set temp bi (b + t))))))
     else Inr temp)"

function down_sweep ::
  "gpu \<Rightarrow> nat \<Rightarrow> nat \<Rightarrow> nat \<Rightarrow> nat \<Rightarrow> nat \<Rightarrow> nat \<Rightarrow> u32 list \<Rightarrow> u32 list res" where
  "down_sweep dev gr items ph n d decale temp = (if d = 0 \<or> n \<le> d then Inr temp else
     bindR (for_each (item_order dev gr ph items) (down_step d (decale div 2)) temp) (\<lambda>temp.
     down_sweep dev gr items (Suc ph) n (d * 2) (decale div 2) temp))"
  by pat_completeness auto
termination
  by (relation "measure (\<lambda>(dev, gr, items, ph, n, d, decale, temp). n - d)") auto

definition scan_store :: "u32 list \<Rightarrow> nat \<Rightarrow> nat \<Rightarrow> nat \<Rightarrow> u32 list \<Rightarrow> u32 list res" where
  "scan_store temp items gr it histo = (
     let ig = gr * items + it in
     bindR (arr_get temp (2 * it)) (\<lambda>a. bindR (arr_set histo (2 * ig) a) (\<lambda>histo.
     bindR (arr_get temp (2 * it + 1)) (\<lambda>b. arr_set histo (2 * ig + 1) b))))"

text \<open>
  Only item 0 runs in the last phase of the up sweep, where \<open>d = 1\<close>, and then stores the sum and
  clears the last cell.
\<close>

definition scan_group ::
  "gpu \<Rightarrow> nat \<Rightarrow> nat \<Rightarrow> nat \<Rightarrow> u32 list \<times> u32 list \<Rightarrow> (u32 list \<times> u32 list) res" where
  "scan_group dev items lsize gr = (\<lambda>(histo, globsum).
     let n = items * 2 in
     bindR (for_each (item_order dev gr 0 items) (scan_load histo items gr)
       (local_init dev gr lsize)) (\<lambda>temp.
     bindR (up_sweep dev gr items 1 (n div 2) 1 temp) (\<lambda>(temp, decale, ph).
     bindR (arr_get temp (n - 1)) (\<lambda>total.
     bindR (arr_set globsum gr total) (\<lambda>globsum.
     bindR (arr_set temp (n - 1) 0) (\<lambda>temp.
     bindR (down_sweep dev gr items ph n 1 decale temp) (\<lambda>temp.
     bindR (for_each (item_order dev gr (Suc (2 * ph)) items) (scan_store temp items gr) histo)
       (\<lambda>histo. Inr (histo, globsum)))))))))"

definition scanhistograms ::
  "gpu \<Rightarrow> nat \<Rightarrow> nat \<Rightarrow> nat \<Rightarrow> u32 list \<times> u32 list \<Rightarrow> (u32 list \<times> u32 list) res" where
  "scanhistograms dev groups items lsize bufs =
     for_each (group_order dev groups) (scan_group dev items lsize) bufs"

section \<open>pastehistograms\<close>

definition paste_item :: "u32 list \<Rightarrow> nat \<Rightarrow> nat \<Rightarrow> nat \<Rightarrow> u32 list \<Rightarrow> u32 list res" where
  "paste_item globsum items gr it histo = (
     let ig = gr * items + it in
     bindR (arr_get globsum gr) (\<lambda>s.
     bindR (arr_get histo (2 * ig)) (\<lambda>a. bindR (arr_set histo (2 * ig) (a + s)) (\<lambda>histo.
     bindR (arr_get histo (2 * ig + 1)) (\<lambda>b. arr_set histo (2 * ig + 1) (b + s))))))"

definition pastehistograms :: "gpu \<Rightarrow> nat \<Rightarrow> nat \<Rightarrow> u32 list \<Rightarrow> u32 list \<Rightarrow> u32 list res" where
  "pastehistograms dev groups items globsum histo =
     for_each (group_order dev groups) (\<lambda>gr.
       for_each (item_order dev gr 0 items) (paste_item globsum items gr)) histo"

declare up_sweep.simps [simp del] down_sweep.simps [simp del]

end
