(* ===== verification/QH_Scan.thy ===== *)
theory QH_Scan
  imports QH_Radix_Kernels
begin

text \<open>
  Correctness of the scan kernels: the up and down sweep of \<open>scanhistograms\<close> leave the exclusive
  prefix sums of a block in local memory, and the two scans followed by \<open>pastehistograms\<close> leave the
  exclusive prefix sums of the whole histogram.
\<close>

section \<open>Cells of a sweep\<close>

definition lcell :: "nat \<Rightarrow> nat \<Rightarrow> nat" where
  "lcell t it = 2 ^ t * (2 * it + 1) - 1"

definition rcell :: "nat \<Rightarrow> nat \<Rightarrow> nat" where
  "rcell t it = 2 ^ t * (2 * it + 2) - 1"

lemma Suc_cells: "Suc (lcell t it) = 2 ^ t * (2 * it + 1)" "Suc (rcell t it) = 2 ^ t * (2 * it + 2)"
  by (simp_all add: lcell_def rcell_def)

lemma rcell_lcell: "rcell t it = lcell t it + 2 ^ t"
proof -
  have "Suc (rcell t it) = Suc (lcell t it + 2 ^ t)"
    unfolding add_Suc [symmetric] Suc_cells by (simp add: algebra_simps)
  then show ?thesis by simp
qed

lemma cells_inj:
  "lcell t i = lcell t j \<longleftrightarrow> i = j" "rcell t i = rcell t j \<longleftrightarrow> i = j" "lcell t i \<noteq> rcell t j"
proof -
  have "Suc (lcell t i) = Suc (lcell t j) \<longleftrightarrow> i = j" "Suc (rcell t i) = Suc (rcell t j) \<longleftrightarrow> i = j"
    unfolding Suc_cells by auto
  moreover have "Suc (lcell t i) \<noteq> Suc (rcell t j)"
  proof -
    have "2 * i + 1 \<noteq> 2 * j + (2::nat)"
      by presburger
    then show ?thesis
      unfolding Suc_cells mult_cancel1 by simp
  qed
  ultimately show "lcell t i = lcell t j \<longleftrightarrow> i = j" "rcell t i = rcell t j \<longleftrightarrow> i = j" "lcell t i \<noteq> rcell t j"
    by simp_all
qed

lemma rcell_less:
  assumes "it < d" and "2 ^ Suc t * d \<le> (n::nat)"
  shows "rcell t it < n"
proof -
  have "Suc (rcell t it) = 2 ^ Suc t * Suc it"
    unfolding Suc_cells by simp
  also have "\<dots> \<le> 2 ^ Suc t * d"
    using assms(1) by (intro mult_le_mono2) simp
  finally show ?thesis using assms(2) by simp
qed

lemma lcell_less: "it < d \<Longrightarrow> 2 ^ Suc t * d \<le> (n::nat) \<Longrightarrow> lcell t it < n"
  using rcell_less [of it d t n] by (simp add: rcell_lcell)

lemma is_rcell:
  assumes "2 ^ Suc t dvd Suc j" and "j < 2 ^ Suc t * d"
  obtains it where "it < d" "j = rcell t it"
proof -
  obtain m where m: "Suc j = 2 ^ Suc t * m"
    using assms(1) by (elim dvdE)
  then obtain it where it: "m = Suc it"
    by (cases m) auto
  have "Suc j = Suc (rcell t it)"
    unfolding m it Suc_cells by simp
  moreover have "it < d"
  proof -
    have "2 ^ Suc t * m \<le> 2 ^ Suc t * d"
      using assms(2) m by linarith
    then have "m \<le> d"
      by (simp only: mult_le_cancel1) simp
    then show ?thesis using it by simp
  qed
  ultimately show ?thesis
    using that by simp
qed

lemma is_lcell:
  assumes "2 ^ t dvd Suc j" and "\<not> 2 ^ Suc t dvd Suc j" and "j < 2 ^ Suc t * d"
  obtains it where "it < d" "j = lcell t it"
proof -
  obtain m where m: "Suc j = 2 ^ t * m"
    using assms(1) by (elim dvdE)
  have "odd m"
    using assms(2) unfolding m by (simp add: mult.commute)
  then obtain it where it: "m = 2 * it + 1"
    by (elim oddE)
  have "Suc j = Suc (lcell t it)"
    unfolding m it Suc_cells ..
  moreover have "it < d"
  proof -
    have "2 ^ t * (2 * it + 1) \<le> 2 ^ t * (2 * d)"
      using assms(3) m it by (simp add: mult.assoc [symmetric] mult.commute [of _ 2])
    then have "2 * it + 1 \<le> 2 * d"
      by (simp only: mult_le_cancel1) simp
    then show ?thesis by simp
  qed
  ultimately show ?thesis
    using that by simp
qed

lemma rcell_dvd: "2 ^ Suc t dvd Suc (rcell t it)" "2 ^ t dvd Suc (rcell t it)"
  unfolding Suc_cells by (simp_all add: algebra_simps)

lemma lcell_dvd: "2 ^ t dvd Suc (lcell t it)" "\<not> 2 ^ Suc t dvd Suc (lcell t it)"
proof -
  show "2 ^ t dvd Suc (lcell t it)"
    unfolding Suc_cells by simp
  have "2 ^ t * 2 dvd 2 ^ t * (2 * it + 1) \<longleftrightarrow> even (2 * it + 1)"
    by (simp only: nat_mult_dvd_cancel_disj) simp
  then show "\<not> 2 ^ Suc t dvd Suc (lcell t it)"
    unfolding Suc_cells power_Suc mult.commute [of 2 "2 ^ t"] by simp
qed

section \<open>One iteration of a sweep\<close>

lemma up_step_cells:
  "up_step d (2 ^ t) it temp = (if it < d then
     bindR (arr_get temp (rcell t it)) (\<lambda>b. bindR (arr_get temp (lcell t it)) (\<lambda>a.
     arr_set temp (rcell t it) (b + a))) else Inr temp)"
  by (simp add: up_step_def lcell_def rcell_def Let_def)

lemma down_step_cells:
  "down_step d (2 ^ t) it temp = (if it < d then
     bindR (arr_get temp (lcell t it)) (\<lambda>t'. bindR (arr_get temp (rcell t it)) (\<lambda>b.
     bindR (arr_set temp (lcell t it) b) (\<lambda>temp. bindR (arr_get temp (rcell t it)) (\<lambda>b.
     arr_set temp (rcell t it) (b + t'))))) else Inr temp)"
  by (simp add: down_step_def lcell_def rcell_def Let_def)

lemma race_free_cells:
  "race_free Is (\<lambda>it. if it < d then {lcell t it, rcell t it} else {})
     (\<lambda>it. if it < d then {lcell t it, rcell t it} else {})"
  using cells_inj(3) [of t] by (auto simp: race_free_def cells_inj dest: sym)

text \<open>
  A phase in which item \<open>it < d\<close> updates its two cells, the left one to \<open>newL\<close> and the right one to
  \<open>newR\<close>, updates the cells whose position is divisible by the distance and keeps all others.
\<close>

lemma sweep_phase:
  assumes fair: "fair_gpu dev" and len: "2 ^ Suc t * d \<le> length temp" and items: "d \<le> items"
    and act: "\<And>it s. it < d \<Longrightarrow> length s = length temp \<Longrightarrow> s ! lcell t it = temp ! lcell t it \<Longrightarrow>
      s ! rcell t it = temp ! rcell t it \<Longrightarrow>
      f it s = Inr (s[lcell t it := newL (lcell t it), rcell t it := newR (rcell t it)])"
    and idle: "\<And>it s. \<not> it < d \<Longrightarrow> f it s = Inr s"
  shows "\<exists>temp'. for_each (item_order dev gr ph items) f temp = Inr temp' \<and> length temp' = length temp \<and>
    (\<forall>j < 2 ^ Suc t * d. temp' ! j =
      (if 2 ^ Suc t dvd Suc j then newR j else if 2 ^ t dvd Suc j then newL j else temp ! j))"
proof -
  define wr where "wr = (\<lambda>it. if it < d then {lcell t it, rcell t it} else {})"
  define new where "new = (\<lambda>it j. if j = rcell t it then newR j else newL j)"
  have "\<exists>s. for_each (item_order dev gr ph items) f temp = Inr s \<and> length s = length temp \<and>
    (\<forall>j < length temp. (\<forall>i \<in> set (item_order dev gr ph items). j \<in> wr i \<longrightarrow> s ! j = new i j) \<and>
      ((\<forall>i \<in> set (item_order dev gr ph items). j \<notin> wr i) \<longrightarrow> s ! j = temp ! j))"
  proof (rule phase_result)
    show "distinct (item_order dev gr ph items)"
      using fair by simp
    show "race_free (set (item_order dev gr ph items)) wr wr"
      unfolding wr_def by (rule race_free_cells)
    fix it s
    assume s: "length s = length temp"
      and same: "\<And>j. j < length temp \<Longrightarrow> j \<in> wr it \<union> wr it \<Longrightarrow> s ! j = temp ! j"
    show "\<exists>t'. f it s = Inr t' \<and> length t' = length temp \<and>
        (\<forall>j < length temp. t' ! j = (if j \<in> wr it then new it j else s ! j))"
    proof (cases "it < d")
      case True
      then have "f it s = Inr (s[lcell t it := newL (lcell t it), rcell t it := newR (rcell t it)])"
        using same lcell_less [OF True len] rcell_less [OF True len]
        by (intro act s) (auto simp: wr_def)
      then show ?thesis
        using True s by (auto simp: wr_def new_def nth_list_update)
    qed (use idle s in \<open>simp add: wr_def\<close>)
  qed
  then obtain s where s: "for_each (item_order dev gr ph items) f temp = Inr s"
    "length s = length temp"
    "\<And>i j. j < length temp \<Longrightarrow> i < items \<Longrightarrow> j \<in> wr i \<Longrightarrow> s ! j = new i j"
    "\<And>j. j < length temp \<Longrightarrow> \<forall>i < items. j \<notin> wr i \<Longrightarrow> s ! j = temp ! j"
    using fair by auto
  have "s ! j = (if 2 ^ Suc t dvd Suc j then newR j else if 2 ^ t dvd Suc j then newL j else temp ! j)"
    if j: "j < 2 ^ Suc t * d" for j
  proof -
    have jl: "j < length temp"
      using j len by simp
    consider (r) "2 ^ Suc t dvd Suc j" | (l) "2 ^ t dvd Suc j" "\<not> 2 ^ Suc t dvd Suc j"
      | (n) "\<not> 2 ^ t dvd Suc j"
      by blast
    then show ?thesis
    proof cases
      case r
      then obtain it where "it < d" "j = rcell t it"
        using j by (rule is_rcell)
      then show ?thesis
        using s(3) [OF jl, of it] r items by (simp add: wr_def new_def)
    next
      case l
      then obtain it where "it < d" "j = lcell t it"
        using j by (rule is_lcell)
      then show ?thesis
        using s(3) [OF jl, of it] l items by (simp add: wr_def new_def cells_inj)
    next
      case n
      then have "\<forall>i < items. j \<notin> wr i"
        using rcell_dvd(2) lcell_dvd(1) by (auto simp: wr_def)
      moreover have "\<not> 2 ^ Suc t dvd Suc j"
        using n by (metis dvd_trans le_imp_power_dvd le_SucI order_refl)
      ultimately show ?thesis
        using s(4) [OF jl] n by simp
    qed
  qed
  then show ?thesis
    using s by blast
qed

lemma up_phase:
  assumes "fair_gpu dev" and len: "2 ^ Suc t * d \<le> length temp" and "d \<le> items"
  shows "\<exists>temp'. for_each (item_order dev gr ph items) (up_step d (2 ^ t)) temp = Inr temp' \<and>
    length temp' = length temp \<and>
    (\<forall>j < 2 ^ Suc t * d. temp' ! j =
      (if 2 ^ Suc t dvd Suc j then temp ! j + temp ! (j - 2 ^ t)
       else if 2 ^ t dvd Suc j then temp ! j else temp ! j))"
proof (rule sweep_phase [OF assms])
  fix it :: nat and s :: "u32 list"
  assume it: "it < d" and s: "length s = length temp" "s ! lcell t it = temp ! lcell t it"
    "s ! rcell t it = temp ! rcell t it"
  then show "up_step d (2 ^ t) it s = Inr (s[lcell t it := temp ! lcell t it,
      rcell t it := temp ! rcell t it + temp ! (rcell t it - 2 ^ t)])"
    using rcell_less [OF it len] lcell_less [OF it len]
      list_update_id [of s "lcell t it"]
    by (simp add: up_step_cells rcell_lcell)
qed (simp add: up_step_cells)

lemma down_phase:
  assumes "fair_gpu dev" and len: "2 ^ Suc t * d \<le> length temp" and "d \<le> items"
  shows "\<exists>temp'. for_each (item_order dev gr ph items) (down_step d (2 ^ t)) temp = Inr temp' \<and>
    length temp' = length temp \<and>
    (\<forall>j < 2 ^ Suc t * d. temp' ! j =
      (if 2 ^ Suc t dvd Suc j then temp ! j + temp ! (j - 2 ^ t)
       else if 2 ^ t dvd Suc j then temp ! (j + 2 ^ t) else temp ! j))"
proof (rule sweep_phase [OF assms])
  fix it :: nat and s :: "u32 list"
  assume it: "it < d" and s: "length s = length temp" "s ! lcell t it = temp ! lcell t it"
    "s ! rcell t it = temp ! rcell t it"
  then show "down_step d (2 ^ t) it s = Inr (s[lcell t it := temp ! (lcell t it + 2 ^ t),
      rcell t it := temp ! rcell t it + temp ! (rcell t it - 2 ^ t)])"
    using rcell_less [OF it len] lcell_less [OF it len]
    by (simp add: down_step_cells rcell_lcell nth_list_update)
qed (simp add: down_step_cells)

section \<open>The sweeps\<close>

text \<open>The cells after \<open>t\<close> iterations of the up sweep over the values \<open>f\<close>.\<close>

fun up_val :: "(nat \<Rightarrow> u32) \<Rightarrow> nat \<Rightarrow> nat \<Rightarrow> u32" where
  "up_val f 0 j = f j"
| "up_val f (Suc t) j =
     (if 2 ^ Suc t dvd Suc j then up_val f t j + up_val f t (j - 2 ^ t) else up_val f t j)"

lemma up_sweep_result:
  assumes "fair_gpu dev" and "Suc (e + t) = k" and "2 ^ e \<le> items" and "2 ^ k \<le> length temp"
    and "\<And>j. j < 2 ^ k \<Longrightarrow> temp ! j = up_val f t j"
  shows "\<exists>temp'. up_sweep dev gr items ph (2 ^ e) (2 ^ t) temp = Inr (temp', 2 ^ k, ph + Suc e) \<and>
    length temp' = length temp \<and> (\<forall>j < 2 ^ k. temp' ! j = up_val f k j)"
  using assms(2-)
proof (induction e arbitrary: t ph temp)
  have size: "2 ^ Suc t * 2 ^ e = (2::nat) ^ k" if "Suc (e + t) = k" for e t
    using that by (simp flip: power_add power_Suc)
  have step: "\<exists>temp'. for_each (item_order dev gr ph items) (up_step (2 ^ e) (2 ^ t)) temp = Inr temp' \<and>
      length temp' = length temp \<and> (\<forall>j < 2 ^ k. temp' ! j = up_val f (Suc t) j)"
    if "Suc (e + t) = k" "2 ^ e \<le> items" "2 ^ k \<le> length temp"
      "\<And>j. j < 2 ^ k \<Longrightarrow> temp ! j = up_val f t j" for e t ph temp
    using up_phase [OF assms(1), of t "2 ^ e" temp items gr ph] that
    unfolding size [OF that(1)] by fastforce
  {
    case 0
    then obtain temp' where "for_each (item_order dev gr ph items) (up_step (2 ^ 0) (2 ^ t)) temp = Inr temp'"
      "length temp' = length temp" "\<forall>j < 2 ^ k. temp' ! j = up_val f (Suc t) j"
      using step [of 0 t temp ph] by blast
    then show ?case
      using 0(1) by (auto simp: up_sweep.simps [of _ _ _ _ "Suc 0"] up_sweep.simps [of _ _ _ _ 0])
  next
    case (Suc e)
    then obtain s where s: "for_each (item_order dev gr ph items) (up_step (2 ^ Suc e) (2 ^ t)) temp = Inr s"
      "length s = length temp" "\<And>j. j < 2 ^ k \<Longrightarrow> s ! j = up_val f (Suc t) j"
      using step [of "Suc e" t temp ph] by blast
    have "\<exists>temp'. up_sweep dev gr items (Suc ph) (2 ^ e) (2 ^ Suc t) s = Inr (temp', 2 ^ k, Suc ph + Suc e) \<and>
      length temp' = length s \<and> (\<forall>j < 2 ^ k. temp' ! j = up_val f k j)"
      by (rule Suc.IH) (use Suc.prems s in auto)
    then show ?case
      using s by (simp add: up_sweep.simps [of _ _ _ _ "2 * 2 ^ e"] mult.commute)
  }
qed

lemma up_val_block: "2 ^ t dvd Suc j \<Longrightarrow> up_val f t j = (\<Sum>i \<in> {Suc j - 2 ^ t..<Suc j}. f i)"
proof (induction t arbitrary: j)
  case (Suc t)
  have ge: "2 ^ Suc t \<le> Suc j"
    using Suc.prems by (intro dvd_imp_le) simp_all
  have d: "2 ^ t dvd Suc j"
    using Suc.prems by (metis dvd_mult_right power_Suc)
  have e: "Suc (j - 2 ^ t) = Suc j - 2 ^ t" "Suc (j - 2 ^ t) - 2 ^ t = Suc j - 2 ^ Suc t"
    using ge by (simp_all add: Suc_diff_le)
  have "2 ^ t dvd Suc (j - 2 ^ t)"
    unfolding e(1) using d by (intro dvd_diff_nat) simp_all
  then have "up_val f (Suc t) j = (\<Sum>i \<in> {Suc j - 2 ^ t..<Suc j}. f i) +
      (\<Sum>i \<in> {Suc j - 2 ^ Suc t..<Suc j - 2 ^ t}. f i)"
    using Suc.IH [OF d] Suc.IH [of "j - 2 ^ t", unfolded e(2), unfolded e(1)] Suc.prems e(1)
    by (simp only: up_val.simps if_True)
  also have "\<dots> = (\<Sum>i \<in> {Suc j - 2 ^ Suc t..<Suc j}. f i)"
    by (subst add.commute) (rule sum.atLeastLessThan_concat, use ge in auto)
  finally show ?case .
qed simp

lemma up_val_stable:
  assumes "\<not> 2 ^ Suc t dvd Suc j" and "t \<le> u"
  shows "up_val f u j = up_val f t j"
  using assms(2)
proof (induction u rule: dec_induct)
  case (step u)
  have "\<not> 2 ^ Suc u dvd Suc j"
    using assms(1) step.hyps by (meson Suc_le_mono dvd_trans le_imp_power_dvd)
  then show ?case
    using step.IH by simp
qed simp

text \<open>The cells when the down sweep has reached the distance \<open>2 ^ t\<close>.\<close>

definition down_val :: "(nat \<Rightarrow> u32) \<Rightarrow> nat \<Rightarrow> nat \<Rightarrow> nat \<Rightarrow> u32" where
  "down_val f k t j = (if 2 ^ t dvd Suc j then (\<Sum>i < Suc j - 2 ^ t. f i) else up_val f k j)"

lemma down_val_step:
  assumes "Suc t \<le> k"
  shows "down_val f k t j =
    (if 2 ^ Suc t dvd Suc j then down_val f k (Suc t) j + down_val f k (Suc t) (j - 2 ^ t)
     else if 2 ^ t dvd Suc j then down_val f k (Suc t) (j + 2 ^ t)
     else down_val f k (Suc t) j)"
proof -
  consider (r) "2 ^ Suc t dvd Suc j" | (l) "2 ^ t dvd Suc j" "\<not> 2 ^ Suc t dvd Suc j"
      | (n) "\<not> 2 ^ t dvd Suc j"
    by blast
  then show ?thesis
  proof cases
    case r
    have ge: "2 ^ Suc t \<le> Suc j"
      using r by (intro dvd_imp_le) simp_all
    have d: "2 ^ t dvd Suc j"
      using r by (metis dvd_mult_right power_Suc)
    have e: "Suc (j - 2 ^ t) = Suc j - 2 ^ t" "Suc (j - 2 ^ t) - 2 ^ t = Suc j - 2 ^ Suc t"
      using ge by (simp_all add: Suc_diff_le)
    have dt: "2 ^ t dvd Suc (j - 2 ^ t)"
      unfolding e(1) using d by (intro dvd_diff_nat) simp_all
    have nd: "\<not> 2 ^ Suc t dvd Suc (j - 2 ^ t)"
    proof
      assume "2 ^ Suc t dvd Suc (j - 2 ^ t)"
      then have "2 ^ Suc t dvd Suc j - Suc (j - 2 ^ t)"
        using r by (intro dvd_diff_nat)
      moreover have "Suc j - Suc (j - 2 ^ t) = 2 ^ t"
        using ge by simp
      ultimately show False
        by (simp add: power_dvd_imp_le)
    qed
    have "down_val f k (Suc t) (j - 2 ^ t) = (\<Sum>i \<in> {Suc j - 2 ^ Suc t..<Suc j - 2 ^ t}. f i)"
      using nd assms up_val_stable [OF nd, of k f] up_val_block [OF dt, of f, unfolded e(2), unfolded e(1)]
      by (simp only: down_val_def if_False)
    then show ?thesis
      using r d ge sum.atLeastLessThan_concat [of 0 "Suc j - 2 ^ Suc t" "Suc j - 2 ^ t" f]
      by (simp add: down_val_def lessThan_atLeast0)
  next
    case l
    obtain m where m: "Suc j = 2 ^ t * m"
      using l(1) by (elim dvdE)
    have "odd m"
      using l(2) unfolding m by (simp add: mult.commute)
    then have "2 ^ Suc t dvd Suc (j + 2 ^ t)"
      unfolding add_Suc [symmetric] m by (elim oddE) (simp add: algebra_simps)
    then show ?thesis
      using l by (simp add: down_val_def)
  next
    case n
    then have "\<not> 2 ^ Suc t dvd Suc j"
      by (metis dvd_mult_right power_Suc)
    then show ?thesis
      using n by (simp add: down_val_def)
  qed
qed

lemma down_sweep_result:
  assumes "fair_gpu dev" and "t \<le> k" and "2 ^ k \<le> items * 2" and "2 ^ k \<le> length temp"
    and "\<And>j. j < 2 ^ k \<Longrightarrow> temp ! j = down_val f k t j"
  shows "\<exists>temp'. down_sweep dev gr items ph (2 ^ k) (2 ^ (k - t)) (2 ^ t) temp = Inr temp' \<and>
    length temp' = length temp \<and> (\<forall>j < 2 ^ k. temp' ! j = (\<Sum>i<j. f i))"
  using assms(2-)
proof (induction t arbitrary: ph temp)
  case 0
  then show ?case
    by (simp add: down_sweep.simps [of _ _ _ _ _ "2 ^ k"] down_val_def)
next
  case (Suc t)
  have size: "2 ^ Suc t * 2 ^ (k - Suc t) = (2::nat) ^ k"
    using Suc.prems(1) by (simp flip: power_add power_Suc)
  have "2 ^ (k - Suc t) * 2 \<le> (2::nat) ^ k"
    unfolding size [symmetric] by simp
  then have items: "2 ^ (k - Suc t) \<le> items"
    using Suc.prems(2) by linarith
  obtain s where s: "for_each (item_order dev gr ph items) (down_step (2 ^ (k - Suc t)) (2 ^ t)) temp = Inr s"
    "length s = length temp" "\<And>j. j < 2 ^ k \<Longrightarrow> s ! j =
      (if 2 ^ Suc t dvd Suc j then temp ! j + temp ! (j - 2 ^ t)
       else if 2 ^ t dvd Suc j then temp ! (j + 2 ^ t) else temp ! j)"
    using down_phase [OF assms(1), of t "2 ^ (k - Suc t)" temp items gr ph] items Suc.prems(3)
    unfolding size by blast
  have val: "s ! j = down_val f k t j" if "j < 2 ^ k" for j
  proof -
    have "j + 2 ^ t < 2 ^ k" if l: "2 ^ t dvd Suc j" "\<not> 2 ^ Suc t dvd Suc j"
    proof -
      obtain it where "it < 2 ^ (k - Suc t)" "j = lcell t it"
        by (rule is_lcell [OF l, of "2 ^ (k - Suc t)"]) (use \<open>j < 2 ^ k\<close> size in simp_all)
      then show ?thesis
        using rcell_less [of it "2 ^ (k - Suc t)" t "2 ^ k"] size by (simp add: rcell_lcell)
    qed
    then show ?thesis
      using s(3) [OF that] that Suc.prems(4) down_val_step [OF Suc.prems(1), of f j] by simp
  qed
  have "\<exists>temp'. down_sweep dev gr items (Suc ph) (2 ^ k) (2 ^ (k - t)) (2 ^ t) s = Inr temp' \<and>
    length temp' = length s \<and> (\<forall>j < 2 ^ k. temp' ! j = (\<Sum>i<j. f i))"
    by (rule Suc.IH) (use Suc.prems s(2) val in auto)
  moreover have "2 ^ (k - Suc t) * 2 = (2::nat) ^ (k - t)" "\<not> (2::nat) ^ k \<le> 2 ^ (k - Suc t)"
    using Suc.prems(1) by (simp_all add: Suc_diff_Suc flip: power_Suc2)
  ultimately show ?case
    using s(1,2) by (simp add: down_sweep.simps [of _ _ _ _ _ "2 ^ (k - Suc t)"])
qed

section \<open>scanhistograms\<close>

text \<open>Two cells per item: the cells of item \<open>it\<close> of group \<open>gr\<close>.\<close>

definition two_cells :: "nat \<Rightarrow> nat \<Rightarrow> nat \<Rightarrow> nat set" where
  "two_cells items gr it = {2 * (gr * items + it), 2 * (gr * items + it) + 1}"

lemma two_cells_div: "j \<in> two_cells items gr it \<Longrightarrow> j div 2 = gr * items + it"
  by (auto simp: two_cells_def)

lemma two_cells_iff: "it < items \<Longrightarrow> j \<in> two_cells items gr it \<longleftrightarrow> j div (items * 2) = gr \<and> j div 2 mod items = it"
proof -
  assume it: "it < items"
  have "j \<in> two_cells items gr it \<longleftrightarrow> j div 2 = gr * items + it"
    by (auto simp: two_cells_def)
  also have "\<dots> \<longleftrightarrow> j div 2 div items = gr \<and> j div 2 mod items = it"
    using it by (auto simp: div_mult_mod_eq)
  also have "j div 2 div items = j div (items * 2)"
    by (metis div_mult2_eq mult.commute)
  finally show ?thesis .
qed

lemma race_free_two_cells: "race_free Is (two_cells items gr) (\<lambda>it. {})"
  by (auto simp: race_free_def dest!: two_cells_div)

lemma two_cells_less:
  assumes "it < items" and "gr < groups" and "groups * (items * 2) \<le> n" and "j \<in> two_cells items gr it"
  shows "j < n"
proof -
  have "j div (items * 2) = gr"
    using two_cells_iff [OF assms(1)] assms(4) by simp
  then have "j < groups * (items * 2)"
    using assms(1,2) div_less_iff_less_mult [of "items * 2" j groups] by simp
  then show ?thesis
    using assms(3) by simp
qed

text \<open>A phase in which every item writes its two cells, of any group.\<close>

lemma two_cells_phase:
  assumes fair: "fair_gpu dev" and pos: "0 < items" and len: "Suc gr * (items * 2) \<le> length s"
    and f: "\<And>it t. it < items \<Longrightarrow> length t = length s \<Longrightarrow>
      (\<And>j. j \<in> two_cells items gr it \<Longrightarrow> t ! j = s ! j) \<Longrightarrow>
      f it t = Inr (t[2 * (gr * items + it) := v (2 * (gr * items + it)),
                      2 * (gr * items + it) + 1 := v (2 * (gr * items + it) + 1)])"
  shows "\<exists>t. for_each (item_order dev g ph items) f s = Inr t \<and> length t = length s \<and>
    (\<forall>j < length s. t ! j = (if j div (items * 2) = gr then v j else s ! j))"
proof -
  have "\<exists>t. for_each (item_order dev g ph items) f s = Inr t \<and> length t = length s \<and>
    (\<forall>j < length s. (\<forall>i \<in> set (item_order dev g ph items). j \<in> two_cells items gr i \<longrightarrow> t ! j = v j) \<and>
      ((\<forall>i \<in> set (item_order dev g ph items). j \<notin> two_cells items gr i) \<longrightarrow> t ! j = s ! j))"
  proof (rule phase_result)
    show "distinct (item_order dev g ph items)"
      using fair by simp
    show "race_free (set (item_order dev g ph items)) (two_cells items gr) (\<lambda>it. {})"
      by (rule race_free_two_cells)
    fix it t
    assume it: "it \<in> set (item_order dev g ph items)" and t: "length t = length s"
      and same: "\<And>j. j < length s \<Longrightarrow> j \<in> {} \<union> two_cells items gr it \<Longrightarrow> t ! j = s ! j"
    have it': "it < items"
      using it fair by simp
    have "f it t = Inr (t[2 * (gr * items + it) := v (2 * (gr * items + it)),
                      2 * (gr * items + it) + 1 := v (2 * (gr * items + it) + 1)])"
      by (rule f [OF it' t]) (use same two_cells_less [OF it' lessI len] in auto)
    then show "\<exists>t'. f it t = Inr t' \<and> length t' = length s \<and>
        (\<forall>j < length s. t' ! j = (if j \<in> two_cells items gr it then v j else t ! j))"
      using t by (auto simp: two_cells_def nth_list_update)
  qed
  then obtain t where t: "for_each (item_order dev g ph items) f s = Inr t" "length t = length s"
    and w: "\<forall>j < length s. (\<forall>i < items. j \<in> two_cells items gr i \<longrightarrow> t ! j = v j) \<and>
      ((\<forall>i < items. j \<notin> two_cells items gr i) \<longrightarrow> t ! j = s ! j)"
    using fair by (auto simp: lessThan_iff Ball_def)
  have "t ! j = (if j div (items * 2) = gr then v j else s ! j)" if j: "j < length s" for j
  proof -
    have "j div 2 mod items < items"
      using pos by simp
    then show ?thesis
      using w [rule_format, OF j] by (auto simp: two_cells_iff)
  qed
  then show ?thesis
    using t by blast
qed

text \<open>One group replaces its block by the exclusive prefix sums and stores the sum of the block.\<close>

lemma scan_group_result:
  assumes fair: "fair_gpu dev" and items: "items = 2 ^ e" and lsize: "items * 2 \<le> lsize"
    and len: "Suc gr * (items * 2) \<le> length histo" and gr: "gr < length globsum"
  shows "\<exists>histo'. scan_group dev items lsize gr (histo, globsum) =
      Inr (histo', globsum[gr := (\<Sum>i < items * 2. histo ! (gr * (items * 2) + i))]) \<and>
    length histo' = length histo \<and>
    (\<forall>j < length histo. histo' ! j = (if j div (items * 2) = gr
      then (\<Sum>i < j mod (items * 2). histo ! (gr * (items * 2) + i)) else histo ! j))"
proof -
  define f where "f = (\<lambda>i. histo ! (gr * (items * 2) + i))"
  have n: "items * 2 = 2 ^ Suc e" and pos: "0 < items"
    using items by simp_all
  have "\<exists>t. for_each (item_order dev gr 0 items) (scan_load histo items gr) (local_init dev gr lsize) = Inr t \<and>
      length t = length (local_init dev gr lsize) \<and>
      (\<forall>j < length (local_init dev gr lsize). t ! j =
        (if j div (items * 2) = 0 then f j else local_init dev gr lsize ! j))"
  proof (rule two_cells_phase [OF fair pos])
    show "Suc 0 * (items * 2) \<le> length (local_init dev gr lsize)"
      using fair lsize by simp
    fix it and t :: "u32 list"
    assume it: "it < items" and t: "length t = length (local_init dev gr lsize)"
    have "2 * (gr * items + it) + 1 < length histo"
      by (rule two_cells_less [OF it lessI len]) (simp add: two_cells_def)
    then show "scan_load histo items gr it t = Inr (t[2 * (0 * items + it) := f (2 * (0 * items + it)),
                      2 * (0 * items + it) + 1 := f (2 * (0 * items + it) + 1)])"
      using it t lsize fair by (simp add: scan_load_def Let_def f_def algebra_simps)
  qed
  then obtain t0 where t0: "for_each (item_order dev gr 0 items) (scan_load histo items gr)
      (local_init dev gr lsize) = Inr t0" "length t0 = lsize"
    "\<And>j. j < 2 ^ Suc e \<Longrightarrow> t0 ! j = f j"
    using fair lsize n by (auto simp: div_eq_0_iff)
  obtain t1 where t1: "up_sweep dev gr items 1 (2 ^ e) (2 ^ 0) t0 = Inr (t1, 2 ^ Suc e, 1 + Suc e)"
    "length t1 = length t0" "\<forall>j < 2 ^ Suc e. t1 ! j = up_val f (Suc e) j"
    using up_sweep_result [OF fair, of e 0 "Suc e" items t0 f gr 1] t0 items lsize n by auto
  have last: "t1 ! (2 ^ Suc e - 1) = (\<Sum>i < 2 ^ Suc e. f i)"
    using t1(3) up_val_block [of "Suc e" "2 ^ Suc e - 1" f] by (simp add: lessThan_atLeast0)
  have cell: "2 ^ Suc e - 1 < length t1"
    using lsize pos t0(2) t1(2) unfolding n [symmetric] by linarith
  define t2 where "t2 = t1[2 ^ Suc e - 1 := 0]"
  have dv: "t2 ! j = down_val f (Suc e) (Suc e) j" if "j < 2 ^ Suc e" for j
  proof (cases "j = 2 ^ Suc e - 1")
    case False
    then have "\<not> 2 ^ Suc e dvd Suc j"
      using that by (auto dest!: dvd_imp_le)
    then show ?thesis
      using False t1(3) that by (simp add: t2_def down_val_def)
  qed (use cell in \<open>simp add: t2_def down_val_def\<close>)
  obtain t3 where t3: "down_sweep dev gr items (1 + Suc e) (2 ^ Suc e) 1 (2 ^ Suc e) t2 = Inr t3"
    "length t3 = length t2" "\<forall>j < 2 ^ Suc e. t3 ! j = (\<Sum>i<j. f i)"
    using down_sweep_result [OF fair le_refl, of "Suc e" items t2 f gr "1 + Suc e"] dv n t0 t1 lsize
    by (auto simp: t2_def)
  have "\<exists>h. for_each (item_order dev gr (Suc (2 * (1 + Suc e))) items) (scan_store t3 items gr) histo = Inr h \<and>
      length h = length histo \<and> (\<forall>j < length histo. h ! j =
        (if j div (items * 2) = gr then \<Sum>i < j mod (items * 2). f i else histo ! j))"
  proof (rule two_cells_phase [OF fair pos len])
    fix it and h :: "u32 list"
    assume it: "it < items" and h: "length h = length histo"
    have m: "2 * (gr * items + it) mod (items * 2) = 2 * it"
      "(2 * (gr * items + it) + 1) mod (items * 2) = 2 * it + 1"
      using it mod_mult_self3 [of gr "items * 2" "2 * it"] mod_mult_self3 [of gr "items * 2" "2 * it + 1"]
      by (simp_all add: algebra_simps)
    have "2 * (gr * items + it) + 1 < length histo"
      by (rule two_cells_less [OF it lessI len]) (simp add: two_cells_def)
    moreover have "2 * it + 1 < 2 ^ Suc e" "2 * it + 1 < length t3"
      using it n t0 t1 t3 lsize by (simp_all add: t2_def)
    ultimately show "scan_store t3 items gr it h = Inr (h[2 * (gr * items + it) :=
        \<Sum>i < 2 * (gr * items + it) mod (items * 2). f i,
      2 * (gr * items + it) + 1 := \<Sum>i < (2 * (gr * items + it) + 1) mod (items * 2). f i])"
      using h t3(3) unfolding m by (simp add: scan_store_def Let_def)
  qed
  then obtain h where h: "for_each (item_order dev gr (Suc (2 * (1 + Suc e))) items) (scan_store t3 items gr) histo = Inr h"
    "length h = length histo" "\<forall>j < length histo. h ! j =
        (if j div (items * 2) = gr then \<Sum>i < j mod (items * 2). f i else histo ! j)"
    by blast
  have "scan_group dev items lsize gr (histo, globsum) = Inr (h, globsum[gr := \<Sum>i < items * 2. f i])"
    using t0(1,2) t1(1,2) t3(1) h(1) last gr lsize items cell
    by (simp add: scan_group_def Let_def t2_def mult.commute)
  then show ?thesis
    using h unfolding f_def by blast
qed

text \<open>The exclusive prefix sums within blocks of \<open>n\<close> cells, and the sums of the blocks.\<close>

definition block_scan :: "nat \<Rightarrow> u32 list \<Rightarrow> u32 list" where
  "block_scan n h = map (\<lambda>j. \<Sum>i \<in> {j div n * n..<j}. h ! i) [0..<length h]"

definition block_sums :: "nat \<Rightarrow> u32 list \<Rightarrow> nat \<Rightarrow> u32" where
  "block_sums n h g = (\<Sum>i \<in> {g * n..<Suc g * n}. h ! i)"

definition prefix_sums :: "u32 list \<Rightarrow> u32 list" where
  "prefix_sums h = map (\<lambda>j. \<Sum>i<j. h ! i) [0..<length h]"

lemma sum_from: "(\<Sum>i<m. f (a + i)) = (\<Sum>i \<in> {a..<a + m}. f (i::nat))"
  using sum.shift_bounds_nat_ivl [of f 0 a m] by (simp add: lessThan_atLeast0 add.commute)

theorem scanhistograms_result:
  assumes fair: "fair_gpu dev" and items: "items = 2 ^ e" and lsize: "items * 2 \<le> lsize"
    and len: "length histo = groups * (items * 2)" and gl: "groups \<le> length globsum"
  shows "scanhistograms dev groups items lsize (histo, globsum) =
    Inr (block_scan (items * 2) histo,
         map (\<lambda>g. if g < groups then block_sums (items * 2) histo g else globsum ! g) [0..<length globsum])"
proof -
  let ?n = "items * 2"
  define v where "v j = (\<Sum>i \<in> {j div ?n * ?n..<j}. histo ! i)" for j
  define Inv where "Inv D st = (case st of (h, gs) \<Rightarrow>
    length h = length histo \<and> length gs = length globsum \<and>
    (\<forall>j < length histo. h ! j = (if j div ?n \<in> D then v j else histo ! j)) \<and>
    (\<forall>g < length globsum. gs ! g = (if g \<in> D then block_sums ?n histo g else globsum ! g)))" for D st
  have "\<exists>st. for_each (group_order dev groups) (scan_group dev items lsize) (histo, globsum) = Inr st \<and>
      Inv (set (group_order dev groups)) st"
  proof (rule for_each_invariant)
    show "distinct (group_order dev groups)"
      using fair by simp
    show "Inv {} (histo, globsum)"
      by (simp add: Inv_def)
    fix gr D st
    assume gr: "gr \<in> set (group_order dev groups)" "gr \<notin> D" and "Inv D st"
    then obtain h gs where st: "st = (h, gs)" and lh: "length h = length histo"
      and lg: "length gs = length globsum"
      and hv: "\<And>j. j < length histo \<Longrightarrow> h ! j = (if j div ?n \<in> D then v j else histo ! j)"
      and gv: "\<And>g. g < length globsum \<Longrightarrow> gs ! g = (if g \<in> D then block_sums ?n histo g else globsum ! g)"
      by (auto simp: Inv_def split: prod.splits)
    have gr': "gr < groups"
      using gr fair by simp
    then have top: "Suc gr * ?n \<le> length histo"
      unfolding len by (intro mult_le_mono1) simp
    have old: "h ! (gr * ?n + i) = histo ! (gr * ?n + i)" if "i < ?n" for i
    proof -
      have "(gr * ?n + i) div ?n = gr" "gr * ?n + i < length histo"
        using that top by (auto simp: div_mult_self3)
      then show ?thesis
        using hv gr(2) by simp
    qed
    have gi: "gr < length gs"
      using gr' gl lg by simp
    obtain h' where h': "scan_group dev items lsize gr (h, gs) =
        Inr (h', gs[gr := (\<Sum>i < ?n. h ! (gr * ?n + i))])" "length h' = length h"
      "\<And>j. j < length h \<Longrightarrow> h' ! j = (if j div ?n = gr then (\<Sum>i < j mod ?n. h ! (gr * ?n + i)) else h ! j)"
      using scan_group_result [OF fair items lsize, of gr h gs] top lh gi by auto
    have "(\<Sum>i < ?n. h ! (gr * ?n + i)) = block_sums ?n histo gr"
      using old sum_from [of "\<lambda>i. histo ! i" "gr * ?n" ?n] by (simp add: block_sums_def add.commute)
    moreover have "h' ! j = v j" if "j < length histo" "j div ?n = gr" for j
    proof -
      have "j mod ?n < ?n" "gr * ?n + j mod ?n = j"
        using items that(2) div_mult_mod_eq [of j ?n] by simp_all
      then have "(\<Sum>i < j mod ?n. h ! (gr * ?n + i)) = v j"
        using old sum_from [of "\<lambda>i. histo ! i" "gr * ?n" "j mod ?n"] that(2) by (simp add: v_def)
      then show ?thesis
        using h'(3) [of j] that lh by simp
    qed
    ultimately have "Inv (insert gr D) (h', gs[gr := (\<Sum>i < ?n. h ! (gr * ?n + i))])"
      using h'(2,3) lh lg hv gv gi by (auto simp: Inv_def nth_list_update)
    then show "\<exists>s'. scan_group dev items lsize gr st = Inr s' \<and> Inv (insert gr D) s'"
      using h'(1) st by blast
  qed
  then obtain h gs where r: "scanhistograms dev groups items lsize (histo, globsum) = Inr (h, gs)"
    and i: "Inv {..<groups} (h, gs)"
    using fair by (auto simp: scanhistograms_def)
  have "j div ?n < groups" if "j < length histo" for j
    using that len by (simp add: less_mult_imp_div_less)
  then have "h = block_scan ?n histo"
    using i unfolding block_scan_def Inv_def v_def by (intro map_upt_eqI) auto
  moreover have "gs = map (\<lambda>g. if g < groups then block_sums ?n histo g else globsum ! g) [0..<length globsum]"
    using i unfolding Inv_def by (intro map_upt_eqI) auto
  ultimately show ?thesis
    using r by simp
qed

section \<open>pastehistograms\<close>

lemma pastehistograms_result:
  assumes fair: "fair_gpu dev" and pos: "0 < items"
    and len: "length histo = groups * (items * 2)" and gl: "groups \<le> length globsum"
  shows "pastehistograms dev groups items globsum histo =
    Inr (map (\<lambda>j. histo ! j + globsum ! (j div (items * 2))) [0..<length histo])"
proof -
  let ?n = "items * 2"
  have "for_each (group_order dev groups)
      (\<lambda>gr. for_each (item_order dev gr 0 items) (paste_item globsum items gr)) histo =
      Inr (map (\<lambda>j. histo ! j + globsum ! (j div ?n)) [0..<length histo])"
  proof (rule phase_fills [where wr = "\<lambda>gr. {j. j div ?n = gr}" and rd = "\<lambda>gr. {}"
        and new = "\<lambda>gr j. histo ! j + globsum ! (j div ?n)"])
    show "distinct (group_order dev groups)"
      using fair by simp
    show "race_free (set (group_order dev groups)) (\<lambda>gr. {j. j div ?n = gr}) (\<lambda>gr. {})"
      by (auto simp: race_free_def)
    show "\<exists>gr \<in> set (group_order dev groups). j \<in> {j. j div ?n = gr}" if "j < length histo" for j
      using that len fair by (simp add: less_mult_imp_div_less)
    fix gr t
    assume "gr \<in> set (group_order dev groups)" and t: "length t = length histo"
      and same: "\<And>j. j < length histo \<Longrightarrow> j \<in> {} \<union> {j. j div ?n = gr} \<Longrightarrow> t ! j = histo ! j"
    then have gr: "gr < groups"
      using fair by simp
    then have top: "Suc gr * ?n \<le> length t"
      unfolding t len by (intro mult_le_mono1) simp
    have "\<exists>t'. for_each (item_order dev gr 0 items) (paste_item globsum items gr) t = Inr t' \<and>
      length t' = length t \<and> (\<forall>j < length t. t' ! j = (if j div ?n = gr then t ! j + globsum ! gr else t ! j))"
    proof (rule two_cells_phase [OF fair pos top])
      fix it u
      assume it: "it < items" and u: "length u = length t"
        and us: "\<And>j. j \<in> two_cells items gr it \<Longrightarrow> u ! j = t ! j"
      have "2 * (gr * items + it) + 1 < length t"
        by (rule two_cells_less [OF it lessI top]) (simp add: two_cells_def)
      then show "paste_item globsum items gr it u =
          Inr (u[2 * (gr * items + it) := t ! (2 * (gr * items + it)) + globsum ! gr,
            2 * (gr * items + it) + 1 := t ! (2 * (gr * items + it) + 1) + globsum ! gr])"
        using u us gr gl by (simp add: paste_item_def Let_def two_cells_def)
    qed
    then show "\<exists>t'. for_each (item_order dev gr 0 items) (paste_item globsum items gr) t = Inr t' \<and>
        length t' = length histo \<and> (\<forall>j < length histo. t' ! j =
          (if j \<in> {j. j div ?n = gr} then histo ! j + globsum ! (j div ?n) else t ! j))"
      using same t by auto
  qed simp
  then show ?thesis
    by (simp add: pastehistograms_def)
qed

text \<open>
  Scan of the blocks, scan of the sums of the blocks and paste together: the exclusive prefix sums
  of the whole histogram.
\<close>

lemma sum_of_blocks: "(\<Sum>g<m. block_sums n h g) = (\<Sum>i < m * n. h ! i)"
proof (induction m)
  case (Suc m)
  have "(\<Sum>i < m * n. h ! i) + (\<Sum>i \<in> {m * n..<Suc m * n}. h ! i) = (\<Sum>i < Suc m * n. h ! i)"
    unfolding lessThan_atLeast0 by (rule sum.atLeastLessThan_concat) simp_all
  then show ?case
    using Suc by (simp add: block_sums_def)
qed simp

lemma prefix_sums_by_blocks:
  assumes "j < length h"
  shows "block_scan n h ! j + (\<Sum>g < j div n. block_sums n h g) = prefix_sums h ! j"
proof -
  have "(\<Sum>i < j div n * n. h ! i) + (\<Sum>i \<in> {j div n * n..<j}. h ! i) = (\<Sum>i<j. h ! i)"
    unfolding lessThan_atLeast0 by (rule sum.atLeastLessThan_concat) simp_all
  then show ?thesis
    using assms by (simp add: block_scan_def prefix_sums_def sum_of_blocks add.commute)
qed

lemma length_scans [simp]:
  "length (block_scan n h) = length h" "length (prefix_sums h) = length h"
  by (simp_all add: block_scan_def prefix_sums_def)

end
