(* ===== verification/QH_Radix_Pass.thy ===== *)
theory QH_Radix_Pass
  imports QH_Scan "HOL-Library.Multiset"
begin

text \<open>
  Correctness of one pass of the radix sort: \<open>histogram\<close> counts the digits of every chunk of keys,
  the scan turns the counts into the first position of every digit of every chunk, and \<open>reorder\<close>
  moves keys and permutation to the positions of the stable sort by the digit of the pass.
\<close>

unbundle bit_operations_syntax

section \<open>Digits\<close>

lemma shortkey_less: "shortkey pass key < RADIX"
proof -
  have "of_nat RADIX - 1 = (mask 5 :: u32)"
    by (simp add: param_defs mask_eq_exp_minus_1)
  then have "shortkey pass key = unat (take_bit 5 (signed_drop_bit (pass * BITS) key))"
    by (simp add: shortkey_def take_bit_eq_mask)
  also have "\<dots> < 2 ^ 5"
    unfolding unsigned_take_bit_eq by (rule take_bit_nat_less_exp)
  finally show ?thesis
    by (simp add: param_defs)
qed

lemma shortkey_eq:
  assumes "pass < PASS"
  shows "shortkey pass key = unat key div 2 ^ (pass * BITS) mod RADIX"
proof -
  have p: "pass * BITS \<le> 20"
    using assms by (simp add: param_defs)
  have "take_bit 5 (signed_drop_bit (pass * BITS) key) = take_bit 5 (drop_bit (pass * BITS) key)"
  proof (rule bit_eqI)
    fix i
    show "bit (take_bit 5 (signed_drop_bit (pass * BITS) key)) i = bit (take_bit 5 (drop_bit (pass * BITS) key)) i"
      using p by (auto simp: bit_take_bit_iff bit_signed_drop_bit_iff bit_drop_bit_eq)
  qed
  moreover have "of_nat RADIX - 1 = (mask 5 :: u32)"
    by (simp add: param_defs mask_eq_exp_minus_1)
  ultimately have "shortkey pass key = unat (take_bit 5 (drop_bit (pass * BITS) key))"
    by (simp add: shortkey_def take_bit_eq_mask)
  also have "\<dots> = unat key div 2 ^ (pass * BITS) mod 2 ^ 5"
    unfolding unsigned_take_bit_eq unsigned_drop_bit_eq
    by (simp add: take_bit_eq_mod drop_bit_eq_div mod_less [OF unat_less_32])
  finally show ?thesis
    by (simp add: param_defs)
qed

text \<open>The number of keys in a range of positions that have a digit.\<close>

definition digits_in :: "nat \<Rightarrow> u32 list \<Rightarrow> nat \<Rightarrow> nat \<Rightarrow> nat \<Rightarrow> nat" where
  "digits_in pass keys r a b = length (filter (\<lambda>i. shortkey pass (keys ! i) = r) [a..<b])"

lemma digits_in_Suc:
  "a \<le> b \<Longrightarrow> digits_in pass keys r a (Suc b) =
    digits_in pass keys r a b + (if shortkey pass (keys ! b) = r then 1 else 0)"
  by (simp add: digits_in_def)

lemma digits_in_empty [simp]: "digits_in pass keys r a a = 0"
  by (simp add: digits_in_def)

lemma digits_in_split:
  "a \<le> b \<Longrightarrow> b \<le> c \<Longrightarrow> digits_in pass keys r a c = digits_in pass keys r a b + digits_in pass keys r b c"
  using upt_add_eq_append [of a b "c - b"] by (simp add: digits_in_def)

lemma index_id [simp]: "index i n = i"
  by (simp add: index_def TRANSPOSE_def)

section \<open>Columns of a table\<close>

text \<open>Tables of \<open>RADIX\<close> rows of width \<open>w\<close>: an item works on one column.\<close>

lemma column_cell_less: "r < R \<Longrightarrow> c < w \<Longrightarrow> R * w \<le> n \<Longrightarrow> r * w + c < (n::nat)"
proof -
  assume "r < R" "c < w" "R * w \<le> n"
  then have "r * w + c < Suc r * w" "Suc r * w \<le> R * w"
    using mult_le_mono1 [of "Suc r" R w] by simp_all
  then show ?thesis
    using \<open>R * w \<le> n\<close> by linarith
qed

lemma cell_iff:
  assumes "c < w"
  shows "j = r * w + c \<longleftrightarrow> j div w = r \<and> j mod w = (c::nat)"
proof
  assume "j div w = r \<and> j mod w = c"
  then show "j = r * w + c"
    using div_mult_mod_eq [of j w] by simp
qed (use assms in simp)

lemma column_loop:
  assumes len: "RADIX * w \<le> length l" and c: "c < w"
    and f: "\<And>ir t. ir < RADIX \<Longrightarrow> length t = length l \<Longrightarrow> f ir t = Inr (t[ir * w + c := v ir])"
  shows "\<exists>l'. for_each [0..<RADIX] f l = Inr l' \<and> length l' = length l \<and>
    (\<forall>j < length l. l' ! j = (if j < RADIX * w \<and> j mod w = c then v (j div w) else l ! j))"
proof -
  have cell: "j < RADIX * w \<and> j mod w = c \<longleftrightarrow> j div w < RADIX \<and> j mod w = c" for j
    using c by (simp add: div_less_iff_less_mult)
  have "\<exists>l'. for_each [0..<RADIX] f l = Inr l' \<and> length l' = length l \<and>
    (\<forall>j < length l. l' ! j = (if j div w < RADIX \<and> j mod w = c then v (j div w) else l ! j))"
  proof (rule for_range_invariant [where Inv = "\<lambda>i t. length t = length l \<and>
      (\<forall>j < length l. t ! j = (if j div w < i \<and> j mod w = c then v (j div w) else l ! j))"])
    fix i t
    assume i: "i < RADIX" and inv: "length t = length l \<and>
      (\<forall>j < length l. t ! j = (if j div w < i \<and> j mod w = c then v (j div w) else l ! j))"
    have "i * w + c < length l"
      by (rule column_cell_less [OF i c len])
    moreover note cell_iff [OF c, of _ i]
    moreover have "t[i * w + c := v i] ! j = (if j = i * w + c then v i else t ! j)" if "j < length l" for j
      using that inv by simp
    ultimately have "t[i * w + c := v i] ! j =
        (if j div w < Suc i \<and> j mod w = c then v (j div w) else l ! j)" if "j < length l" for j
      using inv that by (simp add: less_Suc_eq)
    then show "\<exists>t'. f i t = Inr t' \<and> length t' = length l \<and>
      (\<forall>j < length l. t' ! j = (if j div w < Suc i \<and> j mod w = c then v (j div w) else l ! j))"
      using f [OF i] inv by simp
  qed simp_all
  then show ?thesis
    unfolding cell .
qed

text \<open>
  A phase in which item \<open>it\<close> works on column \<open>a + it\<close>: afterwards the columns of all items hold the
  new values.
\<close>

lemma column_phase:
  assumes fair: "fair_gpu dev" and len: "RADIX * w \<le> length l"
    and f: "\<And>it t. it < items \<Longrightarrow> length t = length l \<Longrightarrow>
      (\<And>j. j < RADIX * w \<Longrightarrow> j mod w = a + it \<Longrightarrow> t ! j = l ! j) \<Longrightarrow>
      \<exists>t'. f it t = Inr t' \<and> length t' = length l \<and>
      (\<forall>j < length l. t' ! j = (if j < RADIX * w \<and> j mod w = a + it then v j else t ! j))"
  shows "\<exists>l'. for_each (item_order dev g ph items) f l = Inr l' \<and> length l' = length l \<and>
    (\<forall>j < length l. l' ! j = (if j < RADIX * w \<and> a \<le> j mod w \<and> j mod w < a + items then v j else l ! j))"
proof -
  define wr where "wr it = {j. j < RADIX * w \<and> j mod w = a + it}" for it
  have "\<exists>t. for_each (item_order dev g ph items) f l = Inr t \<and> length t = length l \<and>
    (\<forall>j < length l. (\<forall>i \<in> set (item_order dev g ph items). j \<in> wr i \<longrightarrow> t ! j = v j) \<and>
      ((\<forall>i \<in> set (item_order dev g ph items). j \<notin> wr i) \<longrightarrow> t ! j = l ! j))"
  proof (rule phase_result [where rd = "\<lambda>_. {}"])
    show "distinct (item_order dev g ph items)"
      using fair by simp
    show "race_free (set (item_order dev g ph items)) wr (\<lambda>_. {})"
      by (auto simp: race_free_def wr_def)
    fix it t
    assume "it \<in> set (item_order dev g ph items)" "length t = length l"
      "\<And>j. j < length l \<Longrightarrow> j \<in> {} \<union> wr it \<Longrightarrow> t ! j = l ! j"
    then show "\<exists>t'. f it t = Inr t' \<and> length t' = length l \<and>
        (\<forall>j < length l. t' ! j = (if j \<in> wr it then v j else t ! j))"
      using f [of it t] fair len by (simp add: wr_def)
  qed
  then obtain t where t: "for_each (item_order dev g ph items) f l = Inr t" "length t = length l"
    and w: "\<forall>j < length l. (\<forall>i < items. j \<in> wr i \<longrightarrow> t ! j = v j) \<and>
      ((\<forall>i < items. j \<notin> wr i) \<longrightarrow> t ! j = l ! j)"
    using fair by (auto simp: lessThan_iff Ball_def)
  have "t ! j = (if j < RADIX * w \<and> a \<le> j mod w \<and> j mod w < a + items then v j else l ! j)"
    if j: "j < length l" for j
  proof (cases "j < RADIX * w \<and> a \<le> j mod w \<and> j mod w < a + items")
    case True
    then have "j mod w - a < items" "j \<in> wr (j mod w - a)"
      by (auto simp: wr_def)
    then show ?thesis
      using True w j by auto
  next
    case False
    then have "\<forall>i < items. j \<notin> wr i"
      by (auto simp: wr_def)
    then show ?thesis
      using False w j by auto
  qed
  then show ?thesis
    using t by blast
qed

section \<open>histogram\<close>

lemma hist_count_result:
  assumes it: "it < items" and len: "RADIX * items \<le> length l"
    and keys: "Suc ig * (n div groups div items) \<le> length keys"
  shows "\<exists>l'. hist_count keys pass n groups items ig it l = Inr l' \<and> length l' = length l \<and>
    (\<forall>j < length l. l' ! j = (if j < RADIX * items \<and> j mod items = it
      then l ! j + of_nat (digits_in pass keys (j div items) (ig * (n div groups div items))
        (ig * (n div groups div items) + n div groups div items))
      else l ! j))"
proof -
  define sz where "sz = n div groups div items"
  have "\<exists>l'. for_each [ig * sz..<ig * sz + sz] (\<lambda>i l.
          bindR (arr_get keys (index i n)) (\<lambda>key.
          bindR (arr_get l (shortkey pass key * items + it)) (\<lambda>c.
          arr_set l (shortkey pass key * items + it) (c + 1)))) l = Inr l' \<and> length l' = length l \<and>
    (\<forall>j < length l. l' ! j = (if j < RADIX * items \<and> j mod items = it
      then l ! j + of_nat (digits_in pass keys (j div items) (ig * sz) (ig * sz + sz)) else l ! j))"
  proof (rule for_range_invariant [where Inv = "\<lambda>i t. length t = length l \<and>
      (\<forall>j < length l. t ! j = (if j < RADIX * items \<and> j mod items = it
        then l ! j + of_nat (digits_in pass keys (j div items) (ig * sz) i) else l ! j))"])
    fix i t
    assume i: "ig * sz \<le> i" "i < ig * sz + sz" and inv: "length t = length l \<and>
      (\<forall>j < length l. t ! j = (if j < RADIX * items \<and> j mod items = it
        then l ! j + of_nat (digits_in pass keys (j div items) (ig * sz) i) else l ! j))"
    let ?r = "shortkey pass (keys ! i)"
    have ki: "i < length keys"
      using i(2) keys by (simp add: sz_def)
    have cell: "?r * items + it < RADIX * items"
      by (rule column_cell_less [OF shortkey_less it]) simp
    note pos = cell_iff [OF it, of _ ?r]
    define t' where "t' = t[?r * items + it := t ! (?r * items + it) + 1]"
    have upd: "t' ! j = (if j = ?r * items + it then t ! j + 1 else t ! j)" if "j < length l" for j
      using that inv by (simp add: t'_def)
    have "t' ! j = (if j < RADIX * items \<and> j mod items = it
        then l ! j + of_nat (digits_in pass keys (j div items) (ig * sz) (Suc i)) else l ! j)"
      if "j < length l" for j
    proof (cases "j = ?r * items + it")
      case True
      then show ?thesis
        using upd [OF that] inv that cell it by (simp add: digits_in_Suc [OF i(1)] add.assoc)
    next
      case False
      then show ?thesis
        using upd [OF that] inv that pos [of j] by (auto simp: digits_in_Suc [OF i(1)])
    qed
    then show "\<exists>t'. bindR (arr_get keys (index i n)) (\<lambda>key.
          bindR (arr_get t (shortkey pass key * items + it)) (\<lambda>c.
          arr_set t (shortkey pass key * items + it) (c + 1))) = Inr t' \<and> length t' = length l \<and>
      (\<forall>j < length l. t' ! j = (if j < RADIX * items \<and> j mod items = it
        then l ! j + of_nat (digits_in pass keys (j div items) (ig * sz) (Suc i)) else l ! j))"
      using ki cell len inv by (intro exI [of _ t']) (simp add: t'_def)
  qed simp_all
  then show ?thesis
    unfolding hist_count_def Let_def sz_def .
qed

text \<open>The number of keys of chunk \<open>q\<close>, the \<open>q\<close>-th run of \<open>s\<close> keys, with digit \<open>r\<close>.\<close>

definition chunk_count :: "nat \<Rightarrow> u32 list \<Rightarrow> nat \<Rightarrow> nat \<Rightarrow> nat \<Rightarrow> nat" where
  "chunk_count pass keys s q r = digits_in pass keys r (q * s) (q * s + s)"

lemma item_column:
  assumes "gr < groups" and "it < (items::nat)"
  shows "gr * items + it < groups * items"
  by (rule column_cell_less [OF assms]) simp

lemma hist_group_result:
  assumes fair: "fair_gpu dev" and lsize: "RADIX * items \<le> lsize" and gr: "gr < groups"
    and keys: "groups * items * (n div groups div items) \<le> length keys"
    and len: "length h = RADIX * (groups * items)"
  shows "\<exists>h'. hist_group dev groups items keys pass lsize n gr h = Inr h' \<and> length h' = length h \<and>
    (\<forall>j < length h. h' ! j = (if gr * items \<le> j mod (groups * items) \<and> j mod (groups * items) < gr * items + items
      then of_nat (chunk_count pass keys (n div groups div items) (j mod (groups * items)) (j div (groups * items)))
      else h ! j))"
proof -
  define s where "s = n div groups div items"
  define l0 where "l0 = local_init dev gr lsize"
  have l0: "length l0 = lsize"
    using fair by (simp add: l0_def)
  have "\<exists>l. for_each (item_order dev gr 0 items) (hist_clear items) l0 = Inr l \<and> length l = length l0 \<and>
      (\<forall>j < length l0. l ! j = (if j < RADIX * items \<and> 0 \<le> j mod items \<and> j mod items < 0 + items
        then 0 else l0 ! j))"
  proof (rule column_phase [OF fair])
    fix it and t :: "u32 list"
    assume it: "it < items" and t: "length t = length l0"
    show "\<exists>t'. hist_clear items it t = Inr t' \<and> length t' = length l0 \<and>
      (\<forall>j < length l0. t' ! j = (if j < RADIX * items \<and> j mod items = 0 + it then 0 else t ! j))"
      using column_loop [of items t it "\<lambda>ir l. arr_set l (ir * items + it) 0" "\<lambda>_. 0"]
        column_cell_less [OF _ it lsize] t l0 lsize it
      by (simp add: hist_clear_def)
  qed (use l0 lsize in simp)
  then obtain l1 where l1: "for_each (item_order dev gr 0 items) (hist_clear items) l0 = Inr l1"
      "length l1 = lsize" "\<And>j. j < RADIX * items \<Longrightarrow> l1 ! j = 0"
    using l0 lsize by (cases "items = 0") auto
  have "\<exists>l. for_each (item_order dev gr 1 items)
        (\<lambda>it. hist_count keys pass n groups items (gr * items + it) it) l1 = Inr l \<and> length l = length l1 \<and>
      (\<forall>j < length l1. l ! j = (if j < RADIX * items \<and> 0 \<le> j mod items \<and> j mod items < 0 + items
        then of_nat (chunk_count pass keys s (gr * items + j mod items) (j div items)) else l1 ! j))"
  proof (rule column_phase [OF fair])
    fix it t
    assume it: "it < items" and t: "length t = length l1"
      and same: "\<And>j. j < RADIX * items \<Longrightarrow> j mod items = 0 + it \<Longrightarrow> t ! j = l1 ! j"
    have "Suc (gr * items + it) * s \<le> length keys"
      using item_column [OF gr it] mult_le_mono1 [of "Suc (gr * items + it)" "groups * items" s] keys
      unfolding s_def by linarith
    then obtain t' where "hist_count keys pass n groups items (gr * items + it) it t = Inr t'"
      "length t' = length t"
      "\<forall>j < length t. t' ! j = (if j < RADIX * items \<and> j mod items = it
        then t ! j + of_nat (chunk_count pass keys s (gr * items + it) (j div items)) else t ! j)"
      using hist_count_result [OF it, of t "gr * items + it" n groups keys pass] t l1(2) lsize
      unfolding s_def chunk_count_def by auto
    then show "\<exists>t'. hist_count keys pass n groups items (gr * items + it) it t = Inr t' \<and>
      length t' = length l1 \<and> (\<forall>j < length l1. t' ! j = (if j < RADIX * items \<and> j mod items = 0 + it
        then of_nat (chunk_count pass keys s (gr * items + j mod items) (j div items)) else t ! j))"
      using same l1(3) t by simp
  qed (use l1 lsize in simp)
  then obtain l2 where l2: "for_each (item_order dev gr 1 items)
        (\<lambda>it. hist_count keys pass n groups items (gr * items + it) it) l1 = Inr l2" "length l2 = lsize"
      "\<And>j. j < RADIX * items \<Longrightarrow> l2 ! j = of_nat (chunk_count pass keys s (gr * items + j mod items) (j div items))"
    using l1 lsize by (cases "items = 0") auto
  have "\<exists>h'. for_each (item_order dev gr 2 items) (hist_copy l2 groups items gr) h = Inr h' \<and> length h' = length h \<and>
      (\<forall>j < length h. h' ! j = (if j < RADIX * (groups * items) \<and> gr * items \<le> j mod (groups * items) \<and>
          j mod (groups * items) < gr * items + items
        then of_nat (chunk_count pass keys s (j mod (groups * items)) (j div (groups * items))) else h ! j))"
  proof (rule column_phase [OF fair])
    fix it and t :: "u32 list"
    assume it: "it < items" and t: "length t = length h"
    have ig: "gr * items + it < groups * items"
      by (rule item_column [OF gr it])
    have "\<exists>t'. for_each [0..<RADIX] (\<lambda>ir h. bindR (arr_get l2 (ir * items + it)) (\<lambda>v.
         arr_set h (ir * groups * items + items * gr + it) v)) t = Inr t' \<and> length t' = length t \<and>
      (\<forall>j < length t. t' ! j = (if j < RADIX * (groups * items) \<and> j mod (groups * items) = gr * items + it
        then of_nat (chunk_count pass keys s (gr * items + it) (j div (groups * items))) else t ! j))"
    proof (rule column_loop)
      fix ir and u :: "u32 list"
      assume ir: "ir < RADIX" and u: "length u = length t"
      have "ir * items + it < RADIX * items"
        by (rule column_cell_less [OF ir it]) simp
      then have "l2 ! (ir * items + it) = of_nat (chunk_count pass keys s (gr * items + it) ir)"
        "ir * items + it < length l2"
        using l2(2,3) it lsize by simp_all
      moreover have "ir * (groups * items) + (gr * items + it) < length u"
        by (rule column_cell_less [OF ir ig]) (use len t u in simp)
      moreover have e: "ir * groups * items + items * gr + it = ir * (groups * items) + (gr * items + it)"
        by (simp add: algebra_simps)
      ultimately show "bindR (arr_get l2 (ir * items + it)) (\<lambda>v.
          arr_set u (ir * groups * items + items * gr + it) v) =
        Inr (u[ir * (groups * items) + (gr * items + it) := of_nat (chunk_count pass keys s (gr * items + it) ir)])"
        unfolding e by simp
    qed (use len t ig in simp_all)
    then show "\<exists>t'. hist_copy l2 groups items gr it t = Inr t' \<and> length t' = length h \<and>
      (\<forall>j < length h. t' ! j = (if j < RADIX * (groups * items) \<and> j mod (groups * items) = gr * items + it
        then of_nat (chunk_count pass keys s (j mod (groups * items)) (j div (groups * items))) else t ! j))"
      using t by (auto simp: hist_copy_def)
  qed (use len in simp)
  then show ?thesis
    using l1(1) l2(1) len unfolding hist_group_def l0_def s_def by auto
qed

theorem histogram_result:
  assumes fair: "fair_gpu dev" and lsize: "RADIX * items \<le> lsize"
    and keys: "groups * items * (n div groups div items) \<le> length keys"
    and len: "length h = RADIX * (groups * items)"
  shows "histogram dev groups items keys pass lsize n h =
    Inr (map (\<lambda>j. of_nat (chunk_count pass keys (n div groups div items) (j mod (groups * items))
      (j div (groups * items)))) [0..<length h])"
  unfolding histogram_def
proof (rule phase_fills)
  let ?wr = "\<lambda>gr. {j. gr * items \<le> j mod (groups * items) \<and> j mod (groups * items) < gr * items + items}"
  show "distinct (group_order dev groups)"
    using fair by simp
  have disj: "?wr gr \<inter> ?wr gr' = {}" if "gr < gr'" for gr gr'
    using mult_le_mono1 [of "Suc gr" gr' items] that by auto
  have disj': "?wr gr \<inter> (?wr gr' \<union> {}) = {}" if "gr \<noteq> gr'" for gr gr'
    using disj [of gr gr'] disj [of gr' gr] that by (cases "gr < gr'") (simp_all add: Int_commute)
  then show "race_free (set (group_order dev groups)) ?wr (\<lambda>_. {})"
    unfolding race_free_def by (intro ballI impI)
  show "\<exists>gr \<in> set (group_order dev groups). j \<in> ?wr gr" if "j < length h" for j
  proof -
    have pos: "0 < groups * items"
      using that len by (cases "groups * items") auto
    define m where "m = j mod (groups * items)"
    have "m < groups * items"
      using pos by (simp add: m_def)
    then have "m div items < groups"
      by (simp add: less_mult_imp_div_less)
    moreover have "m div items * items \<le> m" "m < m div items * items + items"
      using pos dividend_less_div_times [of items m] by (simp_all add: add.commute)
    ultimately show ?thesis
      using fair by (intro bexI [of _ "m div items"]) (simp_all add: m_def)
  qed
  fix gr and t :: "u32 list"
  assume "gr \<in> set (group_order dev groups)" and t: "length t = length h"
  then have gr: "gr < groups"
    using fair by simp
  show "\<exists>t'. hist_group dev groups items keys pass lsize n gr t = Inr t' \<and> length t' = length h \<and>
      (\<forall>j < length h. t' ! j = (if j \<in> ?wr gr then of_nat (chunk_count pass keys (n div groups div items)
        (j mod (groups * items)) (j div (groups * items))) else t ! j))"
    using hist_group_result [OF fair lsize gr keys, of t pass] len t by simp
qed simp

section \<open>Positions\<close>

text \<open>
  The position of the first key with digit \<open>r\<close> that comes from position \<open>i\<close> or later, and the
  position to which key \<open>i\<close> moves.
\<close>

definition first_pos :: "nat \<Rightarrow> u32 list \<Rightarrow> nat \<Rightarrow> nat \<Rightarrow> nat" where
  "first_pos pass keys r i = (\<Sum>r'<r. digits_in pass keys r' 0 (length keys)) + digits_in pass keys r 0 i"

definition new_pos :: "nat \<Rightarrow> u32 list \<Rightarrow> nat \<Rightarrow> nat" where
  "new_pos pass keys i = first_pos pass keys (shortkey pass (keys ! i)) i"

lemma digits_in_mono: "i \<le> j \<Longrightarrow> digits_in pass keys r 0 i \<le> digits_in pass keys r 0 j"
  using digits_in_split [of 0 i j pass keys r] by simp

lemma digits_below:
  "(\<Sum>r'<r. digits_in pass keys r' a b) = length (filter (\<lambda>i. shortkey pass (keys ! i) < r) [a..<b])"
proof (induction r)
  case (Suc r)
  have "length (filter (\<lambda>i. shortkey pass (keys ! i) < r) xs) + length (filter (\<lambda>i. shortkey pass (keys ! i) = r) xs) =
      length (filter (\<lambda>i. shortkey pass (keys ! i) < Suc r) xs)" for xs
    by (induction xs) auto
  then show ?case
    using Suc by (simp add: digits_in_def)
qed simp

lemma first_pos_Suc:
  "first_pos pass keys r (Suc i) = first_pos pass keys r i + (if shortkey pass (keys ! i) = r then 1 else 0)"
  by (simp add: first_pos_def digits_in_Suc)

lemma first_pos_bound: "i \<le> length keys \<Longrightarrow> first_pos pass keys r i \<le> first_pos pass keys (Suc r) 0"
  using digits_in_mono [of i "length keys" pass keys r]
  by (simp add: first_pos_def)

lemma first_pos_mono: "r \<le> r' \<Longrightarrow> first_pos pass keys r 0 \<le> first_pos pass keys r' 0"
  by (simp add: first_pos_def) (rule sum_mono2, auto)

lemma new_pos_less_next:
  assumes "i < length keys"
  shows "new_pos pass keys i < first_pos pass keys (Suc (shortkey pass (keys ! i))) 0"
  using first_pos_bound [of "Suc i" keys pass "shortkey pass (keys ! i)"] assms
  by (simp add: new_pos_def first_pos_Suc)

lemma first_pos_top: "first_pos pass keys r 0 \<le> length keys"
  by (simp add: first_pos_def digits_below) (rule order_trans [OF length_filter_le], simp)

lemma new_pos_less: "i < length keys \<Longrightarrow> new_pos pass keys i < length keys"
  using new_pos_less_next first_pos_top less_le_trans by blast

lemma new_pos_inj:
  assumes "i < length keys" "j < length keys" "new_pos pass keys i = new_pos pass keys j"
  shows "i = j"
proof -
  have less: "new_pos pass keys a < new_pos pass keys b"
    if "a < length keys" "b < length keys" and
      "shortkey pass (keys ! a) < shortkey pass (keys ! b) \<or>
       shortkey pass (keys ! a) = shortkey pass (keys ! b) \<and> a < b" for a b
    using that(3)
  proof
    assume "shortkey pass (keys ! a) < shortkey pass (keys ! b)"
    then have "first_pos pass keys (Suc (shortkey pass (keys ! a))) 0 \<le> first_pos pass keys (shortkey pass (keys ! b)) 0"
      by (intro first_pos_mono) simp
    also have "\<dots> \<le> new_pos pass keys b"
      by (simp add: new_pos_def first_pos_def)
    finally show ?thesis
      using new_pos_less_next [OF that(1), of pass] by simp
  next
    assume "shortkey pass (keys ! a) = shortkey pass (keys ! b) \<and> a < b"
    then show ?thesis
      using first_pos_Suc [of pass keys "shortkey pass (keys ! a)" a]
        digits_in_mono [of "Suc a" b pass keys "shortkey pass (keys ! a)"]
      by (simp add: new_pos_def first_pos_def)
  qed
  show ?thesis
    using less [OF assms(1,2)] less [OF assms(2,1)] assms(3) by (metis linorder_neqE_nat less_irrefl)
qed

lemma new_pos_surj:
  assumes "k < length keys"
  obtains i where "i < length keys" "new_pos pass keys i = k"
proof -
  have "new_pos pass keys ` {..<length keys} = {..<length keys}"
    by (rule endo_inj_surj) (auto simp: new_pos_less intro: inj_onI new_pos_inj)
  then have "k \<in> new_pos pass keys ` {..<length keys}"
    using assms by simp
  then show ?thesis
    using that by auto
qed

text \<open>The scanned histogram holds the first positions.\<close>

lemma sum_rows:
  fixes g :: "nat \<Rightarrow> nat \<Rightarrow> nat"
  assumes "q < p"
  shows "(\<Sum>i < r * p + q. g (i mod p) (i div p)) = (\<Sum>r'<r. \<Sum>q'<p. g q' r') + (\<Sum>q'<q. g q' r)"
proof -
  have row: "(\<Sum>i \<in> {r' * p..<r' * p + m}. g (i mod p) (i div p)) = (\<Sum>q'<m. g q' r')" if "m \<le> p" for r' m
    unfolding sum_from [symmetric] using that assms by (intro sum.cong) auto
  have "(\<Sum>i < r * p + q. g (i mod p) (i div p)) =
      (\<Sum>i < r * p. g (i mod p) (i div p)) + (\<Sum>i \<in> {r * p..<r * p + q}. g (i mod p) (i div p))"
    unfolding lessThan_atLeast0 by (rule sum.atLeastLessThan_concat [symmetric]) simp_all
  also have "(\<Sum>i < r * p. g (i mod p) (i div p)) = (\<Sum>r'<r. \<Sum>q'<p. g q' r')"
    unfolding sum.nat_group [symmetric] using row [of p] by simp
  finally show ?thesis
    using row [of q r] assms by simp
qed

lemma sum_chunks: "(\<Sum>q<m. chunk_count pass keys s q r) = digits_in pass keys r 0 (m * s)"
proof (induction m)
  case (Suc m)
  show ?case
    using Suc digits_in_split [of 0 "m * s" "m * s + s" pass keys r] by (simp add: chunk_count_def add.commute)
qed simp

lemma scanned_histogram:
  assumes "q < p" "r < R" and n: "length keys = p * s"
  shows "prefix_sums (map (\<lambda>j. of_nat (chunk_count pass keys s (j mod p) (j div p))) [0..<R * p]) ! (r * p + q) =
    of_nat (first_pos pass keys r (q * s))"
proof -
  have c: "r * p + q < R * p"
    by (rule column_cell_less [OF assms(2,1)]) simp
  have "(\<Sum>i < r * p + q. chunk_count pass keys s (i mod p) (i div p)) = first_pos pass keys r (q * s)"
    using sum_rows [OF assms(1), of "chunk_count pass keys s" r] n
    by (simp add: sum_chunks first_pos_def)
  then show ?thesis
    using c by (simp add: prefix_sums_def flip: of_nat_sum)
qed

section \<open>reorder\<close>

text \<open>The keys of the positions in \<open>E\<close> have moved, with the permutation.\<close>

definition moved :: "nat \<Rightarrow> u32 list \<Rightarrow> u32 list \<Rightarrow> nat set \<Rightarrow> u32 list \<Rightarrow> u32 list \<Rightarrow> bool" where
  "moved pass keys perm E ok op \<longleftrightarrow> length ok = length keys \<and> length op = length keys \<and>
     (\<forall>i \<in> E. ok ! new_pos pass keys i = keys ! i \<and> op ! new_pos pass keys i = perm ! i)"

lemma moved_insert:
  assumes "moved pass keys perm E ok op" and "E \<subseteq> {..<length keys}" and "i < length keys"
  shows "moved pass keys perm (insert i E) (ok[new_pos pass keys i := keys ! i])
    (op[new_pos pass keys i := perm ! i])"
proof -
  have "ok[new_pos pass keys i := keys ! i] ! new_pos pass keys k = keys ! k \<and>
      op[new_pos pass keys i := perm ! i] ! new_pos pass keys k = perm ! k" if "k \<in> insert i E" for k
  proof (cases "k = i")
    case True
    then show ?thesis
      using assms new_pos_less [OF assms(3), of pass] by (simp add: moved_def)
  next
    case False
    then have "new_pos pass keys k \<noteq> new_pos pass keys i"
      using that assms(2,3) new_pos_inj [of k keys i pass] by auto
    then show ?thesis
      using that False assms(1) by (simp add: moved_def)
  qed
  then show ?thesis
    using assms(1) by (simp add: moved_def)
qed

lemma reorder_move_result:
  fixes keys perm :: "u32 list"
  assumes it: "it < items" and len: "RADIX * items \<le> length l"
    and E: "E \<subseteq> {..<length keys}" and perm: "length perm = length keys" and small: "length keys < 2 ^ 32"
    and top: "Suc ig * (n div groups div items) \<le> length keys"
    and mv: "moved pass keys perm E ok op"
    and l: "\<And>r. r < RADIX \<Longrightarrow> l ! (r * items + it) = of_nat (first_pos pass keys r (ig * (n div groups div items)))"
  shows "\<exists>ok' op' l'. reorder_move keys perm pass n groups items ig it (ok, op, l) = Inr (ok', op', l') \<and>
    moved pass keys perm (E \<union> {ig * (n div groups div items)..<ig * (n div groups div items) + n div groups div items}) ok' op' \<and>
    length l' = length l \<and> (\<forall>j < RADIX * items. j mod items \<noteq> it \<longrightarrow> l' ! j = l ! j)"
proof -
  define sz where "sz = n div groups div items"
  define body where "body = (\<lambda>i (outKeys, outPermut, l).
          bindR (arr_get keys (index i n)) (\<lambda>key.
          bindR (arr_get l (shortkey pass key * items + it)) (\<lambda>newpos.
          bindR (arr_set outKeys (index (unat newpos) n) key) (\<lambda>outKeys.
          bindR (if PERMUT
                 then bindR (arr_get perm (index i n)) (arr_set outPermut (index (unat newpos) n))
                 else Inr outPermut) (\<lambda>outPermut.
          bindR (arr_set l (shortkey pass key * items + it) (newpos + (1 :: u32))) (\<lambda>l.
          Inr (outKeys, outPermut, l)))))))"
  define Inv where "Inv i st = (case st of (ok, op, t) \<Rightarrow> moved pass keys perm (E \<union> {ig * sz..<i}) ok op \<and>
      length t = length l \<and> (\<forall>r < RADIX. t ! (r * items + it) = of_nat (first_pos pass keys r i)) \<and>
      (\<forall>j < RADIX * items. j mod items \<noteq> it \<longrightarrow> t ! j = l ! j))" for i st
  have "\<exists>st. for_each [ig * sz..<ig * sz + sz] body (ok, op, l) = Inr st \<and> Inv (ig * sz + sz) st"
  proof (rule for_range_invariant)
    show "Inv (ig * sz) (ok, op, l)"
      using mv l by (simp add: Inv_def sz_def)
    fix i st
    assume i: "ig * sz \<le> i" "i < ig * sz + sz" and inv: "Inv i st"
    obtain ok op t where st: "st = (ok, op, t)"
      by (cases st)
    have ki: "i < length keys"
      using i(2) top by (simp add: sz_def)
    let ?r = "shortkey pass (keys ! i)"
    have cell: "?r * items + it < RADIX * items"
      by (rule column_cell_less [OF shortkey_less it]) simp
    have np: "new_pos pass keys i < length keys"
      by (rule new_pos_less [OF ki])
    have tv: "t ! (?r * items + it) = of_nat (new_pos pass keys i)"
      using inv st shortkey_less by (simp add: Inv_def new_pos_def)
    have mv: "moved pass keys perm (insert i (E \<union> {ig * sz..<i})) (ok[new_pos pass keys i := keys ! i])
        (op[new_pos pass keys i := perm ! i])"
      by (rule moved_insert) (use inv st E ki in \<open>auto simp: Inv_def\<close>)
    define t' where "t' = t[?r * items + it := of_nat (new_pos pass keys i) + 1]"
    have lens: "length ok = length keys" "length op = length keys" "length t = length l"
      using inv st by (simp_all add: Inv_def moved_def)
    have "unat (of_nat (new_pos pass keys i) :: u32) = new_pos pass keys i"
      using np small by (intro unat_of_nat_small) simp
    then have b: "body i st = Inr (ok[new_pos pass keys i := keys ! i], op[new_pos pass keys i := perm ! i], t')"
      using ki cell len tv np lens perm by (simp add: body_def st PERMUT_def t'_def)
    have "t' ! (r * items + it) = of_nat (first_pos pass keys r (Suc i))" if "r < RADIX" for r
    proof -
      have "r * items + it < length t"
        using column_cell_less [OF that it len] lens by simp
      then show ?thesis
        using that inv st cell len lens tv it
        by (auto simp: t'_def first_pos_Suc Inv_def new_pos_def)
    qed
    moreover have "t' ! j = l ! j" if "j < RADIX * items" "j mod items \<noteq> it" for j
    proof -
      have "j \<noteq> ?r * items + it"
        using that(2) it by auto
      then show ?thesis
        using that inv st by (simp add: t'_def Inv_def)
    qed
    moreover have "insert i (E \<union> {ig * sz..<i}) = E \<union> {ig * sz..<Suc i}"
      using i(1) by auto
    ultimately have "Inv (Suc i) (ok[new_pos pass keys i := keys ! i], op[new_pos pass keys i := perm ! i], t')"
      using mv lens by (simp add: Inv_def t'_def)
    then show "\<exists>st'. body i st = Inr st' \<and> Inv (Suc i) st'"
      using b by blast
  qed simp
  then show ?thesis
    unfolding reorder_move_def Let_def body_def sz_def [symmetric] Inv_def by fastforce
qed

text \<open>The positions of chunk \<open>q\<close>.\<close>

definition chunk :: "nat \<Rightarrow> nat \<Rightarrow> nat set" where
  "chunk s q = {q * s..<q * s + s}"

lemma chunk_below:
  assumes "q < p"
  shows "chunk s q \<subseteq> {..<p * s}" and "Suc q * s \<le> p * s"
  using mult_le_mono1 [of "Suc q" p s] assms by (auto simp: chunk_def)

lemma reorder_group_result:
  fixes keys perm :: "u32 list"
  assumes fair: "fair_gpu dev" and lsize: "RADIX * items \<le> lsize" and gr: "gr < groups"
    and s: "s = n div groups div items" and n: "length keys = groups * items * s"
    and perm: "length perm = length keys" and small: "length keys < 2 ^ 32"
    and h: "length h = RADIX * (groups * items)" "\<And>r q. r < RADIX \<Longrightarrow> q < groups * items \<Longrightarrow>
      h ! (r * (groups * items) + q) = of_nat (first_pos pass keys r (q * s))"
    and E: "E \<subseteq> {..<length keys}" and mv: "moved pass keys perm E ok op"
  shows "\<exists>ok' op'. reorder_group dev groups items keys h pass perm lsize n gr (ok, op) = Inr (ok', op') \<and>
    moved pass keys perm (E \<union> (\<Union>it<items. chunk s (gr * items + it))) ok' op'"
proof -
  let ?p = "groups * items"
  define l0 where "l0 = local_init dev gr lsize"
  have l0: "length l0 = lsize"
    using fair by (simp add: l0_def)
  have "\<exists>l. for_each (item_order dev gr 0 items) (reorder_load h groups items gr) l0 = Inr l \<and> length l = length l0 \<and>
      (\<forall>j < length l0. l ! j = (if j < RADIX * items \<and> 0 \<le> j mod items \<and> j mod items < 0 + items
        then of_nat (first_pos pass keys (j div items) ((gr * items + j mod items) * s)) else l0 ! j))"
  proof (rule column_phase [OF fair])
    fix it and t :: "u32 list"
    assume it: "it < items" and t: "length t = length l0"
    have ig: "gr * items + it < ?p"
      by (rule item_column [OF gr it])
    have "\<exists>t'. reorder_load h groups items gr it t = Inr t' \<and> length t' = length t \<and>
      (\<forall>j < length t. t' ! j = (if j < RADIX * items \<and> j mod items = it
        then of_nat (first_pos pass keys (j div items) ((gr * items + it) * s)) else t ! j))"
      unfolding reorder_load_def
    proof (rule column_loop)
      fix ir and u :: "u32 list"
      assume ir: "ir < RADIX" and u: "length u = length t"
      have e: "ir * groups * items + items * gr + it = ir * ?p + (gr * items + it)"
        by (simp add: algebra_simps)
      show "bindR (arr_get h (ir * groups * items + items * gr + it)) (arr_set u (ir * items + it)) =
          Inr (u[ir * items + it := of_nat (first_pos pass keys ir ((gr * items + it) * s))])"
        using column_cell_less [OF ir ig, of "length h"] column_cell_less [OF ir it lsize] h ir ig u t l0
        unfolding e by simp
    qed (use t l0 lsize it in simp_all)
    then show "\<exists>t'. reorder_load h groups items gr it t = Inr t' \<and> length t' = length l0 \<and>
      (\<forall>j < length l0. t' ! j = (if j < RADIX * items \<and> j mod items = 0 + it
        then of_nat (first_pos pass keys (j div items) ((gr * items + j mod items) * s)) else t ! j))"
      using t by auto
  qed (use l0 lsize in simp)
  then obtain l where l: "for_each (item_order dev gr 0 items) (reorder_load h groups items gr) l0 = Inr l"
      "length l = lsize" and lv: "\<And>j. j < RADIX * items \<Longrightarrow> l ! j =
        of_nat (first_pos pass keys (j div items) ((gr * items + j mod items) * s))"
    using l0 lsize by (cases "items = 0") auto
  define mvi where "mvi it = reorder_move keys perm pass n groups items (gr * items + it) it" for it
  define Inv where "Inv D st = (case st of (ok, op, t) \<Rightarrow>
      moved pass keys perm (E \<union> (\<Union>it\<in>D. chunk s (gr * items + it))) ok op \<and> length t = lsize \<and>
      (\<forall>j < RADIX * items. j mod items \<notin> D \<longrightarrow> t ! j = l ! j))" for D st
  have "\<exists>st. for_each (item_order dev gr 1 items) mvi (ok, op, l) = Inr st \<and>
      Inv (set (item_order dev gr 1 items)) st"
  proof (rule for_each_invariant)
    show "distinct (item_order dev gr 1 items)"
      using fair by simp
    show "Inv {} (ok, op, l)"
      using mv l by (simp add: Inv_def)
    fix it D st
    assume "it \<in> set (item_order dev gr 1 items)" and D: "it \<notin> D" "D \<subseteq> set (item_order dev gr 1 items)"
      and inv: "Inv D st"
    then have it: "it < items" and D': "D \<subseteq> {..<items}"
      using fair by auto
    obtain ok op t where st: "st = (ok, op, t)"
      by (cases st)
    have ig: "gr * items + i < ?p" if "i < items" for i
      by (rule item_column [OF gr that])
    have sub: "E \<union> (\<Union>it\<in>D. chunk s (gr * items + it)) \<subseteq> {..<length keys}"
      using E D' chunk_below(1) [OF ig, of _ s] unfolding n by blast
    have "t ! (r * items + it) = of_nat (first_pos pass keys r ((gr * items + it) * (n div groups div items)))"
      if "r < RADIX" for r
      using inv D(1) column_cell_less [OF that it order_refl] lv [of "r * items + it"] it
      by (simp add: Inv_def st s)
    then obtain ok' op' t' where "mvi it (ok, op, t) = Inr (ok', op', t')"
      "moved pass keys perm (E \<union> (\<Union>it\<in>D. chunk s (gr * items + it)) \<union> chunk s (gr * items + it)) ok' op'"
      "length t' = length t" "\<forall>j < RADIX * items. j mod items \<noteq> it \<longrightarrow> t' ! j = t ! j"
      using reorder_move_result [OF it _ sub perm small, of t "gr * items + it" n groups pass ok op]
        chunk_below(2) [OF ig [OF it], of s] inv lsize
      unfolding mvi_def Inv_def st n s chunk_def by fastforce
    moreover have "E \<union> (\<Union>it\<in>D. chunk s (gr * items + it)) \<union> chunk s (gr * items + it) =
        E \<union> (\<Union>it\<in>insert it D. chunk s (gr * items + it))"
      by blast
    ultimately show "\<exists>st'. mvi it st = Inr st' \<and> Inv (insert it D) st'"
      using inv by (auto simp: Inv_def st)
  qed
  then obtain ok' op' l' where r: "for_each (item_order dev gr 1 items) mvi (ok, op, l) = Inr (ok', op', l')"
      "moved pass keys perm (E \<union> (\<Union>it<items. chunk s (gr * items + it))) ok' op'"
    using fair by (auto simp: Inv_def)
  then show ?thesis
    using l(1) unfolding reorder_group_def mvi_def l0_def by auto
qed

theorem reorder_result:
  fixes keys perm :: "u32 list"
  assumes fair: "fair_gpu dev" and lsize: "RADIX * items \<le> lsize"
    and s: "s = n div groups div items" and n: "length keys = groups * items * s"
    and perm: "length perm = length keys" and small: "length keys < 2 ^ 32"
    and h: "length h = RADIX * (groups * items)" "\<And>r q. r < RADIX \<Longrightarrow> q < groups * items \<Longrightarrow>
      h ! (r * (groups * items) + q) = of_nat (first_pos pass keys r (q * s))"
    and out: "length ok = length keys" "length op = length keys"
  shows "\<exists>ok' op'. reorder dev groups items keys h pass perm lsize n (ok, op) = Inr (ok', op') \<and>
    moved pass keys perm {..<length keys} ok' op'"
proof -
  let ?p = "groups * items"
  let ?done = "\<lambda>D. \<Union>gr\<in>D. \<Union>it<items. chunk s (gr * items + it)"
  have "\<exists>st. for_each (group_order dev groups) (reorder_group dev groups items keys h pass perm lsize n) (ok, op) = Inr st \<and>
      moved pass keys perm (?done (set (group_order dev groups))) (fst st) (snd st)"
  proof (rule for_each_invariant)
    show "distinct (group_order dev groups)"
      using fair by simp
    show "moved pass keys perm (?done {}) (fst (ok, op)) (snd (ok, op))"
      using out by (simp add: moved_def)
    fix gr D st
    assume "gr \<in> set (group_order dev groups)" "D \<subseteq> set (group_order dev groups)"
      and mv: "moved pass keys perm (?done D) (fst st) (snd st)"
    then have gr: "gr < groups" and D: "D \<subseteq> {..<groups}"
      using fair by auto
    have "?done D \<subseteq> {..<length keys}"
      using D chunk_below(1) [OF item_column, of _ groups _ items s] unfolding n by blast
    then obtain ok' op' where "reorder_group dev groups items keys h pass perm lsize n gr (fst st, snd st) = Inr (ok', op')"
      "moved pass keys perm (?done D \<union> (\<Union>it<items. chunk s (gr * items + it))) ok' op'"
      using reorder_group_result [OF fair lsize gr s n perm small h _ mv] by blast
    moreover have "?done D \<union> (\<Union>it<items. chunk s (gr * items + it)) = ?done (insert gr D)"
      by blast
    ultimately show "\<exists>st'. reorder_group dev groups items keys h pass perm lsize n gr st = Inr st' \<and>
        moved pass keys perm (?done (insert gr D)) (fst st') (snd st')"
      by (intro exI [of _ "(ok', op')"]) simp
  qed
  then obtain ok' op' where r: "reorder dev groups items keys h pass perm lsize n (ok, op) = Inr (ok', op')"
    and mv: "moved pass keys perm (?done {..<groups}) ok' op'"
    using fair by (auto simp: reorder_def)
  have "i \<in> ?done {..<groups}" if "i < length keys" for i
  proof -
    have pos: "0 < s" "0 < items" and i: "i div s < groups * items"
      using that n by (auto intro: gr0I simp: less_mult_imp_div_less)
    have "i div s div items < groups" "i div s mod items < items" "i \<in> chunk s (i div s div items * items + i div s mod items)"
      using i pos dividend_less_div_times [of s i] by (simp_all add: less_mult_imp_div_less chunk_def add.commute)
    then show ?thesis
      by blast
  qed
  then have "moved pass keys perm {..<length keys} ok' op'"
    using mv by (auto simp: moved_def)
  then show ?thesis
    using r by blast
qed

end
