(* ===== verification/QH_Radix_Order.thy ===== *)
theory QH_Radix_Order
  imports QH_Radix_Pass
begin

text \<open>
  From positions to orders: a full move is the stable sort by the digit of the pass, and the passes
  one after the other sort by all digits. The second part is stated for any pass function that
  sorts stably by a digit, and then used for the kernels.
\<close>

section \<open>A move is a stable sort\<close>

lemma filter_nth_position:
  assumes "i < length xs" and "P (xs ! i)"
  shows "filter P xs ! length (filter P (take i xs)) = xs ! i"
    and "length (filter P (take i xs)) < length (filter P xs)"
  using assms arg_cong [OF id_take_nth_drop [OF assms(1)], of "filter P"]
  by simp_all

lemma sort_key_by_rows:
  assumes "\<And>x. x \<in> set xs \<Longrightarrow> f x < (R::nat)"
  shows "sort_key f xs = concat (map (\<lambda>r. filter (\<lambda>x. f x = r) xs) [0..<R])" (is "_ = ?ys R")
proof (rule properties_for_sort_key)
  have ms: "mset (?ys m) = filter_mset (\<lambda>x. f x < m) (mset xs)" for m
  proof (induction m)
    case (Suc m)
    have "filter_mset (\<lambda>x. f x < Suc m) M = filter_mset (\<lambda>x. f x < m) M + filter_mset (\<lambda>x. f x = m) M" for M
      by (induction M) (auto simp: less_Suc_eq)
    then show ?case
      using Suc by simp
  qed simp
  have "filter_mset (\<lambda>x. f x < R) (mset xs) = mset xs"
    using assms by (simp add: filter_mset_eq_conv)
  then show "mset (?ys R) = mset xs"
    using ms by simp
  have fl: "filter (\<lambda>x. f x = r) (?ys m) = (if r < m then filter (\<lambda>x. f x = r) xs else [])" for r m
  proof (induction m)
    case (Suc m)
    have "filter (\<lambda>x. f x = r) (filter (\<lambda>x. f x = m) zs) = (if r = m then filter (\<lambda>x. f x = r) zs else [])" for zs
      by (induction zs) auto
    then show ?case
      using Suc by (simp del: filter_filter add: less_Suc_eq)
  qed simp
  show "filter (\<lambda>x. f k = f x) (?ys R) = filter (\<lambda>x. f k = f x) xs" if "k \<in> set (?ys R)" for k
  proof -
    have "f k < R"
      using that by auto
    then show ?thesis
      using fl [of "f k" R] by (simp add: eq_commute [of "f k"])
  qed
  have row: "sorted (map f (filter (\<lambda>x. f x = r) zs))" for r zs
    by (induction zs) auto
  show "sorted (map f (?ys R))"
    by (induction R) (auto simp: sorted_append row)
qed

theorem moved_is_stable_sort:
  assumes mv: "moved pass keys perm {..<length keys} ok op" and perm: "length perm = length keys"
  shows "zip ok op = sort_key (\<lambda>x. shortkey pass (fst x)) (zip keys perm)"
proof (rule nth_equalityI)
  let ?xs = "zip keys perm" and ?f = "\<lambda>x. shortkey pass (fst x)"
  have lens: "length ok = length keys" "length op = length keys"
    using mv by (simp_all add: moved_def)
  then show "length (zip ok op) = length (sort_key ?f ?xs)"
    using perm by simp
  have cnt: "length (filter (\<lambda>x. ?f x = r) (take i ?xs)) = digits_in pass keys r 0 i" if "i \<le> length keys" for r i
  proof -
    have "take i ?xs = map (\<lambda>k. ?xs ! k) [0..<i]"
      using that perm by (intro nth_equalityI) simp_all
    then have "length (filter (\<lambda>x. ?f x = r) (take i ?xs)) = length (filter (\<lambda>k. ?f (?xs ! k) = r) [0..<i])"
      by (simp add: filter_map o_def)
    also have "filter (\<lambda>k. ?f (?xs ! k) = r) [0..<i] = filter (\<lambda>k. shortkey pass (keys ! k) = r) [0..<i]"
      using that perm by (intro filter_cong) simp_all
    finally show ?thesis
      by (simp add: digits_in_def)
  qed
  fix k
  assume "k < length (zip ok op)"
  then obtain i where i: "i < length keys" "new_pos pass keys i = k"
    using new_pos_surj [of k keys pass] lens by auto
  let ?r = "shortkey pass (keys ! i)"
  have xi: "?xs ! i = (keys ! i, perm ! i)" "i < length ?xs"
    using i perm by simp_all
  have "k = (\<Sum>r'<?r. length (filter (\<lambda>x. ?f x = r') ?xs)) + length (filter (\<lambda>x. ?f x = ?r) (take i ?xs))"
    using cnt [of i ?r] cnt [of "length keys"] i perm by (simp add: new_pos_def first_pos_def)
  then have "sort_key ?f ?xs ! k = ?xs ! i"
    using concat_rows_nth [OF shortkey_less [of pass "keys ! i"],
        of "length (filter (\<lambda>x. ?f x = ?r) (take i ?xs))" "\<lambda>r. filter (\<lambda>x. ?f x = r) ?xs"]
      filter_nth_position [OF xi(2), of "\<lambda>x. ?f x = ?r"] xi(1)
    by (simp add: sort_key_by_rows [OF shortkey_less])
  then show "zip ok op ! k = sort_key ?f ?xs ! k"
    using mv i xi lens new_pos_less [OF i(1), of pass] by (auto simp: moved_def)
qed

section \<open>Passes by digits\<close>

lemma sorted_by_two_keys:
  fixes f g :: "'a \<Rightarrow> nat"
  assumes "sorted (map g ys)" and "\<And>r. sorted (map f (filter (\<lambda>x. g x = r) ys))"
    and "\<And>x. x \<in> set ys \<Longrightarrow> f x < M"
  shows "sorted (map (\<lambda>x. g x * M + f x) ys)"
  using assms
proof (induction ys)
  case (Cons y ys)
  have "g y * M + f y \<le> g z * M + f z" if z: "z \<in> set ys" for z
  proof (cases "g y = g z")
    case True
    then have "z \<in> set (filter (\<lambda>x. g x = g y) ys)"
      using z by simp
    then show ?thesis
      using Cons.prems(2) [of "g y"] True by simp
  next
    case False
    then have "Suc (g y) * M \<le> g z * M"
      using Cons.prems(1) z by (intro mult_le_mono1) auto
    then show ?thesis
      using Cons.prems(3) [of y] by simp
  qed
  moreover have "sorted (map f (filter (\<lambda>x. g x = r) ys))" for r
    using Cons.prems(2) [of r] by (cases "g y = r") simp_all
  then have "sorted (map (\<lambda>x. g x * M + f x) ys)"
    by (intro Cons.IH) (use Cons.prems in auto)
  ultimately show ?case
    by simp
qed simp

lemma sort_key_two_keys:
  fixes f g :: "'a \<Rightarrow> nat"
  assumes "\<And>x. f x < M"
  shows "sort_key (\<lambda>x. g x * M + f x) xs = sort_key g (sort_key f xs)"
proof (rule properties_for_sort_key)
  have st: "filter (\<lambda>x. g x = r) (sort_key g (sort_key f xs)) = filter (\<lambda>x. g x = r) (sort_key f xs)" for r
    by (rule sort_key_stable)
  show "sorted (map (\<lambda>x. g x * M + f x) (sort_key g (sort_key f xs)))"
  proof (rule sorted_by_two_keys)
    show "sorted (map f (filter (\<lambda>x. g x = r) (sort_key g (sort_key f xs))))" for r
      unfolding st by (rule sorted_filter) simp
  qed (use assms in simp_all)
  fix k
  have e: "g k * M + f k = g x * M + f x \<longleftrightarrow> g x = g k \<and> f x = f k" for x
  proof
    assume a: "g k * M + f k = g x * M + f x"
    then have "(g k * M + f k) div M = (g x * M + f x) div M" "(g k * M + f k) mod M = (g x * M + f x) mod M"
      by simp_all
    then show "g x = g k \<and> f x = f k"
      using assms [of k] assms [of x] by simp
  qed simp
  have "filter (\<lambda>x. g k * M + f k = g x * M + f x) (sort_key g (sort_key f xs)) =
      filter (\<lambda>x. f x = f k) (filter (\<lambda>x. g x = g k) (sort_key g (sort_key f xs)))"
    by (simp add: e conj_commute)
  also have "\<dots> = filter (\<lambda>x. g x = g k) (filter (\<lambda>x. f x = f k) (sort_key f xs))"
    unfolding st by (simp add: conj_commute)
  also have "\<dots> = filter (\<lambda>x. g k * M + f k = g x * M + f x) xs"
    by (simp add: sort_key_stable e conj_commute)
  finally show "filter (\<lambda>x. g k * M + f k = g x * M + f x) (sort_key g (sort_key f xs)) =
      filter (\<lambda>x. g k * M + f k = g x * M + f x) xs" .
qed simp

text \<open>
  The contract of a pass: on a state that is \<open>ok\<close> it sorts the contents stably by its digit, or
  stops at an \<open>assert\<close> when the state is not strict; \<open>kept\<close> is the part of the
  state that passes leave alone. All passes then sort by the number made of
  the digits.
\<close>

locale stable_passes =
  fixes one_pass :: "nat \<Rightarrow> 's \<Rightarrow> 's res"
    and content :: "'s \<Rightarrow> 'a list"
    and ok :: "'s \<Rightarrow> bool"
    and kept :: "'s \<Rightarrow> 'k"
    and strict :: "'k \<Rightarrow> bool"
    and digit :: "nat \<Rightarrow> 'a \<Rightarrow> nat"
    and R passes :: nat
  assumes digit_less: "digit p x < R"
    and pass_sorts: "ok s \<Longrightarrow> p < passes \<Longrightarrow> outcome (strict (kept s)) (one_pass p s)
      (\<lambda>s'. ok s' \<and> kept s' = kept s \<and> content s' = sort_key (digit p) (content s))"
begin

lemma number_less: "(\<Sum>p<m. digit p x * R ^ p) < R ^ m"
proof (induction m)
  case (Suc m)
  have "Suc (digit m x) * R ^ m \<le> R * R ^ m"
    using digit_less [of m x] by (intro mult_le_mono1) simp
  then show ?case
    using Suc by simp
qed simp

lemma all_passes:
  assumes "ok s" and "m \<le> passes"
  shows "outcome (strict (kept s)) (for_each [0..<m] one_pass s) (\<lambda>s'. ok s' \<and> kept s' = kept s \<and>
    content s' = sort_key (\<lambda>x. \<Sum>p<m. digit p x * R ^ p) (content s))"
  using assms(2)
proof (induction m)
  case 0
  then show ?case
    using assms(1) by (simp add: sort_key_const)
next
  case (Suc m)
  have "outcome (strict (kept s)) (bindR (for_each [0..<m] one_pass s) (one_pass m)) (\<lambda>s'. ok s' \<and>
    kept s' = kept s \<and> content s' = sort_key (\<lambda>x. \<Sum>p<Suc m. digit p x * R ^ p) (content s))"
  proof (rule outcome_bind [OF Suc.IH])
    show "m \<le> passes"
      using Suc.prems by simp
    fix s1
    assume s1: "ok s1 \<and> kept s1 = kept s \<and>
      content s1 = sort_key (\<lambda>x. \<Sum>p<m. digit p x * R ^ p) (content s)"
    have "sort_key (digit m) (content s1) =
        sort_key (\<lambda>x. digit m x * R ^ m + (\<Sum>p<m. digit p x * R ^ p)) (content s)"
      using s1 sort_key_two_keys [of "\<lambda>x. \<Sum>p<m. digit p x * R ^ p" "R ^ m" "digit m" "content s"]
        number_less by simp
    then show "outcome (strict (kept s)) (one_pass m s1) (\<lambda>s'. ok s' \<and> kept s' = kept s \<and>
        content s' = sort_key (\<lambda>x. \<Sum>p<Suc m. digit p x * R ^ p) (content s))"
      using outcome_mono [OF pass_sorts [of s1 m]] s1 Suc.prems by (simp add: add.commute)
  qed
  then show ?case
    by (simp add: for_each_snoc)
qed

end

text \<open>The digits of a key make the key, up to \<open>TOTALBITS\<close>.\<close>

lemma key_of_digits:
  assumes "m \<le> PASS"
  shows "(\<Sum>p<m. shortkey p key * RADIX ^ p) = unat key mod RADIX ^ m"
  using assms
proof (induction m)
  case (Suc m)
  have "shortkey m key = unat key div RADIX ^ m mod RADIX"
    using Suc.prems by (simp add: shortkey_eq RADIX_def mult.commute flip: power_mult)
  then show ?case
    using Suc mod_mult2_eq [of "unat key" "RADIX ^ m" RADIX] by (simp add: mult.commute)
qed simp

end
