(* ===== verification/QH_Radix_Host.thy ===== *)
theory QH_Radix_Host
  imports QH_Radix_Order
begin

text \<open>
  The host side of the radix sort (\<open>src/test_module/radix_sort/lib/cl_radix_sort.c\<close>) over the part of
  the OpenCL API it uses. The device memory is a map from buffer handles to contents; every API call
  may fail, as the platform \<open>rx_cl\<close> decides from the number of calls before it, and a call that
  fails changes nothing. A launch runs the kernel with the device schedule that the platform gives
  for the call. \<open>assert\<close> is a fault of its own.
\<close>

section \<open>Parameters (cl_radix_sort_param.h)\<close>

definition ITEMS :: nat where "ITEMS = 64"
definition GROUPS :: nat where "GROUPS = 16"
definition HISTOSPLIT :: nat where "HISTOSPLIT = 512"
definition MAXINT :: u32 where "MAXINT = 2 ^ (TOTALBITS - 1)"

lemmas host_params = ITEMS_def GROUPS_def HISTOSPLIT_def MAXINT_def

section \<open>State\<close>

datatype kern = Histogram | Scanhistograms | Pastehistograms | Reorder | Transpose

text \<open>A kernel argument: a buffer, an integer, or a number of cells of local memory.\<close>

datatype karg = AMem nat | AInt nat | ALocal nat

text \<open>
  The platform: which calls succeed, the schedule of a launch, the contents of new buffers and of
  new heap blocks, which allocations succeed, and the files it can open.
\<close>

record platform =
  cl_ok :: "nat \<Rightarrow> bool"
  cl_dev :: "nat \<Rightarrow> gpu"
  fresh :: "nat \<Rightarrow> nat \<Rightarrow> u32 list"
  malloc_ok :: "nat \<Rightarrow> bool"
  files :: "string \<Rightarrow> string option"

record radix =
  rx_cl :: platform
  cl_calls :: nat
  mem :: "nat \<Rightarrow> u32 list option"
  next_mem :: nat
  kernels :: "kern \<Rightarrow> bool"
  kargs :: "kern \<Rightarrow> nat \<Rightarrow> karg option"
  h_keys :: "u32 list"
  h_checkKeys :: "u32 list"
  h_Permut :: "u32 list"
  nkeys :: nat
  nkeys_rounded :: nat
  d_inKeys :: nat
  d_outKeys :: nat
  d_inPermut :: nat
  d_outPermut :: nat
  d_Histograms :: nat
  d_globsum :: nat
  d_temp :: nat

section \<open>The API\<close>

definition assertR :: "bool \<Rightarrow> 's \<Rightarrow> 's res" where
  "assertR b st = (if b then Inr st else Inl Assert_failed)"

text \<open>A call whose only effect is its status.\<close>

definition cl_call :: "radix \<Rightarrow> bool \<times> radix" where
  "cl_call st = (cl_ok (rx_cl st) (cl_calls st), st\<lparr>cl_calls := Suc (cl_calls st)\<rparr>)"

text \<open>The pattern \<open>err = call; assert(err == CL_SUCCESS)\<close>.\<close>

definition cl_check :: "bool \<times> radix \<Rightarrow> radix res" where
  "cl_check r = assertR (fst r) (snd r)"

definition clCreateBuffer :: "nat \<Rightarrow> radix \<Rightarrow> bool \<times> nat \<times> radix" where
  "clCreateBuffer sz st = (
     let (ok, st) = cl_call st; m = next_mem st in
     if ok then (True, m, st\<lparr>mem := (mem st)(m \<mapsto> fresh (rx_cl st) m sz), next_mem := Suc m\<rparr>)
     else (False, 0, st))"

definition clEnqueueWriteBuffer :: "nat \<Rightarrow> nat \<Rightarrow> u32 list \<Rightarrow> radix \<Rightarrow> bool \<times> radix" where
  "clEnqueueWriteBuffer m off dat st = (
     let (ok, st) = cl_call st in
     case mem st m of
       Some b \<Rightarrow> if ok \<and> off + length dat \<le> length b
         then (True, st\<lparr>mem := (mem st)(m \<mapsto> take off b @ dat @ drop (off + length dat) b)\<rparr>)
         else (False, st)
     | None \<Rightarrow> (False, st))"

definition clEnqueueReadBuffer :: "nat \<Rightarrow> nat \<Rightarrow> radix \<Rightarrow> bool \<times> u32 list \<times> radix" where
  "clEnqueueReadBuffer m sz st = (
     let (ok, st) = cl_call st in
     case mem st m of
       Some b \<Rightarrow> if ok \<and> sz \<le> length b then (True, take sz b, st) else (False, [], st)
     | None \<Rightarrow> (False, [], st))"

definition set_karg :: "kern \<Rightarrow> nat \<Rightarrow> karg \<Rightarrow> (kern \<Rightarrow> nat \<Rightarrow> karg option) \<Rightarrow> kern \<Rightarrow> nat \<Rightarrow> karg option" where
  "set_karg k i a ka = ka(k := (ka k)(i \<mapsto> a))"

lemma set_karg_apply [simp]:
  "set_karg k i a ka k' i' = (if k' = k \<and> i' = i then Some a else ka k' i')"
  by (simp add: set_karg_def)

definition clSetKernelArg :: "kern \<Rightarrow> nat \<Rightarrow> karg \<Rightarrow> radix \<Rightarrow> bool \<times> radix" where
  "clSetKernelArg k i a st = (
     let (ok, st) = cl_call st in
     if ok \<and> kernels st k then (True, st\<lparr>kargs := set_karg k i a (kargs st)\<rparr>) else (False, st))"

text \<open>
  A launch with \<open>gs\<close> groups in each dimension and \<open>items\<close> items per group: \<open>None\<close> when an argument is missing or of another kind (\<open>CL_INVALID_KERNEL_ARGS\<close>), otherwise
  the memory after the kernel.
\<close>

definition run_kernel ::
  "kern \<Rightarrow> gpu \<Rightarrow> nat list \<Rightarrow> nat \<Rightarrow> (nat \<Rightarrow> karg option) \<Rightarrow> (nat \<Rightarrow> u32 list option) \<Rightarrow>
    (nat \<Rightarrow> u32 list option) option res" where
  "run_kernel k dev gs items a mm = (case k of
     Histogram \<Rightarrow> (case (a 0, a 1, a 2, a 3, a 4) of
       (Some (AMem dk), Some (AMem dh), Some (AInt pass), Some (ALocal ls), Some (AInt n)) \<Rightarrow>
         bindR (heap_get mm dk) (\<lambda>keys. bindR (heap_get mm dh) (\<lambda>h.
         bindR (histogram dev (gs ! 0) items keys pass ls n h) (\<lambda>h. Inr (Some (mm(dh \<mapsto> h))))))
     | _ \<Rightarrow> Inr None)
   | Scanhistograms \<Rightarrow> (case (a 0, a 1, a 2) of
       (Some (AMem dh), Some (ALocal ls), Some (AMem dg)) \<Rightarrow>
         bindR (heap_get mm dh) (\<lambda>h. bindR (heap_get mm dg) (\<lambda>g.
         bindR (scanhistograms dev (gs ! 0) items ls (h, g)) (\<lambda>(h, g). Inr (Some (mm(dh \<mapsto> h, dg \<mapsto> g))))))
     | _ \<Rightarrow> Inr None)
   | Pastehistograms \<Rightarrow> (case (a 0, a 1) of
       (Some (AMem dh), Some (AMem dg)) \<Rightarrow>
         bindR (heap_get mm dh) (\<lambda>h. bindR (heap_get mm dg) (\<lambda>g.
         bindR (pastehistograms dev (gs ! 0) items g h) (\<lambda>h. Inr (Some (mm(dh \<mapsto> h))))))
     | _ \<Rightarrow> Inr None)
   | Reorder \<Rightarrow> (case (a 0, a 1, a 2, a 3, a 4, a 5, a 6, a 7) of
       (Some (AMem di), Some (AMem do), Some (AMem dh), Some (AInt pass), Some (AMem pi), Some (AMem po),
        Some (ALocal ls), Some (AInt n)) \<Rightarrow>
         bindR (heap_get mm di) (\<lambda>ik. bindR (heap_get mm do) (\<lambda>ok. bindR (heap_get mm dh) (\<lambda>h.
         bindR (heap_get mm pi) (\<lambda>ip. bindR (heap_get mm po) (\<lambda>op.
         bindR (reorder dev (gs ! 0) items ik h pass ip ls n (ok, op)) (\<lambda>(ok, op).
         Inr (Some (mm(do \<mapsto> ok, po \<mapsto> op)))))))))
     | _ \<Rightarrow> Inr None)
   | Transpose \<Rightarrow> (case (a 0, a 1, a 2, a 3, a 4, a 5, a 6, a 7, a 8) of
       (Some (AMem iv), Some (AMem ov), Some (AInt nbcol), Some (AInt nbrow), Some (AMem pi), Some (AMem po),
        Some (ALocal ms), Some (ALocal ps), Some (AInt tilesize)) \<Rightarrow>
         bindR (heap_get mm iv) (\<lambda>iv. bindR (heap_get mm ov) (\<lambda>out.
         bindR (heap_get mm pi) (\<lambda>ip. bindR (heap_get mm po) (\<lambda>op.
         bindR (transpose_kernel dev (gs ! 0) (gs ! 1) items iv nbcol nbrow ip ms ps tilesize (out, op))
           (\<lambda>(out, op). Inr (Some (mm(ov \<mapsto> out, po \<mapsto> op))))))))
     | _ \<Rightarrow> Inr None))"

text \<open>The sizes of the range and of its groups are given for each dimension.\<close>

definition clEnqueueNDRangeKernel ::
  "kern \<Rightarrow> nat list \<Rightarrow> nat list \<Rightarrow> radix \<Rightarrow> (bool \<times> radix) res" where
  "clEnqueueNDRangeKernel k gsize lsize st = (
     let dev = cl_dev (rx_cl st) (cl_calls st); (ok, st) = cl_call st in
     if ok \<and> kernels st k \<and> list_all2 (\<lambda>g l. l dvd g) gsize lsize then
       bindR (run_kernel k dev (map2 (div) gsize lsize) (prod_list lsize) (kargs st k) (mem st)) (\<lambda>r.
       case r of None \<Rightarrow> Inr (False, st) | Some mm \<Rightarrow> Inr (True, st\<lparr>mem := mm\<rparr>))
     else Inr (False, st))"

section \<open>Building the program\<close>

text \<open>
  \<open>oclLoadProgSource\<close>: the preamble and the contents of the file with its length; \<open>NULL\<close> when the file
  cannot be opened, or is empty: then \<open>fread\<close> of one block of no bytes returns 0. Memory that cannot
  be had is written through \<open>NULL\<close>.
\<close>

definition oclLoadProgSource :: "platform \<Rightarrow> bool \<Rightarrow> string \<Rightarrow> string \<Rightarrow> (string \<times> nat) option res" where
  "oclLoadProgSource pl got cFilename cPreamble = (case files pl cFilename of
     None \<Rightarrow> Inr None
   | Some src \<Rightarrow>
       if \<not> got then Inl Null_deref
       else if src = [] then Inr None
       else Inr (Some (cPreamble @ src, length src + length cPreamble)))"

text \<open>A creation call for the kernel \<open>k\<close>; it fails when the program has none of that name.\<close>

definition clCreateKernel :: "kern \<Rightarrow> radix \<Rightarrow> radix res" where
  "clCreateKernel k st = bindR (cl_check (cl_call st)) (\<lambda>st. Inr (st\<lparr>kernels := (kernels st)(k := True)\<rparr>))"

definition build_cl_radix_sort :: "radix \<Rightarrow> radix res" where
  "build_cl_radix_sort st =
     bindR (cl_check (cl_call st)) (\<lambda>st.
     bindR (oclLoadProgSource (rx_cl st) (malloc_ok (rx_cl st) 0) ''./cl_radix_sort.cl'' []) (\<lambda>prog.
     let (ok, st) = cl_call st in
     bindR (assertR (ok \<and> prog \<noteq> None) st) (\<lambda>st.
     bindR (cl_check (cl_call st)) (\<lambda>st.
     bindR (clCreateKernel Histogram st) (\<lambda>st.
     bindR (clCreateKernel Scanhistograms st) (\<lambda>st.
     bindR (clCreateKernel Pastehistograms st) (\<lambda>st.
     bindR (clCreateKernel Reorder st) (clCreateKernel Transpose))))))))"

section \<open>Resizing and initialisation\<close>

definition cl_radix_resize :: "nat \<Rightarrow> radix \<Rightarrow> radix res" where
  "cl_radix_resize nn st = (
     let st = st\<lparr>nkeys := nn\<rparr> in
     bindR (assertR (nn \<le> nkeys st) st) (\<lambda>st.
     let st = st\<lparr>nkeys := nn\<rparr>; reste = nkeys st mod (GROUPS * ITEMS); st = st\<lparr>nkeys_rounded := nkeys st\<rparr>;
         pad = replicate (GROUPS * ITEMS) (MAXINT - 1) in
     if reste \<noteq> 0 then
       let st = st\<lparr>nkeys_rounded := nkeys st - reste + GROUPS * ITEMS\<rparr> in
       bindR (assertR (nkeys_rounded st \<le> nkeys st) st) (\<lambda>st.
       cl_check (clEnqueueWriteBuffer (d_inKeys st) (nkeys st) (take (GROUPS * ITEMS - reste) pad) st))
     else Inr st))"

text \<open>The integer part of the binary logarithm, for the checks that the sizes are powers of two.\<close>

fun ilog2 :: "nat \<Rightarrow> nat" where
  "ilog2 n = (if n \<le> 1 then 0 else Suc (ilog2 (n div 2)))"

definition create_buffer :: "nat \<Rightarrow> radix \<Rightarrow> (nat \<times> radix) res" where
  "create_buffer sz st = (
     let (ok, m, st) = clCreateBuffer sz st in bindR (assertR ok st) (\<lambda>st. Inr (m, st)))"

text \<open>The loop that copies the keys and makes the first permutation.\<close>

definition init_host :: "nat \<Rightarrow> radix \<Rightarrow> radix res" where
  "init_host n st = (
     let pl = rx_cl st in
     if 0 < n \<and> \<not> (malloc_ok pl 1 \<and> malloc_ok pl 2) then Inl Null_deref
     else bindR (for_each [0..<n] (\<lambda>i (ck, pm).
       bindR (arr_set pm i (of_nat i)) (\<lambda>pm.
       bindR (arr_get (h_keys st) i) (\<lambda>key.
       bindR (arr_set ck i key) (\<lambda>ck. Inr (ck, pm))))) (fresh pl 1 n, fresh pl 2 n)) (\<lambda>(ck, pm).
     Inr (st\<lparr>h_checkKeys := ck, h_Permut := pm\<rparr>)))"

text \<open>The buffers for keys and permutation, and the copies to the device.\<close>

definition init_buffers :: "nat \<Rightarrow> radix \<Rightarrow> radix res" where
  "init_buffers n st =
     bindR (create_buffer n st) (\<lambda>(m, st). let st = st\<lparr>d_inKeys := m\<rparr> in
     bindR (create_buffer n st) (\<lambda>(m, st). let st = st\<lparr>d_outKeys := m\<rparr> in
     bindR (create_buffer n st) (\<lambda>(m, st). let st = st\<lparr>d_inPermut := m\<rparr> in
     bindR (create_buffer n st) (\<lambda>(m, st). let st = st\<lparr>d_outPermut := m\<rparr> in
     bindR (cl_check (clEnqueueWriteBuffer (d_inKeys st) 0 (take n (h_keys st)) st)) (\<lambda>st.
     cl_check (clEnqueueWriteBuffer (d_inPermut st) 0 (take n (h_Permut st)) st))))))"

text \<open>The buffers of the histogram and the arguments that never change.\<close>

definition init_histogram :: "nat \<Rightarrow> radix \<Rightarrow> radix res" where
  "init_histogram n st =
     bindR (create_buffer (RADIX * GROUPS * ITEMS) st) (\<lambda>(m, st). let st = st\<lparr>d_Histograms := m\<rparr> in
     bindR (create_buffer HISTOSPLIT st) (\<lambda>(m, st). let st = st\<lparr>d_globsum := m\<rparr> in
     bindR (create_buffer HISTOSPLIT st) (\<lambda>(m, st). let st = st\<lparr>d_temp := m\<rparr> in
     bindR (cl_radix_resize n st) (\<lambda>st.
     bindR (cl_check (clSetKernelArg Histogram 1 (AMem (d_Histograms st)) st)) (\<lambda>st.
     bindR (cl_check (clSetKernelArg Histogram 3 (ALocal (RADIX * ITEMS)) st)) (\<lambda>st.
     bindR (cl_check (clSetKernelArg Pastehistograms 0 (AMem (d_Histograms st)) st)) (\<lambda>st.
     bindR (cl_check (clSetKernelArg Pastehistograms 1 (AMem (d_globsum st)) st)) (\<lambda>st.
     bindR (cl_check (clSetKernelArg Reorder 2 (AMem (d_Histograms st)) st)) (\<lambda>st.
     cl_check (clSetKernelArg Reorder 6 (ALocal (RADIX * ITEMS)) st))))))))))"

definition init_cl_radix_sort :: "nat \<Rightarrow> radix \<Rightarrow> radix res" where
  "init_cl_radix_sort n st = (
     let st = st\<lparr>nkeys_rounded := n\<rparr> in
     bindR (assertR (TOTALBITS mod BITS = 0) st) (\<lambda>st.
     bindR (assertR (n mod (GROUPS * ITEMS) = 0) st) (\<lambda>st.
     bindR (assertR (GROUPS * ITEMS * RADIX mod HISTOSPLIT = 0) st) (\<lambda>st.
     bindR (assertR (2 ^ ilog2 GROUPS = GROUPS) st) (\<lambda>st.
     bindR (assertR (2 ^ ilog2 ITEMS = ITEMS) st) (\<lambda>st.
     bindR (assertR (MAXINT \<noteq> 0) st) (\<lambda>st.
     bindR (init_host n st) (\<lambda>st.
     bindR (init_buffers n st) (init_histogram n)))))))))"

section \<open>One pass\<close>

text \<open>A launch whose status is checked, and the two profiling calls after it.\<close>

definition launch :: "kern \<Rightarrow> nat list \<Rightarrow> nat list \<Rightarrow> radix \<Rightarrow> radix res" where
  "launch k gsize lsize st = bindR (clEnqueueNDRangeKernel k gsize lsize st) cl_check"

definition profile :: "radix \<Rightarrow> radix res" where
  "profile st = bindR (cl_check (cl_call st)) (\<lambda>st. cl_check (cl_call st))"

definition cl_radix_histogram :: "nat \<Rightarrow> radix \<Rightarrow> radix res" where
  "cl_radix_histogram pass st = (
     let nblocitems = ITEMS; nbitems = GROUPS * ITEMS in
     bindR (assertR (RADIX = 2 ^ BITS) st) (\<lambda>st.
     bindR (cl_check (clSetKernelArg Histogram 0 (AMem (d_inKeys st)) st)) (\<lambda>st.
     bindR (cl_check (clSetKernelArg Histogram 2 (AInt pass) st)) (\<lambda>st.
     bindR (assertR (nkeys_rounded st mod (GROUPS * ITEMS) = 0) st) (\<lambda>st.
     bindR (assertR (nkeys_rounded st \<le> nkeys st) st) (\<lambda>st.
     bindR (cl_check (clSetKernelArg Histogram 4 (AInt (nkeys_rounded st)) st)) (\<lambda>st.
     bindR (launch Histogram [nbitems] [nblocitems] st) profile)))))))"

text \<open>The status of the call that sets the local memory of the scan is not looked at.\<close>

definition cl_radix_scan_histogram :: "radix \<Rightarrow> radix res" where
  "cl_radix_scan_histogram st = (
     let nbitems = RADIX * GROUPS * ITEMS div 2; nblocitems = nbitems div HISTOSPLIT;
         maxmemcache = max HISTOSPLIT (ITEMS * GROUPS * RADIX div HISTOSPLIT) in
     bindR (cl_check (clSetKernelArg Scanhistograms 0 (AMem (d_Histograms st)) st)) (\<lambda>st.
     let st = snd (clSetKernelArg Scanhistograms 1 (ALocal maxmemcache) st) in
     bindR (cl_check (clSetKernelArg Scanhistograms 2 (AMem (d_globsum st)) st)) (\<lambda>st.
     bindR (launch Scanhistograms [nbitems] [nblocitems] st) (\<lambda>st.
     bindR (profile st) (\<lambda>st.
     bindR (cl_check (clSetKernelArg Scanhistograms 0 (AMem (d_globsum st)) st)) (\<lambda>st.
     bindR (cl_check (clSetKernelArg Scanhistograms 2 (AMem (d_temp st)) st)) (\<lambda>st.
     let nbitems = HISTOSPLIT div 2; nblocitems = nbitems in
     bindR (launch Scanhistograms [nbitems] [nblocitems] st) (\<lambda>st.
     bindR (profile st) (\<lambda>st.
     let nbitems = RADIX * GROUPS * ITEMS div 2; nblocitems = nbitems div HISTOSPLIT in
     bindR (launch Pastehistograms [nbitems] [nblocitems] st) profile)))))))))"

definition swap_buffers :: "radix \<Rightarrow> radix" where
  "swap_buffers st = st\<lparr>d_inKeys := d_outKeys st, d_outKeys := d_inKeys st,
     d_inPermut := d_outPermut st, d_outPermut := d_inPermut st\<rparr>"

definition cl_radix_reorder :: "nat \<Rightarrow> radix \<Rightarrow> radix res" where
  "cl_radix_reorder pass st = (
     let nblocitems = ITEMS; nbitems = GROUPS * ITEMS in
     bindR (cl_check (clSetKernelArg Reorder 0 (AMem (d_inKeys st)) st)) (\<lambda>st.
     bindR (cl_check (clSetKernelArg Reorder 1 (AMem (d_outKeys st)) st)) (\<lambda>st.
     bindR (cl_check (clSetKernelArg Reorder 3 (AInt pass) st)) (\<lambda>st.
     bindR (cl_check (clSetKernelArg Reorder 4 (AMem (d_inPermut st)) st)) (\<lambda>st.
     bindR (cl_check (clSetKernelArg Reorder 5 (AMem (d_outPermut st)) st)) (\<lambda>st.
     bindR (cl_check (clSetKernelArg Reorder 6 (ALocal (RADIX * ITEMS)) st)) (\<lambda>st.
     bindR (assertR (nkeys_rounded st mod (GROUPS * ITEMS) = 0) st) (\<lambda>st.
     bindR (cl_check (clSetKernelArg Reorder 7 (AInt (nkeys_rounded st)) st)) (\<lambda>st.
     bindR (assertR (RADIX = 2 ^ BITS) st) (\<lambda>st.
     bindR (launch Reorder [nbitems] [nblocitems] st) (\<lambda>st.
     bindR (profile st) (\<lambda>st. Inr (swap_buffers st)))))))))))))"

section \<open>Transposition and the sort\<close>

text \<open>The status of the launch is not looked at.\<close>

definition cl_radix_transpose :: "nat \<Rightarrow> nat \<Rightarrow> radix \<Rightarrow> radix res" where
  "cl_radix_transpose nbrow nbcol st = (
     let tilesize = 32; tilesize = (if nbrow mod tilesize \<noteq> 0 then 1 else tilesize);
         tilesize = (if nbcol mod tilesize \<noteq> 0 then 1 else tilesize) in
     bindR (cl_check (clSetKernelArg Transpose 0 (AMem (d_inKeys st)) st)) (\<lambda>st.
     bindR (cl_check (clSetKernelArg Transpose 1 (AMem (d_outKeys st)) st)) (\<lambda>st.
     bindR (cl_check (clSetKernelArg Transpose 2 (AInt nbcol) st)) (\<lambda>st.
     bindR (cl_check (clSetKernelArg Transpose 3 (AInt nbrow) st)) (\<lambda>st.
     bindR (cl_check (clSetKernelArg Transpose 4 (AMem (d_inPermut st)) st)) (\<lambda>st.
     bindR (cl_check (clSetKernelArg Transpose 5 (AMem (d_outPermut st)) st)) (\<lambda>st.
     bindR (cl_check (clSetKernelArg Transpose 6 (ALocal (tilesize * tilesize)) st)) (\<lambda>st.
     bindR (cl_check (clSetKernelArg Transpose 7 (ALocal (tilesize * tilesize)) st)) (\<lambda>st.
     bindR (cl_check (clSetKernelArg Transpose 8 (AInt tilesize) st)) (\<lambda>st.
     bindR (assertR (nbrow mod tilesize = 0) st) (\<lambda>st.
     bindR (assertR (nbcol mod tilesize = 0) st) (\<lambda>st.
     bindR (clEnqueueNDRangeKernel Transpose [nbrow div tilesize, nbcol] [1, tilesize] st) (\<lambda>(_, st).
     profile (swap_buffers st))))))))))))))"

text \<open>One round of the loop of \<open>cl_radix_sort\<close>.\<close>

definition radix_pass :: "nat \<Rightarrow> radix \<Rightarrow> radix res" where
  "radix_pass pass st =
     bindR (cl_radix_histogram pass st) (\<lambda>st. bindR (cl_radix_scan_histogram st) (cl_radix_reorder pass))"

definition cl_radix_sort :: "radix \<Rightarrow> radix res" where
  "cl_radix_sort st =
     bindR (assertR (nkeys_rounded st \<le> nkeys st) st) (\<lambda>st.
     bindR (assertR (nkeys st \<le> nkeys_rounded st) st) (\<lambda>st.
     let nbcol = nkeys_rounded st div (GROUPS * ITEMS); nbrow = GROUPS * ITEMS in
     bindR (if TRANSPOSE then cl_radix_transpose nbrow nbcol st else Inr st) (\<lambda>st.
     bindR (for_each [0..<PASS] radix_pass st) (\<lambda>st.
     if TRANSPOSE then cl_radix_transpose nbcol nbrow st else Inr st))))"

section \<open>Transfers and the check\<close>

definition cl_radix_recup_gpu :: "radix \<Rightarrow> radix res" where
  "cl_radix_recup_gpu st = (
     let (ok, dat, st) = clEnqueueReadBuffer (d_inKeys st) (nkeys st) st in
     if ok \<and> length (h_keys st) < nkeys st then Inl Buffer_overflow
     else bindR (assertR ok st) (\<lambda>st. Inr (st\<lparr>h_keys := dat @ drop (nkeys st) (h_keys st)\<rparr>)))"

definition cl_radix_host2gpu :: "radix \<Rightarrow> radix res" where
  "cl_radix_host2gpu st = (
     if length (h_keys st) < nkeys st then Inl Out_of_bounds
     else bindR (cl_check (clEnqueueWriteBuffer (d_inKeys st) 0 (take (nkeys st) (h_keys st)) st)) (\<lambda>st.
     if length (h_Permut st) < nkeys st then Inl Out_of_bounds
     else cl_check (clEnqueueWriteBuffer (d_inPermut st) 0 (take (nkeys st) (h_Permut st)) st)))"

text \<open>
  The check after a sort returns the positions for which it prints an error of the permutation. The
  bound of the first loop, \<open>nkeys - 1\<close>, is computed in \<open>uint\<close>. Printing an error reads the key after
  the position too.
\<close>

definition check_order :: "radix \<Rightarrow> unit res" where
  "check_order st = for_each [0..<unat (of_nat (nkeys st) - 1 :: u32)] (\<lambda>i _.
     bindR (arr_get (h_keys st) i) (\<lambda>a. bindR (arr_get (h_keys st) (i + 1)) (\<lambda>b.
     assertR (a \<le> b) ()))) ()"

definition check_permut :: "radix \<Rightarrow> nat list res" where
  "check_permut st = for_each [0..<nkeys st] (\<lambda>i out.
     bindR (arr_get (h_keys st) i) (\<lambda>a. bindR (arr_get (h_Permut st) i) (\<lambda>p.
     bindR (arr_get (h_checkKeys st) (unat p)) (\<lambda>c.
     if a \<noteq> c then bindR (arr_get (h_keys st) (i + 1)) (\<lambda>_. Inr (out @ [i])) else Inr out)))) []"

definition cl_radix_check :: "radix \<Rightarrow> (nat list \<times> radix) res" where
  "cl_radix_check st =
     bindR (cl_radix_recup_gpu st) (\<lambda>st.
     bindR (check_order st) (\<lambda>_.
     bindR (if PERMUT then check_permut st else Inr []) (\<lambda>out. Inr (out, st))))"

section \<open>The service (libsrv_radix.c)\<close>

text \<open>
  \<open>radix_launch\<close> sorts the memory of the request, of which \<open>mmap_size\<close> gives the number of keys, in
  place; the value returned is 0.
\<close>

definition radix_launch :: "u32 list \<Rightarrow> nat \<Rightarrow> radix \<Rightarrow> (int \<times> radix) res" where
  "radix_launch mmap_addr mmap_size st = (
     let st = st\<lparr>h_keys := mmap_addr\<rparr> in
     bindR (init_cl_radix_sort mmap_size st) (\<lambda>st.
     bindR (cl_radix_sort st) (\<lambda>st.
     bindR (cl_radix_recup_gpu st) (\<lambda>st. Inr (0, st)))))"

end
