(* ===== verification/QH_Radix.thy ===== *)
theory QH_Radix
  imports QH_Radix_Host
begin

text \<open>
  Correctness of the radix sort: every pass of the host code is a stable sort by a digit, whatever
  the schedule of the device, and a run in which no API call fails ends with the keys of the request
  sorted by their low \<open>TOTALBITS\<close> bits.
\<close>

section \<open>States\<close>

definition has_buf :: "radix \<Rightarrow> nat \<Rightarrow> nat \<Rightarrow> bool" where
  "has_buf st m n \<longleftrightarrow> (case mem st m of Some b \<Rightarrow> length b = n | None \<Rightarrow> False)"

definition buf :: "radix \<Rightarrow> nat \<Rightarrow> u32 list" where
  "buf st m = (case mem st m of Some b \<Rightarrow> b | None \<Rightarrow> [])"

definition cl_buffers :: "radix \<Rightarrow> nat list" where
  "cl_buffers st = [d_inKeys st, d_outKeys st, d_inPermut st, d_outPermut st,
     d_Histograms st, d_globsum st, d_temp st]"

text \<open>The arguments set once in \<open>init_cl_radix_sort\<close>, and the local memory of the scan.\<close>

definition fixed_args :: "radix \<Rightarrow> bool" where
  "fixed_args st \<longleftrightarrow>
     kargs st Histogram 1 = Some (AMem (d_Histograms st)) \<and>
     kargs st Histogram 3 = Some (ALocal (RADIX * ITEMS)) \<and>
     kargs st Pastehistograms 0 = Some (AMem (d_Histograms st)) \<and>
     kargs st Pastehistograms 1 = Some (AMem (d_globsum st)) \<and>
     kargs st Reorder 2 = Some (AMem (d_Histograms st)) \<and>
     kargs st Reorder 6 = Some (ALocal (RADIX * ITEMS)) \<and>
     kargs st Scanhistograms 1 \<in> {None, Some (ALocal HISTOSPLIT)}"

definition fair_platform :: "platform \<Rightarrow> bool" where
  "fair_platform pl \<longleftrightarrow> (\<forall>n. fair_gpu (cl_dev pl n)) \<and> (\<forall>m n. length (fresh pl m n) = n)"

definition radix_ok :: "radix \<Rightarrow> bool" where
  "radix_ok st \<longleftrightarrow> fair_platform (rx_cl st) \<and> kernels st = (\<lambda>_. True) \<and> fixed_args st \<and>
     distinct (cl_buffers st) \<and>
     nkeys_rounded st = nkeys st \<and> GROUPS * ITEMS dvd nkeys st \<and> nkeys st < 2 ^ 31 \<and>
     has_buf st (d_inKeys st) (nkeys st) \<and> has_buf st (d_outKeys st) (nkeys st) \<and>
     has_buf st (d_inPermut st) (nkeys st) \<and> has_buf st (d_outPermut st) (nkeys st) \<and>
     has_buf st (d_Histograms st) (RADIX * (GROUPS * ITEMS)) \<and>
     has_buf st (d_globsum st) HISTOSPLIT \<and> has_buf st (d_temp st) HISTOSPLIT"

text \<open>No API call fails.\<close>

definition all_ok :: "radix \<Rightarrow> bool" where
  "all_ok st \<longleftrightarrow> (\<forall>n. cl_ok (rx_cl st) n)"

text \<open>The keys on the device with their permutation.\<close>

definition device_keys :: "radix \<Rightarrow> (u32 \<times> u32) list" where
  "device_keys st = zip (buf st (d_inKeys st)) (buf st (d_inPermut st))"

text \<open>Everything but the device memory, the arguments of kernels and the count of calls is kept.\<close>

definition frame :: "radix \<Rightarrow> radix \<Rightarrow> bool" where
  "frame st st' \<longleftrightarrow> rx_cl st' = rx_cl st \<and> next_mem st' = next_mem st \<and> kernels st' = kernels st \<and>
     h_keys st' = h_keys st \<and> h_checkKeys st' = h_checkKeys st \<and> h_Permut st' = h_Permut st \<and>
     nkeys st' = nkeys st \<and> nkeys_rounded st' = nkeys_rounded st \<and> cl_buffers st' = cl_buffers st"

lemma has_buf_obtain:
  assumes "has_buf st m n"
  shows "mem st m = Some (buf st m)" and "length (buf st m) = n"
  using assms by (auto simp: has_buf_def buf_def split: option.splits)

section \<open>Rules for the API\<close>

lemma outcome_assert:
  "P \<Longrightarrow> outcome b (f st) Q \<Longrightarrow> outcome b (bindR (assertR P st) f) Q"
  by (simp add: assertR_def)

text \<open>
  The states are built with the update functions of the record, in which the old state occurs once.
\<close>

lemma api_updates:
  "st\<lparr>cl_calls := Suc (cl_calls st)\<rparr> = cl_calls_update Suc st"
  "st\<lparr>cl_calls := Suc (Suc (cl_calls st))\<rparr> = cl_calls_update (Suc \<circ> Suc) st"
  "(cl_calls_update Suc st)\<lparr>kargs := set_karg k i a (kargs st)\<rparr> =
    kargs_update (set_karg k i a) (cl_calls_update Suc st)"
  by simp_all

lemma outcome_call:
  assumes "b \<longrightarrow> all_ok st" and "outcome b (f (cl_calls_update Suc st)) Q"
  shows "outcome b (bindR (cl_check (cl_call st)) f) Q"
  using assms by (auto simp: cl_check_def cl_call_def assertR_def all_ok_def api_updates)

lemma outcome_set_arg:
  assumes "b \<longrightarrow> all_ok st" and "kernels st k"
    and "outcome b (f (kargs_update (set_karg k i a) (cl_calls_update Suc st))) Q"
  shows "outcome b (bindR (cl_check (clSetKernelArg k i a st)) f) Q"
  using assms by (auto simp: cl_check_def clSetKernelArg_def cl_call_def assertR_def all_ok_def api_updates)

lemma outcome_launch:
  assumes "b \<longrightarrow> all_ok st" and "kernels st k" and "l dvd g"
    and "run_kernel k (cl_dev (rx_cl st) (cl_calls st)) [g div l] l (kargs st k) (mem st) = Inr (Some mm)"
    and "outcome b (f (mem_update (\<lambda>_. mm) (cl_calls_update Suc st))) Q"
  shows "outcome b (bindR (launch k [g] [l] st) f) Q"
  using assms
  by (auto simp: launch_def clEnqueueNDRangeKernel_def cl_call_def cl_check_def assertR_def all_ok_def api_updates)

lemma outcome_launch_refused:
  assumes "\<not> b" and "run_kernel k (cl_dev (rx_cl st) (cl_calls st)) [g div l] l (kargs st k) (mem st) = Inr None"
  shows "outcome b (bindR (launch k [g] [l] st) f) Q"
  using assms
  by (auto simp: launch_def clEnqueueNDRangeKernel_def cl_call_def cl_check_def assertR_def api_updates)

lemma outcome_profile:
  assumes "b \<longrightarrow> all_ok st" and "outcome b (f (cl_calls_update (Suc \<circ> Suc) st)) Q"
  shows "outcome b (bindR (profile st) f) Q"
  using assms by (auto simp: profile_def cl_check_def cl_call_def assertR_def all_ok_def api_updates)

lemma outcome_profile_end:
  assumes "b \<longrightarrow> all_ok st" and "Q (cl_calls_update (Suc \<circ> Suc) st)"
  shows "outcome b (profile st) Q"
  using assms by (auto simp: profile_def cl_check_def cl_call_def assertR_def all_ok_def api_updates)

lemma all_ok_updates [simp]:
  "all_ok (cl_calls_update f st) = all_ok st" "all_ok (kargs_update g st) = all_ok st"
  "all_ok (mem_update h st) = all_ok st"
  by (simp_all add: all_ok_def)

section \<open>One pass\<close>

text \<open>The histogram of the keys on the device, and its exclusive prefix sums.\<close>

definition key_histogram :: "nat \<Rightarrow> u32 list \<Rightarrow> u32 list" where
  "key_histogram pass keys = map (\<lambda>j. of_nat (chunk_count pass keys (length keys div GROUPS div ITEMS)
     (j mod (GROUPS * ITEMS)) (j div (GROUPS * ITEMS)))) [0..<RADIX * (GROUPS * ITEMS)]"

lemma radix_okD:
  assumes "radix_ok st"
  shows "mem st (d_inKeys st) = Some (buf st (d_inKeys st))" "length (buf st (d_inKeys st)) = nkeys st"
    "mem st (d_outKeys st) = Some (buf st (d_outKeys st))" "length (buf st (d_outKeys st)) = nkeys st"
    "mem st (d_inPermut st) = Some (buf st (d_inPermut st))" "length (buf st (d_inPermut st)) = nkeys st"
    "mem st (d_outPermut st) = Some (buf st (d_outPermut st))" "length (buf st (d_outPermut st)) = nkeys st"
    "mem st (d_Histograms st) = Some (buf st (d_Histograms st))"
    "length (buf st (d_Histograms st)) = RADIX * (GROUPS * ITEMS)"
    "mem st (d_globsum st) = Some (buf st (d_globsum st))" "length (buf st (d_globsum st)) = HISTOSPLIT"
    "mem st (d_temp st) = Some (buf st (d_temp st))" "length (buf st (d_temp st)) = HISTOSPLIT"
  using assms has_buf_obtain unfolding radix_ok_def by blast+

lemma keys_in_chunks: "GROUPS * ITEMS dvd n \<Longrightarrow> GROUPS * ITEMS * (n div GROUPS div ITEMS) = n"
  by (auto simp: host_params elim!: dvdE)

lemma cl_radix_histogram_result:
  assumes ok: "radix_ok st"
  shows "outcome (all_ok st) (cl_radix_histogram pass st) (\<lambda>st'. frame st st' \<and> fixed_args st' \<and>
    mem st' = (mem st)(d_Histograms st \<mapsto> key_histogram pass (buf st (d_inKeys st))))"
proof -
  note d = radix_okD [OF ok]
  have st: "fair_platform (rx_cl st)" "kernels st = (\<lambda>_. True)" "fixed_args st" "nkeys_rounded st = nkeys st"
    "GROUPS * ITEMS dvd nkeys st"
    using ok by (simp_all add: radix_ok_def)
  have run: "histogram (cl_dev (rx_cl st) c) GROUPS ITEMS (buf st (d_inKeys st)) pass (RADIX * ITEMS) (nkeys st)
      (buf st (d_Histograms st)) = Inr (key_histogram pass (buf st (d_inKeys st)))" for c
    using histogram_result [of "cl_dev (rx_cl st) c" ITEMS "RADIX * ITEMS" GROUPS "nkeys st" "buf st (d_inKeys st)"
        "buf st (d_Histograms st)" pass] st(1) d(2,10) keys_in_chunks [OF st(5)]
    by (simp add: key_histogram_def fair_platform_def)
  have gi: "GROUPS * ITEMS div ITEMS = GROUPS"
    by (simp add: host_params)
  show ?thesis
    unfolding cl_radix_histogram_def Let_def
    by (intro outcome_assert outcome_set_arg outcome_profile_end
        outcome_launch [where mm = "(mem st)(d_Histograms st \<mapsto> key_histogram pass (buf st (d_inKeys st)))"])
      (use st(3,4,5) d run in \<open>simp_all add: st(2) all_ok_def RADIX_def run_kernel_def fixed_args_def gi heap_get_ok
        frame_def cl_buffers_def\<close>)
qed

lemma scan_by_blocks:
  assumes "length h = 512 * 64"
  shows "map (\<lambda>j. block_scan 64 h ! j + block_scan 512 (map (block_sums 64 h) [0..<512]) ! (j div 64))
      [0..<length h] = prefix_sums h"
proof (rule nth_equalityI)
  fix j
  assume "j < length (map (\<lambda>j. block_scan 64 h ! j + block_scan 512 (map (block_sums 64 h) [0..<512]) ! (j div 64))
      [0..<length h])"
  then have j: "j < length h" "j div 64 < 512"
    using assms by simp_all
  then have "block_scan 512 (map (block_sums 64 h) [0..<512]) ! (j div 64) = (\<Sum>g < j div 64. block_sums 64 h g)"
    by (simp add: block_scan_def lessThan_atLeast0)
  then show "map (\<lambda>j. block_scan 64 h ! j + block_scan 512 (map (block_sums 64 h) [0..<512]) ! (j div 64))
      [0..<length h] ! j = prefix_sums h ! j"
    using j prefix_sums_by_blocks [OF j(1), of 64] by simp
qed simp

lemma cl_radix_scan_histogram_result:
  assumes ok: "radix_ok st"
  shows "outcome (all_ok st) (cl_radix_scan_histogram st) (\<lambda>st'. frame st st' \<and> fixed_args st' \<and>
    (\<exists>g t. length g = HISTOSPLIT \<and> length t = HISTOSPLIT \<and>
      mem st' = (mem st)(d_Histograms st \<mapsto> prefix_sums (buf st (d_Histograms st)), d_globsum st \<mapsto> g, d_temp st \<mapsto> t)))"
proof -
  note d = radix_okD [OF ok]
  let ?h = "buf st (d_Histograms st)"
  define g1 where "g1 = map (block_sums 64 ?h) [0..<512]"
  define g2 where "g2 = block_scan 512 g1"
  define t where "t = map (\<lambda>i. if i < 1 then block_sums 512 g1 i else buf st (d_temp st) ! i) [0..<512]"
  have st: "fair_platform (rx_cl st)" "kernels st = (\<lambda>_. True)" "fixed_args st" "distinct (cl_buffers st)"
    using ok by (simp_all add: radix_ok_def)
  have sizes: "16384 div HISTOSPLIT = 32" "RADIX * GROUPS * ITEMS div 2 div HISTOSPLIT = 32" "RADIX * GROUPS * ITEMS div 2 = 16384"
    "HISTOSPLIT div 2 = 256" "max HISTOSPLIT (ITEMS * GROUPS * RADIX div HISTOSPLIT) = 512"
    by (simp_all add: host_params param_defs)
  have lens: "length ?h = 512 * 64" "length (buf st (d_globsum st)) = 512" "length (buf st (d_temp st)) = 512"
    using d by (simp_all add: host_params param_defs)
  have r1: "scanhistograms (cl_dev (rx_cl st) c) 512 32 512 (?h, buf st (d_globsum st)) =
      Inr (block_scan 64 ?h, g1)" for c
    using scanhistograms_result [of "cl_dev (rx_cl st) c" 32 5 512 ?h 512 "buf st (d_globsum st)"] st(1) lens
    by (simp add: fair_platform_def g1_def cong: map_cong)
  have r2: "scanhistograms (cl_dev (rx_cl st) c) 1 256 512 (g1, buf st (d_temp st)) = Inr (g2, t)" for c
    using scanhistograms_result [of "cl_dev (rx_cl st) c" 256 8 512 g1 1 "buf st (d_temp st)"] st(1) lens
    by (simp add: fair_platform_def g2_def g1_def t_def)
  have r3: "pastehistograms (cl_dev (rx_cl st) c) 512 32 g2 (block_scan 64 ?h) = Inr (prefix_sums ?h)" for c
    using pastehistograms_result [of "cl_dev (rx_cl st) c" 32 "block_scan 64 ?h" 512 g2] st(1)
      scan_by_blocks [OF lens(1)] lens(1)
    by (simp add: fair_platform_def g2_def g1_def)
  have gt: "length g2 = HISTOSPLIT" "length t = HISTOSPLIT"
    by (simp_all add: g2_def g1_def t_def host_params)
  define s1 where "s1 = kargs_update (set_karg Scanhistograms 0 (AMem (d_Histograms st))) (cl_calls_update Suc st)"
  define s2 where "s2 = snd (clSetKernelArg Scanhistograms 1 (ALocal 512) s1)"
  define ka where "ka = kargs s2"
  have s2: "s2 = kargs_update (\<lambda>_. ka) (cl_calls_update Suc s1)"
    by (auto simp: s2_def ka_def clSetKernelArg_def cl_call_def)
  have ka: "ka k i = kargs s1 k i" if "k \<noteq> Scanhistograms \<or> i \<noteq> 1" for k i
    using that by (auto simp: s2_def ka_def clSetKernelArg_def cl_call_def)
  have k1: "ka Scanhistograms 1 = Some (ALocal 512) \<or> \<not> all_ok st \<and> ka Scanhistograms 1 = None"
    using st(2,3) by (auto simp: s2_def ka_def clSetKernelArg_def cl_call_def s1_def all_ok_def fixed_args_def HISTOSPLIT_def)
  have fk: "ka Histogram 1 = Some (AMem (d_Histograms st))" "ka Histogram 3 = Some (ALocal (RADIX * ITEMS))"
    "ka Pastehistograms 0 = Some (AMem (d_Histograms st))" "ka Pastehistograms 1 = Some (AMem (d_globsum st))"
    "ka Reorder 2 = Some (AMem (d_Histograms st))" "ka Reorder 6 = Some (ALocal (RADIX * ITEMS))"
    "ka Scanhistograms 0 = Some (AMem (d_Histograms st))"
    using st(3) by (simp_all add: ka s1_def fixed_args_def)
  have rest: "outcome (all_ok st)
     (bindR (cl_check (clSetKernelArg Scanhistograms 2 (AMem (d_globsum s2)) s2)) (\<lambda>st.
      bindR (launch Scanhistograms [16384] [32] st) (\<lambda>st.
      bindR (profile st) (\<lambda>st.
      bindR (cl_check (clSetKernelArg Scanhistograms 0 (AMem (d_globsum st)) st)) (\<lambda>st.
      bindR (cl_check (clSetKernelArg Scanhistograms 2 (AMem (d_temp st)) st)) (\<lambda>st.
      bindR (launch Scanhistograms [256] [256] st) (\<lambda>st.
      bindR (profile st) (\<lambda>st.
      bindR (launch Pastehistograms [16384] [32] st) profile))))))))
     (\<lambda>st'. frame st st' \<and> fixed_args st' \<and> (\<exists>g t. length g = HISTOSPLIT \<and> length t = HISTOSPLIT \<and>
        mem st' = (mem st)(d_Histograms st \<mapsto> prefix_sums ?h, d_globsum st \<mapsto> g, d_temp st \<mapsto> t)))"
    using k1
  proof
    assume "\<not> all_ok st \<and> ka Scanhistograms 1 = None"
    then show ?thesis
      by (intro outcome_set_arg outcome_launch_refused)
        (simp_all add: s2 s1_def st(2) all_ok_def run_kernel_def split: option.splits karg.splits)
  next
    assume l: "ka Scanhistograms 1 = Some (ALocal 512)"
    have dist: "d_Histograms st \<noteq> d_globsum st" "d_Histograms st \<noteq> d_temp st" "d_globsum st \<noteq> d_temp st"
      using st(4) by (auto simp: cl_buffers_def)
    define m1 where "m1 = (mem st)(d_Histograms st \<mapsto> block_scan 64 ?h, d_globsum st \<mapsto> g1)"
    define m2 where "m2 = m1(d_globsum st \<mapsto> g2, d_temp st \<mapsto> t)"
    define m3 where "m3 = m2(d_Histograms st \<mapsto> prefix_sums ?h)"
    have m3: "m3 = (mem st)(d_Histograms st \<mapsto> prefix_sums ?h, d_globsum st \<mapsto> g2, d_temp st \<mapsto> t)"
      using dist by (auto simp: m3_def m2_def m1_def)
    have look: "m2 (d_Histograms st) = Some (block_scan 64 ?h)" "m2 (d_globsum st) = Some g2"
      "m1 (d_globsum st) = Some g1" "m1 (d_temp st) = Some (buf st (d_temp st))"
      using dist d(13) by (simp_all add: m2_def m1_def)
    have q: "frame st st' \<and> fixed_args st' \<and> (\<exists>g t. length g = HISTOSPLIT \<and> length t = HISTOSPLIT \<and>
        mem st' = (mem st)(d_Histograms st \<mapsto> prefix_sums ?h, d_globsum st \<mapsto> g, d_temp st \<mapsto> t))"
      if "frame st st'" "fixed_args st'" "mem st' = m3" for st'
      using that m3 gt by blast
    show ?thesis
      apply (rule outcome_set_arg, simp add: all_ok_def s2 s1_def, simp add: st(2) s2 s1_def)
      apply (rule outcome_launch [where mm = m1])
          apply (simp add: all_ok_def s2 s1_def)
         apply (simp add: st(2) s2 s1_def)
        apply simp
       apply (use l fk(7) d(9,11) r1 dist(1) in \<open>simp add: run_kernel_def s2 s1_def m1_def\<close>)
      apply (rule outcome_profile, simp add: all_ok_def s2 s1_def)
      apply (rule outcome_set_arg, simp add: all_ok_def s2 s1_def, simp add: st(2) s2 s1_def)
      apply (rule outcome_set_arg, simp add: all_ok_def s2 s1_def, simp add: st(2) s2 s1_def)
      apply (rule outcome_launch [where mm = m2])
          apply (simp add: all_ok_def s2 s1_def)
         apply (simp add: st(2) s2 s1_def)
        apply simp
       apply (use l look(3,4) r2 in \<open>simp add: run_kernel_def s2 s1_def m2_def\<close>)
      apply (rule outcome_profile, simp add: all_ok_def s2 s1_def)
      apply (rule outcome_launch [where mm = m3])
          apply (simp add: all_ok_def s2 s1_def)
         apply (simp add: st(2) s2 s1_def)
        apply simp
       apply (use fk(3,4) look(1,2) r3 in \<open>simp add: run_kernel_def s2 s1_def m3_def\<close>)
      apply (rule outcome_profile_end, simp add: all_ok_def s2 s1_def)
      apply (rule q)
        apply (simp add: frame_def s2 s1_def cl_buffers_def)
       apply (use l fk in \<open>simp add: fixed_args_def s2 s1_def HISTOSPLIT_def\<close>)
      apply simp
      done
  qed
  show ?thesis
    unfolding cl_radix_scan_histogram_def Let_def sizes
    by (rule outcome_set_arg) (use rest st in \<open>simp_all add: s1_def s2_def\<close>)
qed

text \<open>The part of the state that a pass leaves alone, and when it must not fail.\<close>

definition host_part :: "radix \<Rightarrow> platform \<times> nat \<times> u32 list \<times> u32 list \<times> u32 list" where
  "host_part st = (rx_cl st, nkeys st, h_keys st, h_checkKeys st, h_Permut st)"

lemma all_ok_host_part: "host_part st' = host_part st \<Longrightarrow> all_ok st' = all_ok st"
  by (simp add: host_part_def all_ok_def)

lemma radix_ok_frame:
  assumes "radix_ok st" and "frame st st'" and "fixed_args st'"
    and "\<And>m n. m \<in> set (cl_buffers st) \<Longrightarrow> has_buf st m n \<Longrightarrow> has_buf st' m n"
  shows "radix_ok st'"
  using assms unfolding radix_ok_def frame_def by (simp add: cl_buffers_def)

lemma frame_host_part: "frame st st' \<Longrightarrow> host_part st' = host_part st"
  by (simp add: frame_def host_part_def)

lemma radix_ok_swap:
  assumes "radix_ok st"
  shows "radix_ok (swap_buffers st)"
proof -
  have "distinct (cl_buffers (swap_buffers st))"
    using assms by (auto simp: radix_ok_def cl_buffers_def swap_buffers_def)
  then show ?thesis
    using assms by (simp add: radix_ok_def swap_buffers_def fixed_args_def has_buf_def)
qed

lemma cl_radix_reorder_result:
  assumes ok: "radix_ok st"
    and h: "\<And>r q. r < RADIX \<Longrightarrow> q < GROUPS * ITEMS \<Longrightarrow> buf st (d_Histograms st) ! (r * (GROUPS * ITEMS) + q) =
      of_nat (first_pos pass (buf st (d_inKeys st)) r (q * (nkeys st div GROUPS div ITEMS)))"
  shows "outcome (all_ok st) (cl_radix_reorder pass st) (\<lambda>st'. radix_ok st' \<and> host_part st' = host_part st \<and>
    device_keys st' = sort_key (\<lambda>x. shortkey pass (fst x)) (device_keys st))"
proof -
  note d = radix_okD [OF ok]
  have st: "fair_platform (rx_cl st)" "kernels st = (\<lambda>_. True)" "fixed_args st" "nkeys_rounded st = nkeys st"
    "GROUPS * ITEMS dvd nkeys st" "nkeys st < 2 ^ 31" "distinct (cl_buffers st)"
    using ok by (simp_all add: radix_ok_def)
  let ?k = "buf st (d_inKeys st)" and ?p = "buf st (d_inPermut st)"
  obtain c where c: "c = Suc (Suc (Suc (Suc (Suc (Suc (Suc (cl_calls st)))))))"
    by blast
  have "\<exists>ok' op'. reorder (cl_dev (rx_cl st) c) GROUPS ITEMS ?k (buf st (d_Histograms st)) pass ?p
      (RADIX * ITEMS) (nkeys st) (buf st (d_outKeys st), buf st (d_outPermut st)) = Inr (ok', op') \<and>
      moved pass ?k ?p {..<length ?k} ok' op'"
  proof (rule reorder_result [OF _ order_refl refl])
    show "fair_gpu (cl_dev (rx_cl st) c)"
      using st(1) by (simp add: fair_platform_def)
    show "length ?k = GROUPS * ITEMS * (nkeys st div GROUPS div ITEMS)"
      using d(2) keys_in_chunks [OF st(5)] by simp
    show "length ?k < 2 ^ 32"
      using d(2) st(6) by simp
  qed (use d(2,4,6,8,10) h in \<open>assumption | simp\<close>)+
  then obtain ok' op' where run: "reorder (cl_dev (rx_cl st) c) GROUPS ITEMS ?k (buf st (d_Histograms st)) pass ?p
      (RADIX * ITEMS) (nkeys st) (buf st (d_outKeys st), buf st (d_outPermut st)) = Inr (ok', op')"
    and mv: "moved pass ?k ?p {..<length ?k} ok' op'"
    by blast
  define m' where "m' = (mem st)(d_outKeys st \<mapsto> ok', d_outPermut st \<mapsto> op')"
  have dist: "d_outKeys st \<noteq> d_outPermut st"
    using st(7) by (simp add: cl_buffers_def)
  have lens: "length ok' = nkeys st" "length op' = nkeys st"
    using mv d by (simp_all add: moved_def)
  have q: "outcome (all_ok st) (Inr (swap_buffers st1)) (\<lambda>st'. radix_ok st' \<and> host_part st' = host_part st \<and>
      device_keys st' = sort_key (\<lambda>x. shortkey pass (fst x)) (device_keys st))"
    if f: "frame st st1" "fixed_args st1" "mem st1 = m'" for st1
  proof -
    have "has_buf st1 m n" if "has_buf st m n" for m n
      using that lens d(3,4,7,8) dist f(3) by (auto simp: has_buf_def m'_def)
    then have "radix_ok st1"
      by (intro radix_ok_frame [OF ok f(1,2)])
    moreover have "buf st1 (d_outKeys st) = ok'" "buf st1 (d_outPermut st) = op'"
      using dist f(3) by (simp_all add: buf_def m'_def)
    moreover have "buf (swap_buffers st1) = buf st1"
      by (rule ext) (simp add: buf_def swap_buffers_def)
    moreover have "d_outKeys st1 = d_outKeys st" "d_outPermut st1 = d_outPermut st"
      using f(1) by (simp_all add: frame_def cl_buffers_def)
    ultimately have "radix_ok (swap_buffers st1)" "device_keys (swap_buffers st1) = zip ok' op'"
      by (simp_all add: radix_ok_swap device_keys_def) (simp add: swap_buffers_def)
    moreover have "host_part (swap_buffers st1) = host_part st"
      using frame_host_part [OF f(1)] by (simp add: host_part_def swap_buffers_def)
    moreover have "zip ok' op' = sort_key (\<lambda>x. shortkey pass (fst x)) (device_keys st)"
      unfolding device_keys_def by (rule moved_is_stable_sort [OF mv]) (simp add: d)
    ultimately show ?thesis
      by simp
  qed
  have gi: "GROUPS * ITEMS div ITEMS = GROUPS"
    by (simp add: host_params)
  show ?thesis
    unfolding cl_radix_reorder_def Let_def
    by (intro outcome_assert outcome_set_arg outcome_profile outcome_launch [where mm = m'] q)
      (use run [unfolded c] st(3,4,5) d(1,3,5,7,9) in \<open>simp_all add: st(2) RADIX_def run_kernel_def fixed_args_def
        gi m'_def frame_def cl_buffers_def\<close>)
qed

text \<open>Writing the buffers of the histogram keeps the state and the keys.\<close>

lemma radix_ok_write:
  assumes ok: "radix_ok st" and f: "frame st st'" "fixed_args st'"
    and m: "mem st' = (mem st)(d_Histograms st \<mapsto> h, d_globsum st \<mapsto> g, d_temp st \<mapsto> t)"
    and len: "length h = RADIX * (GROUPS * ITEMS)" "length g = HISTOSPLIT" "length t = HISTOSPLIT"
  shows "radix_ok st'" and "device_keys st' = device_keys st" and "buf st' (d_inKeys st') = buf st (d_inKeys st)"
    and "buf st' (d_Histograms st') = h"
proof -
  have dist: "distinct (cl_buffers st)"
    using ok by (simp add: radix_ok_def)
  have "has_buf st' m n" if "has_buf st m n" for m n
    using that len radix_okD(9-14) [OF ok] by (auto simp: has_buf_def m)
  then show "radix_ok st'"
    by (intro radix_ok_frame [OF ok f])
  have e: "d_inKeys st' = d_inKeys st" "d_inPermut st' = d_inPermut st" "d_Histograms st' = d_Histograms st"
    using f(1) by (simp_all add: frame_def cl_buffers_def)
  show "buf st' (d_inKeys st') = buf st (d_inKeys st)" "buf st' (d_Histograms st') = h"
    using dist unfolding e by (auto simp: buf_def m cl_buffers_def)
  moreover have "buf st' (d_inPermut st') = buf st (d_inPermut st)"
    using dist unfolding e by (auto simp: buf_def m cl_buffers_def)
  ultimately show "device_keys st' = device_keys st"
    by (simp add: device_keys_def)
qed

lemma length_key_histogram [simp]: "length (key_histogram pass keys) = RADIX * (GROUPS * ITEMS)"
  by (simp add: key_histogram_def)

lemma radix_pass_result:
  assumes ok: "radix_ok st"
  shows "outcome (all_ok st) (radix_pass pass st) (\<lambda>st'. radix_ok st' \<and> host_part st' = host_part st \<and>
    device_keys st' = sort_key (\<lambda>x. shortkey pass (fst x)) (device_keys st))"
  unfolding radix_pass_def
proof (rule outcome_bind [OF cl_radix_histogram_result [OF ok]])
  let ?k = "buf st (d_inKeys st)"
  note d = radix_okD [OF ok]
  fix st1
  assume a: "frame st st1 \<and> fixed_args st1 \<and> mem st1 = (mem st)(d_Histograms st \<mapsto> key_histogram pass ?k)"
  have "mem st1 = (mem st)(d_Histograms st \<mapsto> key_histogram pass ?k,
      d_globsum st \<mapsto> buf st (d_globsum st), d_temp st \<mapsto> buf st (d_temp st))"
    using a d(11,13) ok by (auto simp: radix_ok_def cl_buffers_def)
  note w1 = radix_ok_write [OF ok conjunct1 [OF a] conjunct1 [OF conjunct2 [OF a]] this length_key_histogram d(12,14)]
  have h1: "host_part st1 = host_part st"
    using a frame_host_part by blast
  show "outcome (all_ok st) (bindR (cl_radix_scan_histogram st1) (cl_radix_reorder pass))
      (\<lambda>st'. radix_ok st' \<and> host_part st' = host_part st \<and>
        device_keys st' = sort_key (\<lambda>x. shortkey pass (fst x)) (device_keys st))"
    unfolding all_ok_host_part [OF h1, symmetric]
  proof (rule outcome_bind [OF cl_radix_scan_histogram_result [OF w1(1)]])
    fix st2
    assume b: "frame st1 st2 \<and> fixed_args st2 \<and> (\<exists>g t. length g = HISTOSPLIT \<and> length t = HISTOSPLIT \<and>
        mem st2 = (mem st1)(d_Histograms st1 \<mapsto> prefix_sums (buf st1 (d_Histograms st1)), d_globsum st1 \<mapsto> g, d_temp st1 \<mapsto> t))"
    then obtain g t where m2: "length g = HISTOSPLIT" "length t = HISTOSPLIT"
        "mem st2 = (mem st1)(d_Histograms st1 \<mapsto> prefix_sums (key_histogram pass ?k), d_globsum st1 \<mapsto> g, d_temp st1 \<mapsto> t)"
      unfolding w1(4) by blast
    note w2 = radix_ok_write [OF w1(1) conjunct1 [OF b] conjunct1 [OF conjunct2 [OF b]] m2(3) _ m2(1,2)]
    have len: "length (prefix_sums (key_histogram pass ?k)) = RADIX * (GROUPS * ITEMS)"
      by simp
    have h2: "host_part st2 = host_part st1"
      using b frame_host_part by blast
    have n: "nkeys st2 = length ?k" "GROUPS * ITEMS dvd length ?k"
      using h1 h2 d(2) ok by (simp_all add: host_part_def radix_ok_def)
    have first: "buf st2 (d_Histograms st2) ! (r * (GROUPS * ITEMS) + q) =
        of_nat (first_pos pass (buf st2 (d_inKeys st2)) r (q * (nkeys st2 div GROUPS div ITEMS)))"
      if "r < RADIX" "q < GROUPS * ITEMS" for r q
      using scanned_histogram [OF that(2,1), of ?k "length ?k div GROUPS div ITEMS" pass] keys_in_chunks [OF n(2)]
      unfolding w2(4) [OF len] w2(3) [OF len] w1(3) n(1) key_histogram_def by simp
    show "outcome (all_ok st1) (cl_radix_reorder pass st2) (\<lambda>st'. radix_ok st' \<and> host_part st' = host_part st \<and>
        device_keys st' = sort_key (\<lambda>x. shortkey pass (fst x)) (device_keys st))"
      using cl_radix_reorder_result [OF w2(1) [OF len] first] w2(2) [OF len] w1(2) h1 h2
      by (simp add: all_ok_host_part [OF h2])
  qed
qed

section \<open>The sort\<close>

interpretation radix: stable_passes radix_pass device_keys radix_ok host_part
  "\<lambda>(pl, _). \<forall>n. cl_ok pl n" "\<lambda>p x. shortkey p (fst x)" RADIX PASS
proof unfold_locales
  show "shortkey p (fst (x :: u32 \<times> u32)) < RADIX" for p x
    by (rule shortkey_less)
  show "outcome (case host_part s of (pl, _) \<Rightarrow> \<forall>n. cl_ok pl n) (radix_pass p s)
      (\<lambda>s'. radix_ok s' \<and> host_part s' = host_part s \<and>
        device_keys s' = sort_key (\<lambda>x. shortkey p (fst x)) (device_keys s))"
    if "radix_ok s" for s p
    using radix_pass_result [OF that, of p] by (simp add: host_part_def all_ok_def)
qed

text \<open>The order in which the sort leaves the keys.\<close>

definition low_bits :: "u32 \<Rightarrow> nat" where
  "low_bits k = unat k mod 2 ^ TOTALBITS"

lemma low_bits_digits: "(\<Sum>p<PASS. shortkey p k * RADIX ^ p) = low_bits k"
proof -
  have "(RADIX ^ PASS :: nat) = 2 ^ TOTALBITS"
    by (simp add: param_defs)
  then show ?thesis
    using key_of_digits [OF order_refl, of k] by (simp add: low_bits_def)
qed

lemma cl_radix_sort_result:
  assumes ok: "radix_ok st"
  shows "outcome (all_ok st) (cl_radix_sort st) (\<lambda>st'. radix_ok st' \<and> host_part st' = host_part st \<and>
    device_keys st' = sort_key (\<lambda>x. low_bits (fst x)) (device_keys st))"
proof -
  have "cl_radix_sort st = for_each [0..<PASS] radix_pass st"
  proof -
    have "bindR m Inr = m" for m :: "radix res"
      by (cases m) simp_all
    then show ?thesis
      using ok by (simp add: cl_radix_sort_def assertR_def TRANSPOSE_def radix_ok_def Let_def)
  qed
  then show ?thesis
    using radix.all_passes [OF ok order_refl] by (simp add: low_bits_digits host_part_def all_ok_def)
qed

section \<open>Properties\<close>

text \<open>C3: The two scans and the paste of the host code leave the exclusive prefix sums of the histogram,
  on a device with any schedule, or stop at an \<open>assert\<close> when an API call fails.\<close>

theorem scan_leaves_prefix_sums:
  assumes "radix_ok st"
  shows "outcome (all_ok st) (cl_radix_scan_histogram st)
    (\<lambda>st'. buf st' (d_Histograms st) = prefix_sums (buf st (d_Histograms st)))"
proof (rule outcome_mono [OF cl_radix_scan_histogram_result [OF assms]])
  have "d_Histograms st \<noteq> d_globsum st" "d_Histograms st \<noteq> d_temp st"
    using assms by (simp_all add: radix_ok_def cl_buffers_def)
  then show "buf st' (d_Histograms st) = prefix_sums (buf st (d_Histograms st))"
    if "frame st st' \<and> fixed_args st' \<and> (\<exists>g t. length g = HISTOSPLIT \<and> length t = HISTOSPLIT \<and>
      mem st' = (mem st)(d_Histograms st \<mapsto> prefix_sums (buf st (d_Histograms st)), d_globsum st \<mapsto> g, d_temp st \<mapsto> t))"
    for st'
    using that by (auto simp: buf_def)
qed

text \<open>C2: One pass of the sort moves the keys with their permutation to the order of the stable sort by
  the five bits of the pass and changes nothing on the host, on a device with any schedule.\<close>

theorem radix_pass_is_stable_sort:
  assumes "radix_ok st" and "all_ok st"
  shows "\<exists>st'. radix_pass pass st = Inr st' \<and> radix_ok st' \<and> host_part st' = host_part st \<and>
    device_keys st' = sort_key (\<lambda>x. shortkey pass (fst x)) (device_keys st)"
  using radix_pass_result [OF assms(1)] assms(2) by (simp add: outcome_strict)

text \<open>A small state in which a pass can run.\<close>

definition small_radix :: radix where
  "small_radix = \<lparr>rx_cl = \<lparr>cl_ok = (\<lambda>_. True), cl_dev = (\<lambda>n. if even n then forward_gpu else backward_gpu),
       fresh = (\<lambda>m n. replicate n 0), malloc_ok = (\<lambda>_. True), files = (\<lambda>_. None)\<rparr>,
     cl_calls = 0,
     mem = [0 \<mapsto> replicate 512 17 @ replicate 512 3, 1 \<mapsto> replicate 1024 0, 2 \<mapsto> map of_nat [0..<1024],
       3 \<mapsto> replicate 1024 0, 4 \<mapsto> replicate 32768 0, 5 \<mapsto> replicate 512 0, 6 \<mapsto> replicate 512 0],
     next_mem = 7, kernels = (\<lambda>_. True),
     kargs = (\<lambda>_ _. None)(Histogram := [1 \<mapsto> AMem 4, 3 \<mapsto> ALocal 2048], Pastehistograms := [0 \<mapsto> AMem 4, 1 \<mapsto> AMem 5],
       Reorder := [2 \<mapsto> AMem 4, 6 \<mapsto> ALocal 2048]),
     h_keys = [], h_checkKeys = [], h_Permut = [], nkeys = 1024, nkeys_rounded = 1024, d_inKeys = 0, d_outKeys = 1,
     d_inPermut = 2, d_outPermut = 3, d_Histograms = 4, d_globsum = 5, d_temp = 6\<rparr>"

lemma radix_ok_small: "radix_ok small_radix"
  by (simp add: radix_ok_def small_radix_def fair_platform_def fixed_args_def cl_buffers_def has_buf_def
    host_params param_defs)

lemma all_ok_small: "all_ok small_radix"
  by (simp add: all_ok_def small_radix_def)

theorem scan_leaves_prefix_sums_witness:
  "outcome (all_ok small_radix) (cl_radix_scan_histogram small_radix)
    (\<lambda>st'. buf st' (d_Histograms small_radix) = prefix_sums (buf small_radix (d_Histograms small_radix)))"
  by (rule scan_leaves_prefix_sums [OF radix_ok_small])

theorem radix_pass_is_stable_sort_witness:
  "\<exists>st'. radix_pass 2 small_radix = Inr st' \<and> radix_ok st' \<and> host_part st' = host_part small_radix \<and>
    device_keys st' = sort_key (\<lambda>x. shortkey 2 (fst x)) (device_keys small_radix)"
  by (rule radix_pass_is_stable_sort [OF radix_ok_small all_ok_small])

end
