(* ===== verification/QH_Radix_Service.thy ===== *)
theory QH_Radix_Service
  imports QH_Radix QH_Daemon
begin

text \<open>
  The radix sort as a service: set-up of the buffers, the sort, the transfer back and the check.
\<close>

section \<open>Set-up\<close>

definition add_buf :: "nat \<Rightarrow> u32 list \<Rightarrow> radix \<Rightarrow> radix" where
  "add_buf m b st = next_mem_update Suc (mem_update (\<lambda>mm. mm(m \<mapsto> b)) (cl_calls_update Suc st))"

lemma outcome_create:
  assumes "s \<longrightarrow> all_ok st" and "fair_platform (rx_cl st)" and "next_mem st = m"
    and "\<And>b. length b = sz \<Longrightarrow> outcome s (g m (add_buf m b st)) Q"
  shows "outcome s (bindR (create_buffer sz st) (\<lambda>(m, st). g m st)) Q"
proof (cases "cl_ok (rx_cl st) (cl_calls st)")
  case True
  have "length (fresh (rx_cl st) m sz) = sz"
    using assms(2) by (simp add: fair_platform_def)
  moreover have "create_buffer sz st = Inr (m, add_buf m (fresh (rx_cl st) m sz) st)"
    using True assms(3) by (simp add: create_buffer_def clCreateBuffer_def cl_call_def assertR_def add_buf_def Let_def)
  ultimately show ?thesis
    using assms(4) by simp
next
  case False
  then show ?thesis
    using assms(1) by (auto simp: create_buffer_def clCreateBuffer_def cl_call_def assertR_def all_ok_def Let_def)
qed

lemma outcome_write:
  assumes "s \<longrightarrow> all_ok st" and "mem st m = Some b" and "length dat = length b"
    and "outcome s (f (mem_update (\<lambda>mm. mm(m \<mapsto> dat)) (cl_calls_update Suc st))) Q"
  shows "outcome s (bindR (cl_check (clEnqueueWriteBuffer m 0 dat st)) f) Q"
proof -
  have e: "(cl_calls_update Suc st)\<lparr>mem := (mem st)(m \<mapsto> dat)\<rparr> =
      mem_update (\<lambda>mm. mm(m \<mapsto> dat)) (cl_calls_update Suc st)"
    by simp
  then show ?thesis
    using assms
    by (auto simp: clEnqueueWriteBuffer_def cl_call_def cl_check_def assertR_def all_ok_def api_updates Let_def e)
qed

lemma outcome_write_end:
  assumes "s \<longrightarrow> all_ok st" and "mem st m = Some b" and "length dat = length b"
    and "Q (mem_update (\<lambda>mm. mm(m \<mapsto> dat)) (cl_calls_update Suc st))"
  shows "outcome s (cl_check (clEnqueueWriteBuffer m 0 dat st)) Q"
  using outcome_write [OF assms(1-3), of Inr Q] assms(4)
  by (cases "cl_check (clEnqueueWriteBuffer m 0 dat st)") simp_all

lemma outcome_set_arg_end:
  assumes "b \<longrightarrow> all_ok st" and "kernels st k"
    and "Q (kargs_update (set_karg k i a) (cl_calls_update Suc st))"
  shows "outcome b (cl_check (clSetKernelArg k i a st)) Q"
  using outcome_set_arg [OF assms(1,2), of Inr i a Q] assms(3)
  by (cases "cl_check (clSetKernelArg k i a st)") simp_all

lemma init_host_result:
  assumes "malloc_ok (rx_cl st) 1" "malloc_ok (rx_cl st) 2" and fair: "fair_platform (rx_cl st)"
    and len: "n \<le> length (h_keys st)"
  shows "init_host n st = Inr (st\<lparr>h_checkKeys := take n (h_keys st), h_Permut := map of_nat [0..<n]\<rparr>)"
proof -
  define body where "body = (\<lambda>i (ck, pm). bindR (arr_set pm i (of_nat i)) (\<lambda>pm.
       bindR (arr_get (h_keys st) i) (\<lambda>key. bindR (arr_set ck i key) (\<lambda>ck. Inr (ck, pm :: u32 list)))))"
  have "\<exists>r. for_each [0..<n] body (fresh (rx_cl st) 1 n, fresh (rx_cl st) 2 n) = Inr r \<and>
      (length (fst r) = n \<and> length (snd r) = n \<and> (\<forall>j<n. fst r ! j = h_keys st ! j \<and> snd r ! j = of_nat j))"
  proof (rule for_range_invariant [where Inv = "\<lambda>i r. length (fst r) = n \<and> length (snd r) = n \<and>
      (\<forall>j<i. fst r ! j = h_keys st ! j \<and> snd r ! j = of_nat j)"])
    show "length (fst (fresh (rx_cl st) 1 n, fresh (rx_cl st) 2 n)) = n \<and>
        length (snd (fresh (rx_cl st) 1 n, fresh (rx_cl st) 2 n)) = n \<and>
        (\<forall>j<0. fst (fresh (rx_cl st) 1 n, fresh (rx_cl st) 2 n) ! j = h_keys st ! j \<and>
          snd (fresh (rx_cl st) 1 n, fresh (rx_cl st) 2 n) ! j = of_nat j)"
      using fair by (simp add: fair_platform_def)
    fix i and r :: "u32 list \<times> u32 list"
    assume "i < n" and "length (fst r) = n \<and> length (snd r) = n \<and> (\<forall>j<i. fst r ! j = h_keys st ! j \<and> snd r ! j = of_nat j)"
    then show "\<exists>r'. body i r = Inr r' \<and> length (fst r') = n \<and> length (snd r') = n \<and>
        (\<forall>j<Suc i. fst r' ! j = h_keys st ! j \<and> snd r' ! j = of_nat j)"
      using len by (cases r) (auto simp: body_def less_Suc_eq)
  qed simp
  then obtain ck pm where r: "for_each [0..<n] body (fresh (rx_cl st) 1 n, fresh (rx_cl st) 2 n) = Inr (ck, pm)"
    "length ck = n" "length pm = n" "\<forall>j<n. ck ! j = h_keys st ! j \<and> pm ! j = of_nat j"
    by auto
  have "ck = take n (h_keys st)" "pm = map of_nat [0..<n]"
    using r len by (auto intro: nth_equalityI)
  then show ?thesis
    using r(1) assms(1,2) by (simp add: init_host_def Let_def body_def)
qed

lemma add_buf_simps [simp]:
  "mem (add_buf m b st) = (mem st)(m \<mapsto> b)" "next_mem (add_buf m b st) = Suc (next_mem st)"
  "rx_cl (add_buf m b st) = rx_cl st" "all_ok (add_buf m b st) = all_ok st"
  "kernels (add_buf m b st) = kernels st" "kargs (add_buf m b st) = kargs st"
  "h_keys (add_buf m b st) = h_keys st" "h_checkKeys (add_buf m b st) = h_checkKeys st"
  "h_Permut (add_buf m b st) = h_Permut st" "nkeys (add_buf m b st) = nkeys st"
  "nkeys_rounded (add_buf m b st) = nkeys_rounded st"
  "d_inKeys (add_buf m b st) = d_inKeys st" "d_outKeys (add_buf m b st) = d_outKeys st"
  "d_inPermut (add_buf m b st) = d_inPermut st" "d_outPermut (add_buf m b st) = d_outPermut st"
  "d_Histograms (add_buf m b st) = d_Histograms st" "d_globsum (add_buf m b st) = d_globsum st"
  "d_temp (add_buf m b st) = d_temp st"
  by (simp_all add: add_buf_def all_ok_def)

text \<open>What \<open>init_cl_radix_sort\<close> needs of the state before.\<close>

definition ready :: "nat \<Rightarrow> radix \<Rightarrow> bool" where
  "ready n st \<longleftrightarrow> fair_platform (rx_cl st) \<and> malloc_ok (rx_cl st) 1 \<and> malloc_ok (rx_cl st) 2 \<and>
     kernels st = (\<lambda>_. True) \<and> kargs st Scanhistograms 1 \<in> {None, Some (ALocal HISTOSPLIT)} \<and>
     GROUPS * ITEMS dvd n \<and> n < 2 ^ 31 \<and> n \<le> length (h_keys st)"

text \<open>The state after the set-up.\<close>

definition set_up :: "nat \<Rightarrow> radix \<Rightarrow> radix \<Rightarrow> bool" where
  "set_up n st st' \<longleftrightarrow> radix_ok st' \<and>
     host_part st' = (rx_cl st, n, h_keys st, take n (h_keys st), map of_nat [0..<n]) \<and>
     device_keys st' = zip (take n (h_keys st)) (map of_nat [0..<n])"

lemma resize_ok: "GROUPS * ITEMS dvd n \<Longrightarrow>
  cl_radix_resize n st = Inr (st\<lparr>nkeys := n, nkeys_rounded := n\<rparr>)"
  by (simp add: cl_radix_resize_def Let_def assertR_def dvd_eq_mod_eq_0)

text \<open>The keys and the permutation are on the device, in the first of four new buffers.\<close>

definition buffers_made :: "nat \<Rightarrow> radix \<Rightarrow> radix \<Rightarrow> bool" where
  "buffers_made n st st' \<longleftrightarrow> (\<exists>b1 b3. length b1 = n \<and> length b3 = n \<and>
     mem st' (d_inKeys st') = Some (take n (h_keys st)) \<and> mem st' (d_outKeys st') = Some b1 \<and>
     mem st' (d_inPermut st') = Some (take n (h_Permut st)) \<and> mem st' (d_outPermut st') = Some b3) \<and>
     [d_inKeys st', d_outKeys st', d_inPermut st', d_outPermut st'] = map ((+) (next_mem st)) [0..<4] \<and>
     next_mem st' = next_mem st + 4 \<and> rx_cl st' = rx_cl st \<and> kernels st' = kernels st \<and>
     kargs st' = kargs st \<and> h_keys st' = h_keys st \<and> h_checkKeys st' = h_checkKeys st \<and>
     h_Permut st' = h_Permut st"

lemma init_buffers_result:
  assumes fair: "fair_platform (rx_cl st)"
    and len: "length (take n (h_keys st)) = n" "length (take n (h_Permut st)) = n"
  shows "outcome (all_ok st) (init_buffers n st) (buffers_made n st)"
  unfolding init_buffers_def Let_def
  apply (rule outcome_create [where m = "next_mem st"], simp, rule fair, simp)
  apply (rule outcome_create [where m = "Suc (next_mem st)"], simp add: all_ok_def, use fair in simp, simp)
  apply (rule outcome_create [where m = "Suc (Suc (next_mem st))"], simp add: all_ok_def, use fair in simp, simp)
  apply (rule outcome_create [where m = "Suc (Suc (Suc (next_mem st)))"], simp add: all_ok_def, use fair in simp, simp)
  apply (rule outcome_write, simp add: all_ok_def, simp, use len in simp)
  apply (rule outcome_write_end, simp add: all_ok_def, simp, use len in simp)
  apply (simp add: buffers_made_def upt_conv_Cons)
  done

lemma init_histogram_result:
  assumes r: "ready n st0" and b: "buffers_made n st0 st" and len: "length (take n (h_Permut st0)) = n"
  shows "outcome (all_ok st) (init_histogram n st) (\<lambda>st'. radix_ok st' \<and>
    host_part st' = (rx_cl st, n, h_keys st, h_checkKeys st, h_Permut st) \<and>
    device_keys st' = zip (take n (h_keys st)) (take n (h_Permut st)))"
proof -
  have fair: "fair_platform (rx_cl st)" and ker: "kernels st = (\<lambda>_. True)" and dv: "GROUPS * ITEMS dvd n"
    and small: "n < 2147483648" and ka: "kargs st Scanhistograms 1 \<in> {None, Some (ALocal HISTOSPLIT)}"
    using r b by (simp_all add: ready_def buffers_made_def)
  have lens: "length (take n (h_keys st)) = n" "length (take n (h_Permut st)) = n"
    using r b len by (simp_all add: ready_def buffers_made_def)
  have ids: "d_inKeys st + 4 = next_mem st" "d_outKeys st + 3 = next_mem st" "d_inPermut st + 2 = next_mem st"
    "d_outPermut st + 1 = next_mem st"
    using b by (simp_all add: buffers_made_def upt_conv_Cons)
  obtain b1 b3 where bs: "length b1 = n" "length b3 = n" "mem st (d_inKeys st) = Some (take n (h_keys st))"
    "mem st (d_outKeys st) = Some b1" "mem st (d_inPermut st) = Some (take n (h_Permut st))"
    "mem st (d_outPermut st) = Some b3"
    using b by (auto simp: buffers_made_def)
  have q: "radix_ok st' \<and> host_part st' = (rx_cl st, n, h_keys st, h_checkKeys st, h_Permut st) \<and>
    device_keys st' = zip (take n (h_keys st)) (take n (h_Permut st))"
    if "rx_cl st' = rx_cl st" "kernels st' = kernels st" "h_keys st' = h_keys st" "h_checkKeys st' = h_checkKeys st"
      "h_Permut st' = h_Permut st" "nkeys st' = n" "nkeys_rounded st' = n" "fixed_args st'"
      "cl_buffers st' = [d_inKeys st, d_outKeys st, d_inPermut st, d_outPermut st, next_mem st,
        Suc (next_mem st), Suc (Suc (next_mem st))]"
      "mem st' = (mem st)(next_mem st \<mapsto> h, Suc (next_mem st) \<mapsto> g, Suc (Suc (next_mem st)) \<mapsto> t)"
      "length h = RADIX * GROUPS * ITEMS" "length g = HISTOSPLIT" "length t = HISTOSPLIT" for st' h g t
  proof -
    have d: "d_inKeys st' = d_inKeys st" "d_outKeys st' = d_outKeys st" "d_inPermut st' = d_inPermut st"
      "d_outPermut st' = d_outPermut st" "d_Histograms st' = next_mem st" "d_globsum st' = Suc (next_mem st)"
      "d_temp st' = Suc (Suc (next_mem st))"
      using that(9) by (simp_all add: cl_buffers_def)
    have m: "mem st' (d_inKeys st) = Some (take n (h_keys st))" "mem st' (d_outKeys st) = Some b1"
      "mem st' (d_inPermut st) = Some (take n (h_Permut st))" "mem st' (d_outPermut st) = Some b3"
      "mem st' (next_mem st) = Some h" "mem st' (Suc (next_mem st)) = Some g"
      "mem st' (Suc (Suc (next_mem st))) = Some t"
      using ids bs that(10) by auto
    have "distinct (cl_buffers st')"
      using ids unfolding that(9) by auto
    then show ?thesis
      using that(1-8,11-13) fair ker dv small lens bs(1,2) m
      by (simp add: radix_ok_def host_part_def device_keys_def has_buf_def buf_def d mult.assoc)
  qed
  show ?thesis
    unfolding init_histogram_def Let_def
    apply (rule outcome_create [where m = "next_mem st"], simp, rule fair, simp)
    apply (rule outcome_create [where m = "Suc (next_mem st)"], simp add: all_ok_def, use fair in simp, simp)
    apply (rule outcome_create [where m = "Suc (Suc (next_mem st))"], simp add: all_ok_def, use fair in simp, simp)
    apply (subst resize_ok [OF dv], subst bindR_simps)
    apply (intro outcome_set_arg outcome_set_arg_end)
                apply (simp_all add: all_ok_def ker)
    subgoal for h g t
      by (rule q [where h = h and g = g and t = t])
        (use ka in \<open>simp_all add: fixed_args_def cl_buffers_def add_buf_def\<close>)
    done
qed

lemma init_cl_radix_sort_result:
  assumes r: "ready n st"
  shows "outcome (all_ok st) (init_cl_radix_sort n st) (set_up n st)"
proof -
  note r' = r [unfolded ready_def]
  have dv: "GROUPS * ITEMS dvd n"
    using r' by simp
  define st0 where "st0 = st\<lparr>nkeys_rounded := n, h_checkKeys := take n (h_keys st), h_Permut := map of_nat [0..<n]\<rparr>"
  have s0: "rx_cl st0 = rx_cl st" "all_ok st0 = all_ok st" "h_keys st0 = h_keys st"
    "h_checkKeys st0 = take n (h_keys st)" "h_Permut st0 = map of_nat [0..<n]" "ready n st0"
    using r by (simp_all add: st0_def all_ok_def ready_def)
  have "init_host n (st\<lparr>nkeys_rounded := n\<rparr>) = Inr st0"
    using init_host_result [of "st\<lparr>nkeys_rounded := n\<rparr>" n] r' by (simp add: st0_def)
  moreover have "ilog2 GROUPS = 4" "ilog2 ITEMS = 6"
    by (simp_all add: host_params)
  ultimately have e: "init_cl_radix_sort n st = bindR (init_buffers n st0) (init_histogram n)"
    using dv by (simp add: init_cl_radix_sort_def Let_def assertR_def dvd_eq_mod_eq_0)
      (simp add: host_params param_defs)
  have len: "length (take n (h_keys st0)) = n" "length (take n (h_Permut st0)) = n"
    using r' by (simp_all add: s0)
  show ?thesis
    unfolding e s0(2) [symmetric]
  proof (rule outcome_bind [OF init_buffers_result])
    show "fair_platform (rx_cl st0)"
      using r' by (simp add: s0)
    fix st1
    assume b: "buffers_made n st0 st1"
    then have s1: "rx_cl st1 = rx_cl st0" "all_ok st1 = all_ok st0" "h_keys st1 = h_keys st0"
      "h_checkKeys st1 = h_checkKeys st0" "h_Permut st1 = h_Permut st0"
      by (simp_all add: buffers_made_def all_ok_def)
    show "outcome (all_ok st0) (init_histogram n st1) (set_up n st)"
      using init_histogram_result [OF s0(6) b len(2)] unfolding s1 s0
      by (rule outcome_mono) (simp add: set_up_def s0)
  qed (use len in simp_all)
qed

section \<open>Sorting keys with their permutation\<close>

lemma map_fst_sort_key:
  assumes "length ks = length ps"
  shows "map fst (sort_key (\<lambda>x. f (fst x)) (zip ks ps)) = sort_key f ks"
proof -
  have ins: "map fst (insort_key (\<lambda>x. f (fst x)) y ys) = insort_key f (fst y) (map fst ys)" for y and ys :: "('a \<times> 'b) list"
    by (induction ys) simp_all
  have "map fst (sort_key (\<lambda>x. f (fst x)) xs) = sort_key f (map fst xs)" for xs :: "('a \<times> 'b) list"
    by (induction xs) (simp_all add: ins)
  then show ?thesis
    using assms by simp
qed

lemma low_bits_id: "unat k < 2 ^ TOTALBITS \<Longrightarrow> low_bits k = unat k"
  by (simp add: low_bits_def)

lemma sort_key_is_sort:
  fixes ks :: "u32 list"
  assumes "\<And>k. k \<in> set ks \<Longrightarrow> f k = unat k"
  shows "sort_key f ks = sort ks"
proof (rule properties_for_sort [symmetric])
  have "sorted (map f (sort_key f ks))"
    by simp
  moreover have "map f (sort_key f ks) = map unat (sort_key f ks)"
    using assms by simp
  ultimately have "sorted (map unat (sort_key f ks))"
    by simp
  then show "sorted (sort_key f ks)"
    unfolding sorted_map by (rule sorted_wrt_mono_rel [rotated]) (simp add: word_le_nat_alt)
qed simp

lemma sort_by_low_bits:
  assumes "\<And>k. k \<in> set ks \<Longrightarrow> unat k < 2 ^ TOTALBITS"
  shows "sort_key low_bits ks = sort ks"
  by (rule sort_key_is_sort) (rule low_bits_id, rule assms)

section \<open>Transfer\<close>

text \<open>Reading the keys back replaces the first \<open>nkeys\<close> cells of the host memory.\<close>

lemma cl_radix_recup_result:
  assumes ok: "radix_ok st" and len: "nkeys st \<le> length (h_keys st)"
  shows "outcome (all_ok st) (cl_radix_recup_gpu st) (\<lambda>st'.
    st' = cl_calls_update Suc st\<lparr>h_keys := map fst (device_keys st) @ drop (nkeys st) (h_keys st)\<rparr>)"
proof -
  have "map fst (device_keys st) = buf st (d_inKeys st)"
    using radix_okD(2,6) [OF ok] by (simp add: device_keys_def)
  then show ?thesis
    using radix_okD(1,2) [OF ok] len
    by (auto simp: cl_radix_recup_gpu_def clEnqueueReadBuffer_def cl_call_def assertR_def all_ok_def Let_def api_updates)
qed

text \<open>Set-up and sort: the keys are on the device in order, the host still has the old ones.\<close>

lemma set_up_and_sort:
  assumes r: "ready n st"
  shows "outcome (all_ok st) (bindR (init_cl_radix_sort n st) cl_radix_sort) (\<lambda>st'. radix_ok st' \<and>
    host_part st' = (rx_cl st, n, h_keys st, take n (h_keys st), map of_nat [0..<n]) \<and>
    map fst (device_keys st') = sort_key low_bits (take n (h_keys st)))"
proof (rule outcome_bind [OF init_cl_radix_sort_result [OF r]])
  fix st1
  assume s: "set_up n st st1"
  then have "all_ok st1 = all_ok st"
    by (simp add: set_up_def host_part_def all_ok_def)
  moreover have "map fst (sort_key (\<lambda>x. low_bits (fst x)) (device_keys st1)) = sort_key low_bits (take n (h_keys st))"
    using s r map_fst_sort_key [of "take n (h_keys st)" "map of_nat [0..<n] :: u32 list" low_bits]
    by (simp add: set_up_def ready_def)
  ultimately show "outcome (all_ok st) (cl_radix_sort st1) (\<lambda>st'. radix_ok st' \<and>
      host_part st' = (rx_cl st, n, h_keys st, take n (h_keys st), map of_nat [0..<n]) \<and>
      map fst (device_keys st') = sort_key low_bits (take n (h_keys st)))"
    using cl_radix_sort_result [of st1] s by (auto simp: set_up_def elim!: outcome_mono)
qed

lemma radix_launch_outcome:
  assumes r: "ready n (st\<lparr>h_keys := data\<rparr>)"
  shows "outcome (all_ok st) (radix_launch data n st)
    (\<lambda>(r, st'). r = 0 \<and> h_keys st' = sort_key low_bits (take n data) @ drop n data)"
proof -
  let ?st = "st\<lparr>h_keys := data\<rparr>"
  have e: "radix_launch data n st = bindR (bindR (init_cl_radix_sort n ?st) cl_radix_sort)
      (\<lambda>st. bindR (cl_radix_recup_gpu st) (\<lambda>st. Inr (0, st)))"
    by (simp add: radix_launch_def Let_def bindR_assoc)
  have a: "all_ok st = all_ok ?st"
    by (simp add: all_ok_def)
  show ?thesis
    unfolding e a
  proof (rule outcome_bind [OF set_up_and_sort [OF r]])
    fix st1
    assume s: "radix_ok st1 \<and> host_part st1 =
        (rx_cl ?st, n, h_keys ?st, take n (h_keys ?st), map of_nat [0..<n]) \<and>
        map fst (device_keys st1) = sort_key low_bits (take n (h_keys ?st))"
    then have s1: "all_ok st1 = all_ok ?st" "nkeys st1 = n" "h_keys st1 = data"
      by (simp_all add: host_part_def all_ok_def)
    have "n \<le> length data"
      using r by (simp add: ready_def)
    then have "outcome (all_ok st1) (cl_radix_recup_gpu st1) (\<lambda>st'.
        st' = cl_calls_update Suc st1\<lparr>h_keys := map fst (device_keys st1) @ drop (nkeys st1) (h_keys st1)\<rparr>)"
      using s s1 by (intro cl_radix_recup_result) simp_all
    then show "outcome (all_ok ?st) (bindR (cl_radix_recup_gpu st1) (\<lambda>st. Inr (0, st)))
        (\<lambda>(r, st'). r = 0 \<and> h_keys st' = sort_key low_bits (take n data) @ drop n data)"
      unfolding s1(1) by (rule outcome_bind) (use s s1 in simp)
  qed
qed

section \<open>The service library (libsrv_radix.c)\<close>

definition radix_cs :: int where "radix_cs = 0"
definition radix_post :: int where "radix_post = 0"

definition radix_srv :: service where
  "radix_srv = \<lparr>sname = ''radix_service'', sid = 1\<rparr>"

text \<open>
  \<open>p\<close> is the address of the static \<open>radix_srv\<close>, \<open>lh\<close> the library handle and \<open>m\<close> the memory the
  registration gets from \<open>malloc\<close>. \<open>radix_prepare\<close> does nothing.
\<close>

definition radix_init_service ::
  "nat \<Rightarrow> nat option \<Rightarrow> nat option \<Rightarrow> radix \<Rightarrow> registry \<Rightarrow> (int \<times> radix \<times> registry) res" where
  "radix_init_service p lh m st reg =
     bindR (build_cl_radix_sort st) (\<lambda>st.
     bindR (qc_register_service (Some p) lh m (reg\<lparr>srv_mem := (srv_mem reg)(p \<mapsto> radix_srv)\<rparr>)) (\<lambda>(r, reg).
     Inr (r, st, reg)))"

definition radix_finit_service :: "registry \<Rightarrow> (int \<times> registry) res option" where
  "radix_finit_service reg = qc_unregister_service (Some (sname radix_srv)) reg"

lemma all_kernels:
  "(ks(Histogram := True, Scanhistograms := True, Pastehistograms := True, Reorder := True, Transpose := True)) =
    (\<lambda>_. True)"
proof
  show "(ks(Histogram := True, Scanhistograms := True, Pastehistograms := True, Reorder := True,
      Transpose := True)) k = True" for k
    by (cases k) simp_all
qed

lemma build_result:
  assumes "files (rx_cl st) ''./cl_radix_sort.cl'' = Some src" "src \<noteq> []" "malloc_ok (rx_cl st) 0"
  shows "outcome (all_ok st) (build_cl_radix_sort st)
    (\<lambda>st'. kernels st' = (\<lambda>_. True) \<and> rx_cl st' = rx_cl st \<and> kargs st' = kargs st)"
  using assms
  by (auto simp: build_cl_radix_sort_def clCreateKernel_def cl_check_def cl_call_def assertR_def
    oclLoadProgSource_def all_ok_def all_kernels)

section \<open>Properties\<close>

text \<open>A platform that never fails, and a state in which the program has been built.\<close>

definition sample_platform :: "(nat \<Rightarrow> bool) \<Rightarrow> platform" where
  "sample_platform ok = \<lparr>cl_ok = ok, cl_dev = (\<lambda>n. if even n then forward_gpu else backward_gpu),
     fresh = (\<lambda>m n. replicate n 7), malloc_ok = (\<lambda>_. True), files = (\<lambda>_. Some ''kernels'')\<rparr>"

definition sample_radix :: "(nat \<Rightarrow> bool) \<Rightarrow> radix" where
  "sample_radix ok = \<lparr>rx_cl = sample_platform ok, cl_calls = 0, mem = (\<lambda>_. None), next_mem = 1,
     kernels = (\<lambda>_. True), kargs = (\<lambda>_ _. None), h_keys = [], h_checkKeys = [], h_Permut = [], nkeys = 0,
     nkeys_rounded = 0, d_inKeys = 0, d_outKeys = 0, d_inPermut = 0, d_outPermut = 0, d_Histograms = 0,
     d_globsum = 0, d_temp = 0\<rparr>"

lemma ready_sample:
  "GROUPS * ITEMS dvd n \<Longrightarrow> n < 2 ^ 31 \<Longrightarrow> n \<le> length data \<Longrightarrow>
    ready n ((sample_radix ok)\<lparr>h_keys := data\<rparr>)"
  by (simp add: ready_def sample_radix_def sample_platform_def fair_platform_def)

lemma all_ok_sample: "all_ok (sample_radix (\<lambda>_. True))"
  by (simp add: all_ok_def sample_radix_def sample_platform_def)

text \<open>C1: \<open>radix_launch\<close>, on a device with any schedule of groups and work items, ends with the first
  \<open>mmap_size\<close> keys of the request sorted stably by their low 25 bits and the rest of the memory as it
  was, when the number of keys is a multiple of \<open>_GROUPS * _ITEMS\<close> and no API call fails.\<close>

theorem radix_launch_sorts:
  assumes "ready n (st\<lparr>h_keys := data\<rparr>)" and "all_ok st"
  shows "\<exists>st'. radix_launch data n st = Inr (0, st') \<and>
    h_keys st' = sort_key low_bits (take n data) @ drop n data"
  using radix_launch_outcome [OF assms(1)] assms(2) by (auto simp: outcome_strict)

theorem radix_launch_sorts_witness:
  "\<exists>st'. radix_launch (replicate 1000 9 @ replicate 30 3) 1024 (sample_radix (\<lambda>_. True)) = Inr (0, st') \<and>
    h_keys st' = sort_key low_bits (take 1024 (replicate 1000 9 @ replicate 30 3)) @
      drop 1024 (replicate 1000 9 @ replicate 30 3)"
  by (rule radix_launch_sorts [OF ready_sample all_ok_sample]) (simp_all add: host_params)

text \<open>C13: Whatever API calls fail, \<open>radix_launch\<close> never reads or writes outside a buffer: it stops at
  an \<open>assert\<close>, or the request is sorted.\<close>

theorem radix_launch_faults_are_asserts:
  assumes "ready n (st\<lparr>h_keys := data\<rparr>)"
  shows "radix_launch data n st = Inl Assert_failed \<or>
    (\<exists>st'. radix_launch data n st = Inr (0, st') \<and> h_keys st' = sort_key low_bits (take n data) @ drop n data)"
  using radix_launch_outcome [OF assms] by (auto simp: outcome_def split: sum.splits)

theorem radix_launch_faults_are_asserts_witness:
  "radix_launch (replicate 2048 9) 2048 (sample_radix (\<lambda>n. n \<noteq> 70)) = Inl Assert_failed \<or>
    (\<exists>st'. radix_launch (replicate 2048 9) 2048 (sample_radix (\<lambda>n. n \<noteq> 70)) = Inr (0, st') \<and>
      h_keys st' = sort_key low_bits (take 2048 (replicate 2048 9)) @ drop 2048 (replicate 2048 9))"
  by (rule radix_launch_faults_are_asserts [OF ready_sample]) (simp_all add: host_params)

text \<open>A number of keys that is not a multiple of \<open>_GROUPS * _ITEMS\<close> stops the process at an
  \<open>assert\<close> in \<open>init_cl_radix_sort\<close>, and also in \<open>cl_radix_resize\<close>: the padding with big values that
  follows there is never reached.\<close>

theorem other_sizes_abort:
  assumes "n mod (GROUPS * ITEMS) \<noteq> 0"
  shows "radix_launch data n st = Inl Assert_failed \<and> cl_radix_resize n st = Inl Assert_failed"
proof
  show "radix_launch data n st = Inl Assert_failed"
    using assms by (simp add: radix_launch_def init_cl_radix_sort_def assertR_def Let_def bindR_def)
  have "n mod (GROUPS * ITEMS) < GROUPS * ITEMS"
    by (simp add: host_params)
  then have "\<not> n - n mod (GROUPS * ITEMS) + GROUPS * ITEMS \<le> n"
    using mod_less_eq_dividend [of n "GROUPS * ITEMS"] by linarith
  then show "cl_radix_resize n st = Inl Assert_failed"
    using assms by (simp add: cl_radix_resize_def assertR_def Let_def)
qed

theorem other_sizes_abort_witness:
  "radix_launch [1, 2, 3] 3 (sample_radix (\<lambda>_. True)) = Inl Assert_failed \<and>
    cl_radix_resize 3 (sample_radix (\<lambda>_. True)) = Inl Assert_failed"
  by (rule other_sizes_abort) (simp add: host_params)

text \<open>
  The check after the sort. The order of keys below \<open>2 ^ 25\<close> is always found right. The permutation
  is compared with the one the host made in the set-up, which the sort never changes, so an error is
  printed for every position whose key has moved.
\<close>

lemma check_order_passes:
  assumes n: "0 < nkeys st" "nkeys st < 2 ^ 31" "nkeys st \<le> length (h_keys st)"
    and s: "\<And>i. Suc i < nkeys st \<Longrightarrow> h_keys st ! i \<le> h_keys st ! Suc i"
  shows "check_order st = Inr ()"
proof -
  have "of_nat (nkeys st) - 1 = (of_nat (nkeys st - 1) :: u32)"
    using n(1) by (simp add: of_nat_diff)
  then have b: "unat (of_nat (nkeys st) - 1 :: u32) = nkeys st - 1"
    using n(2) unat_of_nat_small [of "nkeys st - 1", where ?'a = 32] by simp
  have "\<exists>u. check_order st = Inr u \<and> True"
    unfolding check_order_def b
    by (rule for_range_invariant) (use s n in \<open>auto simp: assertR_def\<close>)
  then show ?thesis
    by auto
qed

lemma check_permut_stale:
  assumes n: "nkeys st < 2 ^ 31" "nkeys st < length (h_keys st)" "nkeys st \<le> length (h_checkKeys st)"
    and p: "h_Permut st = map of_nat [0..<nkeys st]"
  shows "check_permut st = Inr (filter (\<lambda>i. h_keys st ! i \<noteq> h_checkKeys st ! i) [0..<nkeys st])"
proof -
  have "\<exists>out. check_permut st = Inr out \<and>
      out = filter (\<lambda>i. h_keys st ! i \<noteq> h_checkKeys st ! i) [0..<nkeys st]"
    unfolding check_permut_def
  proof (rule for_range_invariant)
    fix i out
    assume i: "i < nkeys st" and out: "out = filter (\<lambda>i. h_keys st ! i \<noteq> h_checkKeys st ! i) [0..<i]"
    have "unat (of_nat i :: u32) = i"
      using i n(1) by (intro unat_of_nat_small) simp
    then show "\<exists>out'. bindR (arr_get (h_keys st) i) (\<lambda>a. bindR (arr_get (h_Permut st) i) (\<lambda>p.
        bindR (arr_get (h_checkKeys st) (unat p)) (\<lambda>c.
        if a \<noteq> c then bindR (arr_get (h_keys st) (i + 1)) (\<lambda>_. Inr (out @ [i])) else Inr out))) = Inr out' \<and>
        out' = filter (\<lambda>i. h_keys st ! i \<noteq> h_checkKeys st ! i) [0..<Suc i]"
      using i n p out by simp
  qed simp_all
  then show ?thesis
    by simp
qed

text \<open>C36: After the set-up and the sort of keys below \<open>2 ^ 25\<close> the check finds them in order, and
  reports the permutation wrong at exactly the positions whose key has moved, although the permutation
  on the device is right.\<close>

theorem check_after_sort:
  assumes r: "ready n st" and a: "all_ok st" and n: "0 < n" "n < length (h_keys st)"
    and small: "\<forall>k \<in> set (take n (h_keys st)). unat k < 2 ^ TOTALBITS"
  shows "\<exists>st'. bindR (bindR (init_cl_radix_sort n st) cl_radix_sort) cl_radix_check =
    Inr (filter (\<lambda>i. sort (take n (h_keys st)) ! i \<noteq> h_keys st ! i) [0..<n], st')"
proof -
  let ?ks = "take n (h_keys st)"
  obtain st1 where s1: "bindR (init_cl_radix_sort n st) cl_radix_sort = Inr st1" "radix_ok st1"
    "host_part st1 = (rx_cl st, n, h_keys st, ?ks, map of_nat [0..<n])"
    "map fst (device_keys st1) = sort ?ks"
    using set_up_and_sort [OF r] a sort_by_low_bits [of ?ks] small by (auto simp: outcome_strict)
  then have h: "rx_cl st1 = rx_cl st" "nkeys st1 = n" "h_keys st1 = h_keys st" "h_checkKeys st1 = ?ks"
    "h_Permut st1 = map of_nat [0..<n]"
    by (simp_all add: host_part_def)
  define st2 where "st2 = cl_calls_update Suc st1\<lparr>h_keys := sort ?ks @ drop n (h_keys st)\<rparr>"
  have "all_ok st1"
    using a h by (simp add: all_ok_def)
  then have rc: "cl_radix_recup_gpu st1 = Inr st2"
    using cl_radix_recup_result [OF s1(2)] n(2) h s1(4) by (simp add: outcome_strict st2_def)
  have len: "length (sort ?ks) = n"
    using n by simp
  have "check_order st2 = Inr ()"
  proof (rule check_order_passes)
    fix i
    assume i: "Suc i < nkeys st2"
    then have "sort ?ks ! i \<le> sort ?ks ! Suc i"
      using len h by (intro sorted_nth_mono) (simp_all add: st2_def)
    then show "h_keys st2 ! i \<le> h_keys st2 ! Suc i"
      using i len h by (simp add: st2_def nth_append)
  qed (use n r h in \<open>simp_all add: st2_def ready_def\<close>)
  moreover have "check_permut st2 = Inr (filter (\<lambda>i. h_keys st2 ! i \<noteq> h_checkKeys st2 ! i) [0..<nkeys st2])"
    by (rule check_permut_stale) (use n r h in \<open>simp_all add: st2_def ready_def\<close>)
  moreover have "filter (\<lambda>i. h_keys st2 ! i \<noteq> h_checkKeys st2 ! i) [0..<nkeys st2] =
      filter (\<lambda>i. sort ?ks ! i \<noteq> h_keys st ! i) [0..<n]"
    using len h by (intro filter_cong) (auto simp: st2_def nth_append)
  ultimately show ?thesis
    unfolding s1(1) bindR_simps cl_radix_check_def rc by (simp add: PERMUT_def)
qed

definition sample_unsorted :: radix where
  "sample_unsorted = (sample_radix (\<lambda>_. True))\<lparr>h_keys := 5 # replicate 1024 4\<rparr>"

theorem check_after_sort_witness:
  "\<exists>st'. bindR (bindR (init_cl_radix_sort 1024 sample_unsorted) cl_radix_sort) cl_radix_check =
    Inr (filter (\<lambda>i. sort (take 1024 (h_keys sample_unsorted)) ! i \<noteq> h_keys sample_unsorted ! i) [0..<1024], st')"
proof (rule check_after_sort)
  show "ready 1024 sample_unsorted"
    unfolding sample_unsorted_def by (rule ready_sample) (simp_all add: host_params)
  show "all_ok sample_unsorted"
    using all_ok_sample by (simp add: sample_unsorted_def all_ok_def)
  show "\<forall>k \<in> set (take 1024 (h_keys sample_unsorted)). unat k < 2 ^ TOTALBITS"
    by (auto simp: sample_unsorted_def param_defs take_Cons' dest!: in_set_takeD)
qed (simp_all add: sample_unsorted_def)

text \<open>\<open>init_service\<close> of the library builds the five kernels and registers the service under its
  name, so that the helper finds it and \<open>radix_launch\<close> can set up a sort; the only other end is an
  \<open>assert\<close> on a failed API call.\<close>

theorem radix_service_ready:
  assumes reg: "registered reg xs" "sitems reg i = None" "srv_mem reg p = None"
    and name: "find (answers reg ''radix_service'') xs = None"
    and src: "files (rx_cl st) ''./cl_radix_sort.cl'' = Some src" "src \<noteq> []" "malloc_ok (rx_cl st) 0"
  shows "outcome (all_ok st) (radix_init_service p lh (Some i) st reg) (\<lambda>(r, st', reg').
    r = 0 \<and> kernels st' = (\<lambda>_. True) \<and> registered reg' (xs @ [i]) \<and>
    qc_lookup_service (Some ''radix_service'') reg' = Some (Inr (Some i)) \<and> srv_mem reg' p = Some radix_srv)"
proof -
  let ?reg = "reg\<lparr>srv_mem := (srv_mem reg)(p \<mapsto> radix_srv)\<rparr>"
  have other: "s_ptr j \<noteq> p" if "a \<in> set xs" "sitems reg a = Some j" for a j
    using that reg(1,3) by (force simp: registered_def)
  have r: "registered ?reg xs"
    using reg(1) by (fastforce simp: registered_def)
  have names: "item_name ?reg a = item_name reg a" if "a \<in> set xs" for a
    using that reg(1) other by (auto simp: item_name_def registered_def)
  then have "find (answers ?reg ''radix_service'') xs = None"
    using name by (simp add: find_None_iff answers_def)
  moreover have "i \<notin> set xs"
    using reg(1,2) by (auto simp: registered_def)
  then obtain reg' where r': "qc_register_service (Some p) lh (Some i) ?reg = Inr (0, reg')"
    "registered reg' (xs @ [i])" "item_name reg' i = ''radix_service''"
    "\<And>a. a \<in> set xs \<Longrightarrow> item_name reg' a = item_name ?reg a"
    using register_registered [OF r, of i p radix_srv lh] reg(2) by (auto simp: radix_srv_def)
  moreover have "srv_mem reg' = srv_mem ?reg"
    using r'(1) by (auto simp: qc_register_service_def Let_def)
  ultimately have "qc_lookup_service (Some ''radix_service'') reg' = Some (Inr (Some i)) \<and>
      srv_mem reg' p = Some radix_srv"
    by (auto simp: lookup_service_find find_append_None answers_def find_None_iff)
  then show ?thesis
    unfolding radix_init_service_def using r'(1,2)
    by (intro outcome_bind [OF build_result [OF src]]) simp
qed

theorem radix_service_ready_witness:
  "outcome (all_ok (sample_radix (\<lambda>_. True))) (radix_init_service 12 None (Some 1) (sample_radix (\<lambda>_. True)) sample_registry)
    (\<lambda>(r, st', reg'). r = 0 \<and> kernels st' = (\<lambda>_. True) \<and> registered reg' ([0] @ [1]) \<and>
    qc_lookup_service (Some ''radix_service'') reg' = Some (Inr (Some 1)) \<and> srv_mem reg' 12 = Some radix_srv)"
proof (rule radix_service_ready [OF sample_registered])
  show "find (answers sample_registry ''radix_service'') [0] = None"
    by (simp add: answers_def item_name_def sample_registry_def QHGPU_SERVICE_NAME_SIZE_def
      numeral_eq_Suc first_char_def)
  show "files (rx_cl (sample_radix (\<lambda>_. True))) ''./cl_radix_sort.cl'' = Some ''kernels''"
    by (simp add: sample_radix_def sample_platform_def)
qed (simp_all add: sample_registry_def sample_radix_def sample_platform_def)

end
