(* ===== verification/QH_Bfs_Levels.thy ===== *)
theory QH_Bfs_Levels
  imports QH_Bfs
begin

text \<open>
  Levels of a graph, and the rounds of the breadth-first search: round \<open>k\<close> starts with the nodes at distance
  \<open>k\<close> from node 0 in the mask and ends with those at distance \<open>k + 1\<close>. The search ends after at most as
  many rounds as there are nodes, with the distance of every node that can be reached as its cost and
  \<open>-1\<close> as the cost of the others.
\<close>

section \<open>Levels\<close>

definition level :: "(nat \<times> nat) set \<Rightarrow> nat \<Rightarrow> nat set" where
  "level E k = {v. (0, v) \<in> E ^^ k \<and> (\<forall>j<k. (0, v) \<notin> E ^^ j)}"

lemma level_0 [simp]: "level E 0 = {0}"
  by (auto simp: level_def)

lemma level_disjoint: "v \<in> level E j \<Longrightarrow> v \<in> level E k \<Longrightarrow> j = k"
  by (metis (mono_tags, lifting) level_def linorder_neqE_nat mem_Collect_eq)

lemma level_path: "(0, v) \<in> E ^^ k \<Longrightarrow> \<exists>j\<le>k. v \<in> level E j"
proof (induction k rule: less_induct)
  case (less k)
  show ?case
  proof (cases "\<exists>j<k. (0, v) \<in> E ^^ j")
    case True
    then show ?thesis
      using less.IH by (meson le_trans less_imp_le_nat)
  next
    case False
    then show ?thesis
      using less.prems by (auto simp: level_def)
  qed
qed

lemma level_Suc: "level E (Suc k) = {v. (\<exists>u\<in>level E k. (u, v) \<in> E) \<and> (\<forall>j\<le>k. v \<notin> level E j)}"
proof (intro set_eqI iffI)
  fix v assume v: "v \<in> level E (Suc k)"
  then obtain u where u: "(0, u) \<in> E ^^ k" "(u, v) \<in> E"
    by (auto simp: level_def)
  have "(0, u) \<notin> E ^^ j" if "j < k" for j
  proof
    assume "(0, u) \<in> E ^^ j"
    then have "(0, v) \<in> E ^^ Suc j"
      using u(2) by auto
    then show False
      using v that by (simp add: level_def del: relpow.simps)
  qed
  then have "u \<in> level E k"
    using u(1) by (simp add: level_def)
  moreover have "v \<notin> level E j" if "j \<le> k" for j
    using level_disjoint [of v E j "Suc k"] v that by auto
  ultimately show "v \<in> {v. (\<exists>u\<in>level E k. (u, v) \<in> E) \<and> (\<forall>j\<le>k. v \<notin> level E j)}"
    using u(2) by blast
next
  fix v assume "v \<in> {v. (\<exists>u\<in>level E k. (u, v) \<in> E) \<and> (\<forall>j\<le>k. v \<notin> level E j)}"
  then obtain u where u: "u \<in> level E k" "(u, v) \<in> E" and no: "\<And>j. j \<le> k \<Longrightarrow> v \<notin> level E j"
    by blast
  have "(0, v) \<in> E ^^ Suc k"
    using u by (auto simp: level_def)
  moreover have "(0, v) \<notin> E ^^ j" if "j < Suc k" for j
  proof
    assume "(0, v) \<in> E ^^ j"
    from level_path [OF this] obtain i where "i \<le> j" "v \<in> level E i" by blast
    then show False using no [of i] that by simp
  qed
  ultimately show "v \<in> level E (Suc k)"
    by (simp add: level_def)
qed

lemma level_empty_mono:
  assumes "level E k = {}" and "k \<le> m"
  shows "level E m = {}"
  using assms(2,1) by (induction m rule: dec_induct) (auto simp: level_Suc)

lemma level_reachable: "(0, v) \<in> E\<^sup>* \<longleftrightarrow> (\<exists>k. v \<in> level E k)"
proof
  assume "(0, v) \<in> E\<^sup>*"
  then obtain k where "(0, v) \<in> E ^^ k"
    by (auto simp: rtrancl_power)
  then show "\<exists>k. v \<in> level E k"
    using level_path by blast
next
  assume "\<exists>k. v \<in> level E k"
  then show "(0, v) \<in> E\<^sup>*"
    by (auto simp: level_def rtrancl_power)
qed

lemma level_bound:
  assumes "\<And>k. level E k \<subseteq> {..<n}" and "level E k \<noteq> {}"
  shows "k < n"
proof -
  have "\<exists>v. v \<in> level E j" if "j \<le> k" for j
    using level_empty_mono [of E j k] assms(2) that by blast
  then obtain f where f: "\<And>j. j \<le> k \<Longrightarrow> f j \<in> level E j"
    by metis
  have "inj_on f {..k}"
    by (rule inj_onI) (metis f level_disjoint atMost_iff)
  moreover have "f ` {..k} \<subseteq> {..<n}"
    using f assms(1) by fastforce
  ultimately have "card {..k} \<le> card {..<n}"
    by (rule card_inj_on_le) simp
  then show ?thesis by simp
qed

section \<open>Graphs in memory\<close>

definition graph_ok :: "nat \<Rightarrow> node list \<Rightarrow> u32 list \<Rightarrow> bool" where
  "graph_ok n nodes edges \<longleftrightarrow> 0 < n \<and> n \<le> length nodes \<and>
     (\<forall>v<n. \<forall>i\<in>set (edge_range (nodes ! v)). 0 \<le> i \<and> nat i < length edges \<and>
       0 \<le> sint (edges ! nat i) \<and> nat (sint (edges ! nat i)) < n)"

definition target :: "u32 list \<Rightarrow> int \<Rightarrow> nat" where
  "target edges i = nat (sint (edges ! nat i))"

definition succs :: "node list \<Rightarrow> u32 list \<Rightarrow> nat \<Rightarrow> nat set" where
  "succs nodes edges v = target edges ` set (edge_range (nodes ! v))"

definition arcs :: "nat \<Rightarrow> node list \<Rightarrow> u32 list \<Rightarrow> (nat \<times> nat) set" where
  "arcs n nodes edges = {(u, v). u < n \<and> v \<in> succs nodes edges u}"

lemma graph_edge:
  assumes "graph_ok n nodes edges" and "v < n" and "i \<in> set (edge_range (nodes ! v))"
  shows "0 \<le> i" "nat i < length edges" "0 \<le> sint (edges ! nat i)" "target edges i < n"
  using assms by (auto simp: graph_ok_def target_def)

lemma level_nodes: "graph_ok n nodes edges \<Longrightarrow> level (arcs n nodes edges) k \<subseteq> {..<n}"
proof (induction k)
  case 0
  then show ?case by (simp add: graph_ok_def)
next
  case (Suc k)
  then show ?case
    using graph_edge(4) by (fastforce simp: level_Suc arcs_def succs_def)
qed

section \<open>The two halves of a round\<close>

text \<open>The nodes that the first half marks.\<close>

definition found :: "nat \<Rightarrow> node list \<Rightarrow> u32 list \<Rightarrow> bool list \<Rightarrow> nat set \<Rightarrow> nat \<Rightarrow> bool" where
  "found n nodes edges visited U v \<longleftrightarrow> \<not> visited ! v \<and> (\<exists>u\<in>U. v \<in> succs nodes edges u)"

lemma int_get_ok [simp]: "0 \<le> i \<Longrightarrow> nat i < length xs \<Longrightarrow> int_get xs i = Inr (xs ! nat i)"
  by (simp add: int_get_def)

lemma int_set_ok [simp]: "0 \<le> i \<Longrightarrow> nat i < length xs \<Longrightarrow> int_set xs i v = Inr (xs[nat i := v])"
  by (simp add: int_set_def)

text \<open>The loop over the edges of one node.\<close>

lemma edge_loop:
  assumes g: "graph_ok n nodes edges" and u: "u < n" and len: "n \<le> length visited" "n \<le> length upd"
    "n \<le> length cost" and vis: "visited ! u"
  shows "\<exists>upd' cost'. for_each (edge_range (nodes ! u)) (cpu_edge edges visited u) (upd, cost) = Inr (upd', cost') \<and>
     length upd' = length upd \<and> length cost' = length cost \<and>
     (\<forall>v<n. upd' ! v = (upd ! v \<or> \<not> visited ! v \<and> v \<in> succs nodes edges u) \<and>
       cost' ! v = (if \<not> visited ! v \<and> v \<in> succs nodes edges u then cost ! u + 1 else cost ! v))"
    (is "\<exists>upd' cost'. for_each ?xs ?f _ = _ \<and> _")
proof -
  let ?S = "\<lambda>ys v. \<not> visited ! v \<and> v \<in> target edges ` set ys"
  let ?Inv = "\<lambda>ys s. length (fst s) = length upd \<and> length (snd s) = length cost \<and>
     (\<forall>v<n. fst s ! v = (upd ! v \<or> ?S ys v) \<and>
       snd s ! v = (if ?S ys v then cost ! u + 1 else cost ! v))"
  have "\<exists>s'. for_each ?xs ?f (upd, cost) = Inr s' \<and> ?Inv ?xs s'"
  proof (rule for_each_prefix)
    show "?Inv [] (upd, cost)" by simp
  next
    fix ys i zs s
    assume xs: "?xs = ys @ i # zs" and inv: "?Inv ys s"
    have i: "0 \<le> i" "nat i < length edges" "0 \<le> sint (edges ! nat i)" "target edges i < n"
      using graph_edge [OF g u, of i] xs by simp_all
    have t: "nat (sint (edges ! nat i)) = target edges i"
      by (simp add: target_def)
    obtain up co where s: "s = (up, co)" by (cases s)
    have cu: "co ! u = cost ! u"
      using inv s u vis by simp
    show "\<exists>s'. ?f i s = Inr s' \<and> ?Inv (ys @ [i]) s'"
    proof (cases "visited ! target edges i")
      case True
      have "?f i s = Inr s"
        using i len s True by (simp add: t cpu_edge_def)
      moreover have "?Inv (ys @ [i]) s"
        using inv True by auto
      ultimately show ?thesis by (rule step_result)
    next
      case False
      have "?f i s = Inr (up[target edges i := True], co[target edges i := cost ! u + 1])"
        using i len s inv False u cu by (simp add: t cpu_edge_def)
      moreover have "?Inv (ys @ [i]) (up[target edges i := True], co[target edges i := cost ! u + 1])"
        using inv s False i len by (auto simp: nth_list_update)
      ultimately show ?thesis by (rule step_result)
    qed
  qed
  then show ?thesis
    by (auto simp: succs_def)
qed

lemma expand_result:
  assumes g: "graph_ok n nodes edges" and d: "distinct tids" "set tids = {..<n}"
    and len: "n \<le> length msk" "n \<le> length visited" "n \<le> length upd" "n \<le> length cost"
    and vis: "\<And>v. v < n \<Longrightarrow> msk ! v \<Longrightarrow> visited ! v \<and> cost ! v = c"
  shows "\<exists>msk' upd' cost'. for_each tids (cpu_expand nodes edges visited) (msk, upd, cost) =
       Inr (msk', upd', cost') \<and>
     length msk' = length msk \<and> length upd' = length upd \<and> length cost' = length cost \<and>
     (\<forall>v<n. \<not> msk' ! v \<and>
       upd' ! v = (upd ! v \<or> found n nodes edges visited {u. u < n \<and> msk ! u} v) \<and>
       cost' ! v = (if found n nodes edges visited {u. u < n \<and> msk ! u} v then c + 1 else cost ! v))"
proof -
  let ?F = "\<lambda>D v. found n nodes edges visited {u. u \<in> D \<and> msk ! u} v"
  let ?Inv = "\<lambda>D s. case s of (ma, up, co) \<Rightarrow>
     length ma = length msk \<and> length up = length upd \<and> length co = length cost \<and>
     (\<forall>v<n. ma ! v = (msk ! v \<and> v \<notin> D) \<and> up ! v = (upd ! v \<or> ?F D v) \<and>
       co ! v = (if ?F D v then c + 1 else cost ! v))"
  have "\<exists>s'. for_each tids (cpu_expand nodes edges visited) (msk, upd, cost) = Inr s' \<and> ?Inv (set tids) s'"
  proof (rule for_each_invariant [OF d(1)])
    show "?Inv {} (msk, upd, cost)"
      by (simp add: found_def)
  next
    fix u D s
    assume u: "u \<in> set tids" "u \<notin> D" "D \<subseteq> set tids" and inv: "?Inv D s"
    obtain ma up co where s: "s = (ma, up, co)" by (cases s)
    have un: "u < n" using u(1) d(2) by simp
    show "\<exists>s'. cpu_expand nodes edges visited u s = Inr s' \<and> ?Inv (insert u D) s'"
    proof (cases "msk ! u")
      case False
      have "cpu_expand nodes edges visited u s = Inr s"
        using s inv False un len by (simp add: cpu_expand_def)
      moreover have "{w. w \<in> insert u D \<and> msk ! w} = {w. w \<in> D \<and> msk ! w}"
        using False by auto
      ultimately show ?thesis
        using inv s False by auto
    next
      case True
      have vu: "visited ! u" "cost ! u = c"
        using vis [OF un True] by simp_all
      have cu: "co ! u = c"
        using inv s un vu by (simp add: found_def)
      have lens: "n \<le> length ma" "n \<le> length up" "n \<le> length co"
        using inv s len by simp_all
      obtain up' co' where r: "for_each (edge_range (nodes ! u)) (cpu_edge edges visited u) (up, co) = Inr (up', co')"
        and l: "length up' = length up" "length co' = length co"
        and v: "\<And>v. v < n \<Longrightarrow> up' ! v = (up ! v \<or> \<not> visited ! v \<and> v \<in> succs nodes edges u)"
          "\<And>v. v < n \<Longrightarrow> co' ! v =
            (if \<not> visited ! v \<and> v \<in> succs nodes edges u then co ! u + 1 else co ! v)"
        using edge_loop [OF g un len(2) lens(2,3) vu(1)] by blast
      have "cpu_expand nodes edges visited u s = Inr (ma[u := False], up', co')"
        using s inv True un u(2) lens g r by (simp add: cpu_expand_def graph_ok_def)
      moreover have "?F (insert u D) w \<longleftrightarrow> ?F D w \<or> \<not> visited ! w \<and> w \<in> succs nodes edges u" for w
        using True by (auto simp: found_def)
      ultimately show ?thesis
        using inv s l v cu un lens by (auto simp: nth_list_update)
    qed
  qed
  then show ?thesis
    using d(2) by (auto simp: lessThan_def)
qed

lemma advance_result:
  assumes d: "distinct tids" "set tids = {..<n}"
    and len: "n \<le> length msk" "n \<le> length visited" "n \<le> length upd"
  shows "\<exists>msk' upd' visited'. for_each tids cpu_advance (msk, upd, visited, b) =
       Inr (msk', upd', visited', b \<or> (\<exists>v<n. upd ! v)) \<and>
     length msk' = length msk \<and> length upd' = length upd \<and> length visited' = length visited \<and>
     (\<forall>v<n. msk' ! v = (msk ! v \<or> upd ! v) \<and> \<not> upd' ! v \<and> visited' ! v = (visited ! v \<or> upd ! v))"
proof -
  let ?Inv = "\<lambda>D s. case s of (ma, up, vi, b') \<Rightarrow>
     length ma = length msk \<and> length up = length upd \<and> length vi = length visited \<and>
     b' = (b \<or> (\<exists>v\<in>D. upd ! v)) \<and>
     (\<forall>v<n. ma ! v = (msk ! v \<or> upd ! v \<and> v \<in> D) \<and> up ! v = (upd ! v \<and> v \<notin> D) \<and>
       vi ! v = (visited ! v \<or> upd ! v \<and> v \<in> D))"
  have "\<exists>s'. for_each tids cpu_advance (msk, upd, visited, b) = Inr s' \<and> ?Inv (set tids) s'"
  proof (rule for_each_invariant [OF d(1)])
    show "?Inv {} (msk, upd, visited, b)" by simp
  next
    fix u D s
    assume u: "u \<in> set tids" "u \<notin> D" "D \<subseteq> set tids" and inv: "?Inv D s"
    obtain ma up vi b' where s: "s = (ma, up, vi, b')" by (cases s)
    have un: "u < n" using u(1) d(2) by simp
    show "\<exists>s'. cpu_advance u s = Inr s' \<and> ?Inv (insert u D) s'"
    proof (cases "upd ! u")
      case False
      have "cpu_advance u s = Inr s"
        using s inv False un len by (simp add: cpu_advance_def)
      then show ?thesis
        using inv s False by auto
    next
      case True
      have "cpu_advance u s = Inr (ma[u := True], up[u := False], vi[u := True], True)"
        using s inv True un u(2) len by (simp add: cpu_advance_def)
      then show ?thesis
        using inv s True un len by (auto simp: nth_list_update)
    qed
  qed
  then show ?thesis
    using d(2) by auto
qed

section \<open>Rounds\<close>

definition bfs_inv :: "(nat \<times> nat) set \<Rightarrow> nat \<Rightarrow> nat \<Rightarrow> masks \<Rightarrow> bool" where
  "bfs_inv E n k = (\<lambda>(msk, upd, visited, cost).
     n \<le> length msk \<and> n \<le> length upd \<and> n \<le> length visited \<and> n \<le> length cost \<and>
     (\<forall>v<n. msk ! v = (v \<in> level E k) \<and> \<not> upd ! v \<and> visited ! v = (\<exists>j\<le>k. v \<in> level E j) \<and>
       (\<forall>j\<le>k. v \<in> level E j \<longrightarrow> cost ! v = of_nat j) \<and>
       ((\<forall>j\<le>k. v \<notin> level E j) \<longrightarrow> cost ! v = - 1)))"

lemma found_level:
  assumes "graph_ok n nodes edges" and "v < n" and "E = arcs n nodes edges"
    and "\<And>v. v < n \<Longrightarrow> visited ! v = (\<exists>j\<le>k. v \<in> level E j)"
    and "{u. u < n \<and> msk ! u} = level E k"
  shows "found n nodes edges visited {u. u < n \<and> msk ! u} v \<longleftrightarrow> v \<in> level E (Suc k)"
proof -
  have "(\<exists>u\<in>level E k. (u, v) \<in> E) \<longleftrightarrow> (\<exists>u\<in>level E k. v \<in> succs nodes edges u)"
    using level_nodes [OF assms(1), of k] by (auto simp: assms(3) arcs_def)
  then show ?thesis
    using assms(2,4,5) by (auto simp: found_def level_Suc)
qed

definition lens :: "masks \<Rightarrow> nat \<times> nat \<times> nat \<times> nat" where
  "lens = (\<lambda>(msk, upd, visited, cost). (length msk, length upd, length visited, length cost))"

lemma round_result:
  assumes g: "graph_ok n nodes edges" and d: "distinct tids" "set tids = {..<n}"
    and d': "distinct tids'" "set tids' = {..<n}"
    and E: "E = arcs n nodes edges" and inv: "bfs_inv E n k st"
  shows "\<exists>st'. cpu_round tids tids' nodes edges st = Inr (level E (Suc k) \<noteq> {}, st') \<and>
     bfs_inv E n (Suc k) st' \<and> lens st' = lens st"
proof -
  obtain msk upd visited cost where st: "st = (msk, upd, visited, cost)" by (cases st)
  note inv = inv [unfolded bfs_inv_def st, simplified]
  have lv: "level E k \<subseteq> {..<n}" for k
    using level_nodes [OF g] E by simp
  then have U: "{u. u < n \<and> msk ! u} = level E k"
    using inv by blast
  have len: "n \<le> length msk" "n \<le> length visited" "n \<le> length upd" "n \<le> length cost"
    using inv by simp_all
  have old: "visited ! v \<and> cost ! v = of_nat k" if "v < n" "msk ! v" for v
    using inv that by auto
  obtain m1 u1 c1 where e: "for_each tids (cpu_expand nodes edges visited) (msk, upd, cost) = Inr (m1, u1, c1)"
    and l1: "length m1 = length msk" "length u1 = length upd" "length c1 = length cost"
    and r1: "\<And>v. v < n \<Longrightarrow> \<not> m1 ! v"
      "\<And>v. v < n \<Longrightarrow> u1 ! v = (upd ! v \<or> found n nodes edges visited {u. u < n \<and> msk ! u} v)"
      "\<And>v. v < n \<Longrightarrow> c1 ! v =
        (if found n nodes edges visited {u. u < n \<and> msk ! u} v then of_nat k + 1 else cost ! v)"
    using expand_result [OF g d len old] by blast
  have fl: "found n nodes edges visited {u. u < n \<and> msk ! u} v \<longleftrightarrow> v \<in> level E (Suc k)" if "v < n" for v
    using found_level [OF g that E _ U, of visited] inv by simp
  have u1: "u1 ! v \<longleftrightarrow> v \<in> level E (Suc k)" if "v < n" for v
    using r1(2) [OF that] fl [OF that] inv that by simp
  obtain m2 u2 v2 where a: "for_each tids' cpu_advance (m1, u1, visited, False) =
      Inr (m2, u2, v2, False \<or> (\<exists>v<n. u1 ! v))"
    and l2: "length m2 = length m1" "length u2 = length u1" "length v2 = length visited"
    and r2: "\<And>v. v < n \<Longrightarrow> m2 ! v = (m1 ! v \<or> u1 ! v)" "\<And>v. v < n \<Longrightarrow> \<not> u2 ! v"
      "\<And>v. v < n \<Longrightarrow> v2 ! v = (visited ! v \<or> u1 ! v)"
    using advance_result [OF d', of m1 visited u1 False] inv l1 by auto
  have "(\<exists>v<n. u1 ! v) \<longleftrightarrow> level E (Suc k) \<noteq> {}"
    using u1 lv [of "Suc k"] by blast
  then have "cpu_round tids tids' nodes edges st = Inr (level E (Suc k) \<noteq> {}, m2, u2, v2, c1)"
    using e a by (simp add: cpu_round_def st)
  moreover have "bfs_inv E n (Suc k) (m2, u2, v2, c1)"
  proof -
    have c: "c1 ! v = (if v \<in> level E (Suc k) then of_nat k + 1 else cost ! v)" if "v < n" for v
      using r1(3) [OF that] fl [OF that] by simp
    have "c1 ! v = of_nat j" if "v < n" "j \<le> Suc k" "v \<in> level E j" for v j
    proof (cases "j = Suc k")
      case False
      then have "v \<notin> level E (Suc k)"
        using level_disjoint that(3) by blast
      then show ?thesis
        using c [OF that(1)] inv that False by simp
    qed (use c that in simp)
    moreover have "c1 ! v = - 1" if "v < n" "\<forall>j\<le>Suc k. v \<notin> level E j" for v
      using c [OF that(1)] inv that by simp
    moreover have "v2 ! v = (\<exists>j\<le>Suc k. v \<in> level E j)" if "v < n" for v
      using r2(3) [OF that] u1 [OF that] inv that by (auto simp: le_Suc_eq)
    ultimately show ?thesis
      using inv l1 l2 r1(1) r2(1,2) u1 by (simp add: bfs_inv_def)
  qed
  moreover have "lens (m2, u2, v2, c1) = lens st"
    using l1 l2 by (simp add: lens_def st)
  ultimately show ?thesis by blast
qed

section \<open>The loop\<close>

text \<open>
  A loop whose rounds go from one level to the next, and which goes on as long as the next level has nodes:
  what the search on the CPU and the search on the GPU have in common.
\<close>

locale level_search =
  fixes E :: "(nat \<times> nat) set" and n :: nat
    and step :: "'s \<Rightarrow> (bool \<times> 's) res" and loop :: "'s \<Rightarrow> 's res option"
    and Inv :: "nat \<Rightarrow> 's \<Rightarrow> bool"
  assumes levels: "Inv k st \<Longrightarrow> level E j \<subseteq> {..<n}"
    and step: "Inv k st \<Longrightarrow> \<exists>st'. step st = Inr (level E (Suc k) \<noteq> {}, st') \<and> Inv (Suc k) st'"
    and loop: "loop st = (case step st of
      Inl e \<Rightarrow> Some (Inl e) | Inr (again, st) \<Rightarrow> if again then loop st else Some (Inr st))"
begin

lemma loop_ends: "Inv k st \<Longrightarrow> \<exists>st' m. loop st = Some (Inr st') \<and> Inv m st' \<and> level E m = {}"
proof (induction "n - k" arbitrary: k st rule: less_induct)
  case less
  obtain st' where st': "step st = Inr (level E (Suc k) \<noteq> {}, st')" "Inv (Suc k) st'"
    using step [OF less.prems] by blast
  show ?case
  proof (cases "level E (Suc k) = {}")
    case True
    then show ?thesis
      using st' loop [of st] by auto
  next
    case False
    have "Suc k < n"
      using level_bound [OF _ False] levels [OF less.prems] by blast
    then have "n - Suc k < n - k" by simp
    then show ?thesis
      using less.hyps [of "Suc k" st'] st' False loop [of st] by simp
  qed
qed

end

definition bfs_costs :: "(nat \<times> nat) set \<Rightarrow> nat \<Rightarrow> u32 list \<Rightarrow> bool" where
  "bfs_costs E n cost \<longleftrightarrow> (\<forall>v<n. (\<forall>k. v \<in> level E k \<longrightarrow> cost ! v = of_nat k) \<and>
     ((0, v) \<notin> E\<^sup>* \<longrightarrow> cost ! v = - 1))"

lemma bfs_inv_done:
  assumes "bfs_inv E n m (msk, upd, visited, cost)" and "level E m = {}"
  shows "bfs_costs E n cost"
proof -
  have "k \<le> m" if "v \<in> level E k" for v k
    using level_empty_mono [OF assms(2), of k] that by (cases "k \<le> m") auto
  then show ?thesis
    using assms(1) level_reachable by (auto simp: bfs_costs_def bfs_inv_def)
qed

text \<open>Costs are determined by the graph.\<close>

lemma bfs_costs_unique:
  assumes "bfs_costs E n c" and "bfs_costs E n c'"
  shows "take n c = take n c' \<or> length c < n \<or> length c' < n"
proof (cases "length c < n \<or> length c' < n")
  case False
  have "c ! v = c' ! v" if "v < n" for v
  proof (cases "(0, v) \<in> E\<^sup>*")
    case True
    then obtain k where "v \<in> level E k"
      using level_reachable by blast
    then show ?thesis
      using assms that by (simp add: bfs_costs_def)
  qed (use assms that in \<open>simp add: bfs_costs_def\<close>)
  then have "take n c = take n c'"
    using False by (intro nth_equalityI) auto
  then show ?thesis by simp
qed simp

section \<open>The search on the CPU\<close>

interpretation cpu: level_search "arcs (nat (sint n)) nodes edges" "nat (sint n)"
  "cpu_round [0..<nat (sint n)] [0..<nat (sint n)] nodes edges" "run_bfs_cpu n nodes edges"
  "\<lambda>k st. graph_ok (nat (sint n)) nodes edges \<and> bfs_inv (arcs (nat (sint n)) nodes edges) (nat (sint n)) k st \<and>
     lens st = l"
  for n nodes edges l
proof
  show "run_bfs_cpu n nodes edges st = (case cpu_round [0..<nat (sint n)] [0..<nat (sint n)] nodes edges st of
      Inl e \<Rightarrow> Some (Inl e)
    | Inr (again, st) \<Rightarrow> if again then run_bfs_cpu n nodes edges st else Some (Inr st))" for st
    by (rule run_bfs_cpu.simps)
next
  fix k st
  assume inv: "graph_ok (nat (sint n)) nodes edges \<and> bfs_inv (arcs (nat (sint n)) nodes edges) (nat (sint n)) k st \<and>
    lens st = l"
  then show "level (arcs (nat (sint n)) nodes edges) j \<subseteq> {..<nat (sint n)}" for j
    using level_nodes by blast
  show "\<exists>st'. cpu_round [0..<nat (sint n)] [0..<nat (sint n)] nodes edges st =
      Inr (level (arcs (nat (sint n)) nodes edges) (Suc k) \<noteq> {}, st') \<and>
    graph_ok (nat (sint n)) nodes edges \<and> bfs_inv (arcs (nat (sint n)) nodes edges) (nat (sint n)) (Suc k) st' \<and>
    lens st' = l"
    using round_result [of "nat (sint n)" nodes edges "[0..<nat (sint n)]" "[0..<nat (sint n)]" _ k st] inv
    by (auto simp: atLeast0LessThan)
qed

text \<open>The arrays as both programs set them up: node 0 is the source.\<close>

definition bfs_start :: "nat \<Rightarrow> masks" where
  "bfs_start n = ((replicate n False)[0 := True], replicate n False, (replicate n False)[0 := True],
     (replicate n (- 1))[0 := 0])"

lemma bfs_start_inv: "0 < n \<Longrightarrow> bfs_inv E n 0 (bfs_start n)"
  by (auto simp: bfs_inv_def bfs_start_def nth_list_update)

lemma run_bfs_cpu_result:
  assumes g: "graph_ok (nat (sint n)) nodes edges"
    and inv: "bfs_inv (arcs (nat (sint n)) nodes edges) (nat (sint n)) 0 st"
  shows "\<exists>msk upd visited cost. run_bfs_cpu n nodes edges st = Some (Inr (msk, upd, visited, cost)) \<and>
     lens (msk, upd, visited, cost) = lens st \<and> bfs_costs (arcs (nat (sint n)) nodes edges) (nat (sint n)) cost"
proof -
  let ?N = "nat (sint n)" and ?E = "arcs (nat (sint n)) nodes edges"
  obtain st' m where st': "run_bfs_cpu n nodes edges st = Some (Inr st')" "bfs_inv ?E ?N m st'"
    "lens st' = lens st" "level ?E m = {}"
    using cpu.loop_ends [of n nodes edges 0 st "lens st"] g inv by auto
  obtain msk upd visited cost where s: "st' = (msk, upd, visited, cost)" by (cases st')
  show ?thesis
    using st' bfs_inv_done by (auto simp: s)
qed

end
