(* ===== verification/QH_Bfs_Gpu.thy ===== *)
theory QH_Bfs_Gpu
  imports QH_Bfs_Levels
begin

text \<open>
  The kernels of the breadth-first search against the search on the CPU: an item of a kernel does to the
  bytes of the device what a round of the loop over \<open>tid\<close> does to \<open>bool\<close>s. The two launches of a round
  together find the next level, whatever the order of the items.
\<close>

section \<open>Bytes and truth values\<close>

definition truth :: "u8 list \<Rightarrow> bool list" where
  "truth = map (\<lambda>b. b \<noteq> 0)"

lemma length_truth [simp]: "length (truth xs) = length xs"
  by (simp add: truth_def)

lemma nth_truth [simp]: "i < length xs \<Longrightarrow> truth xs ! i = (xs ! i \<noteq> 0)"
  by (simp add: truth_def)

lemma truth_get [simp]: "bindR (arr_get (truth xs) i) f = bindR (arr_get xs i) (\<lambda>b. f (b \<noteq> 0))"
  by (simp add: arr_get_def)

lemma truth_set [simp]:
  "bindR (arr_set (truth xs) i True) f = bindR (arr_set xs i 1) (\<lambda>ys. f (truth ys))"
  "bindR (arr_set (truth xs) i False) f = bindR (arr_set xs i 0) (\<lambda>ys. f (truth ys))"
  by (simp_all add: arr_set_def truth_def map_update)

lemma truth_int_get [simp]: "bindR (int_get (truth xs) i) f = bindR (int_get xs i) (\<lambda>b. f (b \<noteq> 0))"
  by (simp add: int_get_def bindR_assoc)

lemma truth_int_set [simp]:
  "bindR (int_set (truth xs) i True) f = bindR (int_set xs i 1) (\<lambda>ys. f (truth ys))"
  by (simp add: int_set_def bindR_assoc)

section \<open>Items\<close>

lemma edge_sim:
  "map_res (\<lambda>(u, c). (truth u, c)) (BFS_1_edge edges visited tid i s) =
     cpu_edge edges (truth visited) tid i ((\<lambda>(u, c). (truth u, c)) s)"
  by (simp add: BFS_1_edge_def cpu_edge_def map_res_bindR split_beta if_distrib [of "map_res _"]
      cong: if_cong)

lemma edges_sim:
  "for_each xs (cpu_edge edges (truth visited) tid) (truth u, c) =
     map_res (\<lambda>(u, c). (truth u, c)) (for_each xs (BFS_1_edge edges visited tid) (u, c))"
  using for_each_simulation [where P = "\<lambda>_. True" and f = "BFS_1_edge edges visited tid"
      and g = "cpu_edge edges (truth visited) tid" and A = "\<lambda>(u, c). (truth u, c)" and s = "(u, c)"
      and xs = xs]
  by (simp add: edge_sim)

lemma BFS_1_sim:
  assumes "int tid < sint n"
  shows "map_res (\<lambda>(m, u, c). (truth m, truth u, c)) (BFS_1 nodes edges visited n tid s) =
     cpu_expand nodes edges (truth visited) tid ((\<lambda>(m, u, c). (truth m, truth u, c)) s)"
  using assms
  by (simp add: BFS_1_def cpu_expand_def map_res_bindR edges_sim bindR_map_res case_prod_unfold
      if_distrib [of "map_res _"] cong: if_cong)

text \<open>\<open>stop\<close> is the first byte of the buffer \<open>g_over\<close>.\<close>

lemma BFS_2_sim:
  assumes "int tid < sint n" and "snd (snd (snd s)) \<noteq> []"
  shows "map_res (\<lambda>(m, u, v, b). (truth m, truth u, truth v, b ! 0 \<noteq> 0)) (BFS_2 n tid s) =
     cpu_advance tid ((\<lambda>(m, u, v, b). (truth m, truth u, truth v, b ! 0 \<noteq> 0)) s)"
  using assms
  by (simp add: BFS_2_def cpu_advance_def map_res_bindR split_beta if_distrib [of "map_res _"]
      cong: if_cong)

lemma BFS_2_over:
  assumes "BFS_2 n tid s = Inr s'"
  shows "length (snd (snd (snd s'))) = length (snd (snd (snd s))) \<and>
     tl (snd (snd (snd s'))) = tl (snd (snd (snd s)))"
proof -
  obtain m u v b where "s = (m, u, v, b)" by (cases s)
  moreover have "tl (b[0 := 1]) = tl b" by (cases b) simp_all
  ultimately show ?thesis
    using assms by (auto simp: BFS_2_def arr_set_Inr split: if_splits)
qed

section \<open>Launches\<close>

lemma nodes_in_launch:
  assumes "distinct tids" and "{..<nat (sint n)} \<subseteq> set tids"
  shows "distinct (filter (\<lambda>t. int t < sint n) tids)"
    and "set (filter (\<lambda>t. int t < sint n) tids) = {..<nat (sint n)}"
proof -
  show "distinct (filter (\<lambda>t. int t < sint n) tids)"
    using assms(1) by (rule distinct_filter)
  have "int t < sint n \<longleftrightarrow> t < nat (sint n)" for t
    by linarith
  then show "set (filter (\<lambda>t. int t < sint n) tids) = {..<nat (sint n)}"
    using assms(2) by auto
qed

lemma launch_BFS_1:
  assumes "P = (\<lambda>t. int t < sint n)"
  shows "map_res (\<lambda>(m, u, c). (truth m, truth u, c)) (for_each tids (BFS_1 nodes edges visited n) (m, u, c)) =
     for_each (filter P tids) (cpu_expand nodes edges (truth visited)) (truth m, truth u, c)"
proof -
  have "for_each tids (BFS_1 nodes edges visited n) (m, u, c) =
      for_each (filter P tids) (BFS_1 nodes edges visited n) (m, u, c)"
    by (rule for_each_filter) (auto simp: assms BFS_1_def)
  then show ?thesis
    using for_each_simulation [where P = "\<lambda>_. True" and f = "BFS_1 nodes edges visited n"
        and g = "cpu_expand nodes edges (truth visited)" and A = "\<lambda>(m, u, c). (truth m, truth u, c)"
        and s = "(m, u, c)" and xs = "filter P tids"] BFS_1_sim
    by (simp add: assms)
qed

lemma launch_BFS_2:
  assumes "P = (\<lambda>t. int t < sint n)" and "b \<noteq> []"
  shows "map_res (\<lambda>(m, u, v, b). (truth m, truth u, truth v, b ! 0 \<noteq> 0)) (for_each tids (BFS_2 n) (m, u, v, b)) =
     for_each (filter P tids) cpu_advance (truth m, truth u, truth v, b ! 0 \<noteq> 0)"
proof -
  have flat: "for_each tids (BFS_2 n) (m, u, v, b) = for_each (filter P tids) (BFS_2 n) (m, u, v, b)"
    by (rule for_each_filter) (auto simp: assms BFS_2_def)
  show ?thesis
    unfolding flat
  proof (subst for_each_simulation [where P = "\<lambda>s. snd (snd (snd s)) \<noteq> []" and g = cpu_advance])
    fix i and s :: "u8 list \<times> u8 list \<times> u8 list \<times> u8 list"
    assume "i \<in> set (filter P tids)" "snd (snd (snd s)) \<noteq> []"
    then show "map_res (\<lambda>(m, u, v, b). (truth m, truth u, truth v, b ! 0 \<noteq> 0)) (BFS_2 n i s) =
        cpu_advance i ((\<lambda>(m, u, v, b). (truth m, truth u, truth v, b ! 0 \<noteq> 0)) s)"
      by (intro BFS_2_sim) (simp_all add: assms)
    show "snd (snd (snd s')) \<noteq> []" if "BFS_2 n i s = Inr s'" for s'
      using conjunct1 [OF BFS_2_over [OF that]] \<open>snd (snd (snd s)) \<noteq> []\<close> by auto
  qed (use assms in auto)
qed

lemma launch_lengths:
  "for_each tids (BFS_2 n) t = Inr z \<Longrightarrow> length (snd (snd (snd z))) = length (snd (snd (snd t))) \<and>
     tl (snd (snd (snd z))) = tl (snd (snd (snd t)))"
proof (induction tids arbitrary: t)
  case (Cons i tids)
  then obtain t' where t': "BFS_2 n i t = Inr t'" "for_each tids (BFS_2 n) t' = Inr z"
    by (simp only: for_each.simps bindR_eq_Inr) blast
  show ?case using Cons.IH [OF t'(2)] BFS_2_over [OF t'(1)] by simp
qed simp

text \<open>The two launches of a round.\<close>

lemma gpu_expand_result:
  assumes g: "graph_ok (nat (sint n)) nodes edges" and E: "E = arcs (nat (sint n)) nodes edges"
    and xs: "distinct xs" "{..<nat (sint n)} \<subseteq> set xs"
    and inv: "bfs_inv E (nat (sint n)) k (truth m, truth u, truth v, c)"
  shows "\<exists>m1 u1 c1. for_each xs (BFS_1 nodes edges v n) (m, u, c) = Inr (m1, u1, c1)"
proof -
  let ?P = "\<lambda>t. int t < sint n"
  obtain st' where "cpu_round (filter ?P xs) (filter ?P xs) nodes edges (truth m, truth u, truth v, c) =
      Inr (level E (Suc k) \<noteq> {}, st')"
    using round_result [OF g nodes_in_launch [OF xs] nodes_in_launch [OF xs] E inv] by blast
  then obtain x1 where "for_each (filter ?P xs) (cpu_expand nodes edges (truth v)) (truth m, truth u, c) = Inr x1"
    by (auto simp: cpu_round_def)
  then show ?thesis
    using launch_BFS_1 [of ?P n xs nodes edges v m u c] by (auto simp: map_res_eq_Inr)
qed

lemma gpu_advance_result:
  assumes g: "graph_ok (nat (sint n)) nodes edges" and E: "E = arcs (nat (sint n)) nodes edges"
    and xs: "distinct xs" "{..<nat (sint n)} \<subseteq> set xs" and ys: "distinct ys" "{..<nat (sint n)} \<subseteq> set ys"
    and inv: "bfs_inv E (nat (sint n)) k (truth m, truth u, truth v, c)" and b: "b \<noteq> []" "b ! 0 = 0"
    and l1: "for_each xs (BFS_1 nodes edges v n) (m, u, c) = Inr (m1, u1, c1)"
  shows "\<exists>m2 u2 v2 b2.
     for_each ys (BFS_2 n) (m1, u1, v, b) = Inr (m2, u2, v2, b2) \<and>
     (b2 ! 0 \<noteq> 0 \<longleftrightarrow> level E (Suc k) \<noteq> {}) \<and> length b2 = length b \<and> tl b2 = tl b \<and> length c1 = length c \<and>
     bfs_inv E (nat (sint n)) (Suc k) (truth m2, truth u2, truth v2, c1)"
proof -
  let ?N = "nat (sint n)" and ?P = "\<lambda>t. int t < sint n"
  let ?xs = "filter ?P xs" and ?ys = "filter ?P ys"
  obtain st' where r: "cpu_round ?xs ?ys nodes edges (truth m, truth u, truth v, c) =
      Inr (level E (Suc k) \<noteq> {}, st')" "bfs_inv E ?N (Suc k) st'" "lens st' = lens (truth m, truth u, truth v, c)"
    using round_result [OF g nodes_in_launch [OF xs] nodes_in_launch [OF ys] E inv] by blast
  have x1: "for_each ?xs (cpu_expand nodes edges (truth v)) (truth m, truth u, c) = Inr (truth m1, truth u1, c1)"
    using launch_BFS_1 [of ?P n xs nodes edges v m u c] l1 by simp
  obtain x2 where x2: "for_each ?ys cpu_advance (truth m1, truth u1, truth v, b ! 0 \<noteq> 0) = Inr x2"
    using r(1) x1 b(2) by (auto simp: cpu_round_def)
  then obtain m2 u2 v2 b2 where l2: "for_each ys (BFS_2 n) (m1, u1, v, b) = Inr (m2, u2, v2, b2)"
    and x2': "x2 = (truth m2, truth u2, truth v2, b2 ! 0 \<noteq> 0)"
    using launch_BFS_2 [of ?P n b ys m1 u1 v] b(1) by (auto simp: map_res_eq_Inr)
  have st': "st' = (truth m2, truth u2, truth v2, c1)" "b2 ! 0 \<noteq> 0 \<longleftrightarrow> level E (Suc k) \<noteq> {}"
    using r(1) x1 x2 x2' b(2) by (simp_all add: cpu_round_def)
  moreover have "length b2 = length b" "tl b2 = tl b"
    using launch_lengths [OF l2] by simp_all
  ultimately show ?thesis
    using l2 r(2,3) by (simp add: lens_def)
qed

end
