(* ===== verification/QH_OpenCL.thy ===== *)
theory QH_OpenCL
  imports QH_Gpu
begin

text \<open>
  The part of the OpenCL API that the host code of the graph services uses, over buffers of bytes. A call
  fails when its arguments are not valid, and may fail for reasons of its own, as the platform decides from
  the number of calls before it; a call that fails changes nothing. \<open>int\<close>s and \<open>struct\<close>s of the host
  go to the device as bytes, least significant byte first.
\<close>

section \<open>Values and bytes\<close>

definition bytes_of :: "u32 \<Rightarrow> u8 list" where
  "bytes_of w = [ucast w, ucast (drop_bit 8 w), ucast (drop_bit 16 w), ucast (drop_bit 24 w)]"

definition of_bytes :: "u8 \<Rightarrow> u8 \<Rightarrow> u8 \<Rightarrow> u8 \<Rightarrow> u32" where
  "of_bytes a b c d = ucast a + push_bit 8 (ucast b) + push_bit 16 (ucast c) + push_bit 24 (ucast d)"

definition ints_to_bytes :: "u32 list \<Rightarrow> u8 list" where
  "ints_to_bytes ws = concat (map bytes_of ws)"

fun ints_of_bytes :: "u8 list \<Rightarrow> u32 list" where
  "ints_of_bytes (a # b # c # d # bs) = of_bytes a b c d # ints_of_bytes bs"
| "ints_of_bytes _ = []"

lemma unat_bytes:
  fixes w :: u32
  shows "unat (of_bytes a b c d) = unat a + 256 * unat b + 65536 * unat c + 16777216 * unat d"
    and "unat (ucast w :: u8) = unat w mod 256"
    and "unat (drop_bit 8 w) = unat w div 256"
    and "unat (drop_bit 16 w) = unat w div 65536"
    and "unat (drop_bit 24 w) = unat w div 16777216"
proof -
  have lt: "unat x < 256" for x :: u8
    using unsigned_less [of x] by simp
  have u: "of_bytes a b c d = of_nat (unat a + 256 * unat b + 65536 * unat c + 16777216 * unat d)"
    by (simp add: of_bytes_def push_bit_eq_mult mult.commute)
  show "unat (of_bytes a b c d) = unat a + 256 * unat b + 65536 * unat c + 16777216 * unat d"
    unfolding u using lt [of a] lt [of b] lt [of c] lt [of d]
    by (intro unat_of_nat_small) simp
  show "unat (ucast w :: u8) = unat w mod 256"
    by (simp add: unsigned_ucast_eq take_bit_eq_mod)
  show "unat (drop_bit 8 w) = unat w div 256" "unat (drop_bit 16 w) = unat w div 65536"
    "unat (drop_bit 24 w) = unat w div 16777216"
    by (simp_all add: drop_bit_eq_div unat_div_distrib)
qed

lemma four_digits:
  fixes x :: nat
  assumes "x < 4294967296"
  shows "x mod 256 + 256 * (x div 256 mod 256) + 65536 * (x div 65536 mod 256) +
     16777216 * (x div 16777216 mod 256) = x"
proof -
  have q: "x div 65536 = x div 256 div 256" "x div 16777216 = x div 256 div 256 div 256"
    by (simp_all add: div_mult2_eq [symmetric])
  have "x div 16777216 < 256"
    using assms by (simp add: less_mult_imp_div_less)
  then have "x div 256 div 256 div 256 mod 256 = x div 256 div 256 div 256"
    by (simp add: q)
  then show ?thesis
    unfolding q
    using mult_div_mod_eq [of 256 x] mult_div_mod_eq [of 256 "x div 256"]
      mult_div_mod_eq [of 256 "x div 256 div 256"]
    by linarith
qed

lemma bytes_roundtrip:
  "of_bytes (ucast w) (ucast (drop_bit 8 w)) (ucast (drop_bit 16 w)) (ucast (drop_bit 24 w)) = w"
proof -
  have "unat (of_bytes (ucast w) (ucast (drop_bit 8 w)) (ucast (drop_bit 16 w)) (ucast (drop_bit 24 w))) = unat w"
    unfolding unat_bytes by (rule four_digits) (rule unat_less_32)
  then show ?thesis by (simp add: word_unat_eq_iff)
qed

lemma ints_roundtrip [simp]: "ints_of_bytes (ints_to_bytes ws) = ws"
  by (induction ws) (simp_all add: ints_to_bytes_def bytes_of_def bytes_roundtrip)

lemma length_ints_to_bytes [simp]: "length (ints_to_bytes ws) = 4 * length ws"
  by (induction ws) (simp_all add: ints_to_bytes_def bytes_of_def)

section \<open>State\<close>

text \<open>A kernel argument: a buffer, perhaps \<open>NULL\<close>, or an \<open>int\<close>.\<close>

datatype clarg = Buf "nat option" | Val u32

text \<open>
  The platform: which calls succeed, the schedule of each launch, the contents of new buffers, the files,
  which allocations of the C library succeed and what new memory holds.
\<close>

record cl_platform =
  pl_ok :: "nat \<Rightarrow> bool"
  pl_dev :: "nat \<Rightarrow> gpu"
  pl_junk :: "nat \<Rightarrow> nat \<Rightarrow> u8 list"
  pl_file :: "string \<Rightarrow> bool"
  pl_malloc :: "nat \<Rightarrow> bool"
  pl_cell :: "nat \<Rightarrow> nat \<Rightarrow> u32"

record ocl =
  plat :: cl_platform
  calls :: nat
  buffers :: "nat \<Rightarrow> u8 list option"
  next_buf :: nat
  args :: "nat \<Rightarrow> nat \<Rightarrow> clarg option"
  queue :: bool   \<comment> \<open>the command queue exists\<close>

section \<open>Calls\<close>

definition api :: "'a ocl_scheme \<Rightarrow> bool \<times> 'a ocl_scheme" where
  "api st = (pl_ok (plat st) (calls st), st\<lparr>calls := Suc (calls st)\<rparr>)"

text \<open>A buffer of \<open>sz\<close> bytes, perhaps with contents from the host.\<close>

definition create_buf :: "int \<Rightarrow> u8 list option \<Rightarrow> 'a ocl_scheme \<Rightarrow> nat option \<times> 'a ocl_scheme" where
  "create_buf sz init st = (
     let (ok, st) = api st; m = next_buf st in
     if ok \<and> 0 < sz then
       (Some m, st\<lparr>buffers := (buffers st)(m \<mapsto> (case init of None \<Rightarrow> pl_junk (plat st) m (nat sz) | Some bs \<Rightarrow> bs)),
          next_buf := Suc m\<rparr>)
     else (None, st))"

definition write_buf :: "nat option \<Rightarrow> u8 list \<Rightarrow> 'a ocl_scheme \<Rightarrow> bool \<times> 'a ocl_scheme" where
  "write_buf h dat st = (
     let (ok, st) = api st in
     case Option.bind h (buffers st) of
       Some b \<Rightarrow> if ok \<and> queue st \<and> dat \<noteq> [] \<and> length dat \<le> length b
         then (True, st\<lparr>buffers := (buffers st)(the h \<mapsto> dat @ drop (length dat) b)\<rparr>)
         else (False, st)
     | None \<Rightarrow> (False, st))"

definition read_buf :: "nat option \<Rightarrow> int \<Rightarrow> 'a ocl_scheme \<Rightarrow> u8 list option \<times> 'a ocl_scheme" where
  "read_buf h sz st = (
     let (ok, st) = api st in
     case Option.bind h (buffers st) of
       Some b \<Rightarrow> if ok \<and> queue st \<and> 0 < sz \<and> sz \<le> int (length b) then (Some (take (nat sz) b), st) else (None, st)
     | None \<Rightarrow> (None, st))"

definition set_arg :: "nat \<Rightarrow> nat \<Rightarrow> clarg \<Rightarrow> 'a ocl_scheme \<Rightarrow> bool \<times> 'a ocl_scheme" where
  "set_arg k i a st = (
     let (ok, st) = api st in
     (ok, if ok then st\<lparr>args := (args st)(k := (args st k)(i \<mapsto> a))\<rparr> else st))"

definition release_buf :: "nat option \<Rightarrow> 'a ocl_scheme \<Rightarrow> bool \<times> 'a ocl_scheme" where
  "release_buf h st = (
     let (ok, st) = api st in
     case Option.bind h (buffers st) of
       Some b \<Rightarrow> (ok, if ok then st\<lparr>buffers := (buffers st)(the h := None)\<rparr> else st)
     | None \<Rightarrow> (False, st))"

text \<open>
  The buffer that a kernel sees for an argument. \<open>NULL\<close> is an array without elements, so that a kernel that is
  given it faults when it uses it.
\<close>

definition arg_buf :: "'a ocl_scheme \<Rightarrow> nat \<Rightarrow> nat \<Rightarrow> (nat option \<times> u8 list) res" where
  "arg_buf st k i = (case args st k i of
     Some (Buf None) \<Rightarrow> Inr (None, [])
   | Some (Buf (Some h)) \<Rightarrow> (case buffers st h of Some b \<Rightarrow> Inr (Some h, b) | None \<Rightarrow> Inl Use_after_free)
   | _ \<Rightarrow> Inl Null_deref)"

definition put_buf :: "nat option \<Rightarrow> u8 list \<Rightarrow> 'a ocl_scheme \<Rightarrow> 'a ocl_scheme" where
  "put_buf h b st = (case h of None \<Rightarrow> st | Some m \<Rightarrow> st\<lparr>buffers := (buffers st)(m \<mapsto> b)\<rparr>)"

text \<open>Mapping a buffer gives a pointer to its contents, or fails.\<close>

definition map_buf :: "nat option \<Rightarrow> 'a ocl_scheme \<Rightarrow> bool \<times> 'a ocl_scheme" where
  "map_buf h st = (let (ok, st) = api st in (ok \<and> queue st \<and> Option.bind h (buffers st) \<noteq> None, st))"

text \<open>Memory from the C library: an array of \<open>n\<close> cells, or \<open>NULL\<close>, which is an array without elements.\<close>

definition block :: "cl_platform \<Rightarrow> nat \<Rightarrow> int \<Rightarrow> u32 list" where
  "block pl i n = (if pl_malloc pl i \<and> 0 \<le> n then map (pl_cell pl i) [0..<nat n] else [])"

definition arg_val :: "'a ocl_scheme \<Rightarrow> nat \<Rightarrow> nat \<Rightarrow> u32 res" where
  "arg_val st k i = (case args st k i of Some (Val w) \<Rightarrow> Inr w | _ \<Rightarrow> Inl Null_deref)"

section \<open>Platforms on which nothing fails\<close>

text \<open>What the specification promises of devices and buffers, and that no call fails for its own reasons.\<close>

definition good_platform :: "cl_platform \<Rightarrow> bool" where
  "good_platform pl \<longleftrightarrow> (\<forall>i. pl_ok pl i) \<and> (\<forall>i. fair_gpu (pl_dev pl i)) \<and>
     (\<forall>m sz. length (pl_junk pl m sz) = sz) \<and> (\<forall>i. pl_malloc pl i)"

lemma good_platformD:
  "good_platform pl \<Longrightarrow> pl_ok pl i" "good_platform pl \<Longrightarrow> fair_gpu (pl_dev pl i)"
  "good_platform pl \<Longrightarrow> length (pl_junk pl m sz) = sz" "good_platform pl \<Longrightarrow> pl_malloc pl i"
  by (simp_all add: good_platform_def)

definition example_platform :: "gpu \<Rightarrow> cl_platform" where
  "example_platform d = \<lparr>pl_ok = (\<lambda>_. True), pl_dev = (\<lambda>_. d), pl_junk = (\<lambda>m sz. replicate sz 255),
     pl_file = (\<lambda>_. True), pl_malloc = (\<lambda>_. True), pl_cell = (\<lambda>_ _. 7)\<rparr>"

lemma good_example [simp]: "fair_gpu d \<Longrightarrow> good_platform (example_platform d)"
  by (simp add: good_platform_def example_platform_def)

end
