(* ===== verification/QH_Bfs_Host.thy ===== *)
theory QH_Bfs_Host
  imports QH_Bfs_Gpu QH_OpenCL
begin

text \<open>
  The host side of the breadth-first search: the wrappers of \<open>src/test_module/bfs/lib/cl_bfs.c\<close> over the
  OpenCL API, and the service \<open>src/test_module/bfs/lib/libsrv_bfs.c\<close>. Most wrappers only print a message when a
  call fails and go on; some end the process, which is the fault \<open>Aborted\<close>. The host keeps a \<open>bool\<close>, an
  \<open>enum\<close>, in four bytes, while a kernel reads one byte per \<open>bool\<close>.
\<close>

section \<open>oclHandles\<close>

record handles = ocl +
  oc_context :: bool
  oc_program :: bool
  oc_kernels :: "bool list"
  oc_status :: bool   \<comment> \<open>\<open>cl_status == CL_SUCCESS\<close>\<close>
  work_group_size :: u32

text \<open>The loop over the two kernels of \<open>_clInit\<close>; a kernel can be made of a program that was built.\<close>

definition clInit_kernels :: "bool \<Rightarrow> handles \<Rightarrow> handles res" where
  "clInit_kernels built st = for_each [0..<2] (\<lambda>nKernel st.
     let (ok, st) = api st in
     bindR (arr_set (oc_kernels st) nKernel (ok \<and> oc_program st \<and> built)) (\<lambda>ks.
     Inr (st\<lparr>oc_kernels := ks\<rparr>))) st"

definition clInit :: "bool \<Rightarrow> handles \<Rightarrow> handles res" where
  "clInit ctx st = (
     let st = st\<lparr>oc_context := ctx, queue := False, oc_program := False\<rparr>;
         (ok, st) = api st; st = st\<lparr>queue := ok \<and> oc_context st\<rparr> in
     if \<not> pl_file (plat st) ''bfs_kernels.cl'' then Inl Aborted
     else if \<not> pl_malloc (plat st) 0 then Inl Null_deref
     else
       let (ok, st) = api st; st = st\<lparr>oc_program := ok \<and> oc_context st\<rparr>;
           (ok, st) = api st; built = (ok \<and> oc_program st);
           st = (if built then st else snd (api (snd (api st)))) in
       clInit_kernels built st)"

text \<open>\<open>_clRelease\<close> lets go of the context where it means the queue.\<close>

definition clRelease :: "handles \<Rightarrow> handles res" where
  "clRelease st =
     bindR (for_each [0..<2] (\<lambda>nKernel st.
       bindR (arr_get (oc_kernels st) nKernel) (\<lambda>k.
       let (ok, st) = (if k then api st else (True, st)) in
       if \<not> ok then Inl Aborted
       else bindR (arr_set (oc_kernels st) nKernel False) (\<lambda>ks. Inr (st\<lparr>oc_kernels := ks\<rparr>)))) st) (\<lambda>st.
     let (ok, st) = (if oc_program st then api st else (True, st)) in
     if \<not> ok then Inl Aborted
     else
       let st = st\<lparr>oc_program := False\<rparr>; (ok, st') = api st in
       if \<not> queue st then Inr st
       else if \<not> ok then Inl Aborted
       else Inr (st'\<lparr>oc_context := False\<rparr>))"

section \<open>Buffers\<close>

text \<open>All ways to create a buffer set \<open>cl_status\<close>.\<close>

definition new_buf :: "int \<Rightarrow> u8 list option \<Rightarrow> handles \<Rightarrow> nat option \<times> handles" where
  "new_buf sz init st = (let (h, st) = create_buf sz init st in (h, st\<lparr>oc_status := (h \<noteq> None)\<rparr>))"

definition clCreateAndCpyMem :: "int \<Rightarrow> u8 list \<Rightarrow> handles \<Rightarrow> (nat option \<times> handles) res" where
  "clCreateAndCpyMem sz src st =
     (if int (length src) < sz then Inl Out_of_bounds else Inr (new_buf sz (Some (take (nat sz) src)) st))"

definition clMallocRW :: "int \<Rightarrow> handles \<Rightarrow> nat option \<times> handles" where
  "clMallocRW sz st = new_buf sz None st"

text \<open>A pointer of the host without a flag that allows it makes the call fail.\<close>

definition clMalloc :: "int \<Rightarrow> u8 list option \<Rightarrow> handles \<Rightarrow> nat option \<times> handles" where
  "clMalloc sz h_mem_ptr st =
     (if h_mem_ptr \<noteq> None then (None, (snd (api st))\<lparr>oc_status := False\<rparr>) else new_buf sz None st)"

definition clMallocWO :: "int \<Rightarrow> handles \<Rightarrow> nat option \<times> handles" where
  "clMallocWO sz st = new_buf sz None st"

definition clFinish :: "handles \<Rightarrow> handles res" where
  "clFinish st = (
     let (ok, st) = api st; ok = (ok \<and> queue st); st = st\<lparr>oc_status := ok\<rparr> in
     if ok then Inr st else Inl Aborted)"

definition clMemcpyH2D :: "nat option \<Rightarrow> int \<Rightarrow> u8 list \<Rightarrow> handles \<Rightarrow> handles res" where
  "clMemcpyH2D d_mem sz src st =
     (if int (length src) < sz then Inl Out_of_bounds
      else let (ok, st) = write_buf d_mem (take (nat sz) src) st in Inr (st\<lparr>oc_status := ok\<rparr>))"

text \<open>Copying through a mapped buffer; what \<open>memcpy\<close> writes through \<open>NULL\<close> faults.\<close>

definition memcpy_mapped :: "bool \<Rightarrow> nat option \<Rightarrow> int \<Rightarrow> u8 list \<Rightarrow> handles \<Rightarrow> handles res" where
  "memcpy_mapped mapped h sz src st =
     (if sz = 0 then Inr st
      else if \<not> mapped then Inl Null_deref
      else if sz < 0 \<or> int (length src) < sz then Inl Out_of_bounds
      else Inr (put_buf h (take (nat sz) src) st))"

definition clCreateAndCpyPinnedMem :: "int \<Rightarrow> u8 list \<Rightarrow> handles \<Rightarrow> (nat option \<times> handles) res" where
  "clCreateAndCpyPinnedMem sz src st = (
     let (d_mem_pinned, st) = new_buf sz None st; (mapped, st) = map_buf d_mem_pinned st in
     bindR (memcpy_mapped mapped d_mem_pinned sz src st) (\<lambda>st.
     let (d_mem, st) = new_buf sz None st; (_, st) = api st; (mapped, st) = map_buf d_mem_pinned st;
         (ok, st) = (if mapped then write_buf d_mem (take (nat sz) src) st else (False, snd (api st)));
         st = st\<lparr>oc_status := ok\<rparr> in
     bindR (clFinish st) (\<lambda>st. Inr (d_mem, st))))"

text \<open>The data is written to the mapped buffer, and then once more from there. The block from \<open>malloc\<close> is lost.\<close>

definition clCreateAndCpyPagedMem :: "int \<Rightarrow> u8 list \<Rightarrow> handles \<Rightarrow> (nat option \<times> handles) res" where
  "clCreateAndCpyPagedMem sz src st = (
     let (d_mem, st) = new_buf sz None st; (mapped, st) = map_buf d_mem st in
     bindR (memcpy_mapped mapped d_mem sz src st) (\<lambda>st.
     let (ok, st) = write_buf d_mem (take (nat sz) src) st; st = st\<lparr>oc_status := ok\<rparr> in
     bindR (clFinish st) (\<lambda>st. Inr (d_mem, st))))"

text \<open>The bytes read, or \<open>None\<close> when the memory of the host is left as it was.\<close>

definition clMemcpyD2H :: "nat option \<Rightarrow> int \<Rightarrow> handles \<Rightarrow> u8 list option \<times> handles" where
  "clMemcpyD2H d_mem sz st = (let (r, st) = read_buf d_mem sz st in (r, st\<lparr>oc_status := (r \<noteq> None)\<rparr>))"

definition clFree :: "nat option \<Rightarrow> handles \<Rightarrow> handles" where
  "clFree ob st = (if ob \<noteq> None then let (ok, st) = release_buf ob st in st\<lparr>oc_status := ok\<rparr> else st)"

section \<open>Kernels\<close>

text \<open>\<open>_clSetArgs\<close>, and \<open>_clSetArgs_1\<close> for arguments that are no buffers.\<close>

definition clSetArgs :: "nat \<Rightarrow> nat \<Rightarrow> clarg \<Rightarrow> handles \<Rightarrow> handles res" where
  "clSetArgs kernel_id arg_idx a st =
     bindR (arr_get (oc_kernels st) kernel_id) (\<lambda>k.
     let (ok, st) = (if k then set_arg kernel_id arg_idx a st else (False, snd (api st)));
         st = st\<lparr>oc_status := ok\<rparr> in
     if ok then Inr st else Inl Aborted)"

text \<open>\<open>struct Node\<close> in memory.\<close>

definition nodes_to_ints :: "node list \<Rightarrow> u32 list" where
  "nodes_to_ints nds = concat (map (\<lambda>nd. [starting nd, no_of_edges nd]) nds)"

fun nodes_of_ints :: "u32 list \<Rightarrow> node list" where
  "nodes_of_ints (a # b # ws) = \<lparr>starting = a, no_of_edges = b\<rparr> # nodes_of_ints ws"
| "nodes_of_ints _ = []"

text \<open>What a launch of either kernel does to the buffers that its arguments name.\<close>

definition run_BFS_1 :: "gpu \<Rightarrow> nat \<times> nat \<Rightarrow> nat \<times> nat \<Rightarrow> handles \<Rightarrow> handles res" where
  "run_BFS_1 dev gsz lsz st =
     bindR (arg_buf st 0 0) (\<lambda>(_, nds).
     bindR (arg_buf st 0 1) (\<lambda>(_, edg).
     bindR (arg_buf st 0 2) (\<lambda>(hm, msk).
     bindR (arg_buf st 0 3) (\<lambda>(hu, upd).
     bindR (arg_buf st 0 4) (\<lambda>(_, vis).
     bindR (arg_buf st 0 5) (\<lambda>(hc, cost).
     bindR (arg_val st 0 6) (\<lambda>n.
     bindR (launch_2d dev gsz lsz (\<lambda>tid _.
       BFS_1 (nodes_of_ints (ints_of_bytes nds)) (ints_of_bytes edg) vis n tid)
       (msk, upd, ints_of_bytes cost)) (\<lambda>(msk, upd, cost).
     Inr (put_buf hc (ints_to_bytes cost) (put_buf hu upd (put_buf hm msk st)))))))))))"

definition run_BFS_2 :: "gpu \<Rightarrow> nat \<times> nat \<Rightarrow> nat \<times> nat \<Rightarrow> handles \<Rightarrow> handles res" where
  "run_BFS_2 dev gsz lsz st =
     bindR (arg_buf st 1 0) (\<lambda>(hm, msk).
     bindR (arg_buf st 1 1) (\<lambda>(hu, upd).
     bindR (arg_buf st 1 2) (\<lambda>(hv, vis).
     bindR (arg_buf st 1 3) (\<lambda>(ho, over).
     bindR (arg_val st 1 4) (\<lambda>n.
     bindR (launch_2d dev gsz lsz (\<lambda>tid _. BFS_2 n tid) (msk, upd, vis, over)) (\<lambda>(msk, upd, vis, over).
     Inr (put_buf ho over (put_buf hv vis (put_buf hu upd (put_buf hm msk st))))))))))"

text \<open>\<open>clEnqueueNDRangeKernel\<close>: the sizes of a group must divide the sizes of the launch.\<close>

definition enqueue_kernel :: "nat \<Rightarrow> nat \<times> nat \<Rightarrow> nat \<times> nat \<Rightarrow> handles \<Rightarrow> (bool \<times> handles) res" where
  "enqueue_kernel kernel_id gsz lsz st =
     bindR (arr_get (oc_kernels st) kernel_id) (\<lambda>k.
     let dev = pl_dev (plat st) (calls st); (ok, st) = api st in
     if ok \<and> k \<and> queue st \<and> (\<forall>i<(if kernel_id = 0 then 7 else 5). args st kernel_id i \<noteq> None) \<and>
       0 < fst gsz * snd gsz \<and> fst lsz dvd fst gsz \<and> snd lsz dvd snd gsz
     then bindR ((if kernel_id = 0 then run_BFS_1 else run_BFS_2) dev gsz lsz st) (\<lambda>st. Inr (True, st))
     else Inr (False, st))"

text \<open>\<open>_clInvokeKernel\<close> rounds the number of items up and then launches 1024 of them.\<close>

definition clInvokeKernel :: "nat \<Rightarrow> u32 \<Rightarrow> u32 \<Rightarrow> handles \<Rightarrow> handles res" where
  "clInvokeKernel kernel_id work_items wgs st =
     (if wgs = 0 then Inl Div_by_zero
      else bindR (enqueue_kernel kernel_id (1024, 1) (128, 1) st) (\<lambda>(ok, st).
        if ok then Inr (st\<lparr>oc_status := True\<rparr>) else Inl Aborted))"

definition clInvokeKernel2D :: "nat \<Rightarrow> nat \<Rightarrow> nat \<Rightarrow> nat \<Rightarrow> nat \<Rightarrow> handles \<Rightarrow> handles res" where
  "clInvokeKernel2D kernel_id range_x range_y group_x group_y st =
     bindR (enqueue_kernel kernel_id (range_x, range_y) (group_x, group_y) st) (\<lambda>(ok, st).
     Inr (st\<lparr>oc_status := ok\<rparr>))"

section \<open>run_bfs_gpu\<close>

record bfs_bufs =
  d_graph_nodes :: "nat option"
  d_graph_edges :: "nat option"
  d_graph_mask :: "nat option"
  d_updating_graph_mask :: "nat option"
  d_graph_visited :: "nat option"
  d_cost :: "nat option"
  d_over :: "nat option"

text \<open>\<open>n * sizeof(T)\<close> as the \<open>int\<close> that the wrappers take; \<open>bool\<close> and \<open>int\<close> have 4 bytes, \<open>struct Node\<close> has 8.\<close>

definition bytes4 :: "u32 \<Rightarrow> int" where "bytes4 n = sint (n * 4)"
definition bytes8 :: "u32 \<Rightarrow> int" where "bytes8 n = sint (n * 8)"

text \<open>The buffers, and the transfers to the device; \<open>memMode\<close> is \<open>PAGEABLE\<close>.\<close>

definition bfs_setup ::
  "u32 \<Rightarrow> node list \<Rightarrow> u32 \<Rightarrow> u32 list \<Rightarrow> u32 list \<Rightarrow> u32 list \<Rightarrow> u32 list \<Rightarrow> u32 list \<Rightarrow> handles \<Rightarrow>
    (bfs_bufs \<times> handles) res" where
  "bfs_setup no_of_nodes nds edge_list_size edg msk upd vis cost st = (
     let (dm, st) = clMalloc (bytes4 no_of_nodes) None st;
         (du, st) = clMalloc (bytes4 no_of_nodes) None st;
         (dv, st) = clMalloc (bytes4 no_of_nodes) None st;
         (dc, st) = clMallocRW (bytes4 no_of_nodes) st;
         (dover, st) = clMallocRW 4 st in
     bindR (clCreateAndCpyPagedMem (bytes8 no_of_nodes) (ints_to_bytes (nodes_to_ints nds)) st) (\<lambda>(dn, st).
     bindR (clCreateAndCpyPagedMem (bytes4 edge_list_size) (ints_to_bytes edg) st) (\<lambda>(de, st).
     bindR (clMemcpyH2D dm (bytes4 no_of_nodes) (ints_to_bytes msk) st) (\<lambda>st.
     bindR (clMemcpyH2D du (bytes4 no_of_nodes) (ints_to_bytes upd) st) (\<lambda>st.
     bindR (clMemcpyH2D dv (bytes4 no_of_nodes) (ints_to_bytes vis) st) (\<lambda>st.
     bindR (clMemcpyH2D dc (bytes4 no_of_nodes) (ints_to_bytes cost) st) (\<lambda>st.
     Inr (\<lparr>d_graph_nodes = dn, d_graph_edges = de, d_graph_mask = dm, d_updating_graph_mask = du,
       d_graph_visited = dv, d_cost = dc, d_over = dover\<rparr>, st))))))))"

text \<open>The calls that set the arguments of a kernel, one after the other.\<close>

definition set_args :: "nat \<Rightarrow> clarg list \<Rightarrow> handles \<Rightarrow> handles res" where
  "set_args kernel_id as st = for_each (enumerate 0 as) (\<lambda>(kernel_idx, a). clSetArgs kernel_id kernel_idx a) st"

text \<open>The body of the \<open>do\<close> loop; the result tells whether \<open>h_over\<close> is set. A failed read leaves it \<open>false\<close>.\<close>

definition bfs_body :: "u32 \<Rightarrow> bfs_bufs \<Rightarrow> handles \<Rightarrow> (bool \<times> handles) res" where
  "bfs_body no_of_nodes d st =
     bindR (clMemcpyH2D (d_over d) 4 (ints_to_bytes [0]) st) (\<lambda>st.
     bindR (set_args 0 [Buf (d_graph_nodes d), Buf (d_graph_edges d), Buf (d_graph_mask d),
       Buf (d_updating_graph_mask d), Buf (d_graph_visited d), Buf (d_cost d), Val no_of_nodes] st) (\<lambda>st.
     bindR (clInvokeKernel 0 no_of_nodes (work_group_size st) st) (\<lambda>st.
     bindR (set_args 1 [Buf (d_graph_mask d), Buf (d_updating_graph_mask d), Buf (d_graph_visited d),
       Buf (d_over d), Val no_of_nodes] st) (\<lambda>st.
     bindR (clInvokeKernel 1 no_of_nodes (work_group_size st) st) (\<lambda>st.
     let (r, st) = clMemcpyD2H (d_over d) 4 st in
     Inr (case r of None \<Rightarrow> False | Some bs \<Rightarrow> ints_of_bytes bs \<noteq> [0], st))))))"

partial_function (option) bfs_loop :: "u32 \<Rightarrow> bfs_bufs \<Rightarrow> handles \<Rightarrow> handles res option" where
  "bfs_loop no_of_nodes d st = (case bfs_body no_of_nodes d st of
     Inl e \<Rightarrow> Some (Inl e)
   | Inr (h_over, st) \<Rightarrow> if h_over then bfs_loop no_of_nodes d st else Some (Inr st))"

text \<open>The search returns the costs; when the last transfer fails they are those of the host before.\<close>

definition run_bfs_gpu ::
  "u32 \<Rightarrow> node list \<Rightarrow> u32 \<Rightarrow> u32 list \<Rightarrow> u32 list \<Rightarrow> u32 list \<Rightarrow> u32 list \<Rightarrow> u32 list \<Rightarrow> handles \<Rightarrow>
    (u32 list \<times> handles) res option" where
  "run_bfs_gpu no_of_nodes nds edge_list_size edg msk upd vis cost st =
     bindO (Some (bfs_setup no_of_nodes nds edge_list_size edg msk upd vis cost st)) (\<lambda>(d, st).
     bindO (bfs_loop no_of_nodes d st) (\<lambda>st.
     bindO (Some (clFinish st)) (\<lambda>st.
     let (r, st) = clMemcpyD2H (d_cost d) (bytes4 no_of_nodes) st in
     Some (Inr (case r of None \<Rightarrow> cost | Some bs \<Rightarrow> ints_of_bytes bs, st)))))"

section \<open>The service (libsrv_bfs.c)\<close>

text \<open>
  The graph in the memory of the request: the loop over the nodes and the loop over the edges. The client reads
  it with the same loops; \<open>false\<close> is its value for the elements of the masks.
\<close>

definition load_nodes ::
  "'b \<Rightarrow> u32 list \<Rightarrow> nat \<Rightarrow> node list \<times> 'b list \<times> 'b list \<times> 'b list \<Rightarrow>
    (nat \<times> node list \<times> 'b list \<times> 'b list \<times> 'b list) res" where
  "load_nodes false mmap_data no_of_nodes = (\<lambda>(nds, msk, upd, vis).
     for_each [0..<no_of_nodes] (\<lambda>i (data_index, nds, msk, upd, vis).
       bindR (arr_get mmap_data data_index) (\<lambda>start.
       bindR (arr_get mmap_data (data_index + 1)) (\<lambda>edgeno.
       bindR (arr_set nds i \<lparr>starting = start, no_of_edges = edgeno\<rparr>) (\<lambda>nds.
       bindR (arr_set msk i false) (\<lambda>msk.
       bindR (arr_set upd i false) (\<lambda>upd.
       bindR (arr_set vis i false) (\<lambda>vis.
       Inr (data_index + 2, nds, msk, upd, vis)))))))) (1, nds, msk, upd, vis))"

text \<open>In the service a \<open>bool\<close> is a word.\<close>

definition read_nodes ::
  "u32 list \<Rightarrow> nat \<Rightarrow> node list \<times> u32 list \<times> u32 list \<times> u32 list \<Rightarrow>
    (nat \<times> node list \<times> u32 list \<times> u32 list \<times> u32 list) res" where
  "read_nodes = load_nodes 0"

definition read_edges :: "u32 list \<Rightarrow> nat \<Rightarrow> nat \<Rightarrow> u32 list \<Rightarrow> (nat \<times> u32 list) res" where
  "read_edges mmap_data edge_list_size data_index edg =
     for_each [0..<edge_list_size] (\<lambda>i (data_index, edg).
       bindR (arr_get mmap_data data_index) (\<lambda>id.
       bindR (arr_get mmap_data (data_index + 1)) (\<lambda>cost.
       bindR (arr_set edg i id) (\<lambda>edg. Inr (data_index + 2, edg))))) (data_index, edg)"

definition init_costs :: "nat \<Rightarrow> u32 list \<Rightarrow> u32 list res" where
  "init_costs no_of_nodes cost = for_each [0..<no_of_nodes] (\<lambda>i c. arr_set c i (- 1)) cost"

definition node_block :: "cl_platform \<Rightarrow> nat \<Rightarrow> int \<Rightarrow> node list" where
  "node_block pl i n = nodes_of_ints (block pl i (2 * n))"

text \<open>
  \<open>bfs_launch\<close> returns 0 and leaves the costs in the memory of the request, of which the last \<open>memcpy\<close>
  overwrites \<open>mmap_size\<close> cells. The array \<open>h_cost_ref\<close>, which is filled like \<open>h_cost\<close>, is not used.
\<close>

definition bfs_launch :: "u32 list \<Rightarrow> nat \<Rightarrow> handles \<Rightarrow> (int \<times> u32 list \<times> handles) res option" where
  "bfs_launch mmap_data mmap_size st = (
     let pl = plat st; source = 0 in
     bindO (Some (arr_get mmap_data 0)) (\<lambda>no_of_nodes.
     let n = sint no_of_nodes;
         st = st\<lparr>work_group_size := (if 512 < n then 512 else no_of_nodes)\<rparr> in
     bindO (Some (read_nodes mmap_data (nat n) (node_block pl 1 n, block pl 2 n, block pl 3 n, block pl 4 n)))
       (\<lambda>(data_index, nds, msk, upd, vis).
     bindO (Some (arr_get mmap_data data_index)) (\<lambda>_.
     bindO (Some (arr_set msk source 1)) (\<lambda>msk.
     bindO (Some (arr_set vis source 1)) (\<lambda>vis.
     bindO (Some (arr_get mmap_data (data_index + 1))) (\<lambda>edge_list_size.
     bindO (Some (read_edges mmap_data (nat (sint edge_list_size)) (data_index + 2)
       (block pl 5 (sint edge_list_size)))) (\<lambda>(data_index, edg).
     bindO (Some (init_costs (nat n) (block pl 6 n))) (\<lambda>cost.
     bindO (Some (init_costs (nat n) (block pl 7 n))) (\<lambda>cost_ref.
     bindO (Some (arr_set cost source 0)) (\<lambda>cost.
     bindO (Some (arr_set cost_ref source 0)) (\<lambda>cost_ref.
     bindO (run_bfs_gpu no_of_nodes nds edge_list_size edg msk upd vis cost st) (\<lambda>(cost, st).
     if length cost < mmap_size then Some (Inl Out_of_bounds)
     else if length mmap_data < mmap_size then Some (Inl Buffer_overflow)
     else Some (Inr (0, take mmap_size cost @ drop mmap_size mmap_data, st)))))))))))))))"

end
