(* ===== verification/QH_Bfs_Run.thy ===== *)
theory QH_Bfs_Run
  imports QH_Bfs_Host
begin

text \<open>
  The breadth-first search on a platform on which no call fails: the loop of the host ends, with the distance of
  every node as its cost, for graphs of up to 1024 nodes.
\<close>

section \<open>States of the device\<close>

definition holds :: "handles \<Rightarrow> nat option \<Rightarrow> u8 list \<Rightarrow> bool" where
  "holds st h bs \<longleftrightarrow> (case h of None \<Rightarrow> bs = [] | Some m \<Rightarrow> buffers st m = Some bs)"

lemma holds_Some [simp]: "holds st (Some m) bs \<longleftrightarrow> buffers st m = Some bs"
  by (simp add: holds_def)

lemma holds_None [simp]: "holds st None bs \<longleftrightarrow> bs = []"
  by (simp add: holds_def)

lemma holds_calls [simp]:
  "holds (calls_update f st) h bs \<longleftrightarrow> holds st h bs" "holds (oc_status_update g st) h bs \<longleftrightarrow> holds st h bs"
  by (cases h; simp)+

lemma holds_put_buf:
  "h \<noteq> None \<Longrightarrow> holds (put_buf h bs st) h' bs' \<longleftrightarrow> (if h' = h then bs' = bs else holds st h' bs')"
  by (cases h; cases h') (auto simp: put_buf_def)

lemma put_buf_frame [simp]:
  "plat (put_buf h bs st) = plat st" "calls (put_buf h bs st) = calls st" "queue (put_buf h bs st) = queue st"
  "oc_kernels (put_buf h bs st) = oc_kernels st" "work_group_size (put_buf h bs st) = work_group_size st"
  "next_buf (put_buf h bs st) = next_buf st"
  by (cases h; simp add: put_buf_def)+

lemma arg_buf_holds: "args st k i = Some (Buf h) \<Longrightarrow> holds st h bs \<Longrightarrow> arg_buf st k i = Inr (h, bs)"
  by (cases h) (simp_all add: arg_buf_def)

text \<open>Two states that differ only in the arguments of kernels, the number of calls and the last status.\<close>

definition same_device :: "handles \<Rightarrow> handles \<Rightarrow> bool" where
  "same_device st st' \<longleftrightarrow> plat st = plat st' \<and> buffers st = buffers st' \<and> next_buf st = next_buf st' \<and>
     queue st = queue st' \<and> oc_kernels st = oc_kernels st' \<and> work_group_size st = work_group_size st'"

lemma same_device_holds: "same_device st st' \<Longrightarrow> holds st h bs = holds st' h bs"
  by (cases h) (simp_all add: same_device_def)

text \<open>The platform, the queue and the kernels are as \<open>_clInit\<close> leaves them when nothing fails.\<close>

definition ready :: "handles \<Rightarrow> bool" where
  "ready st \<longleftrightarrow> good_platform (plat st) \<and> queue st \<and> oc_kernels st = [True, True]"

lemma readyD:
  "ready st \<Longrightarrow> pl_ok (plat st) i" "ready st \<Longrightarrow> queue st" "ready st \<Longrightarrow> oc_kernels st = [True, True]"
  "ready st \<Longrightarrow> fair_gpu (pl_dev (plat st) i)" "ready st \<Longrightarrow> length (pl_junk (plat st) m sz) = sz"
  "ready st \<Longrightarrow> pl_malloc (plat st) i"
  by (simp_all add: ready_def good_platform_def)

lemma ready_same: "same_device st st' \<Longrightarrow> ready st = ready st'"
  unfolding ready_def same_device_def by metis

section \<open>Arguments\<close>

lemma clSetArgs_ok:
  assumes "ready st" and "k < 2"
  shows "clSetArgs k i a st = Inr (st\<lparr>calls := Suc (calls st), args := (args st)(k := (args st k)(i \<mapsto> a)),
     oc_status := True\<rparr>)"
proof -
  have "[True, True] ! k"
    using assms(2) by (auto simp: less_2_cases_iff)
  then show ?thesis
    using assms by (simp add: clSetArgs_def set_arg_def api_def readyD)
qed

lemma set_args_ok:
  assumes r: "ready st" and k: "k < 2"
  shows "\<exists>st'. set_args k as st = Inr st' \<and> same_device st' st \<and>
     (\<forall>j<length as. args st' k j = Some (as ! j)) \<and> (\<forall>k'. k' \<noteq> k \<longrightarrow> args st' k' = args st k')"
proof -
  let ?Inv = "\<lambda>ys t. same_device t st \<and> (\<forall>(j, a) \<in> set ys. args t k j = Some a) \<and>
     (\<forall>k'. k' \<noteq> k \<longrightarrow> args t k' = args st k')"
  have "\<exists>st'. set_args k as st = Inr st' \<and> ?Inv (enumerate 0 as) st'"
    unfolding set_args_def
  proof (rule for_each_prefix)
    show "?Inv [] st" by (simp add: same_device_def)
  next
    fix ys x zs t
    assume xs: "enumerate 0 as = ys @ x # zs" and inv: "?Inv ys t"
    obtain j a where x: "x = (j, a)" by (cases x)
    have "distinct (map fst (ys @ x # zs))"
      unfolding xs [symmetric] by simp
    then have "j \<notin> fst ` set ys" by (auto simp: x)
    moreover have "ready t" using inv r ready_same by blast
    ultimately show "\<exists>t'. (case x of (kernel_idx, a) \<Rightarrow> clSetArgs k kernel_idx a) t = Inr t' \<and> ?Inv (ys @ [x]) t'"
      using inv k by (force simp: x clSetArgs_ok same_device_def)
  qed
  moreover have "(j, as ! j) \<in> set (enumerate 0 as)" if "j < length as" for j
    using that by (auto simp: in_set_conv_nth nth_enumerate_eq intro!: exI [of _ j])
  ultimately show ?thesis by fastforce
qed

section \<open>The loop\<close>

text \<open>The buffers that kernels write are different, and different from the graph.\<close>

definition written :: "bfs_bufs \<Rightarrow> nat option list" where
  "written d = [d_graph_mask d, d_updating_graph_mask d, d_graph_visited d, d_cost d, d_over d]"

definition bufs_ok :: "bfs_bufs \<Rightarrow> bool" where
  "bufs_ok d \<longleftrightarrow> list_all (\<lambda>h. h \<noteq> None) (written d) \<and> distinct (written d) \<and>
     d_graph_nodes d \<notin> set (written d) \<and> d_graph_edges d \<notin> set (written d)"

definition graph_on :: "node list \<Rightarrow> u32 list \<Rightarrow> bfs_bufs \<Rightarrow> handles \<Rightarrow> bool" where
  "graph_on nds edg d st \<longleftrightarrow> holds st (d_graph_nodes d) (ints_to_bytes (nodes_to_ints nds)) \<and>
     holds st (d_graph_edges d) (ints_to_bytes edg)"

definition masks_on :: "bfs_bufs \<Rightarrow> handles \<Rightarrow> u8 list \<Rightarrow> u8 list \<Rightarrow> u8 list \<Rightarrow> u32 list \<Rightarrow> u8 list \<Rightarrow> bool" where
  "masks_on d st m u v c b \<longleftrightarrow> holds st (d_graph_mask d) m \<and> holds st (d_updating_graph_mask d) u \<and>
     holds st (d_graph_visited d) v \<and> holds st (d_cost d) (ints_to_bytes c) \<and> holds st (d_over d) b"

definition gpu_state :: "u32 \<Rightarrow> node list \<Rightarrow> u32 list \<Rightarrow> bfs_bufs \<Rightarrow> nat \<Rightarrow> handles \<Rightarrow> bool" where
  "gpu_state n nds edg d k st \<longleftrightarrow> ready st \<and> work_group_size st \<noteq> 0 \<and>
     graph_ok (nat (sint n)) nds edg \<and> nat (sint n) \<le> 1024 \<and> bufs_ok d \<and> graph_on nds edg d st \<and>
     (\<exists>m u v c b. masks_on d st m u v c b \<and> length b = 4 \<and> length c = nat (sint n) \<and>
        bfs_inv (arcs (nat (sint n)) nds edg) (nat (sint n)) k (truth m, truth u, truth v, c))"

lemma nodes_roundtrip [simp]: "nodes_of_ints (nodes_to_ints nds) = nds"
  by (induction nds) (simp_all add: nodes_to_ints_def)

lemma launch_ids:
  assumes "fair_gpu d"
  shows "distinct (map fst (global_ids d (1024, 1) (128, 1)))"
    and "set (map fst (global_ids d (1024, 1) (128, 1))) = {..<1024}"
proof -
  have ids: "distinct (global_ids d (1024, 1) (128, 1))"
    "set (global_ids d (1024, 1) (128, 1)) = {..<1024} \<times> {..<1}"
    using global_ids [OF assms, of 128 1 8 1] by simp_all
  have "inj_on fst ({..<1024 :: nat} \<times> {..<1 :: nat})"
    by (auto intro: inj_onI)
  then show "distinct (map fst (global_ids d (1024, 1) (128, 1)))"
    using ids by (simp add: distinct_map)
  show "set (map fst (global_ids d (1024, 1) (128, 1))) = {..<1024}"
    unfolding set_map ids(2) by auto
qed

lemma launch_fst: "launch_2d d gsz lsz (\<lambda>tid _. f tid) s = for_each (map fst (global_ids d gsz lsz)) f s"
  unfolding launch_2d_flat for_each_map by (simp add: case_prod_unfold)

text \<open>One launch of each kernel.\<close>

definition args_1 :: "bfs_bufs \<Rightarrow> u32 \<Rightarrow> clarg list" where
  "args_1 d n = [Buf (d_graph_nodes d), Buf (d_graph_edges d), Buf (d_graph_mask d),
     Buf (d_updating_graph_mask d), Buf (d_graph_visited d), Buf (d_cost d), Val n]"

definition args_2 :: "bfs_bufs \<Rightarrow> u32 \<Rightarrow> clarg list" where
  "args_2 d n = [Buf (d_graph_mask d), Buf (d_updating_graph_mask d), Buf (d_graph_visited d),
     Buf (d_over d), Val n]"

lemma invoke_1:
  assumes r: "ready st" and w: "wgs \<noteq> 0" and a: "\<And>j. j < 7 \<Longrightarrow> args st 0 j = Some (args_1 d n ! j)"
    and h: "holds st (d_graph_nodes d) (ints_to_bytes (nodes_to_ints nds))"
      "holds st (d_graph_edges d) (ints_to_bytes edg)" "holds st (d_graph_mask d) m"
      "holds st (d_updating_graph_mask d) u" "holds st (d_graph_visited d) v"
      "holds st (d_cost d) (ints_to_bytes c)"
    and k: "for_each (map fst (global_ids (pl_dev (plat st) (calls st)) (1024, 1) (128, 1)))
      (BFS_1 nds edg v n) (m, u, c) = Inr (m1, u1, c1)"
  shows "clInvokeKernel 0 n wgs st = Inr (oc_status_update (\<lambda>_. True) (put_buf (d_cost d) (ints_to_bytes c1)
     (put_buf (d_updating_graph_mask d) u1 (put_buf (d_graph_mask d) m1 (st\<lparr>calls := Suc (calls st)\<rparr>)))))"
proof -
  let ?st = "st\<lparr>calls := Suc (calls st)\<rparr>"
  have arg: "arg_buf ?st 0 j = Inr (x, bs)" if "j < 7" "args_1 d n ! j = Buf x" "holds st x bs" for j x bs
    by (rule arg_buf_holds) (use a [OF that(1)] that in auto)
  have args: "arg_buf ?st 0 0 = Inr (d_graph_nodes d, ints_to_bytes (nodes_to_ints nds))"
    "arg_buf ?st 0 1 = Inr (d_graph_edges d, ints_to_bytes edg)" "arg_buf ?st 0 2 = Inr (d_graph_mask d, m)"
    "arg_buf ?st 0 3 = Inr (d_updating_graph_mask d, u)" "arg_buf ?st 0 4 = Inr (d_graph_visited d, v)"
    "arg_buf ?st 0 5 = Inr (d_cost d, ints_to_bytes c)"
    using h by (auto intro!: arg simp: args_1_def)
  have val: "arg_val ?st 0 6 = Inr n"
    using a [of 6] by (simp add: arg_val_def args_1_def)
  have "run_BFS_1 (pl_dev (plat st) (calls st)) (1024, 1) (128, 1) ?st =
      Inr (put_buf (d_cost d) (ints_to_bytes c1) (put_buf (d_updating_graph_mask d) u1
        (put_buf (d_graph_mask d) m1 ?st)))"
    unfolding run_BFS_1_def args val using k by (simp add: launch_fst)
  moreover have "\<forall>j<7. args st 0 j \<noteq> None"
    using a by simp
  ultimately show ?thesis
    using r w by (simp add: clInvokeKernel_def enqueue_kernel_def api_def readyD)
qed

lemma invoke_2:
  assumes r: "ready st" and w: "wgs \<noteq> 0" and a: "\<And>j. j < 5 \<Longrightarrow> args st 1 j = Some (args_2 d n ! j)"
    and h: "holds st (d_graph_mask d) m" "holds st (d_updating_graph_mask d) u"
      "holds st (d_graph_visited d) v" "holds st (d_over d) b"
    and k: "for_each (map fst (global_ids (pl_dev (plat st) (calls st)) (1024, 1) (128, 1)))
      (BFS_2 n) (m, u, v, b) = Inr (m2, u2, v2, b2)"
  shows "clInvokeKernel 1 n wgs st = Inr (oc_status_update (\<lambda>_. True) (put_buf (d_over d) b2
     (put_buf (d_graph_visited d) v2 (put_buf (d_updating_graph_mask d) u2 (put_buf (d_graph_mask d) m2
     (st\<lparr>calls := Suc (calls st)\<rparr>))))))"
proof -
  let ?st = "st\<lparr>calls := Suc (calls st)\<rparr>"
  have arg: "arg_buf ?st 1 j = Inr (x, bs)" if "j < 5" "args_2 d n ! j = Buf x" "holds st x bs" for j x bs
    by (rule arg_buf_holds) (use a [OF that(1)] that in auto)
  have args: "arg_buf ?st 1 0 = Inr (d_graph_mask d, m)" "arg_buf ?st 1 1 = Inr (d_updating_graph_mask d, u)"
    "arg_buf ?st 1 2 = Inr (d_graph_visited d, v)" "arg_buf ?st 1 3 = Inr (d_over d, b)"
    using h by (auto intro!: arg simp: args_2_def simp del: One_nat_def)
  have val: "arg_val ?st 1 4 = Inr n"
    using a [of 4] by (simp add: arg_val_def args_2_def)
  have "run_BFS_2 (pl_dev (plat st) (calls st)) (1024, 1) (128, 1) ?st =
      Inr (put_buf (d_over d) b2 (put_buf (d_graph_visited d) v2 (put_buf (d_updating_graph_mask d) u2
        (put_buf (d_graph_mask d) m2 ?st))))"
    unfolding run_BFS_2_def args val using k by (simp add: launch_fst)
  moreover have "\<forall>j<5. args st 1 j \<noteq> None"
    using a by simp
  ultimately show ?thesis
    using r w by (simp add: clInvokeKernel_def enqueue_kernel_def api_def readyD)
qed


text \<open>Writing and reading a whole buffer.\<close>

lemma H2D_ok:
  assumes "ready st" and "h \<noteq> None" and "holds st h old" and "length old = length src" and "src \<noteq> []"
  shows "clMemcpyH2D h (int (length src)) src st =
     Inr (oc_status_update (\<lambda>_. True) (put_buf h src (st\<lparr>calls := Suc (calls st)\<rparr>)))"
  using assms by (auto simp: clMemcpyH2D_def write_buf_def api_def readyD put_buf_def)

lemma D2H_ok:
  assumes "ready st" and "h \<noteq> None" and "holds st h bs" and "bs \<noteq> []"
  shows "clMemcpyD2H h (int (length bs)) st = (Some bs, st\<lparr>calls := Suc (calls st), oc_status := True\<rparr>)"
  using assms by (auto simp: clMemcpyD2H_def read_buf_def api_def readyD)

lemma body_step:
  assumes st: "gpu_state n nds edg d k st"
  shows "\<exists>st'. bfs_body n d st = Inr (level (arcs (nat (sint n)) nds edg) (Suc k) \<noteq> {}, st') \<and>
     gpu_state n nds edg d (Suc k) st'"
proof -
  let ?E = "arcs (nat (sint n)) nds edg" and ?N = "nat (sint n)"
  from st have r: "ready st" "work_group_size st \<noteq> 0" "graph_ok ?N nds edg" "?N \<le> 1024" "bufs_ok d"
    and g: "graph_on nds edg d st"
    unfolding gpu_state_def by simp_all
  from st obtain m u v c b where m: "masks_on d st m u v c b" "length b = 4" "length c = ?N"
      "bfs_inv ?E ?N k (truth m, truth u, truth v, c)"
    unfolding gpu_state_def by (elim conjE exE)
  have nn: "d_graph_mask d \<noteq> None" "d_updating_graph_mask d \<noteq> None" "d_graph_visited d \<noteq> None"
    "d_cost d \<noteq> None" "d_over d \<noteq> None"
    using r(5) by (simp_all add: bufs_ok_def written_def del: not_None_eq)
  have ne: "distinct (written d)" "d_graph_nodes d \<notin> set (written d)" "d_graph_edges d \<notin> set (written d)"
    using r(5) by (simp_all add: bufs_ok_def)
  define zero :: "u8 list" where "zero = ints_to_bytes [0]"
  have zero: "length zero = 4" "zero \<noteq> []" "zero ! 0 = 0"
    by (simp_all add: zero_def ints_to_bytes_def bytes_of_def)
  define st1 where "st1 = oc_status_update (\<lambda>_. True) (put_buf (d_over d) zero (st\<lparr>calls := Suc (calls st)\<rparr>))"
  have s1: "clMemcpyH2D (d_over d) 4 zero st = Inr st1"
    using H2D_ok [OF r(1) nn(5), of b zero] m zero by (simp add: masks_on_def st1_def)
  have r1: "ready st1" using r(1) by (simp add: st1_def ready_def)
  obtain st2 where s2: "set_args 0 (args_1 d n) st1 = Inr st2" "same_device st2 st1"
      "\<And>j. j < 7 \<Longrightarrow> args st2 0 j = Some (args_1 d n ! j)"
    using set_args_ok [OF r1, of 0 "args_1 d n"] by (auto simp: args_1_def)
  have r2: "ready st2" using s2(2) r1 ready_same by blast
  have h2: "holds st2 h bs \<longleftrightarrow> (if h = d_over d then bs = zero else holds st h bs)" for h bs
    using same_device_holds [OF s2(2)] nn by (simp add: st1_def holds_put_buf)
  have same: "h \<noteq> d_over d" if "h \<in> {d_graph_nodes d, d_graph_edges d, d_graph_mask d,
      d_updating_graph_mask d, d_graph_visited d, d_cost d}" for h
    using ne that by (auto simp: written_def)
  let ?xs = "map fst (global_ids (pl_dev (plat st2) (calls st2)) (1024, 1) (128, 1))"
  have xs: "distinct ?xs" "{..<?N} \<subseteq> set ?xs"
    using launch_ids [OF readyD(4) [OF r2], of "calls st2"] r(4) by auto
  obtain m1 u1 c1 where k1: "for_each ?xs (BFS_1 nds edg v n) (m, u, c) = Inr (m1, u1, c1)"
    using gpu_expand_result [OF r(3) refl xs m(4)] by blast
  define st3 where "st3 = oc_status_update (\<lambda>_. True) (put_buf (d_cost d) (ints_to_bytes c1)
     (put_buf (d_updating_graph_mask d) u1 (put_buf (d_graph_mask d) m1 (st2\<lparr>calls := Suc (calls st2)\<rparr>))))"
  have w2: "work_group_size st2 \<noteq> 0"
    using s2(2) r(2) by (simp add: same_device_def st1_def)
  have s3: "clInvokeKernel 0 n (work_group_size st2) st2 = Inr st3"
    unfolding st3_def
    by (rule invoke_1 [OF r2 w2 s2(3) _ _ _ _ _ _ k1])
      (use g m(1) same in \<open>simp_all add: h2 graph_on_def masks_on_def\<close>)
  have r3: "ready st3" using r2 by (simp add: st3_def ready_def)
  obtain st4 where s4: "set_args 1 (args_2 d n) st3 = Inr st4" "same_device st4 st3"
      "\<And>j. j < 5 \<Longrightarrow> args st4 1 j = Some (args_2 d n ! j)"
    using set_args_ok [OF r3, of 1 "args_2 d n"] by (auto simp: args_2_def)
  have r4: "ready st4" using s4(2) r3 ready_same by blast
  have h4: "holds st4 h bs \<longleftrightarrow> (if h = d_cost d then bs = ints_to_bytes c1
      else if h = d_updating_graph_mask d then bs = u1 else if h = d_graph_mask d then bs = m1
      else holds st2 h bs)" for h bs
    using same_device_holds [OF s4(2)] nn by (simp add: st3_def holds_put_buf)
  let ?ys = "map fst (global_ids (pl_dev (plat st4) (calls st4)) (1024, 1) (128, 1))"
  have ys: "distinct ?ys" "{..<?N} \<subseteq> set ?ys"
    using launch_ids [OF readyD(4) [OF r4], of "calls st4"] r(4) by auto
  obtain m2 u2 v2 b2 where k2: "for_each ?ys (BFS_2 n) (m1, u1, v, zero) = Inr (m2, u2, v2, b2)"
    and over: "b2 ! 0 \<noteq> 0 \<longleftrightarrow> level ?E (Suc k) \<noteq> {}"
    and len: "length b2 = 4" "tl b2 = tl zero" "length c1 = length c"
    and inv: "bfs_inv ?E ?N (Suc k) (truth m2, truth u2, truth v2, c1)"
    using gpu_advance_result [OF r(3) refl xs ys m(4) zero(2,3) k1] unfolding zero(1)
    by (elim exE conjE) (rule that; assumption)
  define st5 where "st5 = oc_status_update (\<lambda>_. True) (put_buf (d_over d) b2
     (put_buf (d_graph_visited d) v2 (put_buf (d_updating_graph_mask d) u2 (put_buf (d_graph_mask d) m2
     (st4\<lparr>calls := Suc (calls st4)\<rparr>)))))"
  have w4: "work_group_size st4 \<noteq> 0"
    using s4(2) w2 by (simp add: same_device_def st3_def)
  have s5: "clInvokeKernel 1 n (work_group_size st4) st4 = Inr st5"
    unfolding st5_def
    by (rule invoke_2 [OF r4 w4 s4(3) _ _ _ _ k2])
      (use m(1) ne(1) in \<open>auto simp: h4 h2 masks_on_def written_def\<close>)
  have r5: "ready st5" using r4 by (simp add: st5_def ready_def)
  have h5: "holds st5 h bs \<longleftrightarrow> (if h = d_over d then bs = b2 else if h = d_graph_visited d then bs = v2
      else if h = d_updating_graph_mask d then bs = u2 else if h = d_graph_mask d then bs = m2
      else holds st4 h bs)" for h bs
    using nn by (simp add: st5_def holds_put_buf)
  define st6 where "st6 = st5\<lparr>calls := Suc (calls st5), oc_status := True\<rparr>"
  have s6: "clMemcpyD2H (d_over d) 4 st5 = (Some b2, st6)"
    using D2H_ok [OF r5 nn(5), of b2] len(1) by (force simp: h5 st6_def)
  have "ints_of_bytes b2 = [of_bytes (b2 ! 0) 0 0 0]"
    using len(1,2) by (cases b2) (simp_all add: zero_def ints_to_bytes_def bytes_of_def)
  then have again: "ints_of_bytes b2 \<noteq> [0] \<longleftrightarrow> level ?E (Suc k) \<noteq> {}"
    unfolding over [symmetric] by (simp add: word_unat_eq_iff [of "of_bytes _ _ _ _"] unat_bytes unat_eq_0)
  have "bfs_body n d st = Inr (level ?E (Suc k) \<noteq> {}, st6)"
    using s1 s2(1) s3 s4(1) s5 s6 again
    by (simp add: bfs_body_def args_1_def args_2_def zero_def)
  moreover have "gpu_state n nds edg d (Suc k) st6"
  proof -
    have "graph_on nds edg d st6"
      using g ne same by (auto simp: graph_on_def st6_def h5 h4 h2 written_def)
    moreover have "masks_on d st6 m2 u2 v2 c1 b2"
      using m(1) ne(1) by (auto simp: masks_on_def st6_def h5 h4 h2 written_def)
    moreover have "ready st6" "work_group_size st6 \<noteq> 0"
      using r5 w4 by (simp_all add: st6_def st5_def ready_def)
    ultimately show ?thesis
      unfolding gpu_state_def using r inv len m(3) by (intro conjI exI) simp_all
  qed
  ultimately show ?thesis by blast
qed

interpretation gpu: level_search "arcs (nat (sint n)) nds edg" "nat (sint n)" "bfs_body n d" "bfs_loop n d"
  "gpu_state n nds edg d" for n nds edg d
proof
  show "gpu_state n nds edg d k st \<Longrightarrow> level (arcs (nat (sint n)) nds edg) j \<subseteq> {..<nat (sint n)}" for k st j
    by (rule level_nodes) (simp add: gpu_state_def)
  show "bfs_loop n d st = (case bfs_body n d st of Inl e \<Rightarrow> Some (Inl e)
    | Inr (again, st) \<Rightarrow> if again then bfs_loop n d st else Some (Inr st))" for st
    by (rule bfs_loop.simps)
qed (rule body_step)

section \<open>Set-up\<close>

definition fresh_buf :: "u8 list \<Rightarrow> handles \<Rightarrow> handles" where
  "fresh_buf bs st = st\<lparr>calls := Suc (calls st), buffers := (buffers st)(next_buf st \<mapsto> bs),
     next_buf := Suc (next_buf st), oc_status := True\<rparr>"

definition filled_buf :: "nat option \<Rightarrow> u8 list \<Rightarrow> handles \<Rightarrow> handles" where
  "filled_buf h bs st = oc_status_update (\<lambda>_. True) (put_buf h bs (st\<lparr>calls := Suc (calls st)\<rparr>))"

lemma fresh_buf_simps [simp]:
  "ready (fresh_buf bs st) = ready st" "next_buf (fresh_buf bs st) = Suc (next_buf st)"
  "work_group_size (fresh_buf bs st) = work_group_size st" "plat (fresh_buf bs st) = plat st"
  "holds (fresh_buf bs st) h b \<longleftrightarrow> (if h = Some (next_buf st) then b = bs else holds st h b)"
  by (cases h; auto simp: fresh_buf_def ready_def)+

lemma filled_buf_simps [simp]:
  "ready (filled_buf h bs st) = ready st" "next_buf (filled_buf h bs st) = next_buf st"
  "work_group_size (filled_buf h bs st) = work_group_size st" "plat (filled_buf h bs st) = plat st"
  "holds (filled_buf (Some m) bs st) h' b \<longleftrightarrow> (if h' = Some m then b = bs else holds st h' b)"
  by (auto simp: filled_buf_def ready_def holds_put_buf)

lemma new_buf_ok:
  "ready st \<Longrightarrow> 0 < sz \<Longrightarrow>
     new_buf sz None st = (Some (next_buf st), fresh_buf (pl_junk (plat st) (next_buf st) (nat sz)) st)"
  by (simp add: new_buf_def create_buf_def api_def readyD fresh_buf_def Let_def)

lemma H2D_filled:
  "ready st \<Longrightarrow> holds st (Some m) old \<Longrightarrow> length old = length src \<Longrightarrow> src \<noteq> [] \<Longrightarrow> sz = int (length src) \<Longrightarrow>
     clMemcpyH2D (Some m) sz src st = Inr (filled_buf (Some m) src st)"
  using H2D_ok [of st "Some m" old src] by (simp add: filled_buf_def)

text \<open>A copy through pageable memory: the handle is \<open>None\<close> when there is nothing to copy.\<close>

lemma paged_ok:
  assumes r: "ready st" and sz: "sz = int (length src)"
  shows "\<exists>h st'. clCreateAndCpyPagedMem sz src st = Inr (h, st') \<and> ready st' \<and> next_buf st \<le> next_buf st' \<and>
     work_group_size st' = work_group_size st \<and> holds st' h src \<and>
     (h = None \<or> h = Some (next_buf st) \<and> next_buf st < next_buf st') \<and>
     (\<forall>h' bs. h' \<noteq> Some (next_buf st) \<longrightarrow> holds st' h' bs = holds st h' bs)"
proof (cases "src = []")
  case True
  have "clCreateAndCpyPagedMem sz src st =
      Inr (None, st\<lparr>calls := Suc (Suc (Suc (Suc (calls st)))), oc_status := True\<rparr>)"
    using r True sz
    by (simp add: clCreateAndCpyPagedMem_def new_buf_def create_buf_def api_def map_buf_def memcpy_mapped_def
        write_buf_def clFinish_def readyD Let_def)
  moreover have "holds (st\<lparr>calls := Suc (Suc (Suc (Suc (calls st)))), oc_status := True\<rparr>) h b = holds st h b"
    for h b by (cases h) simp_all
  ultimately show ?thesis
    using r True by (auto simp: ready_def)
next
  case False
  let ?m = "next_buf st" and ?c = "Suc (Suc (Suc (Suc (calls st))))"
  let ?st' = "st\<lparr>calls := ?c, buffers := (buffers st)(?m \<mapsto> src), next_buf := Suc ?m, oc_status := True\<rparr>"
  have "clCreateAndCpyPagedMem sz src st = Inr (Some ?m, ?st')"
    using r False sz
    by (simp add: clCreateAndCpyPagedMem_def new_buf_def create_buf_def api_def map_buf_def memcpy_mapped_def
        write_buf_def clFinish_def put_buf_def readyD Let_def)
  moreover have "holds ?st' h b = holds st h b" if "h \<noteq> Some ?m" for h b
    using that by (cases h) simp_all
  moreover have "ready ?st'" using r by (simp add: ready_def)
  ultimately show ?thesis
    by (intro exI [of _ "Some ?m"] exI [of _ ?st']) simp
qed

lemma sint_mult_small:
  fixes w :: u32
  assumes "0 \<le> sint w" and "sint w < 268435456" and "k = 4 \<or> k = 8"
  shows "sint (w * of_nat k) = int k * sint w"
proof -
  have "sint w * int k \<in> {- (2 ^ 31) ..< 2 ^ 31}"
    using assms by auto
  then have "signed_take_bit 31 (sint w * int k) = sint w * int k"
    by (intro signed_take_bit_int_eq_self) auto
  moreover have "sint (w * of_nat k) = signed_take_bit 31 (sint w * int k)"
    using assms(3) by (auto simp: sint_word_ariths)
  ultimately show ?thesis by (simp add: mult.commute)
qed

lemma byte_sizes:
  assumes "0 \<le> sint (w :: u32)" and "sint w < 268435456"
  shows "bytes4 w = 4 * sint w" "bytes8 w = 8 * sint w"
  using sint_mult_small [OF assms, of 4] sint_mult_small [OF assms, of 8]
  by (simp_all add: bytes4_def bytes8_def)

lemma length_nodes_to_ints [simp]: "length (nodes_to_ints nds) = 2 * length nds"
  by (induction nds) (simp_all add: nodes_to_ints_def)

lemma setup_ok:
  assumes r: "ready st" and n: "0 < sint n" "sint n < 268435456" and e: "0 \<le> sint e" "sint e < 268435456"
    and len: "length nds = nat (sint n)" "length edg = nat (sint e)"
    "length msk = nat (sint n)" "length upd = nat (sint n)" "length vis = nat (sint n)" "length cost = nat (sint n)"
  shows "\<exists>d st' b. bfs_setup n nds e edg msk upd vis cost st = Inr (d, st') \<and> ready st' \<and>
     work_group_size st' = work_group_size st \<and> bufs_ok d \<and> graph_on nds edg d st' \<and>
     masks_on d st' (ints_to_bytes msk) (ints_to_bytes upd) (ints_to_bytes vis) cost b \<and> length b = 4"
proof -
  let ?p = "next_buf st" and ?N = "bytes4 n"
  have N: "?N = 4 * sint n" "bytes8 n = 8 * sint n" "bytes4 e = 4 * sint e"
    using byte_sizes n e by simp_all
  define j where "j = pl_junk (plat st)"
  have j: "length (j m sz) = sz" for m sz
    using readyD(5) [OF r] by (simp add: j_def)
  define s1 where "s1 = fresh_buf (j (?p + 4) 4) (fresh_buf (j (?p + 3) (nat ?N)) (fresh_buf (j (?p + 2) (nat ?N))
    (fresh_buf (j (?p + 1) (nat ?N)) (fresh_buf (j ?p (nat ?N)) st))))"
  have r1: "ready s1" "next_buf s1 = ?p + 5" "work_group_size s1 = work_group_size st"
    using r by (simp_all add: s1_def)
  have l1: "holds s1 (Some ?p) (j ?p (nat ?N))" "holds s1 (Some (?p + 1)) (j (?p + 1) (nat ?N))"
    "holds s1 (Some (?p + 2)) (j (?p + 2) (nat ?N))" "holds s1 (Some (?p + 3)) (j (?p + 3) (nat ?N))"
    "holds s1 (Some (?p + 4)) (j (?p + 4) 4)"
    by (simp_all add: s1_def del: holds_Some)
  obtain dn s2 where s2: "clCreateAndCpyPagedMem (bytes8 n) (ints_to_bytes (nodes_to_ints nds)) s1 = Inr (dn, s2)"
    "ready s2" "?p + 5 \<le> next_buf s2" "work_group_size s2 = work_group_size st"
    "holds s2 dn (ints_to_bytes (nodes_to_ints nds))" "dn = None \<or> dn = Some (?p + 5) \<and> ?p + 5 < next_buf s2"
    "\<And>h bs. h \<noteq> Some (?p + 5) \<Longrightarrow> holds s2 h bs = holds s1 h bs"
    using paged_ok [OF r1(1), of "bytes8 n" "ints_to_bytes (nodes_to_ints nds)"] r1(2,3) N len(1) n by auto
  obtain de s3 where s3: "clCreateAndCpyPagedMem (bytes4 e) (ints_to_bytes edg) s2 = Inr (de, s3)"
    "ready s3" "work_group_size s3 = work_group_size st"
    "holds s3 de (ints_to_bytes edg)" "de = None \<or> de = Some (next_buf s2) \<and> next_buf s2 < next_buf s3"
    "\<And>h bs. h \<noteq> Some (next_buf s2) \<Longrightarrow> holds s3 h bs = holds s2 h bs"
    using paged_ok [OF s2(2), of "bytes4 e" "ints_to_bytes edg"] N len(2) e s2(4) by auto
  have dn3: "holds s3 dn (ints_to_bytes (nodes_to_ints nds))"
    using s3(6) [of dn] s2(5,6) by auto
  have old: "holds s3 (Some (?p + i)) bs = holds s1 (Some (?p + i)) bs" if "i < 5" for i bs
    using s3(6) [of "Some (?p + i)"] s2(7) [of "Some (?p + i)"] s2(3) that by simp
  define s4 where "s4 = filled_buf (Some (?p + 3)) (ints_to_bytes cost) (filled_buf (Some (?p + 2)) (ints_to_bytes vis)
    (filled_buf (Some (?p + 1)) (ints_to_bytes upd) (filled_buf (Some ?p) (ints_to_bytes msk) s3)))"
  let ?d = "\<lparr>d_graph_nodes = dn, d_graph_edges = de, d_graph_mask = Some ?p, d_updating_graph_mask = Some (?p + 1),
     d_graph_visited = Some (?p + 2), d_cost = Some (?p + 3), d_over = Some (?p + 4)\<rparr>"
  have h3: "holds s3 (Some ?p) (j ?p (nat ?N))" "holds s3 (Some (?p + 1)) (j (?p + 1) (nat ?N))"
    "holds s3 (Some (?p + 2)) (j (?p + 2) (nat ?N))" "holds s3 (Some (?p + 3)) (j (?p + 3) (nat ?N))"
    "holds s3 (Some (?p + 4)) (j (?p + 4) 4)"
    using old [of 0] old [of 1] old [of 2] old [of 3] old [of 4] l1 by (simp_all del: holds_Some)
  have size: "length (j m (nat ?N)) = length (ints_to_bytes xs)" "ints_to_bytes xs \<noteq> []"
    "?N = int (length (ints_to_bytes xs))" if "length xs = nat (sint n)" for m and xs :: "u32 list"
  proof -
    have "length (ints_to_bytes xs) = nat ?N" "0 < nat ?N"
      using that n(1) by (simp_all add: N nat_mult_distrib)
    moreover from this have "ints_to_bytes xs \<noteq> []"
      by (metis list.size(3) less_irrefl)
    ultimately show "length (j m (nat ?N)) = length (ints_to_bytes xs)" "?N = int (length (ints_to_bytes xs))"
      "ints_to_bytes xs \<noteq> []"
      using j by auto
  qed
  have "0 < ?N" using N(1) n(1) by simp
  then have "bfs_setup n nds e edg msk upd vis cost st = Inr (?d, s4)"
    using r s2(1) s3(1,2) h3 len size
    by (simp add: bfs_setup_def clMalloc_def clMallocRW_def new_buf_ok j_def [symmetric] s1_def s4_def
        H2D_filled numeral_eq_Suc del: holds_Some)
  moreover have "ready s4" "work_group_size s4 = work_group_size st"
    using s3(2,3) by (simp_all add: s4_def)
  moreover have "bufs_ok ?d"
    using s2(3,6) s3(5) by (auto simp: bufs_ok_def written_def)
  moreover have "graph_on nds edg ?d s4"
    using dn3 s3(4,5) s2(3,6) by (auto simp: graph_on_def s4_def simp del: holds_Some)
  moreover have "masks_on ?d s4 (ints_to_bytes msk) (ints_to_bytes upd) (ints_to_bytes vis) cost (j (?p + 4) 4)"
    using h3(5) by (simp add: masks_on_def s4_def del: holds_Some)
  ultimately show ?thesis
    using j by blast
qed

end
