(* ===== verification/QH_Bfs_Service.thy ===== *)
theory QH_Bfs_Service
  imports QH_Bfs_Run
begin

text \<open>
  The breadth-first search as a service: what \<open>bfs_launch\<close> makes of the memory of a request, and the theorems
  about both programs of the search.
\<close>

section \<open>The arrays at the start\<close>

definition start_mask :: "nat \<Rightarrow> u32 list" where
  "start_mask n = (replicate n 0)[0 := 1]"

definition start_cost :: "nat \<Rightarrow> u32 list" where
  "start_cost n = (replicate n (- 1))[0 := 0]"

lemma ints_to_bytes_Cons: "ints_to_bytes (w # ws) = bytes_of w @ ints_to_bytes ws"
  by (simp add: ints_to_bytes_def)

lemma zero_bytes: "ints_to_bytes (replicate n 0) = replicate (4 * n) 0"
  by (induction n) (simp_all add: ints_to_bytes_def bytes_of_def numeral_eq_Suc)

text \<open>The device reads the first byte of the first \<open>bool\<close> for the node 0, which is the source.\<close>

lemma start_mask_bytes:
  assumes "i < n"
  shows "ints_to_bytes (start_mask n) ! i = (if i = 0 then 1 else 0)"
proof -
  obtain k where "n = Suc k" using assms by (cases n) auto
  then have "ints_to_bytes (start_mask n) = [1, 0, 0, 0] @ replicate (4 * k) 0"
    by (simp add: start_mask_def ints_to_bytes_Cons zero_bytes) (simp add: bytes_of_def)
  moreover have "replicate (4 * k) 0 ! (i - 4) = (0 :: u8)" if "\<not> i < 4"
    by (rule nth_replicate) (use assms that \<open>n = Suc k\<close> in simp)
  moreover have "i < 4 \<Longrightarrow> [1, 0, 0, 0 :: u8] ! i = (if i = 0 then 1 else 0)"
    by (auto simp: numeral_eq_Suc less_Suc_eq)
  ultimately show ?thesis
    using nth_append [of "[1, 0, 0, 0 :: u8]" "replicate (4 * k) 0" i] by (cases "i < 4") (simp_all add: numeral_eq_Suc)
qed

lemma start_bytes_inv:
  assumes "0 < n"
  shows "bfs_inv E n 0 (truth (ints_to_bytes (start_mask n)), truth (ints_to_bytes (replicate n 0)),
     truth (ints_to_bytes (start_mask n)), start_cost n)"
proof -
  have len: "length (ints_to_bytes (start_mask n)) = 4 * n"
    by (simp add: start_mask_def)
  have "truth (ints_to_bytes (start_mask n)) ! i = (i = 0)" if "i < n" for i
    using start_mask_bytes [OF that] that len by simp
  then show ?thesis
    using assms len by (auto simp: bfs_inv_def start_cost_def zero_bytes nth_list_update)
qed

section \<open>run_bfs_gpu\<close>

lemma run_bfs_gpu_result:
  assumes r: "ready st" "work_group_size st \<noteq> 0"
    and n: "0 < sint n" "sint n \<le> 1024" and e: "0 \<le> sint e" "sint e < 268435456"
    and len: "length nds = nat (sint n)" "length edg = nat (sint e)" and g: "graph_ok (nat (sint n)) nds edg"
  shows "\<exists>cost st'. run_bfs_gpu n nds e edg (start_mask (nat (sint n))) (replicate (nat (sint n)) 0)
       (start_mask (nat (sint n))) (start_cost (nat (sint n))) st = Some (Inr (cost, st')) \<and>
     length cost = nat (sint n) \<and> bfs_costs (arcs (nat (sint n)) nds edg) (nat (sint n)) cost"
proof -
  let ?N = "nat (sint n)" and ?E = "arcs (nat (sint n)) nds edg"
  let ?sm = "start_mask ?N" and ?z = "replicate ?N 0 :: u32 list" and ?sc = "start_cost ?N"
  have lens: "length ?sm = ?N" "length ?z = ?N" "length ?sc = ?N"
    by (simp_all add: start_mask_def start_cost_def)
  obtain d s1 b where s1: "bfs_setup n nds e edg ?sm ?z ?sm ?sc st = Inr (d, s1)" "ready s1"
    "work_group_size s1 = work_group_size st" "bufs_ok d" "graph_on nds edg d s1"
    "masks_on d s1 (ints_to_bytes ?sm) (ints_to_bytes ?z) (ints_to_bytes ?sm) ?sc b" "length b = 4"
    using setup_ok [OF r(1) n(1) _ e len lens(1,2,1,3)] n(2) by auto
  have "gpu_state n nds edg d 0 s1"
    unfolding gpu_state_def
    using s1 r(2) n g lens(3) start_bytes_inv [of ?N ?E]
    by (intro conjI exI) simp_all
  from gpu.loop_ends [OF this] obtain s2 m where s2: "bfs_loop n d s1 = Some (Inr s2)" "gpu_state n nds edg d m s2"
    and fin: "level ?E m = {}"
    by blast
  from s2(2) have r2: "ready s2" "bufs_ok d"
    unfolding gpu_state_def by simp_all
  from s2(2) obtain ma u v c b' where m: "masks_on d s2 ma u v c b'" "length c = ?N"
      "bfs_inv ?E ?N m (truth ma, truth u, truth v, c)"
    unfolding gpu_state_def by (elim conjE exE) (rule that)
  define s3 where "s3 = s2\<lparr>calls := Suc (calls s2), oc_status := True\<rparr>"
  have s3: "clFinish s2 = Inr s3"
    using r2(1) by (simp add: clFinish_def api_def readyD s3_def)
  have h3: "holds s3 (d_cost d) (ints_to_bytes c)"
    using m(1) by (simp add: masks_on_def s3_def)
  have "ready s3" using r2 by (simp add: s3_def ready_def)
  moreover have "ints_to_bytes c \<noteq> []"
    using m(2) n(1) by (metis length_ints_to_bytes list.size(3) mult_is_0 nat_0_iff not_le zero_neq_numeral)
  moreover have "bytes4 n = int (length (ints_to_bytes c))"
    using byte_sizes [of n] n m(2) by simp
  moreover have "d_cost d \<noteq> None"
    using r2(2) by (simp add: bufs_ok_def written_def)
  ultimately have "clMemcpyD2H (d_cost d) (bytes4 n) s3 =
      (Some (ints_to_bytes c), s3\<lparr>calls := Suc (calls s3), oc_status := True\<rparr>)"
    using D2H_ok [of s3 "d_cost d" "ints_to_bytes c"] h3 by simp
  then have "run_bfs_gpu n nds e edg ?sm ?z ?sm ?sc st = Some (Inr (c, s3\<lparr>calls := Suc (calls s3), oc_status := True\<rparr>))"
    using s1(1) s2(1) s3 by (simp add: run_bfs_gpu_def)
  then show ?thesis
    using m(2) bfs_inv_done [OF m(3) fin] by blast
qed

section \<open>The graph in the memory of a request\<close>

text \<open>
  The number of nodes, the nodes, the source, the number of edges, and the edges with their weights, which the
  search ignores.
\<close>

definition pairs :: "(u32 \<times> u32) list \<Rightarrow> u32 list" where
  "pairs ps = concat (map (\<lambda>(a, b). [a, b]) ps)"

definition graph_memory :: "u32 \<Rightarrow> node list \<Rightarrow> u32 \<Rightarrow> (u32 \<times> u32) list \<Rightarrow> u32 list" where
  "graph_memory n nds e ews = n # nodes_to_ints nds @ [0, e] @ pairs ews"

lemma nth_nodes:
  "i < length nds \<Longrightarrow> nodes_to_ints nds ! (2 * i) = starting (nds ! i) \<and>
     nodes_to_ints nds ! Suc (2 * i) = no_of_edges (nds ! i)"
proof (induction nds arbitrary: i)
  case (Cons nd nds)
  then show ?case
    by (cases i) (auto simp: nodes_to_ints_def)
qed simp

lemma length_pairs [simp]: "length (pairs ps) = 2 * length ps"
  by (induction ps) (auto simp: pairs_def)

lemma nth_pairs: "i < length ps \<Longrightarrow> pairs ps ! (2 * i) = fst (ps ! i) \<and> pairs ps ! Suc (2 * i) = snd (ps ! i)"
proof (induction ps arbitrary: i)
  case (Cons p ps)
  then show ?case
    by (cases i) (auto simp: pairs_def split: prod.splits)
qed simp

text \<open>Where the parts are.\<close>

lemma graph_memory_nth:
  assumes "dat = graph_memory n nds e ews @ rest"
  shows "dat ! 0 = n"
    and "i < length nds \<Longrightarrow> dat ! Suc (2 * i) = starting (nds ! i) \<and> dat ! Suc (Suc (2 * i)) = no_of_edges (nds ! i)"
    and "dat ! Suc (2 * length nds) = 0" and "dat ! Suc (Suc (2 * length nds)) = e"
    and "i < length ews \<Longrightarrow> dat ! (2 * length nds + 3 + 2 * i) = fst (ews ! i) \<and>
      dat ! Suc (2 * length nds + 3 + 2 * i) = snd (ews ! i)"
    and "length dat = 2 * length nds + 3 + 2 * length ews + length rest"
proof -
  have dat: "dat = (n # nodes_to_ints nds @ [0, e]) @ pairs ews @ rest"
    by (simp add: assms graph_memory_def)
  show "dat ! 0 = n" "dat ! Suc (2 * length nds) = 0" "dat ! Suc (Suc (2 * length nds)) = e"
    "length dat = 2 * length nds + 3 + 2 * length ews + length rest"
    by (simp_all add: dat nth_append)
  show "dat ! Suc (2 * i) = starting (nds ! i) \<and> dat ! Suc (Suc (2 * i)) = no_of_edges (nds ! i)"
    if "i < length nds"
    using nth_nodes [OF that] that by (simp add: dat nth_append)
  show "dat ! (2 * length nds + 3 + 2 * i) = fst (ews ! i) \<and> dat ! Suc (2 * length nds + 3 + 2 * i) = snd (ews ! i)"
    if "i < length ews"
  proof -
    have len: "length (n # nodes_to_ints nds @ [0, e]) = 2 * length nds + 3" by simp
    have "dat ! (2 * length nds + 3 + k) = (pairs ews @ rest) ! k" for k
      unfolding dat len [symmetric] by (rule nth_append_length_plus)
    from this [of "2 * i"] this [of "Suc (2 * i)"] show ?thesis
      using nth_pairs [OF that] that by (simp add: nth_append)
  qed
qed

lemma load_nodes_result:
  assumes dat: "dat = graph_memory n nds e ews @ rest" and N: "N = length nds"
    and len: "N \<le> length nds0" "N \<le> length m0" "N \<le> length u0" "N \<le> length v0"
  shows "\<exists>nd m u v. load_nodes z dat N (nds0, m0, u0, v0) = Inr (2 * N + 1, nd, m, u, v) \<and>
     length nd = length nds0 \<and> length m = length m0 \<and> length u = length u0 \<and> length v = length v0 \<and>
     (\<forall>j<N. nd ! j = nds ! j \<and> m ! j = z \<and> u ! j = z \<and> v ! j = z)"
proof -
  let ?Inv = "\<lambda>i (di, nd, m, u, v). di = 2 * i + 1 \<and> length nd = length nds0 \<and> length m = length m0 \<and>
     length u = length u0 \<and> length v = length v0 \<and> (\<forall>j<i. nd ! j = nds ! j \<and> m ! j = z \<and> u ! j = z \<and> v ! j = z)"
  have "\<exists>s. load_nodes z dat N (nds0, m0, u0, v0) = Inr s \<and> ?Inv N s"
    unfolding load_nodes_def prod.case
  proof (rule for_range_invariant [where Inv = ?Inv])
    show "?Inv 0 (1, nds0, m0, u0, v0)" by simp
  next
    fix i s assume i: "i < N" and inv: "?Inv i s"
    obtain di nd m u v where s: "s = (di, nd, m, u, v)" by (cases s)
    have d: "arr_get dat di = Inr (starting (nds ! i))" "arr_get dat (Suc di) = Inr (no_of_edges (nds ! i))"
      using graph_memory_nth(2) [OF dat, of i] graph_memory_nth(6) [OF dat] i N inv s by (simp_all add: arr_get_def)
    have nd: "\<lparr>starting = starting (nds ! i), no_of_edges = no_of_edges (nds ! i)\<rparr> = nds ! i"
      by simp
    have l: "i < length nd" "i < length m" "i < length u" "i < length v"
      using inv i s len by simp_all
    let ?f = "\<lambda>(data_index, nds, msk, upd, vis).
        bindR (arr_get dat data_index) (\<lambda>start.
        bindR (arr_get dat (data_index + 1)) (\<lambda>edgeno.
        bindR (arr_set nds i \<lparr>starting = start, no_of_edges = edgeno\<rparr>) (\<lambda>nds.
        bindR (arr_set msk i z) (\<lambda>msk.
        bindR (arr_set upd i z) (\<lambda>upd.
        bindR (arr_set vis i z) (\<lambda>vis.
        Inr (data_index + 2, nds, msk, upd, vis)))))))"
    have "?f s = Inr (di + 2, nd[i := nds ! i], m[i := z], u[i := z], v[i := z])"
      using l by (simp add: s d nd)
    moreover have "?Inv (Suc i) (di + 2, nd[i := nds ! i], m[i := z], u[i := z], v[i := z])"
      using inv i l by (auto simp: s nth_list_update less_Suc_eq)
    ultimately show "\<exists>s'. ?f s = Inr s' \<and> ?Inv (Suc i) s'"
      by (rule step_result)
  qed simp
  then show ?thesis by auto
qed

lemma read_nodes_result:
  assumes dat: "dat = graph_memory n nds e ews @ rest" and N: "N = length nds"
    and len: "length nds0 = N" "length m0 = N" "length u0 = N" "length v0 = N"
  shows "read_nodes dat N (nds0, m0, u0, v0) =
     Inr (2 * N + 1, nds, replicate N 0, replicate N 0, replicate N 0)"
proof -
  obtain nd m u v where r: "load_nodes 0 dat N (nds0, m0, u0, v0) = Inr (2 * N + 1, nd, m, u, v)"
    and p: "length nd = length nds0" "length m = length m0" "length u = length u0" "length v = length v0"
      "\<forall>j<N. nd ! j = nds ! j \<and> m ! j = 0 \<and> u ! j = 0 \<and> v ! j = 0"
    using load_nodes_result [OF dat N, of nds0 m0 u0 v0 0] len by auto
  have "nd = nds" "m = replicate N 0" "u = replicate N 0" "v = replicate N 0"
    using p N len by (auto intro: nth_equalityI)
  then show ?thesis using r by (simp add: read_nodes_def)
qed

lemma read_edges_result:
  assumes dat: "dat = graph_memory n nds e ews @ rest" and len: "length ews \<le> length edg0"
  shows "\<exists>di ed. read_edges dat (length ews) (2 * length nds + 3) edg0 = Inr (di, ed) \<and>
     length ed = length edg0 \<and> (\<forall>j<length ews. ed ! j = fst (ews ! j))"
proof -
  let ?Inv = "\<lambda>i (di, ed). di = 2 * length nds + 3 + 2 * i \<and> length ed = length edg0 \<and> (\<forall>j<i. ed ! j = fst (ews ! j))"
  have "\<exists>s. read_edges dat (length ews) (2 * length nds + 3) edg0 = Inr s \<and> ?Inv (length ews) s"
    unfolding read_edges_def
  proof (rule for_range_invariant [where Inv = ?Inv])
    show "?Inv 0 (2 * length nds + 3, edg0)" by simp
  next
    fix i s assume i: "i < length ews" and inv: "?Inv i s"
    obtain di ed where s: "s = (di, ed)" by (cases s)
    have d: "arr_get dat di = Inr (fst (ews ! i))" "arr_get dat (Suc di) = Inr (snd (ews ! i))"
      using graph_memory_nth(5) [OF dat, of i] graph_memory_nth(6) [OF dat] i inv s by (simp_all add: arr_get_def)
    have l: "i < length ed"
      using inv i s len by simp
    let ?f = "\<lambda>(data_index, edg).
        bindR (arr_get dat data_index) (\<lambda>id.
        bindR (arr_get dat (data_index + 1)) (\<lambda>cost.
        bindR (arr_set edg i id) (\<lambda>edg. Inr (data_index + 2, edg))))"
    have "?f s = Inr (di + 2, ed[i := fst (ews ! i)])"
      using l by (simp add: s d)
    moreover have "?Inv (Suc i) (di + 2, ed[i := fst (ews ! i)])"
      using inv i l by (auto simp: s nth_list_update less_Suc_eq)
    ultimately show "\<exists>s'. ?f s = Inr s' \<and> ?Inv (Suc i) s'"
      by (rule step_result)
  qed simp
  then show ?thesis by auto
qed

lemma init_costs_result:
  assumes "n \<le> length c"
  shows "\<exists>c'. init_costs n c = Inr c' \<and> length c' = length c \<and> (\<forall>j<n. c' ! j = - 1)"
  unfolding init_costs_def
  by (rule for_range_invariant [where Inv = "\<lambda>i s. length s = length c \<and> (\<forall>j<i. s ! j = - 1)"])
    (use assms in \<open>auto simp: nth_list_update less_Suc_eq\<close>)

section \<open>bfs_launch\<close>

lemma blocks_ok:
  assumes "ready st" and "0 \<le> n"
  shows "length (block (plat st) i n) = nat n" "length (node_block (plat st) i n) = nat n"
proof -
  show *: "length (block (plat st) i n) = nat n" for n i
    using assms(1) by (cases "0 \<le> n") (simp_all add: block_def readyD)
  have "2 * length (nodes_of_ints ws) = length ws" if "even (length ws)" for ws
    using that by (induction ws rule: nodes_of_ints.induct) auto
  from this [of "block (plat st) i (2 * n)"] show "length (node_block (plat st) i n) = nat n"
    using assms(2) * [of i "2 * n"] by (simp add: node_block_def nat_mult_distrib)
qed

lemma ready_wgs: "ready st \<Longrightarrow> ready (st\<lparr>work_group_size := w\<rparr>)"
  by (simp add: ready_def)

lemma bfs_launch_result:
  assumes r: "ready st" and n: "0 < sint n" "sint n \<le> 1024" and e: "0 \<le> sint e" "sint e < 268435456"
    and len: "length nds = nat (sint n)" "length ews = nat (sint e)"
    and g: "graph_ok (nat (sint n)) nds (map fst ews)" and dat: "dat = graph_memory n nds e ews @ rest"
  shows "\<exists>cost st'. length cost = nat (sint n) \<and> bfs_costs (arcs (nat (sint n)) nds (map fst ews)) (nat (sint n)) cost \<and>
     bfs_launch dat mmap_size st = (if length cost < mmap_size then Some (Inl Out_of_bounds)
       else Some (Inr (0, take mmap_size cost @ drop mmap_size dat, st')))"
proof -
  let ?N = "nat (sint n)" and ?w = "if 512 < sint n then 512 else n"
  let ?st = "st\<lparr>work_group_size := ?w\<rparr>"
  have "?w \<noteq> 0" using n(1) by auto
  then obtain cost st' where c: "run_bfs_gpu n nds e (map fst ews) (start_mask ?N) (replicate ?N 0)
      (start_mask ?N) (start_cost ?N) ?st = Some (Inr (cost, st'))"
    "length cost = ?N" "bfs_costs (arcs ?N nds (map fst ews)) ?N cost"
    using run_bfs_gpu_result [OF ready_wgs [OF r], of ?w n e nds "map fst ews"] n e len g by auto
  note nth = graph_memory_nth [OF dat]
  have get: "arr_get dat 0 = Inr n" "arr_get dat (2 * ?N + 1) = Inr 0" "arr_get dat (2 * ?N + 1 + 1) = Inr e"
    using nth(1,3,4,6) len(1) by (simp_all add: arr_get_def)
  have nodes: "read_nodes dat ?N (node_block (plat st) 1 (sint n), block (plat st) 2 (sint n),
      block (plat st) 3 (sint n), block (plat st) 4 (sint n)) =
      Inr (2 * ?N + 1, nds, replicate ?N 0, replicate ?N 0, replicate ?N 0)"
    by (rule read_nodes_result [OF dat]) (use blocks_ok [OF r] n len in simp_all)
  obtain di where edges: "read_edges dat (nat (sint e)) (2 * ?N + 1 + 2) (block (plat st) 5 (sint e)) = Inr (di, map fst ews)"
  proof -
    have i: "2 * ?N + 1 + 2 = 2 * length nds + 3" using len(1) by simp
    obtain di ed where "read_edges dat (length ews) (2 * length nds + 3) (block (plat st) 5 (sint e)) = Inr (di, ed)"
      "length ed = length ews" "\<forall>j<length ews. ed ! j = fst (ews ! j)"
      using read_edges_result [OF dat, of "block (plat st) 5 (sint e)"] blocks_ok(1) [OF r e(1)] len(2) by auto
    moreover from this have "ed = map fst ews"
      by (auto intro: nth_equalityI)
    ultimately show ?thesis
      using that len(2) unfolding i by simp
  qed
  have costs: "init_costs ?N (block (plat st) i (sint n)) = Inr (replicate ?N (- 1))" for i
  proof -
    obtain c where "init_costs ?N (block (plat st) i (sint n)) = Inr c" "length c = ?N" "\<forall>j<?N. c ! j = - 1"
      using init_costs_result [of ?N "block (plat st) i (sint n)"] blocks_ok(1) [OF r, of "sint n" i] n by auto
    moreover from this have "c = replicate ?N (- 1)"
      by (auto intro: nth_equalityI)
    ultimately show ?thesis by simp
  qed
  have size: "length cost < length dat"
    using nth(6) len c(2) by simp
  have "bfs_launch dat mmap_size st = (if length cost < mmap_size then Some (Inl Out_of_bounds)
      else Some (Inr (0, take mmap_size cost @ drop mmap_size dat, st')))"
    using get nodes edges costs c(1) n(1) size
    by (auto simp: bfs_launch_def Let_def start_mask_def start_cost_def)
  then show ?thesis
    using c(2,3) by blast
qed

end
