(* ===== verification/QH_Bfs_Module.thy ===== *)
theory QH_Bfs_Module
  imports QH_Bfs_Service
begin

text \<open>
  The client of the breadth-first search, \<open>src/test_module/bfs/bfs_module.c\<close>: it makes a random symmetric
  matrix, writes its graph into the memory of the request, searches on the CPU, and compares with the answer of
  the service. Indices are natural numbers; the matrix has fewer than \<open>2 ^ 32\<close> cells.
\<close>

section \<open>The matrix\<close>

text \<open>\<open>rnd k\<close> is what the call number \<open>k\<close> of \<open>get_random_bytes\<close> gives.\<close>

definition kgenerate_adjacency_matrix :: "(nat \<Rightarrow> u32) \<Rightarrow> nat \<Rightarrow> u32 \<Rightarrow> u32 list \<Rightarrow> u32 list res" where
  "kgenerate_adjacency_matrix rnd mat_size rate mat = map_res snd (
     for_each [0..<mat_size] (\<lambda>i (k, mat).
       bindR (arr_set mat (i * mat_size + i) 0) (\<lambda>mat.
       for_each [i + 1..<mat_size] (\<lambda>j (k, mat).
         let temp = rnd k mod 10000 + 1; temp = (if rate * 100 < temp then 0 else temp) in
         bindR (arr_set mat (i * mat_size + j) temp) (\<lambda>mat.
         bindR (arr_set mat (j * mat_size + i) temp) (\<lambda>mat. Inr (Suc k, mat)))) (k, mat))) (0, mat))"

section \<open>From the matrix to the memory of the request\<close>

text \<open>The number of edges of a node, and the loop over the nodes.\<close>

definition count_edges :: "u32 list \<Rightarrow> nat \<Rightarrow> nat \<Rightarrow> nat res" where
  "count_edges mat mat_size i = for_each [0..<mat_size] (\<lambda>j count.
     bindR (arr_get mat (i * mat_size + j)) (\<lambda>x. Inr (if x \<noteq> 0 then count + 1 else count))) 0"

definition convert_nodes :: "u32 list \<Rightarrow> nat \<Rightarrow> u32 list \<Rightarrow> (nat \<times> nat \<times> u32 list) res" where
  "convert_nodes mat mat_size dat = for_each [0..<mat_size] (\<lambda>i (data_index, sum, dat).
     bindR (count_edges mat mat_size i) (\<lambda>count.
     bindR (arr_set dat data_index (of_nat sum)) (\<lambda>dat.
     bindR (arr_set dat (data_index + 1) (of_nat count)) (\<lambda>dat.
     Inr (data_index + 2, sum + count, dat))))) (1, 0, dat)"

text \<open>The two loops over the cells of the matrix, with the return in the middle.\<close>

fun convert_edges :: "u32 list \<Rightarrow> nat \<Rightarrow> (nat \<times> nat) list \<Rightarrow> nat \<Rightarrow> u32 list \<Rightarrow> (u32 \<times> u32 list) res" where
  "convert_edges mat mat_size [] data_index dat = Inr (of_nat data_index, dat)"
| "convert_edges mat mat_size ((i, j) # cells) data_index dat =
     bindR (arr_get mat (i * mat_size + j)) (\<lambda>x.
     if x \<noteq> 0 then
       bindR (arr_set dat data_index (of_nat j)) (\<lambda>dat.
       bindR (arr_set dat (data_index + 1) x) (\<lambda>dat.
       if mat_size * mat_size - 1 < data_index + 2 then Inr (- 1, dat)
       else convert_edges mat mat_size cells (data_index + 2) dat))
     else convert_edges mat mat_size cells data_index dat)"

definition convert_to_exd :: "u32 list \<Rightarrow> nat \<Rightarrow> u32 list \<Rightarrow> (u32 \<times> u32 list) res" where
  "convert_to_exd mat mat_size dat =
     bindR (arr_set dat 0 (of_nat mat_size)) (\<lambda>dat.
     bindR (convert_nodes mat mat_size dat) (\<lambda>(data_index, sum, dat).
     bindR (arr_set dat data_index 0) (\<lambda>dat.
     bindR (arr_set dat (data_index + 1) (of_nat sum)) (\<lambda>dat.
     convert_edges mat mat_size (List.product [0..<mat_size] [0..<mat_size]) (data_index + 2) dat))))"

section \<open>The search on the CPU and the comparison\<close>

text \<open>\<open>minit\<close> reads the graph back from the memory of the request.\<close>

definition module_nodes ::
  "u32 list \<Rightarrow> nat \<Rightarrow> node list \<times> bool list \<times> bool list \<times> bool list \<Rightarrow>
    (nat \<times> node list \<times> bool list \<times> bool list \<times> bool list) res" where
  "module_nodes = load_nodes False"

text \<open>The arrays of \<open>minit\<close> come from \<open>__get_free_pages\<close> and hold anything.\<close>

definition module_search ::
  "u32 list \<Rightarrow> u32 \<Rightarrow> node list \<times> bool list \<times> bool list \<times> bool list \<Rightarrow> u32 list \<Rightarrow> u32 list \<Rightarrow> masks res option" where
  "module_search dat mat_size arrays edg cost_ref =
     bindO (Some (module_nodes dat (unat mat_size) arrays)) (\<lambda>(data_index, nds, msk, upd, vis).
     bindO (Some (arr_get dat data_index)) (\<lambda>_.
     bindO (Some (arr_set msk 0 True)) (\<lambda>msk.
     bindO (Some (arr_set vis 0 True)) (\<lambda>vis.
     bindO (Some (arr_get dat (data_index + 1))) (\<lambda>edge_list_size.
     bindO (Some (read_edges dat (unat edge_list_size) (data_index + 2) edg)) (\<lambda>(data_index, edg).
     bindO (Some (init_costs (unat mat_size) cost_ref)) (\<lambda>cost_ref.
     bindO (Some (arr_set cost_ref 0 0)) (\<lambda>cost_ref.
     run_bfs_cpu mat_size nds edg (msk, upd, vis, cost_ref)))))))))"

definition compare_results :: "u32 list \<Rightarrow> u32 list \<Rightarrow> nat \<Rightarrow> bool res" where
  "compare_results gpu_results cpu_results sz = for_each [0..<sz] (\<lambda>i passed.
     bindR (arr_get cpu_results i) (\<lambda>c. bindR (arr_get gpu_results i) (\<lambda>g. Inr (passed \<and> c = g)))) True"

end
