(* ===== verification/QH_Bfs_Convert.thy ===== *)
theory QH_Bfs_Convert
  imports QH_Bfs_Module
begin

text \<open>
  The conversion of a matrix to the graph in the memory of a request: what \<open>convert_to_exd\<close> writes is the
  adjacency lists of the graph whose arcs are the cells of the matrix that are not 0, and both programs of the
  search find the distances in that graph.
\<close>

section \<open>Rows of the matrix\<close>

definition row :: "u32 list \<Rightarrow> nat \<Rightarrow> nat \<Rightarrow> (u32 \<times> u32) list" where
  "row mat n i = map (\<lambda>j. (of_nat j, mat ! (i * n + j))) (filter (\<lambda>j. mat ! (i * n + j) \<noteq> 0) [0..<n])"

definition row_start :: "u32 list \<Rightarrow> nat \<Rightarrow> nat \<Rightarrow> nat" where
  "row_start mat n i = (\<Sum>r<i. length (row mat n r))"

definition node_of :: "u32 list \<Rightarrow> nat \<Rightarrow> nat \<Rightarrow> node" where
  "node_of mat n i = \<lparr>starting = of_nat (row_start mat n i), no_of_edges = of_nat (length (row mat n i))\<rparr>"

definition matrix_edges :: "u32 list \<Rightarrow> nat \<Rightarrow> (u32 \<times> u32) list" where
  "matrix_edges mat n = concat (map (row mat n) [0..<n])"

lemma length_matrix_edges: "length (matrix_edges mat n) = row_start mat n n"
  by (simp add: matrix_edges_def row_start_def length_concat sum_list_sum_nth atLeast0LessThan)

lemma index_in_matrix: "i < n \<Longrightarrow> j < n \<Longrightarrow> i * n + j < n * (n :: nat)"
  using block_bound [of j n i n] by simp

lemma count_edges_result:
  assumes "length mat = n * n" and "i < n"
  shows "count_edges mat n i = Inr (length (row mat n i))"
proof -
  have "\<exists>c. count_edges mat n i = Inr c \<and> c = length (filter (\<lambda>j. mat ! (i * n + j) \<noteq> 0) [0..<n])"
    unfolding count_edges_def
    by (rule for_range_invariant [where Inv = "\<lambda>k c. c = length (filter (\<lambda>j. mat ! (i * n + j) \<noteq> 0) [0..<k])"])
      (use assms index_in_matrix in auto)
  then show ?thesis by (simp add: row_def)
qed

section \<open>convert_to_exd\<close>

definition nodes_upto :: "u32 list \<Rightarrow> nat \<Rightarrow> nat \<Rightarrow> u32 list" where
  "nodes_upto mat n k = nodes_to_ints (map (node_of mat n) [0..<k])"

lemma nodes_upto_Suc:
  "nodes_upto mat n (Suc k) = nodes_upto mat n k @ [of_nat (row_start mat n k), of_nat (length (row mat n k))]"
  by (simp add: nodes_upto_def nodes_to_ints_def node_of_def)

lemma length_nodes_upto [simp]: "length (nodes_upto mat n k) = 2 * k"
  by (simp add: nodes_upto_def)

lemma convert_nodes_result:
  assumes m: "length mat = n * n" and d: "2 * n + 1 \<le> length dat"
  shows "convert_nodes mat n ([w] @ drop 1 dat) =
     Inr (2 * n + 1, row_start mat n n, (w # nodes_upto mat n n) @ drop (2 * n + 1) dat)"
proof -
  let ?Inv = "\<lambda>i (di, sum, d). di = 2 * i + 1 \<and> sum = row_start mat n i \<and>
     d = (w # nodes_upto mat n i) @ drop (2 * i + 1) dat"
  have "\<exists>s. convert_nodes mat n ([w] @ drop 1 dat) = Inr s \<and> ?Inv n s"
    unfolding convert_nodes_def
  proof (rule for_range_invariant [where Inv = ?Inv])
    show "?Inv 0 (1, 0, [w] @ drop 1 dat)"
      by (simp add: row_start_def nodes_upto_def nodes_to_ints_def)
  next
    fix i s assume i: "i < n" and inv: "?Inv i s"
    let ?p = "w # nodes_upto mat n i"
    have s: "s = (2 * i + 1, row_start mat n i, ?p @ drop (2 * i + 1) dat)"
      using inv by (cases s) simp
    have a1: "arr_set (?p @ drop (2 * i + 1) dat) (2 * i + 1) v = Inr ((?p @ [v]) @ drop (Suc (2 * i + 1)) dat)" for v
      by (rule arr_set_prefix) (use i d in simp_all)
    have a2: "arr_set ((?p @ [v]) @ drop (Suc (2 * i + 1)) dat) (Suc (2 * i + 1)) v' =
        Inr (((?p @ [v]) @ [v']) @ drop (Suc (Suc (2 * i + 1))) dat)" for v v'
      by (rule arr_set_prefix) (use i d in simp_all)
    have rs: "row_start mat n (Suc i) = row_start mat n i + length (row mat n i)"
      by (simp add: row_start_def)
    show "\<exists>s'. (case s of (data_index, sm, dat) \<Rightarrow>
        bindR (count_edges mat n i) (\<lambda>count.
        bindR (arr_set dat data_index (of_nat sm)) (\<lambda>dat.
        bindR (arr_set dat (data_index + 1) (of_nat count)) (\<lambda>dat.
        Inr (data_index + 2, sm + count, dat))))) = Inr s' \<and> ?Inv (Suc i) s'"
      unfolding s using a1 a2 by (simp add: count_edges_result [OF m i] nodes_upto_Suc rs)
  qed simp
  then show ?thesis by auto
qed

definition cell_edges :: "u32 list \<Rightarrow> nat \<Rightarrow> (nat \<times> nat) list \<Rightarrow> (u32 \<times> u32) list" where
  "cell_edges mat n cells =
     map (\<lambda>(i, j). (of_nat j, mat ! (i * n + j))) (filter (\<lambda>(i, j). mat ! (i * n + j) \<noteq> 0) cells)"

lemma cell_edges_all: "cell_edges mat n (List.product [0..<n] [0..<n]) = matrix_edges mat n"
proof -
  have "cell_edges mat n (List.product is [0..<n]) = concat (map (row mat n) is)" for "is"
    by (induction "is") (simp_all add: cell_edges_def row_def filter_map o_def)
  then show ?thesis by (simp add: matrix_edges_def)
qed

lemma convert_edges_result:
  assumes "length mat = n * n" and "set cells \<subseteq> {..<n} \<times> {..<n}" and "length p = k" and "n * n \<le> length dat"
    and "cell_edges mat n cells = [] \<or> k + 2 * length (cell_edges mat n cells) < n * n"
  shows "convert_edges mat n cells k (p @ drop k dat) = Inr (of_nat (k + 2 * length (cell_edges mat n cells)),
     (p @ pairs (cell_edges mat n cells)) @ drop (k + 2 * length (cell_edges mat n cells)) dat)"
  using assms
proof (induction cells arbitrary: k p)
  case Nil
  then show ?case by (simp add: cell_edges_def pairs_def)
next
  case (Cons c cells)
  obtain i j where c: "c = (i, j)" by (cases c)
  let ?x = "mat ! (i * n + j)"
  have x: "arr_get mat (i * n + j) = Inr ?x"
    using Cons.prems(1,2) index_in_matrix by (auto simp: c)
  show ?case
  proof (cases "?x = 0")
    case True
    then have "cell_edges mat n (c # cells) = cell_edges mat n cells"
      by (simp add: cell_edges_def c)
    then show ?thesis
      using Cons.IH [OF Cons.prems(1) _ Cons.prems(3,4)] Cons.prems(2,5) True by (simp add: c x)
  next
    case False
    then have es: "cell_edges mat n (c # cells) = (of_nat j, ?x) # cell_edges mat n cells"
      by (simp add: cell_edges_def c)
    have k: "k + 2 * length (cell_edges mat n cells) + 2 < n * n"
      using Cons.prems(5) by (simp add: es)
    have a1: "arr_set (p @ drop k dat) k (of_nat j) = Inr ((p @ [of_nat j]) @ drop (Suc k) dat)"
      by (rule arr_set_prefix) (use Cons.prems(3,4) k in simp_all)
    have a2: "arr_set ((p @ [of_nat j]) @ drop (Suc k) dat) (Suc k) ?x =
        Inr (((p @ [of_nat j]) @ [?x]) @ drop (Suc (Suc k)) dat)"
      by (rule arr_set_prefix) (use Cons.prems(3,4) k in simp_all)
    have "convert_edges mat n cells (Suc (Suc k)) (((p @ [of_nat j]) @ [?x]) @ drop (Suc (Suc k)) dat) =
      Inr (of_nat (Suc (Suc k) + 2 * length (cell_edges mat n cells)),
        (((p @ [of_nat j]) @ [?x]) @ pairs (cell_edges mat n cells)) @
          drop (Suc (Suc k) + 2 * length (cell_edges mat n cells)) dat)"
      by (rule Cons.IH) (use Cons.prems k in auto)
    moreover have "\<not> n * n - 1 < k + 2"
      using k by simp
    ultimately show ?thesis
      unfolding es using False a1 a2 by (simp add: c x pairs_def)
  qed
qed

text \<open>The memory that the conversion leaves when the graph fits.\<close>

definition matrix_nodes :: "u32 list \<Rightarrow> nat \<Rightarrow> node list" where
  "matrix_nodes mat n = map (node_of mat n) [0..<n]"

definition matrix_memory :: "u32 list \<Rightarrow> nat \<Rightarrow> u32 list" where
  "matrix_memory mat n = graph_memory (of_nat n) (matrix_nodes mat n)
     (of_nat (length (matrix_edges mat n))) (matrix_edges mat n)"

lemma length_matrix_memory: "length (matrix_memory mat n) = 2 * n + 3 + 2 * length (matrix_edges mat n)"
  by (simp add: matrix_memory_def graph_memory_def matrix_nodes_def)

lemma convert_header:
  assumes m: "length mat = n * n" and d: "2 * n + 3 \<le> length dat"
  shows "convert_to_exd mat n dat = convert_edges mat n (List.product [0..<n] [0..<n]) (2 * n + 3)
     ((of_nat n # nodes_upto mat n n @ [0, of_nat (length (matrix_edges mat n))]) @ drop (2 * n + 3) dat)"
proof -
  let ?w = "of_nat n :: u32"
  let ?p = "?w # nodes_upto mat n n"
  have a0: "arr_set dat 0 ?w = Inr ([?w] @ drop 1 dat)"
    using d by (cases dat) (simp_all add: arr_set_def)
  have a1: "arr_set (?p @ drop (2 * n + 1) dat) (2 * n + 1) v = Inr ((?p @ [v]) @ drop (Suc (2 * n + 1)) dat)" for v
    by (rule arr_set_prefix) (use d in simp_all)
  have a2: "arr_set ((?p @ [v]) @ drop (Suc (2 * n + 1)) dat) (Suc (2 * n + 1)) v' =
      Inr (((?p @ [v]) @ [v']) @ drop (Suc (Suc (2 * n + 1))) dat)" for v v'
    by (rule arr_set_prefix) (use d in simp_all)
  have "2 * n + 1 \<le> length dat" using d by simp
  from a0 convert_nodes_result [OF m this, of ?w] a1 a2 show ?thesis
    by (simp add: convert_to_exd_def length_matrix_edges eval_nat_numeral)
qed

lemma convert_to_exd_result:
  assumes m: "length mat = n * n" and d: "n * n \<le> length dat"
    and fits: "length (matrix_memory mat n) < n * n"
  shows "convert_to_exd mat n dat = Inr (of_nat (length (matrix_memory mat n)),
     matrix_memory mat n @ drop (length (matrix_memory mat n)) dat)"
proof -
  let ?es = "matrix_edges mat n" and ?cells = "List.product [0..<n] [0..<n]"
  have len: "length (matrix_memory mat n) = 2 * n + 3 + 2 * length ?es"
    by (rule length_matrix_memory)
  have "convert_edges mat n ?cells (2 * n + 3)
      ((of_nat n # nodes_upto mat n n @ [0, of_nat (length ?es)]) @ drop (2 * n + 3) dat) =
    Inr (of_nat (2 * n + 3 + 2 * length (cell_edges mat n ?cells)),
      ((of_nat n # nodes_upto mat n n @ [0, of_nat (length ?es)]) @ pairs (cell_edges mat n ?cells)) @
        drop (2 * n + 3 + 2 * length (cell_edges mat n ?cells)) dat)"
    by (rule convert_edges_result [OF m _ _ d])
      (use fits in \<open>auto simp: cell_edges_all len\<close>)
  moreover have "2 * n + 3 \<le> length dat"
    using fits d len by simp
  ultimately show ?thesis
    unfolding len
    by (simp add: convert_header [OF m] cell_edges_all matrix_memory_def graph_memory_def matrix_nodes_def
        nodes_upto_def)
qed

text \<open>
  The test for the end of the memory comes after the cells are written. With more edges than fit, the function
  returns \<open>-1\<close> when the memory has a cell more than the matrix, and leaves a memory of the size of the
  matrix when that size is even.
\<close>

lemma convert_edges_overflow:
  assumes "length mat = n * n" and "set cells \<subseteq> {..<n} \<times> {..<n}" and "k < n * n"
    and "n * n \<le> k + 2 * length (cell_edges mat n cells)"
  shows "n * n < length dat \<Longrightarrow> \<exists>dat'. convert_edges mat n cells k dat = Inr (- 1, dat')"
    and "length dat = n * n \<Longrightarrow> even (n * n - 1 - k) \<Longrightarrow> convert_edges mat n cells k dat = Inl Out_of_bounds"
proof -
  have "(n * n < length dat \<longrightarrow> (\<exists>dat'. convert_edges mat n cells k dat = Inr (- 1, dat'))) \<and>
    (length dat = n * n \<longrightarrow> even (n * n - 1 - k) \<longrightarrow> convert_edges mat n cells k dat = Inl Out_of_bounds)"
    using assms
  proof (induction cells arbitrary: k dat)
    case Nil
    then show ?case by (simp add: cell_edges_def)
  next
    case (Cons c cells)
    obtain i j where c: "c = (i, j)" by (cases c)
    let ?x = "mat ! (i * n + j)"
    have x: "arr_get mat (i * n + j) = Inr ?x"
      using Cons.prems(1,2) index_in_matrix by (auto simp: c)
    show ?case
    proof (cases "?x = 0")
      case True
      then have "cell_edges mat n (c # cells) = cell_edges mat n cells"
        by (simp add: cell_edges_def c)
      then show ?thesis
        using Cons.IH [OF Cons.prems(1) _ Cons.prems(3)] Cons.prems(2,4) True by (simp add: c x)
    next
      case False
      then have es: "length (cell_edges mat n (c # cells)) = Suc (length (cell_edges mat n cells))"
        by (simp add: cell_edges_def c)
      show ?thesis
      proof (cases "k + 2 < n * n")
        case True
        then have "\<not> n * n - 1 < k + 2" by simp
        moreover have "even (n * n - 1 - k) \<longleftrightarrow> even (n * n - 1 - (k + 2))"
          using True by (simp add: even_diff_nat)
        ultimately show ?thesis
          using Cons.IH [OF Cons.prems(1) _ True] Cons.prems(2,4) True False Cons.prems(3)
          by (simp add: c x es [unfolded c])
      next
        case stop: False
        then have lim: "n * n - 1 < k + 2"
          using Cons.prems(3) by auto
        have last: "Suc k = n * n" if "even (n * n - 1 - k)"
        proof (rule ccontr)
          assume "Suc k \<noteq> n * n"
          then have "n * n - 1 - k = 1" using stop Cons.prems(3) by linarith
          then show False using that by simp
        qed
        show ?thesis
        proof (intro conjI impI)
          assume "n * n < length dat"
          then have "k < length dat" "k + 1 < length dat"
            using Cons.prems(3) by linarith+
          then show "\<exists>dat'. convert_edges mat n (c # cells) k dat = Inr (- 1, dat')"
            using False lim by (simp add: c x)
        next
          assume len: "length dat = n * n" and ev: "even (n * n - 1 - k)"
          have "k < length dat" "\<not> Suc k < length dat"
            using last [OF ev] Cons.prems(3) unfolding len by linarith+
          then have "arr_set dat k v = Inr (dat[k := v])" "arr_set (dat[k := v]) (k + 1) v' = Inl Out_of_bounds"
            for v v' by (simp_all add: arr_set_def)
          then show "convert_edges mat n (c # cells) k dat = Inl Out_of_bounds"
            using False by (simp add: c x del: arr_set_ok)
        qed
      qed
    qed
  qed
  then show "n * n < length dat \<Longrightarrow> \<exists>dat'. convert_edges mat n cells k dat = Inr (- 1, dat')"
    and "length dat = n * n \<Longrightarrow> even (n * n - 1 - k) \<Longrightarrow> convert_edges mat n cells k dat = Inl Out_of_bounds"
    by blast+
qed

section \<open>The graph of the matrix\<close>

definition matrix_arcs :: "u32 list \<Rightarrow> nat \<Rightarrow> (nat \<times> nat) set" where
  "matrix_arcs mat n = {(i, j). i < n \<and> j < n \<and> mat ! (i * n + j) \<noteq> 0}"

lemma row_start_mono: "i \<le> j \<Longrightarrow> row_start mat n i \<le> row_start mat n j"
  unfolding row_start_def by (rule sum_mono2) auto

lemma row_bound: "i < n \<Longrightarrow> row_start mat n i + length (row mat n i) \<le> length (matrix_edges mat n)"
  using row_start_mono [of "Suc i" n mat n] by (simp add: length_matrix_edges row_start_def)

lemma matrix_edge_nth:
  assumes "i < n" and "t < length (row mat n i)"
  shows "map fst (matrix_edges mat n) ! (row_start mat n i + t) = fst (row mat n i ! t)"
  using concat_rows_nth [OF assms(1), of t "row mat n"] assms row_bound [of i n mat]
  by (simp add: matrix_edges_def [symmetric] row_start_def)

lemma row_nth:
  assumes "t < length (row mat n i)"
  shows "\<exists>j<n. mat ! (i * n + j) \<noteq> 0 \<and> fst (row mat n i ! t) = of_nat j"
proof -
  let ?js = "filter (\<lambda>j. mat ! (i * n + j) \<noteq> 0) [0..<n]"
  have "t < length ?js" using assms by (simp add: row_def)
  then have "?js ! t \<in> set ?js" by (rule nth_mem)
  then show ?thesis
    using \<open>t < length ?js\<close> by (auto simp: row_def)
qed

lemma row_mem:
  assumes "j < n" and "mat ! (i * n + j) \<noteq> 0"
  shows "\<exists>t<length (row mat n i). fst (row mat n i ! t) = of_nat j"
proof -
  let ?js = "filter (\<lambda>j. mat ! (i * n + j) \<noteq> 0) [0..<n]"
  have "j \<in> set ?js" using assms by simp
  then obtain t where "t < length ?js" "?js ! t = j"
    by (auto simp only: in_set_conv_nth)
  then show ?thesis by (intro exI [of _ t]) (simp add: row_def)
qed

definition matrix_small :: "u32 list \<Rightarrow> nat \<Rightarrow> bool" where
  "matrix_small mat n \<longleftrightarrow> 0 < n \<and> n < 32768 \<and> length (matrix_edges mat n) < 2147483648"

lemma matrix_smallD:
  "matrix_small mat n \<Longrightarrow> 0 < n" "matrix_small mat n \<Longrightarrow> n < 32768"
  "matrix_small mat n \<Longrightarrow> length (matrix_edges mat n) < 2147483648"
  by (simp_all add: matrix_small_def)

lemma matrix_edge_range:
  assumes small: "matrix_small mat n" and i: "i < n"
  shows "set (edge_range (matrix_nodes mat n ! i)) =
     (\<lambda>t. int (row_start mat n i + t)) ` {..<length (row mat n i)}"
proof -
  let ?s = "row_start mat n i" and ?l = "length (row mat n i)"
  have nd: "matrix_nodes mat n ! i = node_of mat n i"
    using i by (simp add: matrix_nodes_def)
  have "?s + ?l < 2147483648"
    using row_bound [OF i, of mat] matrix_smallD(3) [OF small] by simp
  then have "sint (of_nat ?s :: u32) = int ?s" "sint (of_nat ?l + of_nat ?s :: u32) = int (?s + ?l)"
    using sint_of_nat_small [of ?s] sint_of_nat_small [of "?l + ?s"] by simp_all
  then have "set (edge_range (matrix_nodes mat n ! i)) = {int ?s..int (?s + ?l) - 1}"
    by (simp add: nd node_of_def edge_range_def)
  also have "\<dots> = (\<lambda>t. int (?s + t)) ` {..<?l}"
  proof (intro set_eqI iffI)
    fix x assume x: "x \<in> {int ?s..int (?s + ?l) - 1}"
    then have "nat x - ?s < ?l" "x = int (?s + (nat x - ?s))"
      by auto
    then show "x \<in> (\<lambda>t. int (?s + t)) ` {..<?l}"
      by blast
  qed auto
  finally show ?thesis .
qed

lemma matrix_succs:
  assumes small: "matrix_small mat n" and i: "i < n"
  shows "succs (matrix_nodes mat n) (map fst (matrix_edges mat n)) i = {j. j < n \<and> mat ! (i * n + j) \<noteq> 0}"
    (is "?S = ?J")
proof -
  let ?t = "\<lambda>t. nat (sint (fst (row mat n i ! t)))"
  have small_j: "nat (sint (of_nat j :: u32)) = j" if "j < n" for j
    using sint_of_nat_small [of j] that matrix_smallD(2) [OF small] by simp
  have "target (map fst (matrix_edges mat n)) (int (row_start mat n i + t)) = ?t t"
    if "t < length (row mat n i)" for t
    using matrix_edge_nth [OF i that] by (simp add: target_def nat_int_add)
  then have S: "?S = ?t ` {..<length (row mat n i)}"
    unfolding succs_def matrix_edge_range [OF small i] image_image
    by (intro image_cong) simp_all
  show ?thesis
  proof (rule subset_antisym)
    show "?S \<subseteq> ?J"
    proof
      fix j assume "j \<in> ?S"
      then obtain t where "t < length (row mat n i)" "j = ?t t"
        unfolding S by blast
      then show "j \<in> ?J"
        using row_nth [of t mat n i] small_j by auto
    qed
    show "?J \<subseteq> ?S"
    proof
      fix j assume "j \<in> ?J"
      then obtain t where "t < length (row mat n i)" "fst (row mat n i ! t) = of_nat j" "j < n"
        using row_mem [of j n mat i] by blast
      then have "j = ?t t" "t \<in> {..<length (row mat n i)}"
        using small_j [of j] by simp_all
      then show "j \<in> ?S"
        unfolding S by (rule image_eqI)
    qed
  qed
qed

lemma matrix_graph_ok:
  assumes small: "matrix_small mat n"
  shows "graph_ok n (matrix_nodes mat n) (map fst (matrix_edges mat n))"
proof -
  have "0 \<le> x \<and> nat x < length (map fst (matrix_edges mat n)) \<and>
      0 \<le> sint (map fst (matrix_edges mat n) ! nat x) \<and> nat (sint (map fst (matrix_edges mat n) ! nat x)) < n"
    if i: "i < n" and x: "x \<in> set (edge_range (matrix_nodes mat n ! i))" for i x
  proof -
    obtain t where t: "t < length (row mat n i)" "x = int (row_start mat n i + t)"
      using x matrix_edge_range [OF small i] by auto
    obtain j where j: "j < n" "fst (row mat n i ! t) = of_nat j"
      using row_nth [OF t(1)] by blast
    have "row_start mat n i + t < length (matrix_edges mat n)"
      using row_bound [OF i, of mat] t(1) by simp
    moreover have "sint (of_nat j :: u32) = int j"
      using sint_of_nat_small [of j] j(1) matrix_smallD(2) [OF small] by simp
    ultimately show ?thesis
      using matrix_edge_nth [OF i t(1)] t(2) j by (simp add: nat_int_add)
  qed
  then show ?thesis
    using matrix_smallD(1) [OF small] by (simp add: graph_ok_def matrix_nodes_def del: nth_map)
qed

lemma matrix_graph_arcs:
  "matrix_small mat n \<Longrightarrow> arcs n (matrix_nodes mat n) (map fst (matrix_edges mat n)) = matrix_arcs mat n"
  using matrix_succs by (auto simp: arcs_def matrix_arcs_def)

end
