(* ===== verification/QH_Bfs_Results.thy ===== *)
theory QH_Bfs_Results
  imports QH_Bfs_Convert
begin

text \<open>
  The properties of the breadth-first search: what the client writes for the service, what the service answers,
  and that both programs agree.
\<close>

section \<open>The search of the client\<close>

text \<open>The arrays of the client are longer than the graph.\<close>

lemma graph_prefix:
  assumes g: "graph_ok n nds edg" and nd: "n \<le> length nds'" "\<And>v. v < n \<Longrightarrow> nds' ! v = nds ! v"
    and ed: "length edg \<le> length edg'" "\<And>i. i < length edg \<Longrightarrow> edg' ! i = edg ! i"
  shows "graph_ok n nds' edg'" and "arcs n nds' edg' = arcs n nds edg"
proof -
  have e: "0 \<le> i" "nat i < length edg" "edg' ! nat i = edg ! nat i"
    if "v < n" "i \<in> set (edge_range (nds ! v))" for v i
    using graph_edge [OF g that] ed(2) by simp_all
  show "graph_ok n nds' edg'"
    using g nd ed(1) e unfolding graph_ok_def by (metis less_le_trans)
  have "succs nds' edg' v = succs nds edg v" if "v < n" for v
    using e [OF that] nd(2) [OF that] by (simp add: succs_def target_def cong: image_cong)
  then show "arcs n nds' edg' = arcs n nds edg"
    by (auto simp: arcs_def)
qed

lemma module_search_result:
  assumes dat: "dat = graph_memory (of_nat n) nds (of_nat (length ews)) ews @ rest"
    and n: "0 < n" "n < 32768" "length nds = n" and m: "length ews < 2147483648"
    and g: "graph_ok n nds (map fst ews)"
    and len: "n \<le> length nds0" "n \<le> length m0" "n \<le> length u0" "n \<le> length v0"
      "length ews \<le> length edg0" "n \<le> length cost0"
  shows "\<exists>m u v cost. module_search dat (of_nat n) (nds0, m0, u0, v0) edg0 cost0 = Some (Inr (m, u, v, cost)) \<and>
     n \<le> length cost \<and> bfs_costs (arcs n nds (map fst ews)) n cost"
proof -
  let ?E = "arcs n nds (map fst ews)"
  have N: "unat (of_nat n :: u32) = n" "sint (of_nat n :: u32) = int n"
    "unat (of_nat (length ews) :: u32) = length ews"
    using n m by (simp_all add: unat_of_nat_small sint_of_nat_small)
  obtain nd m u v where nodes: "load_nodes False dat n (nds0, m0, u0, v0) = Inr (2 * n + 1, nd, m, u, v)"
    and p: "length nd = length nds0" "length m = length m0" "length u = length u0" "length v = length v0"
      "\<And>j. j < n \<Longrightarrow> nd ! j = nds ! j" "\<And>j. j < n \<Longrightarrow> \<not> m ! j" "\<And>j. j < n \<Longrightarrow> \<not> u ! j" "\<And>j. j < n \<Longrightarrow> \<not> v ! j"
    using load_nodes_result [OF dat n(3) [symmetric] len(1-4), of False] by auto
  obtain di ed where edges: "read_edges dat (length ews) (2 * n + 3) edg0 = Inr (di, ed)"
    and q: "length ed = length edg0" "\<And>j. j < length ews \<Longrightarrow> ed ! j = fst (ews ! j)"
    using read_edges_result [OF dat len(5)] n(3) by auto
  obtain c where costs: "init_costs n cost0 = Inr c" "length c = length cost0" "\<And>j. j < n \<Longrightarrow> c ! j = - 1"
    using init_costs_result [OF len(6)] by auto
  have get: "arr_get dat (2 * n + 1) = Inr 0" "arr_get dat (2 * n + 2) = Inr (of_nat (length ews))"
    using graph_memory_nth(3,4,6) [OF dat] n(3) by (simp_all add: arr_get_def)
  have g': "graph_ok n nd ed" "arcs n nd ed = ?E"
    using graph_prefix [OF g, of nd ed] p(1,5) q len by simp_all
  let ?st = "(m[0 := True], u, v[0 := True], c[0 := 0])"
  have first: "xs[0 := x] ! j = (if j = 0 then x else xs ! j)" if "n \<le> length xs" for xs :: "'x list" and x j
    using that n(1) by (cases xs) (auto simp: nth_Cons')
  have l: "n \<le> length m" "n \<le> length u" "n \<le> length v" "n \<le> length c"
    using p len costs(2) by simp_all
  have "m[0 := True] ! j = (j = 0)" "v[0 := True] ! j = (j = 0)" "c[0 := 0] ! j = (if j = 0 then 0 else - 1)"
    if "j < n" for j
    using that p(6,8) costs(3) by (simp_all add: first l)
  then have "bfs_inv (arcs n nd ed) n 0 ?st"
    using p(7) l costs(3) by (simp add: bfs_inv_def)
  then obtain m' u' v' cost where r: "run_bfs_cpu (of_nat n) nd ed ?st = Some (Inr (m', u', v', cost))"
    "lens (m', u', v', cost) = lens ?st" "bfs_costs ?E n cost"
    using run_bfs_cpu_result [of "of_nat n" nd ed ?st] g' N(2) by auto
  have "m \<noteq> []" "v \<noteq> []" "c \<noteq> []"
    using l n(1) by auto
  then have sets: "arr_set m 0 True = Inr (m[0 := True])" "arr_set v 0 True = Inr (v[0 := True])"
    "arr_set c 0 0 = Inr (c[0 := 0])"
    by simp_all
  have i: "2 * n + 1 + 1 = 2 * n + 2" "2 * n + 1 + 2 = 2 * n + 3" by simp_all
  have "module_search dat (of_nat n) (nds0, m0, u0, v0) edg0 cost0 = Some (Inr (m', u', v', cost))"
    by (simp only: module_search_def module_nodes_def N nodes edges costs(1) get r(1) sets i bindO_simps prod.case)
  then show ?thesis
    using r(2,3) costs(2) len(6) by (auto simp: lens_def)
qed

lemma compare_results_result:
  assumes "n \<le> length g" and "n \<le> length c"
  shows "compare_results g c n = Inr (take n g = take n c)"
proof -
  have "\<exists>b. compare_results g c n = Inr b \<and> (b \<longleftrightarrow> (\<forall>j<n. c ! j = g ! j))"
    unfolding compare_results_def
    by (rule for_range_invariant [where Inv = "\<lambda>i b. b \<longleftrightarrow> (\<forall>j<i. c ! j = g ! j)"])
      (use assms in \<open>auto simp: less_Suc_eq\<close>)
  moreover have "(\<forall>j<n. c ! j = g ! j) \<longleftrightarrow> take n g = take n c"
    using assms by (auto simp: list_eq_iff_nth_eq)
  ultimately show ?thesis by simp
qed

section \<open>Starting the service\<close>

lemma clInit_result:
  assumes "good_platform (plat st)" and "pl_file (plat st) ''bfs_kernels.cl''" and "length (oc_kernels st) = 2"
  shows "\<exists>st'. clInit True st = Inr st' \<and> ready st' \<and> buffers st' = buffers st \<and> next_buf st' = next_buf st"
proof -
  obtain a b where "oc_kernels st = [a, b]"
    using assms(3) by (auto simp: length_Suc_conv numeral_eq_Suc)
  then show ?thesis
    using assms(1,2) good_platformD [OF assms(1)]
    by (simp add: clInit_def clInit_kernels_def api_def Let_def upt_rec numeral_eq_Suc ready_def arr_set_def)
qed

section \<open>Properties\<close>

lemma matrix_memory_small:
  assumes "0 < n" and "n \<le> 1024" and "length (matrix_memory mat n) < n * n"
  shows "matrix_small mat n" "length (matrix_edges mat n) < 524288"
proof -
  have "n * n \<le> 1024 * 1024"
    using assms(2) by (intro mult_le_mono)
  then show "length (matrix_edges mat n) < 524288"
    using assms(3) length_matrix_memory [of mat n] by simp
  then show "matrix_small mat n"
    using assms(1,2) by (simp add: matrix_small_def)
qed

lemma matrix_launch:
  assumes mat: "length mat = n * n" and n: "0 < n" "n \<le> 1024" and fits: "length (matrix_memory mat n) < n * n"
    and dat: "dat = matrix_memory mat n @ rest" and st: "ready st"
  shows "\<exists>cost st'. length cost = n \<and> bfs_costs (matrix_arcs mat n) n cost \<and>
     bfs_launch dat mmap_size st = (if n < mmap_size then Some (Inl Out_of_bounds)
       else Some (Inr (0, take mmap_size cost @ drop mmap_size dat, st')))"
proof -
  note small = matrix_memory_small [OF n fits]
  have "sint (of_nat n :: u32) = int n" "sint (of_nat (length (matrix_edges mat n)) :: u32) = int (length (matrix_edges mat n))"
    using n(2) small(2) by (simp_all add: sint_of_nat_small)
  then show ?thesis
    using bfs_launch_result [OF st, of "of_nat n" "of_nat (length (matrix_edges mat n))" "matrix_nodes mat n"
        "matrix_edges mat n" dat rest mmap_size] n small matrix_graph_ok [OF small(1)] matrix_graph_arcs [OF small(1)]
      dat [unfolded matrix_memory_def]
    by (force simp: matrix_nodes_def)
qed

lemma bfs_both_agree:
  assumes "length mat = n * n" and "0 < n" and "n \<le> 1024" and "length (matrix_memory mat n) < n * n"
    and "n * n \<le> length dat" and "ready st"
    and "n \<le> length nds0" and "n \<le> length m0" and "n \<le> length u0" and "n \<le> length v0"
    and "length (matrix_edges mat n) \<le> length edg0" and "n \<le> length cost0"
  shows "\<exists>dat' m u v ref out st'. convert_to_exd mat n dat = Inr (of_nat (length (matrix_memory mat n)), dat') \<and>
     module_search dat' (of_nat n) (nds0, m0, u0, v0) edg0 cost0 = Some (Inr (m, u, v, ref)) \<and>
     bfs_launch dat' n st = Some (Inr (0, out, st')) \<and> compare_results out ref n = Inr True \<and>
     bfs_costs (matrix_arcs mat n) n out"
proof -
  note small = matrix_memory_small [OF assms(2,3,4)]
  let ?dat = "matrix_memory mat n @ drop (length (matrix_memory mat n)) dat"
  have c: "convert_to_exd mat n dat = Inr (of_nat (length (matrix_memory mat n)), ?dat)"
    using assms by (intro convert_to_exd_result)
  obtain cost st' where l: "length cost = n" "bfs_costs (matrix_arcs mat n) n cost"
    "bfs_launch ?dat n st = Some (Inr (0, take n cost @ drop n ?dat, st'))"
    using matrix_launch [OF assms(1-4) refl assms(6), of "drop (length (matrix_memory mat n)) dat" n]
    by (simp only: less_irrefl if_False) blast
  obtain m u v ref where s: "module_search ?dat (of_nat n) (nds0, m0, u0, v0) edg0 cost0 = Some (Inr (m, u, v, ref))"
    "n \<le> length ref" "bfs_costs (matrix_arcs mat n) n ref"
    using module_search_result [of ?dat n "matrix_nodes mat n" "matrix_edges mat n"
        "drop (length (matrix_memory mat n)) dat" nds0 m0 u0 v0 edg0 cost0] assms small
      matrix_graph_ok [OF small(1)] matrix_graph_arcs [OF small(1)]
    by (auto simp: matrix_memory_def matrix_nodes_def)
  let ?out = "take n cost @ drop n ?dat"
  have "take n ?out = take n ref"
    using bfs_costs_unique [OF l(2) s(3)] l(1) s(2) by simp
  then have "compare_results ?out ref n = Inr True"
    using s(2) l(1) compare_results_result [of n ?out ref] by simp
  moreover have "bfs_costs (matrix_arcs mat n) n ?out"
    using l(1,2) by (simp add: bfs_costs_def nth_append)
  ultimately show ?thesis
    using c s(1) l(3) by blast
qed



text \<open>The client submits the size that the conversion returns, which is more than the number of nodes: the last
  \<open>memcpy\<close> of the service then reads past the end of the costs, whatever the matrix.\<close>

theorem bfs_request_size_overreads:
  assumes "length mat = n * n" and "0 < n" and "n \<le> 1024" and "length (matrix_memory mat n) < n * n"
    and "n * n \<le> length dat" and "ready st"
  shows "\<exists>sz dat'. convert_to_exd mat n dat = Inr (sz, dat') \<and> bfs_launch dat' (unat sz) st = Some (Inl Out_of_bounds)"
proof -
  let ?dat = "matrix_memory mat n @ drop (length (matrix_memory mat n)) dat"
  have "length (matrix_memory mat n) < 2 ^ 32"
    using matrix_memory_small(2) [OF assms(2,3,4)] assms(3) by (simp add: length_matrix_memory)
  then have sz: "unat (of_nat (length (matrix_memory mat n)) :: u32) = length (matrix_memory mat n)"
    by (simp add: unat_of_nat_small)
  have "n < length (matrix_memory mat n)"
    by (simp add: length_matrix_memory)
  then have "bfs_launch ?dat (unat (of_nat (length (matrix_memory mat n)) :: u32)) st = Some (Inl Out_of_bounds)"
    unfolding sz using matrix_launch [OF assms(1-4) refl assms(6), of "drop (length (matrix_memory mat n)) dat"
        "length (matrix_memory mat n)"] by (simp only: if_True) blast
  moreover have "convert_to_exd mat n dat = Inr (of_nat (length (matrix_memory mat n)), ?dat)"
    using assms by (intro convert_to_exd_result)
  ultimately show ?thesis by blast
qed


text \<open>When the graph does not fit, the conversion returns \<open>-1\<close> only if the memory has a cell more than the
  matrix has: with an even number of nodes it writes one cell past a memory of the size of the matrix.\<close>

theorem convert_to_exd_overflow:
  assumes "length mat = n * n" and "4 \<le> n" and "n * n \<le> length (matrix_memory mat n)"
  shows "(n * n < length dat \<longrightarrow> (\<exists>dat'. convert_to_exd mat n dat = Inr (- 1, dat'))) \<and>
     (length dat = n * n \<and> even n \<longrightarrow> convert_to_exd mat n dat = Inl Out_of_bounds)"
proof -
  have n4: "4 * n \<le> n * n" using assms(2) by simp
  then have k: "2 * n + 3 < n * n" using assms(2) by linarith
  have cells: "set (List.product [0..<n] [0..<n]) \<subseteq> {..<n} \<times> {..<n}" by auto
  have es: "n * n \<le> 2 * n + 3 + 2 * length (cell_edges mat n (List.product [0..<n] [0..<n]))"
    using assms(3) by (simp add: cell_edges_all length_matrix_memory)
  let ?d = "(of_nat n # nodes_upto mat n n @ [0, of_nat (length (matrix_edges mat n))]) @ drop (2 * n + 3) dat"
  have len: "length ?d = length dat" if "n * n \<le> length dat"
    using that k by simp
  have ev: "even (n * n - 1 - (2 * n + 3))" if "even n"
    using that k by simp
  show ?thesis
    using convert_header [OF assms(1), of dat] convert_edges_overflow [OF assms(1) cells k es, of ?d] len ev k
    by (auto simp del: append_Cons append_assoc)
qed

section \<open>Concrete runs\<close>

definition example_handles :: handles where
  "example_handles = \<lparr>plat = example_platform backward_gpu, calls = 0, buffers = (\<lambda>_. None), next_buf = 0,
     args = (\<lambda>_ _. None), queue = True, oc_context = True, oc_program = True, oc_kernels = [True, True],
     oc_status = True, work_group_size = 512\<rparr>"

lemma example_ready: "ready example_handles"
  by (simp add: ready_def example_handles_def)

text \<open>Nodes 0, 1 and 2 in a row, and two nodes on their own.\<close>

definition example_matrix :: "u32 list" where
  "example_matrix = [0, 3, 0, 0, 0, 3, 0, 4, 0, 0, 0, 4, 0, 0, 0, 0, 0, 0, 0, 0, 0, 0, 0, 0, 0]"

lemma example_matrix_edges: "matrix_edges example_matrix 5 = [(1, 3), (0, 3), (2, 4), (1, 4)]"
  by (simp add: matrix_edges_def row_def example_matrix_def upt_rec)

lemma example_matrix: "length example_matrix = 25" "length (matrix_edges example_matrix 5) = 4"
    "length (matrix_memory example_matrix 5) = 21"
  by (simp_all add: length_matrix_memory example_matrix_edges) (simp add: example_matrix_def)


text \<open>The same graph as a request, with four answers asked for.\<close>

definition example_nodes :: "node list" where
  "example_nodes = [\<lparr>starting = 0, no_of_edges = 1\<rparr>, \<lparr>starting = 1, no_of_edges = 2\<rparr>,
     \<lparr>starting = 3, no_of_edges = 0\<rparr>, \<lparr>starting = 3, no_of_edges = 0\<rparr>]"

definition example_edges :: "(u32 \<times> u32) list" where
  "example_edges = [(1, 3), (0, 3), (2, 4)]"

lemma example_ranges:
  "edge_range (example_nodes ! 0) = [0]" "edge_range (example_nodes ! 1) = [1, 2]"
  "edge_range (example_nodes ! 2) = []" "edge_range (example_nodes ! 3) = []"
  by (simp_all add: edge_range_def example_nodes_def upto.simps)

lemma example_graph: "graph_ok 4 example_nodes (map fst example_edges)"
proof -
  have "edge_range (example_nodes ! v) = [] \<or> edge_range (example_nodes ! v) = [0] \<or>
      edge_range (example_nodes ! v) = [1, 2]" if "v < 4" for v
  proof -
    have "v = 0 \<or> v = 1 \<or> v = 2 \<or> v = 3" using that by linarith
    then show ?thesis using example_ranges by metis
  qed
  then show ?thesis
    by (fastforce simp: graph_ok_def example_nodes_def example_edges_def)
qed


theorem bfs_request_size_overreads_witness:
  "\<exists>sz dat'. convert_to_exd example_matrix 5 (replicate 25 9) = Inr (sz, dat') \<and>
     bfs_launch dat' (unat sz) example_handles = Some (Inl Out_of_bounds)"
  by (rule bfs_request_size_overreads) (simp_all add: example_matrix example_ready)


lemma full_matrix: "16 \<le> length (matrix_memory (replicate 16 1) 4)"
  by (simp add: length_matrix_memory matrix_edges_def row_def upt_rec)

theorem convert_to_exd_overflow_witness:
  "(\<exists>dat'. convert_to_exd (replicate 16 1) 4 (replicate 17 0) = Inr (- 1, dat')) \<and>
     convert_to_exd (replicate 16 1) 4 (replicate 16 0) = Inl Out_of_bounds"
  using convert_to_exd_overflow [of "replicate 16 1" 4 "replicate 17 0"]
    convert_to_exd_overflow [of "replicate 16 1" 4 "replicate 16 0"] full_matrix
  by simp

end
