(* ===== verification/QH_Floyd.thy ===== *)
theory QH_Floyd
  imports QH_Gpu
begin

text \<open>
  All-pairs shortest paths: the kernel of \<open>src/kernel/FloydWarshall_Kernels.cl\<close>, which runs one pass over the
  matrix in place, the program for the CPU and the random matrix of
  \<open>src/test_module/floyd_warshall/floyd_warshall_module.c\<close>. The items of a pass read cells that other items of
  the pass may write; with zeros on the diagonal these cells keep their values, so that a pass has one result
  in whatever order its items run. The passes themselves may come in any order.
\<close>

section \<open>The programs\<close>

text \<open>The index of a cell in the \<open>int\<close> arithmetic of the kernel.\<close>

definition cell :: "u32 \<Rightarrow> nat \<Rightarrow> nat \<Rightarrow> int" where
  "cell MAT_SIZE i j = sint (of_nat i * MAT_SIZE + of_nat j)"

definition cell_get :: "u32 list \<Rightarrow> int \<Rightarrow> u32 res" where
  "cell_get m c = bindR (idx c) (arr_get m)"

text \<open>\<open>tempWeight\<close> is an \<open>int\<close> and is compared as an \<open>unsigned int\<close>: the word stays the same.\<close>

definition floydWarshallPass :: "u32 \<Rightarrow> u32 \<Rightarrow> nat \<Rightarrow> nat \<Rightarrow> u32 list \<Rightarrow> u32 list res" where
  "floydWarshallPass MAT_SIZE k j i adj_mat =
     bindR (cell_get adj_mat (cell MAT_SIZE i (unat k))) (\<lambda>a.
     bindR (cell_get adj_mat (cell MAT_SIZE (unat k) j)) (\<lambda>b.
     let tempWeight = a + b in
     bindR (cell_get adj_mat (cell MAT_SIZE i j)) (\<lambda>c.
     if tempWeight < c then bindR (idx (cell MAT_SIZE i j)) (\<lambda>p. arr_set adj_mat p tempWeight)
     else Inr adj_mat)))"

text \<open>The program for the CPU; the indices are natural numbers, the matrix has fewer than \<open>2 ^ 32\<close> cells.\<close>

definition cpu_relax :: "nat \<Rightarrow> nat \<Rightarrow> nat \<Rightarrow> nat \<Rightarrow> u32 list \<Rightarrow> u32 list res" where
  "cpu_relax MAT_SIZE k i j adj_mat =
     bindR (arr_get adj_mat (i * MAT_SIZE + j)) (\<lambda>c.
     bindR (arr_get adj_mat (i * MAT_SIZE + k)) (\<lambda>a.
     bindR (arr_get adj_mat (k * MAT_SIZE + j)) (\<lambda>b.
     if a + b < c then arr_set adj_mat (i * MAT_SIZE + j) (a + b) else Inr adj_mat)))"

definition kfloyd_warshall_cpu :: "u32 list \<Rightarrow> nat \<Rightarrow> u32 list res" where
  "kfloyd_warshall_cpu adj_mat MAT_SIZE =
     for_each [0..<MAT_SIZE] (\<lambda>k. for_each [0..<MAT_SIZE] (\<lambda>i. for_each [0..<MAT_SIZE] (\<lambda>j.
       cpu_relax MAT_SIZE k i j))) adj_mat"

text \<open>\<open>rnd k\<close> is what the call number \<open>k\<close> of \<open>get_random_bytes\<close> gives; \<open>__INT_MAX\<close> means no edge.\<close>

definition INT_MAX :: u32 where "INT_MAX = 9999999"

definition kgenerate_weights :: "(nat \<Rightarrow> u32) \<Rightarrow> nat \<Rightarrow> u32 \<Rightarrow> u32 list \<Rightarrow> u32 list res" where
  "kgenerate_weights rnd mat_size rate mat = map_res snd (
     for_each [0..<mat_size] (\<lambda>i (k, mat).
       bindR (arr_set mat (i * mat_size + i) 0) (\<lambda>mat.
       for_each [i + 1..<mat_size] (\<lambda>j (k, mat).
         let temp = rnd k mod 10000 + 1; temp = (if rate * 100 < temp then INT_MAX else temp) in
         bindR (arr_set mat (i * mat_size + j) temp) (\<lambda>mat.
         bindR (arr_set mat (j * mat_size + i) temp) (\<lambda>mat. Inr (Suc k, mat)))) (k, mat))) (0, mat))"

section \<open>Shortest walks\<close>

text \<open>The weight of the walk from \<open>i\<close> through the list \<open>vs\<close> to \<open>j\<close>.\<close>

fun walk_weight :: "(nat \<Rightarrow> nat \<Rightarrow> nat) \<Rightarrow> nat \<Rightarrow> nat list \<Rightarrow> nat \<Rightarrow> nat" where
  "walk_weight w i [] j = w i j"
| "walk_weight w i (v # vs) j = w i v + walk_weight w v vs j"

text \<open>\<open>d\<close> is the least weight of a walk from \<open>i\<close> to \<open>j\<close> whose inner nodes are in \<open>S\<close>.\<close>

definition least_walk :: "(nat \<Rightarrow> nat \<Rightarrow> nat) \<Rightarrow> nat set \<Rightarrow> nat \<Rightarrow> nat \<Rightarrow> nat \<Rightarrow> bool" where
  "least_walk w S i j d \<longleftrightarrow>
     (\<exists>vs. set vs \<subseteq> S \<and> walk_weight w i vs j = d) \<and> (\<forall>vs. set vs \<subseteq> S \<longrightarrow> d \<le> walk_weight w i vs j)"

lemma walk_weight_append:
  "walk_weight w i (us @ v # vs) j = walk_weight w i us v + walk_weight w v vs j"
  by (induction us arbitrary: i) simp_all

lemma least_walk_empty: "least_walk w {} i j (w i j)"
  by (auto simp: least_walk_def)

lemma least_walk_le: "least_walk w S i j d \<Longrightarrow> set vs \<subseteq> S \<Longrightarrow> d \<le> walk_weight w i vs j"
  by (simp add: least_walk_def)

lemma least_walk_le_edge: "least_walk w S i j d \<Longrightarrow> d \<le> w i j"
  using least_walk_le [of w S i j d "[]"] by simp

lemma least_walkE:
  assumes "least_walk w S i j d"
  obtains vs where "set vs \<subseteq> S" "walk_weight w i vs j = d"
  using assms by (auto simp: least_walk_def)

lemma least_walk_unique:
  assumes "least_walk w S i j d" "least_walk w S i j e"
  shows "d = e"
proof (rule antisym)
  show "d \<le> e" by (rule least_walkE [OF assms(2)]) (use least_walk_le [OF assms(1)] in blast)
  show "e \<le> d" by (rule least_walkE [OF assms(1)]) (use least_walk_le [OF assms(2)] in blast)
qed

lemma least_walk_trans:
  assumes "least_walk w S i v a" "least_walk w S v j b" "least_walk w S i j c" "v \<in> S"
  shows "c \<le> a + b"
proof -
  obtain us vs where "set us \<subseteq> S" "walk_weight w i us v = a" "set vs \<subseteq> S" "walk_weight w v vs j = b"
    using assms(1,2) by (auto simp: least_walk_def)
  moreover have "c \<le> walk_weight w i (us @ v # vs) j"
    using assms(3,4) calculation by (simp add: least_walk_def)
  ultimately show ?thesis by (simp add: walk_weight_append)
qed

text \<open>One pass lets the walks go through one more node.\<close>

lemma least_walk_insert:
  assumes D: "\<And>i j. i \<in> V \<Longrightarrow> j \<in> V \<Longrightarrow> least_walk w S i j (D i j)"
    and V: "insert k S \<subseteq> V" and ij: "i \<in> V" "j \<in> V"
  shows "least_walk w (insert k S) i j (min (D i j) (D i k + D k j))"
proof -
  have kV: "k \<in> V" using V by simp
  have lower: "min (D i j) (D i k + D k j) \<le> walk_weight w i vs j" if "set vs \<subseteq> insert k S" "i \<in> V" for vs i
    using that
  proof (induction vs arbitrary: i)
    case Nil
    then show ?case using least_walk_le_edge [OF D [OF Nil(2) ij(2)]] by simp
  next
    case (Cons v vs)
    have v: "v \<in> V" using Cons.prems(1) V by auto
    then have w: "D i v \<le> w i v"
      using least_walk_le_edge D Cons.prems(2) by blast
    have IH: "min (D v j) (D v k + D k j) \<le> walk_weight w v vs j"
      by (rule Cons.IH) (use Cons.prems(1) v in simp_all)
    show ?case
    proof (cases "v = k")
      case True
      then show ?thesis using IH w by simp
    next
      case False
      then have "v \<in> S" using Cons.prems(1) by simp
      have "D i j \<le> D i v + D v j"
        by (rule least_walk_trans [OF D D D \<open>v \<in> S\<close>]) (fact Cons.prems(2) v ij(2))+
      moreover have "D i k \<le> D i v + D v k"
        by (rule least_walk_trans [OF D D D \<open>v \<in> S\<close>]) (fact Cons.prems(2) v kV)+
      ultimately show ?thesis using IH w by (simp add: min_def split: if_splits)
    qed
  qed
  have "\<exists>vs. set vs \<subseteq> insert k S \<and> walk_weight w i vs j = min (D i j) (D i k + D k j)"
  proof (cases "D i j \<le> D i k + D k j")
    case True
    obtain vs where "set vs \<subseteq> S" "walk_weight w i vs j = D i j"
      by (rule least_walkE [OF D [OF ij]])
    then show ?thesis using True by (intro exI [of _ vs]) auto
  next
    case False
    obtain us where us: "set us \<subseteq> S" "walk_weight w i us k = D i k"
      by (rule least_walkE [OF D [OF ij(1) kV]])
    obtain vs where vs: "set vs \<subseteq> S" "walk_weight w k vs j = D k j"
      by (rule least_walkE [OF D [OF kV ij(2)]])
    show ?thesis
      using False us vs by (intro exI [of _ "us @ k # vs"]) (auto simp: walk_weight_append)
  qed
  then show ?thesis using lower ij(1) by (simp add: least_walk_def)
qed

end
