(* ===== verification/QH_Floyd_Pass.thy ===== *)
theory QH_Floyd_Pass
  imports QH_Floyd
begin

text \<open>
  What a pass of the shortest-path programs does: in whatever order the cells are relaxed, the result is the
  matrix \<open>fw_pass\<close>. A sequence of passes leaves the weights of the least walks through the nodes of the passes.
\<close>

section \<open>Cells\<close>

definition weight :: "nat \<Rightarrow> u32 list \<Rightarrow> nat \<Rightarrow> nat \<Rightarrow> nat" where
  "weight n m i j = unat (m ! (i * n + j))"

text \<open>The matrices on which the programs are right: zeros on the diagonal, and sums that do not wrap.\<close>

definition fw_ok :: "nat \<Rightarrow> u32 list \<Rightarrow> bool" where
  "fw_ok n m \<longleftrightarrow> length m = n * n \<and> n * n < 2 ^ 31 \<and> (\<forall>i<n. m ! (i * n + i) = 0) \<and>
     (\<forall>c<n * n. unat (m ! c) < 2 ^ 31)"

lemma cell_bound: "i < n \<Longrightarrow> j < n \<Longrightarrow> i * n + j < n * n" for n :: nat
  by (rule block_bound)

lemma cell_inject: "j < n \<Longrightarrow> j' < n \<Longrightarrow> i * n + j = i' * n + j' \<longleftrightarrow> i = i' \<and> j = j'" for n :: nat
  using block_ids [of i n j i' j'] by auto

lemma cell_ok:
  assumes "i < n" "j < n" "n * n < 2 ^ 31"
  shows "cell (of_nat n) i j = int (i * n + j)"
proof -
  have "i * n + j < 2147483648" using cell_bound [OF assms(1,2)] assms(3) by simp
  from sint_of_nat_small [OF this] show ?thesis by (simp add: cell_def)
qed

lemma kernel_relax:
  assumes "length m = n * n" "n * n < 2 ^ 31" "i < n" "j < n" "k < n"
  shows "floydWarshallPass (of_nat n) (of_nat k) j i m = cpu_relax n k i j m"
proof -
  have "k < 2 ^ 31" by (rule le_less_trans [OF _ assms(2)]) (use assms(5) le_square [of n] in linarith)
  then have "k < 2 ^ 32" by simp
  then have "unat (of_nat k :: u32) = k" by (simp add: unat_of_nat_small)
  then show ?thesis
    using assms by (simp add: floydWarshallPass_def cpu_relax_def cell_get_def cell_ok cell_bound Let_def
        nat_int_add del: of_nat_add of_nat_mult)
qed

lemma cpu_relax_result:
  assumes "length m = n * n" "i < n" "j < n" "k < n"
  shows "cpu_relax n k i j m = Inr (m[i * n + j := min (m ! (i * n + j)) (m ! (i * n + k) + m ! (k * n + j))])"
proof (cases "m ! (i * n + k) + m ! (k * n + j) < m ! (i * n + j)")
  case True
  then have "min (m ! (i * n + j)) (m ! (i * n + k) + m ! (k * n + j)) = m ! (i * n + k) + m ! (k * n + j)"
    by simp
  then show ?thesis using assms True by (simp add: cpu_relax_def cell_bound)
next
  case False
  then have "min (m ! (i * n + j)) (m ! (i * n + k) + m ! (k * n + j)) = m ! (i * n + j)" by simp
  then show ?thesis using assms False by (simp add: cpu_relax_def cell_bound)
qed

section \<open>Passes\<close>

definition relaxed :: "nat \<Rightarrow> nat \<Rightarrow> u32 list \<Rightarrow> nat \<Rightarrow> nat \<Rightarrow> u32" where
  "relaxed n k m i j = min (m ! (i * n + j)) (m ! (i * n + k) + m ! (k * n + j))"

definition fw_pass :: "nat \<Rightarrow> nat \<Rightarrow> u32 list \<Rightarrow> u32 list" where
  "fw_pass n k m = map (\<lambda>c. relaxed n k m (c div n) (c mod n)) [0..<n * n]"

lemma fw_pass_nth: "i < n \<Longrightarrow> j < n \<Longrightarrow> fw_pass n k m ! (i * n + j) = relaxed n k m i j"
  by (simp add: fw_pass_def cell_bound)

lemma pass_result:
  assumes m: "fw_ok n m" and k: "k < n"
    and ids: "distinct ids" "set ids = {..<n} \<times> {..<n}"
    and f: "\<And>i j t. i < n \<Longrightarrow> j < n \<Longrightarrow> length t = n * n \<Longrightarrow> f (i, j) t = cpu_relax n k i j t"
  shows "for_each ids f m = Inr (fw_pass n k m)"
proof -
  let ?Inv = "\<lambda>D t. length t = n * n \<and>
    (\<forall>i<n. \<forall>j<n. t ! (i * n + j) = (if (i, j) \<in> D then relaxed n k m i j else m ! (i * n + j)))"
  have z: "m ! (k * n + k) = 0" using m k by (simp add: fw_ok_def)
  have "\<exists>t. for_each ids f m = Inr t \<and> ?Inv (set ids) t"
  proof (rule for_each_invariant [OF ids(1)])
    show "?Inv {} m" using m by (simp add: fw_ok_def)
  next
    fix p D t assume p: "p \<in> set ids" and inv: "?Inv D t"
    obtain i j where ij: "p = (i, j)" "i < n" "j < n" using p ids(2) by auto
    have t: "length t = n * n" using inv by blast
    have nth: "t ! (a * n + b) = (if (a, b) \<in> D then relaxed n k m a b else m ! (a * n + b))" if "a < n" "b < n" for a b
      using conjunct2 [OF inv] that by simp
    have row: "t ! (i * n + k) = m ! (i * n + k)" and col: "t ! (k * n + j) = m ! (k * n + j)"
      using nth [OF ij(2) k] nth [OF k ij(3)] z by (simp_all add: relaxed_def)
    have new: "min (t ! (i * n + j)) (t ! (i * n + k) + t ! (k * n + j)) = relaxed n k m i j"
      unfolding row col using nth [OF ij(2,3)] by (simp add: relaxed_def)
    have fp: "f p t = Inr (t[i * n + j := relaxed n k m i j])"
      unfolding ij(1) f [OF ij(2,3) t] cpu_relax_result [OF t ij(2,3) k] new ..
    have inv': "?Inv (insert p D) (t[i * n + j := relaxed n k m i j])"
    proof (intro conjI allI impI)
      fix a b assume ab: "a < n" "b < n"
      show "t[i * n + j := relaxed n k m i j] ! (a * n + b) =
          (if (a, b) \<in> insert p D then relaxed n k m a b else m ! (a * n + b))"
      proof (cases "(a, b) = p")
        case True
        then have "a = i" "b = j" "(a, b) \<in> insert p D" using ij(1) by simp_all
        then show ?thesis using nth_list_update_eq [of "i * n + j" t] cell_bound [OF ij(2,3)] t by metis
      next
        case False
        then have "i * n + j \<noteq> a * n + b"
          unfolding cell_inject [OF ij(3) ab(2)] ij(1) by auto
        then show ?thesis using nth [OF ab] False by simp
      qed
    qed (simp add: t)
    show "\<exists>t'. f p t = Inr t' \<and> ?Inv (insert p D) t'" by (rule exI, rule conjI, rule fp, rule inv')
  qed
  then obtain t where t: "for_each ids f m = Inr t" "length t = n * n"
    and nth: "\<And>i j. i < n \<Longrightarrow> j < n \<Longrightarrow> t ! (i * n + j) = relaxed n k m i j"
    using ids(2) by auto
  have "t ! c = fw_pass n k m ! c" if "c < n * n" for c
  proof -
    have "c div n < n" "c mod n < n"
      using that k by (simp_all add: less_mult_imp_div_less)
    from nth [OF this] show ?thesis using that by (simp add: fw_pass_def)
  qed
  then have "t = fw_pass n k m" using t(2) by (auto simp: fw_pass_def intro: nth_equalityI)
  then show ?thesis using t(1) by simp
qed

lemma fw_pass_ok:
  assumes m: "fw_ok n m" and k: "k < n"
  shows "fw_ok n (fw_pass n k m)"
proof -
  have le: "unat (relaxed n k m i j) < 2 ^ 31" if "i < n" "j < n" for i j
  proof -
    have "relaxed n k m i j \<le> m ! (i * n + j)" by (simp add: relaxed_def)
    then show ?thesis using m cell_bound [OF that] by (auto simp: fw_ok_def word_le_nat_alt)
  qed
  have "unat (fw_pass n k m ! c) < 2 ^ 31" if "c < n * n" for c
    using le [of "c div n" "c mod n"] that k by (simp add: fw_pass_def less_mult_imp_div_less)
  then show ?thesis
    using m by (simp add: fw_ok_def fw_pass_nth) (simp add: fw_pass_def relaxed_def)
qed

lemma fw_pass_weight:
  assumes m: "fw_ok n m" and "k < n" "i < n" "j < n"
  shows "weight n (fw_pass n k m) i j = min (weight n m i j) (weight n m i k + weight n m k j)"
proof -
  have "unat (m ! (i * n + k)) < 2 ^ 31" "unat (m ! (k * n + j)) < 2 ^ 31"
    using m assms(2-4) by (simp_all add: fw_ok_def cell_bound)
  then have "unat (m ! (i * n + k) + m ! (k * n + j)) = unat (m ! (i * n + k)) + unat (m ! (k * n + j))"
    by (simp add: unat_word_ariths)
  then show ?thesis
    using assms(3,4) by (simp add: weight_def fw_pass_nth relaxed_def min_def word_le_nat_alt)
qed

text \<open>All passes, in the order of the list.\<close>

definition shortest_weights :: "nat \<Rightarrow> u32 list \<Rightarrow> u32 list \<Rightarrow> bool" where
  "shortest_weights n m out \<longleftrightarrow> length out = n * n \<and>
     (\<forall>i<n. \<forall>j<n. least_walk (weight n m) {..<n} i j (weight n out i j))"

lemma passes_least:
  assumes "fw_ok n m" "set ks \<subseteq> {..<n}"
  shows "fw_ok n (fold (fw_pass n) ks m) \<and>
    (\<forall>i<n. \<forall>j<n. least_walk (weight n m) (set ks) i j (weight n (fold (fw_pass n) ks m) i j))"
  using assms(2)
proof (induction ks rule: rev_induct)
  case Nil
  then show ?case using assms(1) by (simp add: least_walk_empty)
next
  case (snoc k ks)
  let ?m = "fold (fw_pass n) ks m"
  have S: "insert k (set ks) \<subseteq> {..<n}" using snoc.prems by simp
  have IH: "fw_ok n ?m" "\<And>i j. i \<in> {..<n} \<Longrightarrow> j \<in> {..<n} \<Longrightarrow> least_walk (weight n m) (set ks) i j (weight n ?m i j)"
    and k: "k < n"
    using snoc by simp_all
  have "least_walk (weight n m) (insert k (set ks)) i j (weight n (fw_pass n k ?m) i j)" if "i < n" "j < n" for i j
    unfolding fw_pass_weight [OF IH(1) k that]
    by (rule least_walk_insert [OF IH(2) S]) (use that in simp_all)
  then show ?case using fw_pass_ok [OF IH(1) k] by simp
qed

lemma weights_after_passes:
  assumes "fw_ok n m" "set ks = {..<n}"
  shows "shortest_weights n m (fold (fw_pass n) ks m)"
  using passes_least [OF assms(1) equalityD1 [OF assms(2)]] assms(2)
  unfolding shortest_weights_def fw_ok_def by simp

lemma shortest_weights_unique:
  assumes "shortest_weights n m a" "shortest_weights n m b"
  shows "a = b"
proof (rule nth_equalityI)
  show "length a = length b" using assms by (simp add: shortest_weights_def)
next
  fix c assume "c < length a"
  then have c: "c < n * n" using assms(1) by (simp add: shortest_weights_def)
  then have "c div n < n" "c mod n < n" by (cases n; simp add: less_mult_imp_div_less)+
  then have "weight n a (c div n) (c mod n) = weight n b (c div n) (c mod n)"
    using assms unfolding shortest_weights_def
    by (intro least_walk_unique [of "weight n m" "{..<n}" "c div n" "c mod n"]) blast+
  then show "a ! c = b ! c" by (simp add: weight_def word_unat_eq_iff)
qed

section \<open>The program for the CPU\<close>

lemma row_major:
  "for_each xs (\<lambda>i. for_each ys (f i)) = for_each (List.product xs ys) (\<lambda>(i, j). f i j)"
  by (simp add: fun_eq_iff for_each_nested product_concat_map)

lemma fold_passes:
  assumes "fw_ok n m" "set ks \<subseteq> {..<n}"
    and "\<And>k t. k < n \<Longrightarrow> fw_ok n t \<Longrightarrow> g k t = Inr (fw_pass n k t)"
  shows "for_each ks g m = Inr (fold (fw_pass n) ks m)"
  using assms(1,2)
proof (induction ks arbitrary: m)
  case (Cons k ks)
  then show ?case using assms(3) [of k m] fw_pass_ok [of n m k] by simp
qed simp

lemma cpu_passes:
  assumes "fw_ok n m"
  shows "kfloyd_warshall_cpu m n = Inr (fold (fw_pass n) [0..<n] m)"
  unfolding kfloyd_warshall_cpu_def row_major [where f = "cpu_relax n _"]
proof (rule fold_passes [OF assms])
  fix k t assume "k < n" "fw_ok n t"
  then show "for_each (List.product [0..<n] [0..<n]) (\<lambda>(i, j). cpu_relax n k i j) t = Inr (fw_pass n k t)"
    by (intro pass_result) (auto simp: distinct_product)
qed auto

lemma cpu_result: "fw_ok n m \<Longrightarrow> \<exists>out. kfloyd_warshall_cpu m n = Inr out \<and> shortest_weights n m out"
  using cpu_passes [of n m] weights_after_passes [of n m "[0..<n]"] by (auto simp: atLeast0LessThan)

end
