(* ===== verification/QH_Floyd_Host.thy ===== *)
theory QH_Floyd_Host
  imports QH_Floyd_Pass QH_OpenCL QH_Daemon
begin

text \<open>
  The host side of the shortest-path service, \<open>src/test_module/floyd_warshall/lib\<close>. Its command queue is out of
  order and its commands carry no events, so between two calls of \<open>clFinish\<close> the device may run them in any
  order. A command that was enqueued runs later, on the memory of the host as it is then.
\<close>

section \<open>The queue\<close>

text \<open>
  A command with what its arguments were when it was enqueued: the memory of the host it reads or
  writes and the number of its \<open>int\<close>s, or the arguments of the kernel.
\<close>

datatype command =
    Write_buffer nat nat nat
  | Run_pass gpu "nat option" u32 u32
  | Read_buffer nat nat nat

text \<open>\<open>struct floyd_warshall_data\<close>, the memory of requests, and the order in which the device runs commands.\<close>

record fw_data = ocl +
  fw_context :: bool
  fw_program :: bool
  fw_kernel :: bool
  fw_mem_obj :: "nat option"
  pending :: "command list"
  host_mem :: "nat \<rightharpoonup> u32 list"
  run_order :: "nat \<Rightarrow> nat list"

definition enqueue_write :: "nat option \<Rightarrow> nat \<Rightarrow> nat \<Rightarrow> fw_data \<Rightarrow> bool \<times> fw_data" where
  "enqueue_write h a n st = (
     let (ok, st) = api st in
     case Option.bind h (buffers st) of
       Some b \<Rightarrow> if ok \<and> queue st \<and> 0 < n \<and> 4 * n \<le> length b
         then (True, st\<lparr>pending := pending st @ [Write_buffer (the h) a n]\<rparr>) else (False, st)
     | None \<Rightarrow> (False, st))"

definition enqueue_read :: "nat option \<Rightarrow> nat \<Rightarrow> nat \<Rightarrow> fw_data \<Rightarrow> bool \<times> fw_data" where
  "enqueue_read h a n st = (
     let (ok, st) = api st in
     case Option.bind h (buffers st) of
       Some b \<Rightarrow> if ok \<and> queue st \<and> 0 < n \<and> 4 * n \<le> length b
         then (True, st\<lparr>pending := pending st @ [Read_buffer (the h) a n]\<rparr>) else (False, st)
     | None \<Rightarrow> (False, st))"

text \<open>The sizes of a group must divide the numbers of items, and all arguments must have been set.\<close>

definition enqueue_pass :: "nat \<times> nat \<Rightarrow> nat \<times> nat \<Rightarrow> fw_data \<Rightarrow> bool \<times> fw_data" where
  "enqueue_pass gsz lsz st = (
     let dev = pl_dev (plat st) (calls st); (ok, st) = api st in
     case (args st 0 0, args st 0 1, args st 0 2) of
       (Some (Buf h), Some (Val m), Some (Val k)) \<Rightarrow>
         if ok \<and> queue st \<and> fw_kernel st \<and> 0 < fst gsz * snd gsz \<and> fst lsz dvd fst gsz \<and> snd lsz dvd snd gsz
         then (True, st\<lparr>pending := pending st @ [Run_pass dev h m k]\<rparr>) else (False, st)
     | _ \<Rightarrow> (False, st))"

text \<open>\<open>globalThreads\<close> and \<open>localThreads\<close>\<close>

definition pass_items :: "u32 \<Rightarrow> nat \<times> nat" where "pass_items m = (unat m, unat m)"
definition pass_group :: "nat \<times> nat" where "pass_group = (16, 8)"

definition run_command :: "command \<Rightarrow> fw_data \<Rightarrow> fw_data res" where
  "run_command c st = (case c of
     Write_buffer h a n \<Rightarrow> bindR (heap_get (buffers st) h) (\<lambda>b. bindR (heap_get (host_mem st) a) (\<lambda>dat.
       if length dat < n then Inl Out_of_bounds
       else Inr (st\<lparr>buffers := (buffers st)(h \<mapsto> ints_to_bytes (take n dat) @ drop (4 * n) b)\<rparr>)))
   | Run_pass dev None m k \<Rightarrow> Inl Null_deref
   | Run_pass dev (Some h) m k \<Rightarrow> bindR (heap_get (buffers st) h) (\<lambda>b.
       bindR (launch_2d dev (pass_items m) pass_group (floydWarshallPass m k) (ints_of_bytes b)) (\<lambda>b.
       Inr (st\<lparr>buffers := (buffers st)(h \<mapsto> ints_to_bytes b)\<rparr>)))
   | Read_buffer h a n \<Rightarrow> bindR (heap_get (buffers st) h) (\<lambda>b. bindR (heap_get (host_mem st) a) (\<lambda>dat.
       if length dat < n then Inl Buffer_overflow
       else Inr (st\<lparr>host_mem := (host_mem st)(a \<mapsto> take n (ints_of_bytes b) @ drop n dat)\<rparr>))))"

text \<open>\<open>clFinish\<close> runs everything that is pending. Its result is not looked at.\<close>

definition finish :: "fw_data \<Rightarrow> fw_data res" where
  "finish st = (
     let (ok, st) = api st; cs = pending st in
     if ok \<and> queue st
     then for_each (run_order st (length cs)) (\<lambda>i. run_command (cs ! i)) (st\<lparr>pending := []\<rparr>)
     else Inr st)"

text \<open>A buffer stays until the commands that use it are done.\<close>

definition release_mem :: "nat option \<Rightarrow> fw_data \<Rightarrow> fw_data" where
  "release_mem h st = (if pending st = [] then snd (release_buf h st) else snd (api st))"

section \<open>cl_floyd_warshall.c\<close>

text \<open>The results tell whether \<open>ret\<close> is \<open>CL_SUCCESS\<close> (the codes of all calls are or-ed).\<close>

definition init_floyd_warshall_gpu :: "bool \<Rightarrow> fw_data \<Rightarrow> (bool \<times> fw_data) res" where
  "init_floyd_warshall_gpu ctx st = (
     if \<not> pl_file (plat st) ''FloydWarshall_Kernels.cl'' then Inr (False, st)
     else if \<not> pl_malloc (plat st) 0 then Inl Null_deref
     else
       let (ok, st) = api st; program = (ok \<and> ctx);
           (ok, st) = api st; built = (ok \<and> program);
           (ok, st) = api st; command_queue = (ok \<and> ctx);
           (ok, st) = api st; kernel = (ok \<and> built) in
       Inr (program \<and> built \<and> command_queue \<and> kernel,
         st\<lparr>fw_program := program, queue := command_queue, fw_kernel := kernel\<rparr>))"

definition set_kernel_arg :: "nat \<Rightarrow> clarg \<Rightarrow> fw_data \<Rightarrow> bool \<times> fw_data" where
  "set_kernel_arg i a st = (if fw_kernel st then set_arg 0 i a st else (False, snd (api st)))"

definition enqueue_passes :: "u32 \<Rightarrow> bool \<times> fw_data \<Rightarrow> bool \<times> fw_data" where
  "enqueue_passes mat_size = fold (\<lambda>i (ret, st).
     let (ok1, st) = set_kernel_arg 2 (Val (of_nat i)) st;
         (ok2, st) = enqueue_pass (pass_items mat_size) pass_group st in
     (ret \<and> ok1 \<and> ok2, st)) [0..<unat mat_size]"

definition run_floyd_warshall_gpu :: "nat \<Rightarrow> u32 \<Rightarrow> fw_data \<Rightarrow> bool \<times> fw_data" where
  "run_floyd_warshall_gpu dat mat_size st = (
     let n = unat (mat_size * mat_size);
         (h, st) = create_buf (4 * int n) None st; st = st\<lparr>fw_mem_obj := h\<rparr>;
         (ok1, st) = set_kernel_arg 0 (Buf h) st;
         (ok2, st) = set_kernel_arg 1 (Val mat_size) st;
         (ok3, st) = enqueue_write h dat n st;
         (ret, st) = enqueue_passes mat_size (h \<noteq> None \<and> ok1 \<and> ok2 \<and> ok3, st);
         (ok4, st) = enqueue_read h dat n st in
     (ret \<and> ok4, st))"

section \<open>libsrv_floyd_warshall.c\<close>

text \<open>
  The conversion of \<open>sqrt (double)\<close> to \<open>unsigned int\<close>: a number below \<open>2 ^ 32\<close> is exact as a \<open>double\<close>, and the
  rounded root of such a number has the integral part of the root.
\<close>

definition int_sqrt :: "nat \<Rightarrow> nat" where
  "int_sqrt n = length (takeWhile (\<lambda>r. r * r \<le> n) [1..<Suc n])"

text \<open>\<open>dat\<close> is \<open>mmap_addr\<close>.\<close>

definition floyd_warshall_launch :: "nat \<Rightarrow> u32 \<Rightarrow> fw_data \<Rightarrow> (int \<times> fw_data) res" where
  "floyd_warshall_launch dat mmap_size st = (
     let mat_size = of_nat (int_sqrt (unat mmap_size));
         (res, st) = run_floyd_warshall_gpu dat mat_size st in
     if \<not> res then Inr (1, st)
     else bindR (finish st) (\<lambda>st. Inr (0, release_mem (fw_mem_obj st) st)))"

definition floyd_warshall_cs :: int where "floyd_warshall_cs = 0"
definition floyd_warshall_post :: int where "floyd_warshall_post = 0"

text \<open>The service is static, so that its \<open>sid\<close>, which is not set, is 0; \<open>p\<close> is its address.\<close>

definition floyd_warshall_srv :: service where
  "floyd_warshall_srv = \<lparr>sname = ''floyd_warshall_service'', sid = 0\<rparr>"

definition fw_init_service ::
  "nat \<Rightarrow> nat option \<Rightarrow> nat option \<Rightarrow> bool \<Rightarrow> fw_data \<Rightarrow> registry \<Rightarrow> (int \<times> fw_data \<times> registry) res" where
  "fw_init_service p lh m ctx st reg =
     bindR (init_floyd_warshall_gpu ctx (st\<lparr>fw_context := ctx\<rparr>)) (\<lambda>(ret, st).
     if \<not> ret then Inr (1, st, reg)
     else bindR (qc_register_service (Some p) lh m (reg\<lparr>srv_mem := (srv_mem reg)(p \<mapsto> floyd_warshall_srv)\<rparr>))
       (\<lambda>(r, reg). Inr (r, st, reg)))"

definition fw_finit_service :: "fw_data \<Rightarrow> registry \<Rightarrow> (int \<times> fw_data \<times> registry) res option" where
  "fw_finit_service st reg =
     bindO (Some (finish st)) (\<lambda>st.
     let (ok, st) = api st; st = (if ok then st\<lparr>fw_kernel := False\<rparr> else st);
         (ok, st) = api st; st = (if ok then st\<lparr>fw_program := False\<rparr> else st);
         (ok, st) = api st; st = (if ok then st\<lparr>queue := False\<rparr> else st) in
     bindO (qc_unregister_service (Some (sname floyd_warshall_srv)) reg) (\<lambda>(r, reg). Some (Inr (r, st, reg))))"

end
