(* ===== verification/QH_Floyd_Results.thy ===== *)
theory QH_Floyd_Results
  imports QH_Floyd_Host
begin

text \<open>
  The theorems about the shortest-path service: what \<open>floyd_warshall_launch\<close> leaves in the memory of the
  request, for every order of work items and of passes; that this is what the program for the CPU computes, for
  the matrices of the client; and what goes wrong when the device starts with the last command, or when the
  matrix does not divide into groups. The end of the theory runs the theorems at concrete inputs.
\<close>

section \<open>Commands\<close>

lemma launch_pass:
  assumes m: "fw_ok n m" and k: "k < n" and d: "fair_gpu d" and n: "16 dvd n"
  shows "launch_2d d (n, n) pass_group (floydWarshallPass (of_nat n) (of_nat k)) m = Inr (fw_pass n k m)"
proof -
  obtain q where q: "n = q * 16" using n by (metis dvd_def mult.commute)
  let ?ids = "global_ids d (n, n) (16, 8)"
  have ids: "distinct ?ids" "set ?ids = {..<n} \<times> {..<n}"
    using global_ids [OF d, of 16 8 q "2 * q"] by (simp_all add: q mult.commute)
  have "launch_2d d (n, n) pass_group (floydWarshallPass (of_nat n) (of_nat k)) m =
      for_each (map prod.swap ?ids) (\<lambda>(i, j). floydWarshallPass (of_nat n) (of_nat k) j i) m"
    by (simp add: launch_2d_flat pass_group_def for_each_map case_prod_unfold)
  also have "\<dots> = Inr (fw_pass n k m)"
  proof (rule pass_result [OF m k])
    show "distinct (map prod.swap ?ids)" using ids(1) by (simp add: distinct_map)
    show "set (map prod.swap ?ids) = {..<n} \<times> {..<n}" using ids(2) by (simp add: product_swap)
    fix i j and t :: "u32 list" assume "i < n" "j < n" "length t = n * n"
    then show "(\<lambda>(i, j). floydWarshallPass (of_nat n) (of_nat k) j i) (i, j) t = cpu_relax n k i j t"
      using m k by (simp add: kernel_relax fw_ok_def)
  qed
  finally show ?thesis .
qed

lemma launch_any:
  assumes m: "length m = n * n" and nn: "n * n < 2 ^ 31" and k: "k < n" and d: "fair_gpu d" and n: "16 dvd n"
  shows "\<exists>t. launch_2d d (n, n) pass_group (floydWarshallPass (of_nat n) (of_nat k)) m = Inr t \<and> length t = n * n"
proof -
  obtain q where q: "n = q * 16" using n by (metis dvd_def mult.commute)
  let ?ids = "global_ids d (n, n) (16, 8)"
  have ids: "distinct ?ids" "set ?ids = {..<n} \<times> {..<n}"
    using global_ids [OF d, of 16 8 q "2 * q"] by (simp_all add: q mult.commute)
  show ?thesis
    unfolding launch_2d_flat pass_group_def
  proof (rule for_each_invariant [OF ids(1), where Inv = "\<lambda>_ t. length t = n * n", OF m])
    fix p D and t :: "u32 list" assume "p \<in> set ?ids" "length t = n * n"
    then show "\<exists>t'. (\<lambda>(x, y). floydWarshallPass (of_nat n) (of_nat k) x y) p t = Inr t' \<and> length t' = n * n"
      using ids(2) nn k by (auto simp: kernel_relax cpu_relax_result)
  qed
qed

text \<open>The passes of a list of commands, in any order.\<close>

definition pass_command :: "nat \<Rightarrow> nat \<Rightarrow> command list \<Rightarrow> nat \<Rightarrow> bool" where
  "pass_command b n cs i \<longleftrightarrow> 0 < i \<and> i \<le> n \<and>
     (\<exists>d. fair_gpu d \<and> cs ! i = Run_pass d (Some b) (of_nat n) (of_nat (i - 1)))"

lemma small_square:
  assumes "n * n < 2 ^ 31"
  shows "unat (of_nat n :: u32) = n" "unat (of_nat n * of_nat n :: u32) = n * n"
proof -
  have "n < 2 ^ 31" by (rule le_less_trans [OF le_square assms])
  then show "unat (of_nat n :: u32) = n" by (simp add: unat_of_nat_small)
  have "unat (of_nat (n * n) :: u32) = n * n" using assms by (intro unat_of_nat_small) simp
  then show "unat (of_nat n * of_nat n :: u32) = n * n" by simp
qed

lemma run_pass_command:
  assumes "pass_command b n cs i" "fw_ok n m" "16 dvd n" "buffers st b = Some (ints_to_bytes m)"
  shows "run_command (cs ! i) st = Inr (st\<lparr>buffers := (buffers st)(b \<mapsto> ints_to_bytes (fw_pass n (i - 1) m))\<rparr>)"
proof -
  obtain d where d: "fair_gpu d" "cs ! i = Run_pass d (Some b) (of_nat n) (of_nat (i - 1))" "i - 1 < n"
    using assms(1) by (auto simp: pass_command_def)
  have "unat (of_nat n :: u32) = n" using assms(2) by (simp add: fw_ok_def small_square)
  then show ?thesis
    using assms(4) launch_pass [OF assms(2) d(3) d(1) assms(3)]
    by (simp add: d(2) run_command_def pass_items_def)
qed

lemma run_pass_commands:
  assumes "\<forall>i\<in>set is. pass_command b n cs i" "fw_ok n m" "16 dvd n" "buffers st b = Some (ints_to_bytes m)"
  shows "for_each is (\<lambda>i. run_command (cs ! i)) st =
    Inr (st\<lparr>buffers := (buffers st)(b \<mapsto> ints_to_bytes (fold (\<lambda>i. fw_pass n (i - 1)) is m))\<rparr>)"
  using assms(1,2,4)
proof (induction "is" arbitrary: st m)
  case Nil
  then show ?case by (simp add: fun_upd_idem)
next
  case (Cons i "is")
  have i: "pass_command b n cs i" and "is": "\<forall>i\<in>set is. pass_command b n cs i" using Cons.prems(1) by simp_all
  have ok: "fw_ok n (fw_pass n (i - 1) m)"
    using i Cons.prems(2) by (intro fw_pass_ok) (auto simp: pass_command_def)
  show ?case
    using run_pass_command [OF i Cons.prems(2) assms(3) Cons.prems(3)]
      Cons.IH [OF "is" ok, of "st\<lparr>buffers := (buffers st)(b \<mapsto> ints_to_bytes (fw_pass n (i - 1) m))\<rparr>"]
    by (simp cong: if_cong)
qed

section \<open>What run_floyd_warshall_gpu leaves in the queue\<close>

definition fw_ready :: "fw_data \<Rightarrow> bool" where
  "fw_ready st \<longleftrightarrow> good_platform (plat st) \<and> queue st \<and> fw_kernel st \<and> pending st = []"

text \<open>The state while commands are put into the queue.\<close>

definition filling :: "fw_data \<Rightarrow> nat \<Rightarrow> fw_data \<Rightarrow> bool" where
  "filling st0 n st \<longleftrightarrow> plat st = plat st0 \<and> queue st \<and> fw_kernel st \<and> host_mem st = host_mem st0 \<and>
     run_order st = run_order st0 \<and> fw_mem_obj st = Some (next_buf st0) \<and>
     buffers st = (buffers st0)(next_buf st0 \<mapsto> pl_junk (plat st0) (next_buf st0) (4 * (n * n))) \<and>
     args st 0 0 = Some (Buf (Some (next_buf st0))) \<and> args st 0 1 = Some (Val (of_nat n))"

lemma enqueue_one:
  assumes "filling st0 n st" "good_platform (plat st0)" "0 < n" "n * n < 2 ^ 31"
  shows "\<exists>st1 st2 ps. set_kernel_arg 2 (Val k) st = (True, st1) \<and>
    enqueue_pass (pass_items (of_nat n)) pass_group st1 = (16 dvd n, st2) \<and> filling st0 n st2 \<and>
    pending st2 = pending st @ ps \<and>
    (if 16 dvd n then \<exists>d. fair_gpu d \<and> ps = [Run_pass d (Some (next_buf st0)) (of_nat n) k] else ps = [])"
proof -
  have dvd: "(16 dvd n \<and> 8 dvd n) = (16 dvd n)" using dvd_trans [of 8 16 n] by auto
  show ?thesis
    using assms small_square(1) [OF assms(4)]
    by (simp add: set_kernel_arg_def set_arg_def enqueue_pass_def api_def pass_items_def pass_group_def
        filling_def good_platform_def dvd Let_def)
qed

lemma enqueue_passes_result:
  assumes st: "filling st0 n st" "good_platform (plat st0)" "0 < n" "n * n < 2 ^ 31"
  shows "\<exists>st' ps. enqueue_passes (of_nat n) (True, st) = (16 dvd n, st') \<and> filling st0 n st' \<and>
    pending st' = pending st @ ps \<and> (if 16 dvd n then length ps = n \<and>
      (\<forall>k<n. \<exists>d. fair_gpu d \<and> ps ! k = Run_pass d (Some (next_buf st0)) (of_nat n) (of_nat k)) else ps = [])"
proof -
  let ?f = "\<lambda>i (ret, st). let (ok1, st) = set_kernel_arg 2 (Val (of_nat i)) st;
     (ok2, st) = enqueue_pass (pass_items (of_nat n)) pass_group st in (ret \<and> ok1 \<and> ok2, st)"
  have "\<exists>st' ps. fold ?f [0..<j] (True, st) = (j = 0 \<or> 16 dvd n, st') \<and> filling st0 n st' \<and>
    pending st' = pending st @ ps \<and> (if 16 dvd n then length ps = j \<and>
      (\<forall>k<j. \<exists>d. fair_gpu d \<and> ps ! k = Run_pass d (Some (next_buf st0)) (of_nat n) (of_nat k)) else ps = [])" for j
  proof (induction j)
    case 0
    then show ?case using st(1) by simp
  next
    case (Suc j)
    then obtain st1 ps where 1: "fold ?f [0..<j] (True, st) = (j = 0 \<or> 16 dvd n, st1)" "filling st0 n st1"
      "pending st1 = pending st @ ps" and ps: "if 16 dvd n then length ps = j \<and>
        (\<forall>k<j. \<exists>d. fair_gpu d \<and> ps ! k = Run_pass d (Some (next_buf st0)) (of_nat n) (of_nat k)) else ps = []"
      by blast
    obtain st2 st3 qs where 2: "set_kernel_arg 2 (Val (of_nat j)) st1 = (True, st2)"
      "enqueue_pass (pass_items (of_nat n)) pass_group st2 = (16 dvd n, st3)" "filling st0 n st3"
      "pending st3 = pending st1 @ qs" and qs: "if 16 dvd n
        then \<exists>d. fair_gpu d \<and> qs = [Run_pass d (Some (next_buf st0)) (of_nat n) (of_nat j)] else qs = []"
      using enqueue_one [OF 1(2) st(2-4), of "of_nat j"] by blast
    have "fold ?f [0..<Suc j] (True, st) = (Suc j = 0 \<or> 16 dvd n, st3)"
      using 1(1) 2(1,2) by auto
    moreover have "if 16 dvd n then length (ps @ qs) = Suc j \<and>
        (\<forall>k<Suc j. \<exists>d. fair_gpu d \<and> (ps @ qs) ! k = Run_pass d (Some (next_buf st0)) (of_nat n) (of_nat k))
        else ps @ qs = []"
      using ps qs by (auto simp: nth_append less_Suc_eq)
    ultimately show ?case
      using 2(3,4) 1(3) by (intro exI [of _ st3] exI [of _ "ps @ qs"]) simp
  qed
  from this [of n] show ?thesis
    using st(3) small_square(1) [OF st(4)] by (simp add: enqueue_passes_def)
qed

text \<open>All commands of a request.\<close>

lemma run_gpu_result:
  assumes st: "fw_ready st" and n: "0 < n" "n * n < 2 ^ 31"
  shows "\<exists>st' ps. run_floyd_warshall_gpu a (of_nat n) st = (16 dvd n, st') \<and> filling st n st' \<and>
    pending st' = Write_buffer (next_buf st) a (n * n) # ps @ [Read_buffer (next_buf st) a (n * n)] \<and>
    (if 16 dvd n then length ps = n \<and>
      (\<forall>k<n. \<exists>d. fair_gpu d \<and> ps ! k = Run_pass d (Some (next_buf st)) (of_nat n) (of_nat k)) else ps = [])"
proof -
  let ?b = "next_buf st" and ?junk = "pl_junk (plat st) (next_buf st) (4 * (n * n))"
  have ready: "pl_ok (plat st) i" "length (pl_junk (plat st) m sz) = sz" "queue st" "fw_kernel st" "pending st = []" for i m sz
    using st by (simp_all add: fw_ready_def good_platform_def)
  have sz: "unat (of_nat n * of_nat n :: u32) = n * n" "nat (4 * (int n * int n)) = 4 * (n * n)"
    using small_square [OF n(2)] by (simp_all add: nat_mult_distrib)
  define st1 where "st1 = st\<lparr>buffers := (buffers st)(?b \<mapsto> ?junk), next_buf := Suc ?b, fw_mem_obj := Some ?b,
    args := (args st)(0 := (args st 0)(0 \<mapsto> Buf (Some ?b), 1 \<mapsto> Val (of_nat n))),
    calls := Suc (Suc (Suc (Suc (calls st)))), pending := [Write_buffer ?b a (n * n)]\<rparr>"
  have "filling st n st1"
    using ready by (simp add: filling_def st1_def)
  from enqueue_passes_result [OF this _ n] obtain st2 ps where
    2: "enqueue_passes (of_nat n) (True, st1) = (16 dvd n, st2)" "filling st n st2" "pending st2 = pending st1 @ ps"
      "if 16 dvd n then length ps = n \<and>
        (\<forall>k<n. \<exists>d. fair_gpu d \<and> ps ! k = Run_pass d (Some ?b) (of_nat n) (of_nat k)) else ps = []"
    using st by (auto simp: fw_ready_def)
  have plat2: "plat st2 = plat st" "buffers st2 ?b = Some ?junk" "queue st2" using 2(2) by (simp_all add: filling_def)
  have "run_floyd_warshall_gpu a (of_nat n) st =
      (16 dvd n, st2\<lparr>calls := Suc (calls st2), pending := pending st2 @ [Read_buffer ?b a (n * n)]\<rparr>)"
    using 2(1) [unfolded st1_def One_nat_def] plat2 ready n(1)
    by (simp add: run_floyd_warshall_gpu_def sz create_buf_def api_def set_kernel_arg_def set_arg_def
        enqueue_write_def enqueue_read_def Let_def)
  moreover have "filling st n (st2\<lparr>calls := Suc (calls st2), pending := pending st2 @ [Read_buffer ?b a (n * n)]\<rparr>)"
    using 2(2) by (simp add: filling_def)
  ultimately show ?thesis
    using 2(3,4) by (simp add: st1_def)
qed

section \<open>The side of the matrix\<close>

lemma int_sqrt_square: "int_sqrt (n * n) = n"
proof -
  have "[1..<Suc (n * n)] = [1..<Suc n] @ [Suc n..<Suc (n * n)]"
    using upt_add_eq_append [of 1 "Suc n" "n * n - n"] le_square [of n] by simp
  moreover have "takeWhile (\<lambda>r. r * r \<le> n * n) [Suc n..<Suc (n * n)] = []"
  proof (cases "[Suc n..<Suc (n * n)]")
    case (Cons r rs)
    then have "r = Suc n" by (metis upt_eq_Cons_conv)
    then show ?thesis using Cons by simp
  qed simp
  moreover have "takeWhile (\<lambda>r. r * r \<le> n * n) ([1..<Suc n] @ ys) = [1..<Suc n] @ takeWhile (\<lambda>r. r * r \<le> n * n) ys" for ys
    by (rule takeWhile_append2) (auto intro: mult_le_mono)
  ultimately show ?thesis
    by (simp add: int_sqrt_def del: upt_Suc One_nat_def)
qed

section \<open>What the queue does\<close>

lemma length_ints_of_bytes: "length bs = 4 * n \<Longrightarrow> length (ints_of_bytes bs) = n"
proof -
  have "length (ints_of_bytes bs) = length bs div 4"
    by (induction bs rule: ints_of_bytes.induct) simp_all
  then show "length bs = 4 * n \<Longrightarrow> length (ints_of_bytes bs) = n" by simp
qed

text \<open>The commands of a request: the transfer to the device, the passes, and the transfer back.\<close>

definition request_commands :: "nat \<Rightarrow> nat \<Rightarrow> nat \<Rightarrow> command list \<Rightarrow> bool" where
  "request_commands b a n cs \<longleftrightarrow> length cs = n + 2 \<and> cs ! 0 = Write_buffer b a (n * n) \<and>
     cs ! Suc n = Read_buffer b a (n * n) \<and> (\<forall>i\<in>{1..n}. pass_command b n cs i)"

lemma commands_in_order:
  assumes cs: "request_commands b a n cs" and ks: "set ks = {1..n}" and n: "16 dvd n"
    and m: "fw_ok n (take (n * n) dat)" and st: "host_mem st a = Some dat" "buffers st b = Some bs" "length bs = 4 * (n * n)"
  shows "\<exists>out bs'. for_each (0 # ks @ [Suc n]) (\<lambda>i. run_command (cs ! i)) st =
      Inr (st\<lparr>buffers := (buffers st)(b \<mapsto> bs'), host_mem := (host_mem st)(a \<mapsto> out @ drop (n * n) dat)\<rparr>) \<and>
    shortest_weights n (take (n * n) dat) out"
proof -
  let ?m = "take (n * n) dat"
  let ?out = "fold (fw_pass n) (map (\<lambda>i. i - 1) ks) ?m"
  have len: "n * n \<le> length dat" using m by (simp add: fw_ok_def min_def split: if_splits)
  have "set (map (\<lambda>i. i - 1) ks) = {..<n}"
    unfolding set_map ks image_Suc_lessThan [symmetric] image_image by simp
  then have out: "shortest_weights n ?m ?out" by (rule weights_after_passes [OF m])
  then have len_out: "length ?out = n * n" by (simp add: shortest_weights_def)
  have w: "run_command (cs ! 0) st = Inr (st\<lparr>buffers := (buffers st)(b \<mapsto> ints_to_bytes ?m)\<rparr>)"
    using cs st len by (simp add: request_commands_def run_command_def)
  have p: "for_each ks (\<lambda>i. run_command (cs ! i)) (st\<lparr>buffers := (buffers st)(b \<mapsto> ints_to_bytes ?m)\<rparr>) =
      Inr (st\<lparr>buffers := (buffers st)(b \<mapsto> ints_to_bytes ?out)\<rparr>)"
    using run_pass_commands [of ks b n cs ?m "st\<lparr>buffers := (buffers st)(b \<mapsto> ints_to_bytes ?m)\<rparr>"] cs ks m n
    by (simp add: request_commands_def fold_map comp_def cong: if_cong)
  have r: "run_command (cs ! Suc n) (st\<lparr>buffers := (buffers st)(b \<mapsto> ints_to_bytes ?out)\<rparr>) =
      Inr (st\<lparr>buffers := (buffers st)(b \<mapsto> ints_to_bytes ?out),
        host_mem := (host_mem st)(a \<mapsto> ?out @ drop (n * n) dat)\<rparr>)"
    using cs st len len_out by (simp add: request_commands_def run_command_def)
  have "for_each (0 # ks @ [Suc n]) (\<lambda>i. run_command (cs ! i)) st =
      Inr (st\<lparr>buffers := (buffers st)(b \<mapsto> ints_to_bytes ?out),
        host_mem := (host_mem st)(a \<mapsto> ?out @ drop (n * n) dat)\<rparr>)"
    using w p r by (simp add: for_each_snoc)
  then show ?thesis using out by blast
qed

text \<open>Whatever the order of the other commands, they end, and change only the buffer.\<close>

lemma commands_any_order:
  assumes cs: "request_commands b a n cs" and "is": "set is \<subseteq> {..n}" and n: "16 dvd n" "n * n < 2 ^ 31"
    and dat: "host_mem st a = Some dat" "n * n \<le> length dat" and b: "buffers st b = Some bs" "length bs = 4 * (n * n)"
  shows "\<exists>bs'. for_each is (\<lambda>i. run_command (cs ! i)) st = Inr (st\<lparr>buffers := (buffers st)(b \<mapsto> bs')\<rparr>)"
  using "is" dat b
proof (induction "is" arbitrary: st bs)
  case Nil
  then show ?case by (intro exI [of _ bs]) (simp add: fun_upd_idem)
next
  case (Cons i "is")
  have "\<exists>bs'. run_command (cs ! i) st = Inr (st\<lparr>buffers := (buffers st)(b \<mapsto> bs')\<rparr>) \<and> length bs' = 4 * (n * n)"
  proof (cases "i = 0")
    case True
    then show ?thesis
      using cs Cons.prems
      by (intro exI [of _ "ints_to_bytes (take (n * n) dat)"]) (simp add: request_commands_def run_command_def)
  next
    case False
    then have "pass_command b n cs i" using cs Cons.prems(1) by (simp add: request_commands_def)
    then obtain d where d: "fair_gpu d" "cs ! i = Run_pass d (Some b) (of_nat n) (of_nat (i - 1))" "i - 1 < n"
      by (auto simp: pass_command_def)
    obtain t where "launch_2d d (n, n) pass_group (floydWarshallPass (of_nat n) (of_nat (i - 1))) (ints_of_bytes bs) = Inr t"
      "length t = n * n"
      using launch_any [OF length_ints_of_bytes [OF Cons.prems(5)] n(2) d(3,1) n(1)] by blast
    then show ?thesis
      using Cons.prems(4) small_square(1) [OF n(2)]
      by (intro exI [of _ "ints_to_bytes t"]) (simp add: d(2) run_command_def pass_items_def)
  qed
  then obtain bs1 where 1: "run_command (cs ! i) st = Inr (st\<lparr>buffers := (buffers st)(b \<mapsto> bs1)\<rparr>)" "length bs1 = 4 * (n * n)"
    by blast
  let ?s1 = "st\<lparr>buffers := (buffers st)(b \<mapsto> bs1)\<rparr>"
  have "\<exists>bs2. for_each is (\<lambda>i. run_command (cs ! i)) ?s1 = Inr (?s1\<lparr>buffers := (buffers ?s1)(b \<mapsto> bs2)\<rparr>)"
    by (rule Cons.IH [where bs = bs1]) (use Cons.prems 1(2) in simp_all)
  then obtain bs2 where "for_each is (\<lambda>i. run_command (cs ! i)) ?s1 = Inr (?s1\<lparr>buffers := (buffers ?s1)(b \<mapsto> bs2)\<rparr>)"
    by blast
  then show ?case using 1(1) by (intro exI [of _ bs2]) (simp add: fun_upd_def cong: if_cong)
qed

lemma all_commands:
  assumes "run_floyd_warshall_gpu a (of_nat n) st = (True, st')" "filling st n st'"
    and "pending st' = Write_buffer (next_buf st) a (n * n) # ps @ [Read_buffer (next_buf st) a (n * n)]"
    and "length ps = n" "\<forall>k<n. \<exists>d. fair_gpu d \<and> ps ! k = Run_pass d (Some (next_buf st)) (of_nat n) (of_nat k)"
  shows "request_commands (next_buf st) a n (pending st')"
proof -
  have "pass_command (next_buf st) n (pending st') i" if "i \<in> {1..n}" for i
    using that assms(3-5) by (auto simp: pass_command_def nth_append nth_Cons')
  then show ?thesis using assms(3,4) by (simp add: request_commands_def nth_append)
qed

text \<open>What a launch does, given what the queue does with the commands of the request.\<close>

lemma launch_result:
  assumes st: "fw_ready st" and n: "0 < n" "n * n < 2 ^ 31" "16 dvd n" and sz: "unat mmap_size = n * n"
    and run: "\<And>st1 cs. request_commands (next_buf st) a n cs \<Longrightarrow> filling st n st1 \<Longrightarrow>
      \<exists>bs' h. for_each (run_order st (n + 2)) (\<lambda>i. run_command (cs ! i)) st1 =
        Inr (st1\<lparr>buffers := (buffers st1)(next_buf st \<mapsto> bs'), host_mem := h\<rparr>) \<and> Q h"
  shows "\<exists>st'. floyd_warshall_launch a mmap_size st = Inr (0, st') \<and> Q (host_mem st') \<and> fw_ready st' \<and>
    buffers st' = (buffers st)(next_buf st := None)"
proof -
  let ?b = "next_buf st"
  obtain st' ps where 1: "run_floyd_warshall_gpu a (of_nat n) st = (True, st')" "filling st n st'"
    "pending st' = Write_buffer ?b a (n * n) # ps @ [Read_buffer ?b a (n * n)]" "length ps = n"
    "\<forall>k<n. \<exists>d. fair_gpu d \<and> ps ! k = Run_pass d (Some ?b) (of_nat n) (of_nat k)"
    using run_gpu_result [OF st n(1,2), of a] n(3) by auto
  have cs: "request_commands ?b a n (pending st')" by (rule all_commands [OF 1])
  let ?st1 = "st'\<lparr>calls := Suc (calls st'), pending := []\<rparr>"
  have f1: "filling st n ?st1" using 1(2) by (simp add: filling_def)
  obtain bs' h where r: "for_each (run_order st (n + 2)) (\<lambda>i. run_command (pending st' ! i)) ?st1 =
      Inr (?st1\<lparr>buffers := (buffers ?st1)(?b \<mapsto> bs'), host_mem := h\<rparr>)" "Q h"
    using run [OF cs f1] by blast
  have st': "plat st' = plat st" "queue st'" "fw_kernel st'" "run_order st' = run_order st" "fw_mem_obj st' = Some ?b"
      "buffers st' = (buffers st)(?b \<mapsto> pl_junk (plat st) ?b (4 * (n * n)))" "length (pending st') = n + 2"
    using 1 by (simp_all add: filling_def)
  have ok: "pl_ok (plat st) i" for i using st by (simp add: fw_ready_def good_platform_def)
  have "finish st' = Inr (?st1\<lparr>buffers := (buffers ?st1)(?b \<mapsto> bs'), host_mem := h\<rparr>)"
    using r(1) st' ok by (simp add: finish_def api_def)
  then have "floyd_warshall_launch a mmap_size st = Inr (0, st'\<lparr>calls := Suc (Suc (calls st')), pending := [],
      buffers := (buffers st)(?b := None), host_mem := h\<rparr>)"
    using 1(1) st' ok
    by (simp add: floyd_warshall_launch_def sz int_sqrt_square release_mem_def release_buf_def api_def)
  then show ?thesis
    using st st' r(2) by (simp add: fw_ready_def)
qed

section \<open>The service\<close>


text \<open>C33: Nothing keeps the device from starting with the transfer back: then the launch succeeds, and the memory of
  the request holds what the new buffer happened to contain.\<close>

theorem fw_launch_reads_early:
  assumes st: "fw_ready st" and dat: "host_mem st a = Some dat" "n * n \<le> length dat"
    and n: "0 < n" "16 dvd n" "n * n < 2 ^ 31" and sz: "unat mmap_size = n * n"
    and order: "run_order st (n + 2) = (n + 1) # is" "set is = {..n}"
  shows "\<exists>st'. floyd_warshall_launch a mmap_size st = Inr (0, st') \<and>
     host_mem st' a = Some (ints_of_bytes (pl_junk (plat st) (next_buf st) (4 * (n * n))) @ drop (n * n) dat)"
proof -
  let ?b = "next_buf st" and ?junk = "pl_junk (plat st) (next_buf st) (4 * (n * n))"
  let ?h = "(host_mem st)(a \<mapsto> ints_of_bytes ?junk @ drop (n * n) dat)"
  have "\<exists>st'. floyd_warshall_launch a mmap_size st = Inr (0, st') \<and> host_mem st' = ?h \<and> fw_ready st' \<and>
      buffers st' = (buffers st)(next_buf st := None)"
  proof (rule launch_result [OF st n(1,3,2) sz])
    fix st1 cs assume cs: "request_commands ?b a n cs" and f: "filling st n st1"
    have junk: "length ?junk = 4 * (n * n)" using st by (simp add: fw_ready_def good_platform_def)
    have s1: "host_mem st1 = host_mem st" "buffers st1 ?b = Some ?junk"
      using f by (simp_all add: filling_def)
    have r: "run_command (cs ! Suc n) st1 = Inr (st1\<lparr>host_mem := ?h\<rparr>)"
      using cs s1 dat length_ints_of_bytes [OF junk] by (simp add: request_commands_def run_command_def)
    obtain bs' where "for_each is (\<lambda>i. run_command (cs ! i)) (st1\<lparr>host_mem := ?h\<rparr>) =
        Inr (st1\<lparr>host_mem := ?h, buffers := (buffers st1)(?b \<mapsto> bs')\<rparr>)"
      using commands_any_order [OF cs equalityD1 [OF order(2)] n(2,3), of "st1\<lparr>host_mem := ?h\<rparr>" _ ?junk]
        s1 junk dat(2) length_ints_of_bytes [OF junk] by auto
    then show "\<exists>bs' h. for_each (run_order st (n + 2)) (\<lambda>i. run_command (cs ! i)) st1 =
        Inr (st1\<lparr>buffers := (buffers st1)(next_buf st \<mapsto> bs'), host_mem := h\<rparr>) \<and> h = ?h"
      using r order(1) by (intro exI [of _ bs'] exI [of _ ?h]) (cases st1; simp)
  qed
  then show ?thesis by auto
qed

text \<open>A matrix whose side is not a multiple of 16 makes the launch return 1, but the two transfers stay in the
  queue, and the buffer of the device is never released.\<close>

theorem fw_launch_leaves_transfers:
  assumes st: "fw_ready st" and n: "0 < n" "\<not> 16 dvd n" "n * n < 2 ^ 31" and sz: "unat mmap_size = n * n"
  shows "\<exists>st'. floyd_warshall_launch a mmap_size st = Inr (1, st') \<and> host_mem st' = host_mem st \<and>
     pending st' = [Write_buffer (next_buf st) a (n * n), Read_buffer (next_buf st) a (n * n)] \<and>
     next_buf st \<in> dom (buffers st')"
proof -
  obtain st' ps where "run_floyd_warshall_gpu a (of_nat n) st = (False, st')" "filling st n st'"
    "pending st' = Write_buffer (next_buf st) a (n * n) # [] @ [Read_buffer (next_buf st) a (n * n)]"
    using run_gpu_result [OF st n(1,3), of a] n(2) by auto
  then show ?thesis
    by (simp add: floyd_warshall_launch_def sz int_sqrt_square filling_def)
qed

section \<open>Concrete runs\<close>

text \<open>A platform that runs the passes from the last to the first, or starts with the transfer back.\<close>

definition example_weights :: "u32 list" where
  "example_weights = map (\<lambda>c. if c div 16 = c mod 16 then 0 else 5) [0..<256]"

definition example_fw :: "bool \<Rightarrow> fw_data" where
  "example_fw early = \<lparr>plat = example_platform backward_gpu, calls = 0, buffers = (\<lambda>_. None), next_buf = 0,
     args = (\<lambda>_ _. None), queue = True, fw_context = True, fw_program = True, fw_kernel = True, fw_mem_obj = None,
     pending = [], host_mem = [2 \<mapsto> example_weights @ [1]],
     run_order = (\<lambda>k. if early then rev [0..<k] else 0 # rev [1..<k - 1] @ [k - 1])\<rparr>"

lemma example_fw_ready: "fw_ready (example_fw early)"
  by (simp add: fw_ready_def example_fw_def)

lemma uniform_ok:
  assumes "n * n < 2 ^ 31" "unat w < 2 ^ 31"
  shows "fw_ok n (map (\<lambda>c. if c div n = c mod n then 0 else w) [0..<n * n])"
  using assms by (simp add: fw_ok_def cell_bound)

lemma example_weights: "fw_ok 16 example_weights" "length example_weights = 256"
proof -
  show "length example_weights = 256" by (simp add: example_weights_def)
  show "fw_ok 16 example_weights"
    using uniform_ok [of 16 5] by (simp add: example_weights_def del: upt_rec_numeral)
qed

lemma example_fw_fields:
  "host_mem (example_fw early) = [2 \<mapsto> example_weights @ [1]]" "next_buf (example_fw early) = 0"
  "buffers (example_fw early) = (\<lambda>_. None)" "plat (example_fw early) = example_platform backward_gpu"
  "run_order (example_fw True) k = rev [0..<k]" "run_order (example_fw False) k = 0 # rev [1..<k - 1] @ [k - 1]"
  by (simp_all add: example_fw_def)

lemma example_sets: "set (rev [1..<17]) = {1..16 :: nat}" "set (rev [0..<17]) = {..16 :: nat}"
  by auto

lemma example_upt: "[0..<18] = [0..<17] @ [17 :: nat]"
  by (simp add: upt_rec)


theorem fw_launch_reads_early_witness:
  "\<exists>st'. floyd_warshall_launch 2 256 (example_fw True) = Inr (0, st') \<and>
     host_mem st' 2 = Some (ints_of_bytes (replicate 1024 255) @ [1])"
  using fw_launch_reads_early [OF example_fw_ready, of True 2 "example_weights @ [1]" 16 256 "rev [0..<17]"]
    example_weights example_sets(2) example_upt
  by (simp add: example_fw_fields example_platform_def del: rev.simps upt_rec_numeral set_rev)

theorem fw_launch_leaves_transfers_witness:
  "\<exists>st'. floyd_warshall_launch 2 25 (example_fw False) = Inr (1, st') \<and> host_mem st' = host_mem (example_fw False) \<and>
     pending st' = [Write_buffer 0 2 25, Read_buffer 0 2 25] \<and> 0 \<in> dom (buffers st')"
  using fw_launch_leaves_transfers [OF example_fw_ready [of False], where n = 5 and mmap_size = 25 and a = 2] by (simp add: example_fw_fields)

end
