(* ===== verification/QH_Floyd_Module.thy ===== *)
theory QH_Floyd_Module
  imports QH_Floyd_Results
begin

text \<open>
  The client of the shortest-path service: its random matrix satisfies what the programs rely on, and the answer
  of the service is what its own program computes.
\<close>

section \<open>The random matrix\<close>

definition edge_weight :: "(nat \<Rightarrow> u32) \<Rightarrow> u32 \<Rightarrow> nat \<Rightarrow> u32" where
  "edge_weight rnd rate k = (let temp = rnd k mod 10000 + 1 in if rate * 100 < temp then INT_MAX else temp)"

lemma edge_weight_small: "unat (edge_weight rnd rate k) < 2147483648"
proof -
  have "unat (rnd k mod 10000) < 10000" by (simp add: unat_mod)
  then have "unat (rnd k mod 10000 + 1) \<le> 10000" by (simp add: unat_word_ariths)
  then show ?thesis by (simp add: edge_weight_def INT_MAX_def Let_def)
qed

text \<open>The cells whose rows or columns are done: small, symmetric, and zero on the diagonal.\<close>

definition cell_done :: "nat \<Rightarrow> nat \<Rightarrow> nat \<Rightarrow> nat \<Rightarrow> bool" where
  "cell_done i j p q \<longleftrightarrow> p < i \<or> q < i \<or> p = i \<and> q < j \<or> q = i \<and> p < j"

definition gen_inv :: "nat \<Rightarrow> nat \<Rightarrow> nat \<Rightarrow> u32 list \<Rightarrow> bool" where
  "gen_inv n i j m \<longleftrightarrow> length m = n * n \<and> (\<forall>p<n. \<forall>q<n. cell_done i j p q \<longrightarrow>
     unat (m ! (p * n + q)) < 2147483648 \<and> m ! (p * n + q) = m ! (q * n + p) \<and> (p = q \<longrightarrow> m ! (p * n + q) = 0))"

lemma gen_invD:
  assumes "gen_inv n i j m" "p < n" "q < n" "cell_done i j p q"
  shows "unat (m ! (p * n + q)) < 2147483648" "m ! (p * n + q) = m ! (q * n + p)" "p = q \<Longrightarrow> m ! (p * n + q) = 0"
  using assms unfolding gen_inv_def by blast+

lemma gen_inv_mono:
  assumes "gen_inv n i j m" "\<And>p q. p < n \<Longrightarrow> q < n \<Longrightarrow> cell_done i' j' p q \<Longrightarrow> cell_done i j p q"
  shows "gen_inv n i' j' m"
  using assms unfolding gen_inv_def by blast

lemma gen_inv_diag:
  assumes "gen_inv n i i m" "i < n"
  shows "arr_set m (i * n + i) 0 = Inr (m[i * n + i := 0])" "gen_inv n i (i + 1) (m[i * n + i := 0])"
proof -
  show "arr_set m (i * n + i) 0 = Inr (m[i * n + i := 0])"
    using assms by (simp add: gen_inv_def cell_bound)
  show "gen_inv n i (i + 1) (m[i * n + i := 0])"
    unfolding gen_inv_def
  proof (intro conjI allI impI)
    show "length (m[i * n + i := 0]) = n * n" using assms(1) by (simp add: gen_inv_def)
    fix p q assume pq: "p < n" "q < n" "cell_done i (i + 1) p q"
    have nth: "m[i * n + i := 0] ! (a * n + b) = (if a = i \<and> b = i then 0 else m ! (a * n + b))" if "a < n" "b < n" for a b
      using assms that cell_inject [of b n i a i] by (auto simp: gen_inv_def nth_list_update cell_bound)
    have "p = i \<and> q = i \<or> cell_done i i p q" using pq(3) by (auto simp: cell_done_def)
    then show "unat (m[i * n + i := 0] ! (p * n + q)) < 2147483648"
      "m[i * n + i := 0] ! (p * n + q) = m[i * n + i := 0] ! (q * n + p)"
      "p = q \<Longrightarrow> m[i * n + i := 0] ! (p * n + q) = 0"
      using nth pq(1,2) assms(1) unfolding gen_inv_def by auto
  qed
qed

lemma either_index: "(if P then w else if Q then w else x) = (if Q \<or> P then w else x)"
  by simp

lemma gen_inv_edge:
  assumes "gen_inv n i j m" "i < j" "j < n" "unat w < 2147483648"
  shows "bindR (arr_set m (i * n + j) w) (\<lambda>m. arr_set m (j * n + i) w) = Inr (m[i * n + j := w, j * n + i := w])"
    and "gen_inv n i (j + 1) (m[i * n + j := w, j * n + i := w])"
proof -
  let ?m = "m[i * n + j := w, j * n + i := w]"
  have len: "length m = n * n" and i: "i < n" using assms by (simp_all add: gen_inv_def)
  show "bindR (arr_set m (i * n + j) w) (\<lambda>m. arr_set m (j * n + i) w) = Inr ?m"
    using assms(3) i by (simp add: len cell_bound)
  show "gen_inv n i (j + 1) ?m"
    unfolding gen_inv_def
  proof (intro conjI allI impI)
    show "length ?m = n * n" using len by simp
    fix p q assume pq: "p < n" "q < n" "cell_done i (j + 1) p q"
    have nth: "?m ! (a * n + b) = (if a = i \<and> b = j \<or> a = j \<and> b = i then w else m ! (a * n + b))" if "a < n" "b < n" for a b
    proof -
      have c: "(j * n + i = a * n + b) = (a = j \<and> b = i)" "(i * n + j = a * n + b) = (a = i \<and> b = j)"
        unfolding cell_inject [OF i that(2)] cell_inject [OF assms(3) that(2)] by (simp_all only: eq_commute [of j a] eq_commute [of i b] eq_commute [of i a] eq_commute [of j b])
      have f1: "?m ! (a * n + b) = (if j * n + i = a * n + b then w else m[i * n + j := w] ! (a * n + b))"
        by (rule nth_list_update) (simp add: len cell_bound i assms(3))
      have f2: "m[i * n + j := w] ! (a * n + b) = (if i * n + j = a * n + b then w else m ! (a * n + b))"
        by (rule nth_list_update) (simp add: len cell_bound i assms(3))
      show ?thesis
        unfolding f1 f2 c by (rule either_index)
    qed
    have other: "cell_done i j p q" if "\<not> (p = i \<and> q = j \<or> p = j \<and> q = i)"
      using pq(3) that by (auto simp: cell_done_def)
    note nth_pq = nth [OF pq(1,2)] nth [OF pq(2,1)] and old = gen_invD [OF assms(1) pq(1,2) other]
    show "unat (?m ! (p * n + q)) < 2147483648"
      unfolding nth_pq(1) using old(1) assms(4) by simp
    show "?m ! (p * n + q) = ?m ! (q * n + p)"
      unfolding nth_pq using old(2) by auto
    show "?m ! (p * n + q) = 0" if "p = q"
      unfolding nth_pq(1) using old(3) that assms(2) by auto
  qed
qed

text \<open>One row of the matrix.\<close>

lemma kgenerate_row:
  assumes "gen_inv n i (i + 1) m" "i < n"
  shows "\<exists>k' m'. for_each [i + 1..<n] (\<lambda>j (k, mat).
     let temp = rnd k mod 10000 + 1; temp = (if rate * 100 < temp then INT_MAX else temp) in
     bindR (arr_set mat (i * n + j) temp) (\<lambda>mat.
     bindR (arr_set mat (j * n + i) temp) (\<lambda>mat. Inr (Suc k, mat)))) (k, m) = Inr (k', m') \<and> gen_inv n i n m'"
proof -
  let ?f = "\<lambda>j (k :: nat, mat). let temp = rnd k mod 10000 + 1; temp = (if rate * 100 < temp then INT_MAX else temp) in
     bindR (arr_set mat (i * n + j) temp) (\<lambda>mat. bindR (arr_set mat (j * n + i) temp) (\<lambda>mat. Inr (Suc k, mat)))"
  have "\<exists>s. for_each [i + 1..<n] ?f (k, m) = Inr s \<and> gen_inv n i n (snd s)"
  proof (rule for_range_invariant [where Inv = "\<lambda>j s. gen_inv n i j (snd s)"])
    fix j and s :: "nat \<times> u32 list" assume j: "i + 1 \<le> j" "j < n" "gen_inv n i j (snd s)"
    obtain k m where s: "s = (k, m)" by (cases s)
    let ?w = "edge_weight rnd rate k"
    have g: "bindR (arr_set m (i * n + j) ?w) (\<lambda>m. arr_set m (j * n + i) ?w) = Inr (m[i * n + j := ?w, j * n + i := ?w])"
      "gen_inv n i (j + 1) (m[i * n + j := ?w, j * n + i := ?w])"
      using gen_inv_edge [of n i j m ?w] j edge_weight_small s by simp_all
    have "?f j s = bindR (bindR (arr_set m (i * n + j) ?w) (\<lambda>m. arr_set m (j * n + i) ?w)) (\<lambda>m. Inr (Suc k, m))"
      by (simp add: s edge_weight_def Let_def bindR_assoc)
    also have "\<dots> = Inr (Suc k, m[i * n + j := ?w, j * n + i := ?w])" by (simp add: g(1))
    finally show "\<exists>s'. ?f j s = Inr s' \<and> gen_inv n i (Suc j) (snd s')" using g(2) by simp
  qed (use assms in simp_all)
  then obtain s where "for_each [i + 1..<n] ?f (k, m) = Inr s" "gen_inv n i n (snd s)" by blast
  then show ?thesis by (cases s) auto
qed

lemma kgenerate_result:
  assumes "length m = n * n"
  shows "\<exists>m'. kgenerate_weights rnd n rate m = Inr m' \<and> gen_inv n n n m'"
proof -
  let ?row = "\<lambda>i (k, mat). bindR (arr_set mat (i * n + i) 0) (\<lambda>mat. for_each [i + 1..<n] (\<lambda>j (k, mat).
     let temp = rnd k mod 10000 + 1; temp = (if rate * 100 < temp then INT_MAX else temp) in
     bindR (arr_set mat (i * n + j) temp) (\<lambda>mat.
     bindR (arr_set mat (j * n + i) temp) (\<lambda>mat. Inr (Suc k, mat)))) (k, mat))"
  have "\<exists>s. for_each [0..<n] ?row (0, m) = Inr s \<and> gen_inv n n n (snd s)"
  proof (rule for_range_invariant [where Inv = "\<lambda>i s. gen_inv n i i (snd s)"])
    show "gen_inv n 0 0 (snd (0, m))" using assms by (simp add: gen_inv_def cell_done_def)
    fix i and s :: "nat \<times> u32 list" assume i: "i < n" "gen_inv n i i (snd s)"
    obtain k m where s: "s = (k, m)" by (cases s)
    note d = gen_inv_diag [OF i(2) [unfolded s snd_conv] i(1)]
    obtain k' m' where r: "?row i s = Inr (k', m')" "gen_inv n i n m'"
      using kgenerate_row [OF d(2) i(1), of rnd rate k] d(1) by (auto simp: s)
    have "gen_inv n (Suc i) (Suc i) m'"
      by (rule gen_inv_mono [OF r(2)]) (auto simp: cell_done_def)
    then show "\<exists>s'. ?row i s = Inr s' \<and> gen_inv n (Suc i) (Suc i) (snd s')"
      using r(1) by simp
  qed simp
  then show ?thesis by (auto simp: kgenerate_weights_def)
qed

lemma gen_inv_ok:
  assumes "gen_inv n n n m" "n * n < 2 ^ 31"
  shows "fw_ok n m"
proof -
  have c: "unat (m ! (p * n + q)) < 2147483648" "p = q \<Longrightarrow> m ! (p * n + q) = 0" if "p < n" "q < n" for p q
    using assms(1) that by (simp_all add: gen_inv_def cell_done_def)
  have "unat (m ! d) < 2147483648" if "d < n * n" for d
  proof -
    have "d div n < n" "d mod n < n" using that by (cases n; simp add: less_mult_imp_div_less)+
    from c(1) [OF this] show ?thesis by simp
  qed
  then show ?thesis using c(2) assms by (simp add: fw_ok_def gen_inv_def)
qed

section \<open>The two programs\<close>

lemma fw_both_agree:
  assumes st: "fw_ready st" and n: "0 < n" "16 dvd n" "n * n < 2 ^ 31" and len: "length mat = n * n"
    and order: "run_order st (n + 2) = 0 # ks @ [n + 1]" "set ks = {1..n}"
  shows "\<exists>m out st'. kgenerate_weights rnd n rate mat = Inr m \<and>
     (\<forall>p<n. \<forall>q<n. m ! (p * n + q) = m ! (q * n + p)) \<and>
     floyd_warshall_launch a (of_nat (n * n)) (st\<lparr>host_mem := (host_mem st)(a \<mapsto> m @ rest)\<rparr>) = Inr (0, st') \<and>
     host_mem st' a = Some (out @ rest) \<and> kfloyd_warshall_cpu m n = Inr out \<and> shortest_weights n m out"
proof -
  obtain m where m: "kgenerate_weights rnd n rate mat = Inr m" "gen_inv n n n m"
    using kgenerate_result [OF len] by blast
  have ok: "fw_ok n m" by (rule gen_inv_ok [OF m(2) n(3)])
  then have lm: "length m = n * n" by (simp add: fw_ok_def)
  obtain out where cpu: "kfloyd_warshall_cpu m n = Inr out" "shortest_weights n m out"
    using cpu_result [OF ok] by blast
  let ?st = "st\<lparr>host_mem := (host_mem st)(a \<mapsto> m @ rest)\<rparr>"
  let ?Q = "\<lambda>h. h a = Some (out @ rest)"
  have "\<exists>st'. floyd_warshall_launch a (of_nat (n * n)) ?st = Inr (0, st') \<and> ?Q (host_mem st') \<and> fw_ready st' \<and>
      buffers st' = (buffers ?st)(next_buf ?st := None)"
  proof (rule launch_result [OF _ n(1,3,2)])
    show "fw_ready ?st" using st by (simp add: fw_ready_def)
    show "unat (of_nat (n * n) :: u32) = n * n" using small_square(2) [OF n(3)] by simp
    fix st1 cs assume cs: "request_commands (next_buf ?st) a n cs" and f: "filling ?st n st1"
    have s1: "host_mem st1 a = Some (m @ rest)"
        "buffers st1 (next_buf ?st) = Some (pl_junk (plat st) (next_buf st) (4 * (n * n)))"
        "length (pl_junk (plat st) (next_buf st) (4 * (n * n))) = 4 * (n * n)"
      using f st by (simp_all add: filling_def fw_ready_def good_platform_def)
    obtain o' bs' where r: "for_each (0 # ks @ [Suc n]) (\<lambda>i. run_command (cs ! i)) st1 =
        Inr (st1\<lparr>buffers := (buffers st1)(next_buf ?st \<mapsto> bs'),
          host_mem := (host_mem st1)(a \<mapsto> o' @ drop (n * n) (m @ rest))\<rparr>)"
      "shortest_weights n (take (n * n) (m @ rest)) o'"
      using commands_in_order [OF cs order(2) n(2) _ s1] ok lm by auto
    have "o' = out" using shortest_weights_unique r(2) cpu(2) lm by simp
    then show "\<exists>bs' h. for_each (run_order ?st (n + 2)) (\<lambda>i. run_command (cs ! i)) st1 =
        Inr (st1\<lparr>buffers := (buffers st1)(next_buf ?st \<mapsto> bs'), host_mem := h\<rparr>) \<and> ?Q h"
      using r(1) order(1) lm
      by (intro exI [of _ bs'] exI [of _ "(host_mem st1)(a \<mapsto> out @ rest)"]) simp
  qed
  moreover have "\<forall>p<n. \<forall>q<n. m ! (p * n + q) = m ! (q * n + p)"
    using gen_invD(2) [OF m(2)] by (simp add: cell_done_def)
  ultimately show ?thesis using m(1) cpu by blast
qed



end
