(* ===== verification/QH_Module_Runs.thy ===== *)
theory QH_Module_Runs
  imports QH_Bfs_Results QH_Floyd_Module
begin

text \<open>
  The runs of the client modules of the breadth-first search and of the shortest paths (\<open>minit\<close> of
  \<open>bfs_module.c\<close> and \<open>floyd_warshall_module.c\<close>), with the services behind their synchronous calls. The result
  is what a run prints, without times; \<open>None\<close> is the return without a request. A block that
  \<open>__get_free_pages\<close> refuses, which the code does not test, is a block without cells: every access to it is a fault.
\<close>

definition MAT_SIZE :: nat where "MAT_SIZE = 1024"

text \<open>\<open>kprint_adjacency_matrix\<close>, the same in both modules: the first eight cells of the first eight rows.\<close>

definition kprint_adjacency_matrix :: "u32 list \<Rightarrow> nat \<Rightarrow> u32 list res" where
  "kprint_adjacency_matrix adj_mat mat_size =
     for_each (List.product [0..<8] [0..<8]) (\<lambda>(i, j) out.
       bindR (arr_get adj_mat (i * mat_size + j)) (\<lambda>x. Inr (out @ [x]))) []"

section \<open>The breadth-first search\<close>

text \<open>The blocks for the search on the CPU. \<open>h_cost\<close> is filled but not used: it is then the memory of the request.\<close>

record bfs_pages =
  bp_mat :: "u32 list"
  bp_nodes :: "node list"
  bp_edges :: "u32 list"
  bp_mask :: "bool list"
  bp_updating :: "bool list"
  bp_visited :: "bool list"
  bp_cost :: "u32 list"
  bp_cost_ref :: "u32 list"

text \<open>\<open>area\<close> is the memory of the request, \<open>call\<close> what the synchronous call with a size leaves there.\<close>

definition bfs_minit ::
  "bool \<Rightarrow> (nat \<Rightarrow> u32) \<Rightarrow> bfs_pages \<Rightarrow> u32 list \<Rightarrow> (u32 list \<Rightarrow> nat \<Rightarrow> u32 list res option) \<Rightarrow>
   (u32 list \<times> bool) option res option" where
  "bfs_minit req rnd pg area call =
     (if \<not> req then Some (Inr None)
      else bindO (Some (kgenerate_adjacency_matrix rnd MAT_SIZE 30 (bp_mat pg))) (\<lambda>mat.
        bindO (Some (kprint_adjacency_matrix mat MAT_SIZE)) (\<lambda>printed.
        bindO (Some (convert_to_exd mat MAT_SIZE area)) (\<lambda>(data_size, area).
        bindO (module_search area (of_nat MAT_SIZE) (bp_nodes pg, bp_mask pg, bp_updating pg, bp_visited pg)
          (bp_edges pg) (bp_cost_ref pg)) (\<lambda>(_, _, _, cost_ref).
        bindO (Some (bindR (init_costs MAT_SIZE (bp_cost pg)) (\<lambda>c. arr_set c 0 0))) (\<lambda>_.
        bindO (call area (unat data_size)) (\<lambda>area.
        bindO (Some (compare_results area cost_ref MAT_SIZE)) (\<lambda>passed.
        Some (Inr (Some (printed, passed)))))))))))"

text \<open>The service as the other end of the call.\<close>

definition bfs_call :: "handles \<Rightarrow> u32 list \<Rightarrow> nat \<Rightarrow> u32 list res option" where
  "bfs_call st area sz = bindO (bfs_launch area sz st) (\<lambda>(_, out, _). Some (Inr out))"

lemma kprint_result:
  assumes "8 \<le> n" and "n * n \<le> length mat"
  shows "kprint_adjacency_matrix mat n = Inr (map (\<lambda>(i, j). mat ! (i * n + j)) (List.product [0..<8] [0..<8]))"
proof -
  have "\<exists>r. kprint_adjacency_matrix mat n = Inr r \<and>
      r = map (\<lambda>(i, j). mat ! (i * n + j)) (List.product [0..<8] [0..<8])"
    unfolding kprint_adjacency_matrix_def
  proof (rule for_each_prefix [where Inv = "\<lambda>ys r. r = map (\<lambda>(i, j). mat ! (i * n + j)) ys"])
    fix ys c zs and r :: "u32 list"
    assume xs: "List.product [0..<8] [0..<8] = ys @ c # zs" and r: "r = map (\<lambda>(i, j). mat ! (i * n + j)) ys"
    obtain i j where c: "c = (i, j)"
      by (cases c)
    have "c \<in> set (List.product [0..<8] [0..<8 :: nat])"
      unfolding xs by simp
    then have "i * n + j < n * n"
      using cell_bound [of i n j] assms(1) by (simp add: c)
    then have "i * n + j < length mat"
      using assms(2) by simp
    then show "\<exists>r'. (case c of (i, j) \<Rightarrow> \<lambda>out. bindR (arr_get mat (i * n + j)) (\<lambda>x. Inr (out @ [x]))) r = Inr r' \<and>
        r' = map (\<lambda>(i, j). mat ! (i * n + j)) (ys @ [c])"
      by (simp add: c r)
  qed simp
  then show ?thesis
    by blast
qed

text \<open>The generator writes every cell of a matrix once or twice and no other cell.\<close>

lemma kgenerate_length:
  assumes "n * n \<le> length mat"
  shows "\<exists>m. kgenerate_adjacency_matrix rnd n rate mat = Inr m \<and> length m = length mat"
proof -
  have set_ok: "\<exists>m'. arr_set m (i * n + j) x = Inr m' \<and> length m' = length mat"
    if "i < n" "j < n" "length m = length mat" for m i j and x :: u32
    using that assms cell_bound [of i n j] by simp
  have row: "\<exists>s'. for_each [i + 1..<n] (\<lambda>j (k, mat).
         let temp = rnd k mod 10000 + 1; temp = (if rate * 100 < temp then 0 else temp) in
         bindR (arr_set mat (i * n + j) temp) (\<lambda>mat.
         bindR (arr_set mat (j * n + i) temp) (\<lambda>mat. Inr (Suc k, mat)))) (k, m) = Inr s' \<and> length (snd s') = length mat"
    if i: "i < n" and l: "length m = length mat" for i k m
  proof (rule for_range_invariant [where Inv = "\<lambda>j s. length (snd s) = length mat"])
    fix j and s :: "nat \<times> u32 list"
    assume j: "j < n" and s: "length (snd s) = length mat"
    obtain k m where s': "s = (k, m)"
      by (cases s)
    let ?w = "if rate * 100 < rnd k mod 10000 + 1 then 0 else rnd k mod 10000 + 1"
    obtain m1 where m1: "arr_set m (i * n + j) ?w = Inr m1" "length m1 = length mat"
      using set_ok [OF i j, of m ?w] s s' by auto
    obtain m2 where "arr_set m1 (j * n + i) ?w = Inr m2" "length m2 = length mat"
      using set_ok [OF j i m1(2), of ?w] by auto
    then show "\<exists>s'. (case s of (k, mat) \<Rightarrow>
         let temp = rnd k mod 10000 + 1; temp = (if rate * 100 < temp then 0 else temp) in
         bindR (arr_set mat (i * n + j) temp) (\<lambda>mat.
         bindR (arr_set mat (j * n + i) temp) (\<lambda>mat. Inr (Suc k, mat)))) = Inr s' \<and> length (snd s') = length mat"
      using m1 by (simp add: s' Let_def)
  qed (use i l in simp_all)
  have "\<exists>s. for_each [0..<n] (\<lambda>i (k, mat).
       bindR (arr_set mat (i * n + i) 0) (\<lambda>mat.
       for_each [i + 1..<n] (\<lambda>j (k, mat).
         let temp = rnd k mod 10000 + 1; temp = (if rate * 100 < temp then 0 else temp) in
         bindR (arr_set mat (i * n + j) temp) (\<lambda>mat.
         bindR (arr_set mat (j * n + i) temp) (\<lambda>mat. Inr (Suc k, mat)))) (k, mat))) (0, mat) = Inr s \<and>
      length (snd s) = length mat"
  proof (rule for_range_invariant [where Inv = "\<lambda>i s. length (snd s) = length mat"])
    fix i and s :: "nat \<times> u32 list"
    assume i: "i < n" and s: "length (snd s) = length mat"
    obtain k m where s': "s = (k, m)"
      by (cases s)
    obtain m1 where m1: "arr_set m (i * n + i) 0 = Inr m1" "length m1 = length mat"
      using set_ok [OF i i, of m 0] s s' by auto
    then show "\<exists>s''. (case s of (k, mat) \<Rightarrow>
       bindR (arr_set mat (i * n + i) 0) (\<lambda>mat.
       for_each [i + 1..<n] (\<lambda>j (k, mat).
         let temp = rnd k mod 10000 + 1; temp = (if rate * 100 < temp then 0 else temp) in
         bindR (arr_set mat (i * n + j) temp) (\<lambda>mat.
         bindR (arr_set mat (j * n + i) temp) (\<lambda>mat. Inr (Suc k, mat)))) (k, mat))) = Inr s'' \<and> length (snd s'') = length mat"
      using row [OF i m1(2), of k] by (simp add: s')
  qed simp_all
  then show ?thesis
    by (auto simp: kgenerate_adjacency_matrix_def map_res_eq_Inr)
qed

lemma MAT_SIZE_facts: "0 < MAT_SIZE" "MAT_SIZE \<le> 1024" "8 \<le> MAT_SIZE" "16 dvd MAT_SIZE" "MAT_SIZE * MAT_SIZE < 2 ^ 31"
  by (simp_all add: MAT_SIZE_def)

text \<open>The blocks are there: one page block holds \<open>MAT_SIZE * MAT_SIZE\<close> integers.\<close>

definition bfs_pages_ok :: "bfs_pages \<Rightarrow> bool" where
  "bfs_pages_ok pg \<longleftrightarrow> length (bp_mat pg) = MAT_SIZE * MAT_SIZE \<and> MAT_SIZE * MAT_SIZE \<le> length (bp_edges pg) \<and>
     (\<forall>k\<in>{length (bp_nodes pg), length (bp_mask pg), length (bp_updating pg), length (bp_visited pg),
        length (bp_cost pg), length (bp_cost_ref pg)}. MAT_SIZE \<le> k)"


text \<open>A run in which all random numbers are too big for an edge.\<close>

lemma kgenerate_empty:
  "kgenerate_adjacency_matrix (\<lambda>_. 5000) n 30 (replicate (n * n) 0) = Inr (replicate (n * n) 0)"
proof -
  have same: "arr_set (replicate (n * n) 0) (i * n + j) (0 :: u32) = Inr (replicate (n * n) 0)" if "i < n" "j < n" for i j
    using cell_bound [OF that] by (simp add: list_update_same_conv)
  have inner: "\<exists>s'. for_each [i + 1..<n] (\<lambda>j (k :: nat, mat).
         bindR (arr_set mat (i * n + j) 0) (\<lambda>mat. bindR (arr_set mat (j * n + i) (0 :: u32)) (\<lambda>mat. Inr (Suc k, mat))))
         (k, replicate (n * n) 0) = Inr s' \<and> snd s' = replicate (n * n) 0" if i: "i < n" for i k
  proof (rule for_range_invariant [where Inv = "\<lambda>j s. snd s = replicate (n * n) 0"])
    fix j and s :: "nat \<times> u32 list"
    assume "j < n" "snd s = replicate (n * n) 0"
    then show "\<exists>s'. (case s of (k, mat) \<Rightarrow> bindR (arr_set mat (i * n + j) 0) (\<lambda>mat.
        bindR (arr_set mat (j * n + i) 0) (\<lambda>mat. Inr (Suc k, mat)))) = Inr s' \<and> snd s' = replicate (n * n) 0"
      using same [OF i, of j] same [of j i] i by (cases s) simp
  qed (use i in simp_all)
  have "\<exists>s. for_each [0..<n] (\<lambda>i (k :: nat, mat). bindR (arr_set mat (i * n + i) 0) (\<lambda>mat.
      for_each [i + 1..<n] (\<lambda>j (k, mat). bindR (arr_set mat (i * n + j) 0) (\<lambda>mat.
        bindR (arr_set mat (j * n + i) (0 :: u32)) (\<lambda>mat. Inr (Suc k, mat)))) (k, mat))) (0, replicate (n * n) 0) = Inr s \<and>
      snd s = replicate (n * n) 0"
  proof (rule for_range_invariant [where Inv = "\<lambda>i s. snd s = replicate (n * n) 0"])
    fix i and s :: "nat \<times> u32 list"
    assume i: "i < n" and s: "snd s = replicate (n * n) 0"
    obtain k where s': "s = (k, replicate (n * n) 0)"
      using s by (cases s) simp
    show "\<exists>s'. (case s of (k, mat) \<Rightarrow> bindR (arr_set mat (i * n + i) 0) (\<lambda>mat.
      for_each [i + 1..<n] (\<lambda>j (k, mat). bindR (arr_set mat (i * n + j) 0) (\<lambda>mat.
        bindR (arr_set mat (j * n + i) 0) (\<lambda>mat. Inr (Suc k, mat)))) (k, mat))) = Inr s' \<and> snd s' = replicate (n * n) 0"
      using same [OF i i] inner [OF i, of k] by (simp add: s')
  qed simp_all
  then show ?thesis
    by (auto simp: kgenerate_adjacency_matrix_def map_res_eq_Inr Let_def)
qed

lemma empty_memory: "length (matrix_memory (replicate (n * n) 0) n) = 2 * n + 3"
proof -
  have "row (replicate (n * n) 0) n i = []" if "i < n" for i
    using cell_bound [OF that] by (simp add: row_def filter_empty_conv)
  then have "matrix_edges (replicate (n * n) 0) n = []"
    by (simp add: matrix_edges_def)
  then show ?thesis
    by (simp add: length_matrix_memory)
qed

definition example_pages :: bfs_pages where
  "example_pages = \<lparr>bp_mat = replicate (MAT_SIZE * MAT_SIZE) 0, bp_nodes = replicate MAT_SIZE \<lparr>starting = 1, no_of_edges = 1\<rparr>,
     bp_edges = replicate (MAT_SIZE * MAT_SIZE) 5, bp_mask = replicate MAT_SIZE True,
     bp_updating = replicate MAT_SIZE True, bp_visited = replicate MAT_SIZE True,
     bp_cost = replicate MAT_SIZE 3, bp_cost_ref = replicate MAT_SIZE 4\<rparr>"


section \<open>The shortest paths\<close>

text \<open>\<open>page\<close> is the block for the matrix of the CPU.\<close>

definition fw_minit ::
  "bool \<Rightarrow> (nat \<Rightarrow> u32) \<Rightarrow> u32 list \<Rightarrow> u32 list \<Rightarrow> (u32 list \<Rightarrow> u32 list res) \<Rightarrow>
   (u32 list \<times> u32 list \<times> u32 list) option res" where
  "fw_minit req rnd page area call =
     (if \<not> req then Inr None
      else bindR (kgenerate_weights rnd MAT_SIZE 50 page) (\<lambda>mat.
        bindR (if length area < MAT_SIZE * MAT_SIZE \<or> length mat < MAT_SIZE * MAT_SIZE then Inl Buffer_overflow
               else Inr (take (MAT_SIZE * MAT_SIZE) mat @ drop (MAT_SIZE * MAT_SIZE) area)) (\<lambda>area.
        bindR (kprint_adjacency_matrix area MAT_SIZE) (\<lambda>before.
        bindR (call area) (\<lambda>area.
        bindR (kprint_adjacency_matrix area MAT_SIZE) (\<lambda>by_gpu.
        bindR (kfloyd_warshall_cpu mat MAT_SIZE) (\<lambda>mat.
        bindR (kprint_adjacency_matrix mat MAT_SIZE) (\<lambda>by_cpu.
        Inr (Some (before, by_gpu, by_cpu))))))))))"

text \<open>The service as the other end of the call; the memory of the request is at \<open>a\<close> in the helper.\<close>

definition fw_call :: "nat \<Rightarrow> fw_data \<Rightarrow> u32 list \<Rightarrow> u32 list res" where
  "fw_call a st area =
     bindR (floyd_warshall_launch a (of_nat (MAT_SIZE * MAT_SIZE)) (st\<lparr>host_mem := (host_mem st)(a \<mapsto> area)\<rparr>)) (\<lambda>(_, st).
     heap_get (host_mem st) a)"

text \<open>A run prints the same cells for the service as for the program on the CPU.\<close>

theorem fw_module_run:
  assumes "fw_ready st" and "length page = MAT_SIZE * MAT_SIZE" and "MAT_SIZE * MAT_SIZE \<le> length area"
    and "run_order st (MAT_SIZE + 2) = 0 # ks @ [MAT_SIZE + 1]" and "set ks = {1..MAT_SIZE}"
  shows "\<exists>m out before printed. kgenerate_weights rnd MAT_SIZE 50 page = Inr m \<and> shortest_weights MAT_SIZE m out \<and>
    kprint_adjacency_matrix out MAT_SIZE = Inr printed \<and>
    fw_minit True rnd page area (fw_call a st) = Inr (Some (before, printed, printed))"
proof -
  let ?rest = "drop (MAT_SIZE * MAT_SIZE) area"
  obtain m out st' where run: "kgenerate_weights rnd MAT_SIZE 50 page = Inr m"
    "floyd_warshall_launch a (of_nat (MAT_SIZE * MAT_SIZE)) (st\<lparr>host_mem := (host_mem st)(a \<mapsto> m @ ?rest)\<rparr>) = Inr (0, st')"
    "host_mem st' a = Some (out @ ?rest)" "kfloyd_warshall_cpu m MAT_SIZE = Inr out" "shortest_weights MAT_SIZE m out"
    using fw_both_agree [OF assms(1) MAT_SIZE_facts(1,4,5) assms(2,4,5), of rnd 50 a ?rest] by blast
  obtain m' where "kgenerate_weights rnd MAT_SIZE 50 page = Inr m'" "gen_inv MAT_SIZE MAT_SIZE MAT_SIZE m'"
    using kgenerate_result [OF assms(2)] by blast
  then have m: "length m = MAT_SIZE * MAT_SIZE"
    using run(1) by (simp add: gen_inv_def)
  have out: "length out = MAT_SIZE * MAT_SIZE"
    using run(5) by (simp add: shortest_weights_def)
  have print: "kprint_adjacency_matrix (xs @ ?rest) MAT_SIZE = kprint_adjacency_matrix xs MAT_SIZE"
    "\<exists>cells. kprint_adjacency_matrix xs MAT_SIZE = Inr cells" if l: "length xs = MAT_SIZE * MAT_SIZE" for xs
  proof -
    have "map (\<lambda>(i, j). (xs @ ?rest) ! (i * MAT_SIZE + j)) (List.product [0..<8] [0..<8]) =
        map (\<lambda>(i, j). xs ! (i * MAT_SIZE + j)) (List.product [0..<8] [0..<8])"
    proof (rule map_cong [OF refl])
      fix c :: "nat \<times> nat"
      assume c: "c \<in> set (List.product [0..<8] [0..<8])"
      obtain i j where ij: "c = (i, j)"
        by (cases c)
      have "i * MAT_SIZE + j < length xs"
        unfolding l by (rule cell_bound) (use c MAT_SIZE_facts(3) in \<open>auto simp: ij\<close>)
      then show "(case c of (i, j) \<Rightarrow> (xs @ ?rest) ! (i * MAT_SIZE + j)) = (case c of (i, j) \<Rightarrow> xs ! (i * MAT_SIZE + j))"
        by (simp add: ij nth_append)
    qed
    then show "kprint_adjacency_matrix (xs @ ?rest) MAT_SIZE = kprint_adjacency_matrix xs MAT_SIZE"
      using kprint_result [OF MAT_SIZE_facts(3), of xs] kprint_result [OF MAT_SIZE_facts(3), of "xs @ ?rest"] l by simp
    show "\<exists>cells. kprint_adjacency_matrix xs MAT_SIZE = Inr cells"
      using kprint_result [OF MAT_SIZE_facts(3), of xs] l by simp
  qed
  obtain before printed where p: "kprint_adjacency_matrix m MAT_SIZE = Inr before"
    "kprint_adjacency_matrix out MAT_SIZE = Inr printed"
    using print(2) [OF m] print(2) [OF out] by blast
  have "fw_minit True rnd page area (fw_call a st) = Inr (Some (before, printed, printed))"
    using run(1-4) m p print(1) [OF m] print(1) [OF out] assms(3) by (simp add: fw_minit_def fw_call_def)
  then show ?thesis
    using run(1,5) p(2) by blast
qed

end
