(* ===== verification/QH_Firewall.thy ===== *)
theory QH_Firewall
  imports QH_OpenCL
begin

text \<open>
  The packet filters that run in the kernel: \<open>src/test_module/cpu_firewall/cpu_firewall_module.c\<close>, which looks the
  source of a packet up in a table, the hook of
  \<open>src/test_module/gpu_firewall/gpu_firewall_module.c\<close>, which hands packets to the helper, and
  \<open>src/test_module/netfilter_firewall/netfilter_firewall_module.c\<close>, which keeps a list of addresses that user
  space adds to. Addresses are in network order, as the first byte is the lowest of the word.
\<close>

section \<open>Packets\<close>

datatype verdict = NF_DROP | NF_ACCEPT | NF_QUEUE

text \<open>The fields of \<open>struct iphdr\<close> that the filters look at.\<close>

record iphdr =
  protocol :: u8
  saddr :: u32

definition IPPROTO_TCP :: u8 where "IPPROTO_TCP = 6"
definition IPPROTO_UDP :: u8 where "IPPROTO_UDP = 17"

definition is_tcp_udp :: "iphdr \<Rightarrow> bool" where
  "is_tcp_udp iph \<longleftrightarrow> protocol iph = IPPROTO_TCP \<or> protocol iph = IPPROTO_UDP"

section \<open>Addresses as text\<close>

text \<open>\<open>%d\<close> of \<open>sscanf\<close>: white space, a sign, digits. A number that does not fit wraps around.\<close>

definition is_digit :: "char \<Rightarrow> bool" where
  "is_digit c \<longleftrightarrow> 48 \<le> (of_char c :: nat) \<and> (of_char c :: nat) \<le> 57"

fun scan_digits :: "u32 \<Rightarrow> string \<Rightarrow> u32 \<times> string" where
  "scan_digits n [] = (n, [])"
| "scan_digits n (c # cs) = (if is_digit c then scan_digits (10 * n + of_nat (of_char c - 48)) cs else (n, c # cs))"

definition is_blank :: "char \<Rightarrow> bool" where
  "is_blank c \<longleftrightarrow> (of_char c :: nat) = 32 \<or> 9 \<le> (of_char c :: nat) \<and> (of_char c :: nat) \<le> 13"

definition scan_int :: "string \<Rightarrow> (u32 \<times> string) option" where
  "scan_int s = (
     let s = dropWhile is_blank s; neg = (s \<noteq> [] \<and> hd s = CHR ''-'');
         s = (if neg \<or> s \<noteq> [] \<and> hd s = CHR ''+'' then tl s else s) in
     if s = [] \<or> \<not> is_digit (hd s) then None
     else let (n, rest) = scan_digits 0 s in Some (if neg then - n else n, rest))"

text \<open>\<open>sscanf (str, "%d.%d.%d.%d ", ...)\<close>: what does not match stays 0.\<close>

fun scan_fields :: "nat \<Rightarrow> string \<Rightarrow> u32 list" where
  "scan_fields 0 s = []"
| "scan_fields (Suc k) s = (case scan_int s of
     None \<Rightarrow> replicate (Suc k) 0
   | Some (n, rest) \<Rightarrow> n # (if k \<noteq> 0 \<and> rest \<noteq> [] \<and> hd rest = CHR ''.'' then scan_fields k (tl rest) else replicate k 0))"

definition inet_aton :: "string \<Rightarrow> u64" where
  "inet_aton str = (
     let iaddr = scan_fields 4 str;
         addr = map ucast iaddr :: u8 list;
         result = fold (\<lambda>i result. push_bit 8 (or result (ucast (addr ! i)))) [3, 2, 1] 0 in
     or result (ucast (addr ! 0)))"

section \<open>cpu_firewall_module.c\<close>

record cpu_filter =
  packet_id :: u64
  perfo_time :: u64

text \<open>The loop over the table, which ends at the first match.\<close>

fun scan_table :: "string list \<Rightarrow> u64 \<Rightarrow> nat list \<Rightarrow> bool res" where
  "scan_table bad_address a [] = Inr False"
| "scan_table bad_address a (i # is) =
     bindR (arr_get bad_address i) (\<lambda>s. if a = inet_aton s then Inr True else scan_table bad_address a is)"

text \<open>\<open>tt\<close> is the time between the two calls of \<open>do_gettimeofday\<close>.\<close>

definition cpu_main_hook :: "string list \<Rightarrow> u64 \<Rightarrow> iphdr \<Rightarrow> cpu_filter \<Rightarrow> (verdict \<times> cpu_filter) res" where
  "cpu_main_hook bad_address tt iph st = (
     let timed = (\<lambda>st. st\<lparr>perfo_time := perfo_time st + tt\<rparr>) in
     if \<not> is_tcp_udp iph then Inr (NF_ACCEPT, timed st)
     else
       let st = (if 0 < packet_id st div 1024 then st\<lparr>perfo_time := 0, packet_id := 0\<rparr> else st);
           st = st\<lparr>packet_id := packet_id st + 1\<rparr> in
       bindR (scan_table bad_address (ucast (saddr iph)) [0..<2048]) (\<lambda>hit.
       Inr (if hit then NF_DROP else NF_ACCEPT, timed st)))"

definition cpu_init_module :: cpu_filter where
  "cpu_init_module = \<lparr>packet_id = 0, perfo_time = 0\<rparr>"

section \<open>gpu_firewall_module.c\<close>

definition gpu_main_hook :: "iphdr \<Rightarrow> verdict" where
  "gpu_main_hook iph = (if is_tcp_udp iph then NF_QUEUE else NF_ACCEPT)"

section \<open>netfilter_firewall_module.c\<close>

text \<open>The table of addresses to drop, which the hook no longer looks at.\<close>

record filter_list =
  filter_addr :: "u64 list"
  filter_addr_cnt :: u32

definition new_filter_list :: filter_list where
  "new_filter_list = \<lparr>filter_addr = replicate 10 0, filter_addr_cnt = 0\<rparr>"

text \<open>The message that follows the assignment reads the cell behind the new one; its result is printed.\<close>

definition add_addr :: "string \<Rightarrow> filter_list \<Rightarrow> filter_list res" where
  "add_addr addr st =
     bindR (arr_set (filter_addr st) (unat (filter_addr_cnt st)) (inet_aton addr)) (\<lambda>fa.
     let st = st\<lparr>filter_addr := fa, filter_addr_cnt := filter_addr_cnt st + 1\<rparr> in
     bindR (arr_get (filter_addr st) (unat (filter_addr_cnt st))) (\<lambda>_. Inr st))"

text \<open>\<open>struct myprotocol\<close>\<close>

definition ADD_IP :: u32 where "ADD_IP = 1"

record myprotocol =
  cmd :: u32
  addr :: string

definition drop_write :: "myprotocol \<Rightarrow> filter_list \<Rightarrow> (int \<times> filter_list) res" where
  "drop_write pmsg st = (
     if cmd pmsg = ADD_IP then bindR (add_addr (addr pmsg) st) (\<lambda>st. Inr (0, st)) else Inr (0, st))"

definition drop_open :: int where "drop_open = 0"
definition drop_release :: int where "drop_release = 0"

definition netfilter_main_hook :: "iphdr \<Rightarrow> filter_list \<Rightarrow> verdict" where
  "netfilter_main_hook iph st = (
     if protocol iph = IPPROTO_UDP then NF_QUEUE
     else if protocol iph = IPPROTO_TCP then NF_QUEUE else NF_ACCEPT)"

section \<open>Text to addresses and back\<close>

text \<open>A number in decimal, and four of them with dots.\<close>

fun decimal :: "nat \<Rightarrow> string" where
  "decimal n = (if n < 10 then [] else decimal (n div 10)) @ [char_of (48 + n mod 10)]"

declare decimal.simps [simp del]

definition dotted :: "u8 list \<Rightarrow> string" where
  "dotted bs = concat (map (\<lambda>b. CHR ''.'' # decimal (unat b)) bs)"

definition dotted_quad :: "u8 \<Rightarrow> u8 \<Rightarrow> u8 \<Rightarrow> u8 \<Rightarrow> string" where
  "dotted_quad a b c d = tl (dotted [a, b, c, d])"

lemma digit_char:
  assumes "k < 10"
  shows "is_digit (char_of (48 + k :: nat))" "(of_char (char_of (48 + k :: nat)) :: nat) = 48 + k"
    "\<not> is_blank (char_of (48 + k :: nat))" "char_of (48 + k :: nat) \<noteq> CHR ''-''" "char_of (48 + k :: nat) \<noteq> CHR ''+''"
    "char_of (48 + k :: nat) \<noteq> CHR ''.''"
proof -
  show n: "(of_char (char_of (48 + k :: nat)) :: nat) = 48 + k" using assms by simp
  show "is_digit (char_of (48 + k))" "\<not> is_blank (char_of (48 + k))"
    using n assms by (simp_all add: is_digit_def is_blank_def)
  have "char_of (48 + k :: nat) \<noteq> c" if "(of_char c :: nat) < 48" for c
    using n that by auto
  then show "char_of (48 + k :: nat) \<noteq> CHR ''-''" "char_of (48 + k :: nat) \<noteq> CHR ''+''"
    "char_of (48 + k :: nat) \<noteq> CHR ''.''"
    by simp_all
qed

lemma decimal_chars: "c \<in> set (decimal n) \<Longrightarrow> \<exists>k<10. c = char_of (48 + k :: nat)"
proof (induction n rule: decimal.induct)
  case (1 n)
  from "1.prems" consider "\<not> n < 10" "c \<in> set (decimal (n div 10))" | "c = char_of (48 + n mod 10)"
    by (subst (asm) decimal.simps) (auto split: if_splits)
  then show ?case
  proof cases
    case 1
    then show ?thesis using "1.IH" by blast
  next
    case 2
    then show ?thesis by (intro exI [of _ "n mod 10"]) simp
  qed
qed

lemma decimal_not_Nil: "decimal n \<noteq> []"
  by (subst decimal.simps) simp

lemma decimal_digit: "c \<in> set (decimal n) \<Longrightarrow> is_digit c \<and> \<not> is_blank c \<and> c \<notin> {CHR ''-'', CHR ''+'', CHR ''.''}"
  using decimal_chars [of c n] digit_char by auto

text \<open>The value of a list of digits that follows a value.\<close>

definition digits_value :: "u32 \<Rightarrow> string \<Rightarrow> u32" where
  "digits_value = foldl (\<lambda>a c. 10 * a + of_nat (of_char c - 48))"

lemma scan_digits_append:
  "\<forall>c\<in>set ds. is_digit c \<Longrightarrow> scan_digits a (ds @ rest) = scan_digits (digits_value a ds) rest"
  by (induction ds arbitrary: a) (simp_all add: digits_value_def)

lemma digits_value_decimal: "digits_value 0 (decimal n) = of_nat n"
proof (induction n rule: decimal.induct)
  case (1 n)
  have "digits_value 0 (if n < 10 then [] else decimal (n div 10)) = of_nat (n div 10)"
    using 1 by (simp add: digits_value_def)
  then have "digits_value 0 (decimal n) = 10 * of_nat (n div 10) + of_nat (n mod 10)"
    by (subst decimal.simps) (simp add: digits_value_def digit_char(2))
  also have "\<dots> = of_nat (10 * (n div 10) + n mod 10)" by (simp only: of_nat_add of_nat_mult of_nat_numeral)
  finally show ?case by simp
qed

lemma scan_int_decimal:
  assumes "rest = [] \<or> \<not> is_digit (hd rest)"
  shows "scan_int (decimal n @ rest) = Some (of_nat n, rest)"
proof -
  obtain c cs where c: "decimal n = c # cs" using decimal_not_Nil by (cases "decimal n") auto
  have d: "is_digit c" "\<not> is_blank c" "c \<noteq> CHR ''-''" "c \<noteq> CHR ''+''"
    using decimal_digit [of c n] by (simp_all add: c)
  have "scan_digits a rest = (a, rest)" for a
    using assms by (cases rest) auto
  then have "scan_digits 0 (decimal n @ rest) = (of_nat n, rest)"
    using scan_digits_append [of "decimal n" 0 rest] decimal_digit digits_value_decimal by simp
  then show ?thesis
    unfolding c using d by (simp add: scan_int_def Let_def)
qed

lemma dot_ends: "rest = [] \<or> hd rest = CHR ''.'' \<Longrightarrow> rest = [] \<or> \<not> is_digit (hd rest)"
  by (auto simp: is_digit_def)

lemma scan_fields_dotted:
  "bs \<noteq> [] \<Longrightarrow> scan_fields (length bs) (tl (dotted bs)) = map ucast bs"
proof (induction bs)
  case (Cons b bs)
  have tl: "tl (dotted (b # bs)) = decimal (unat b) @ dotted bs"
    by (simp add: dotted_def)
  have hd: "dotted bs = [] \<or> hd (dotted bs) = CHR ''.''"
    by (cases bs) (simp_all add: dotted_def)
  have int: "scan_int (decimal (unat b) @ dotted bs) = Some (ucast b, dotted bs)"
    using scan_int_decimal [OF dot_ends [OF hd], of "unat b"] by simp
  show ?case
  proof (cases bs)
    case Nil
    then show ?thesis using int tl by simp
  next
    case (Cons b' bs')
    then have "dotted bs \<noteq> []" "hd (dotted bs) = CHR ''.''" by (simp_all add: dotted_def)
    then show ?thesis using int tl Cons Cons.IH by simp
  qed
qed simp

text \<open>The lowest byte of an address is the first number of its text.\<close>

definition address_text :: "u32 \<Rightarrow> string" where
  "address_text w = tl (dotted (bytes_of w))"

lemma byte_bit: "bit (b :: u8) n \<Longrightarrow> n < 8"
  using bit_imp_le_length by fastforce

lemma of_bytes_or:
  "of_bytes a b c d = or (ucast a) (or (push_bit 8 (ucast b)) (or (push_bit 16 (ucast c)) (push_bit 24 (ucast d))))"
proof -
  have disj: "x + y = or x y" if "\<And>n. bit x n \<Longrightarrow> \<not> bit y n" for x y :: u32
    by (rule disjunctive_add_eq_or, rule bit_eqI) (use that in \<open>auto simp: bit_simps\<close>)
  have bits: "bit (push_bit k (ucast e :: u32)) n \<Longrightarrow> k \<le> n \<and> n < k + 8" for k n and e :: u8
    using byte_bit [of e "n - k"] by (auto simp: bit_simps)
  have low: "n < 8" if "bit (ucast e :: u32) n" for n and e :: u8
    using byte_bit [of e n] that by (simp add: bit_simps)
  have 1: "ucast a + push_bit 8 (ucast b) = or (ucast a) (push_bit 8 (ucast b) :: u32)"
    by (rule disj) (auto dest!: bits low)
  have 2: "or (ucast a) (push_bit 8 (ucast b)) + push_bit 16 (ucast c) =
      or (or (ucast a) (push_bit 8 (ucast b))) (push_bit 16 (ucast c) :: u32)"
    by (rule disj) (auto simp: bit_or_iff dest!: bits low)
  have 3: "or (or (ucast a) (push_bit 8 (ucast b))) (push_bit 16 (ucast c)) + push_bit 24 (ucast d) =
      or (or (or (ucast a) (push_bit 8 (ucast b))) (push_bit 16 (ucast c))) (push_bit 24 (ucast d) :: u32)"
    by (rule disj) (auto simp: bit_or_iff dest!: bits low)
  show ?thesis
    unfolding of_bytes_def 1 2 3 by (simp add: or.assoc)
qed

text \<open>The bytes that the text has, as a word.\<close>

lemma inet_aton_bytes:
  assumes "map ucast (scan_fields 4 s) = [a, b, c, d :: u8]"
  shows "inet_aton s = ucast (of_bytes a b c d)"
proof -
  have shift: "ucast (push_bit k (ucast e :: u32)) = (push_bit k (ucast e) :: u64)" if "k \<le> 24" for k and e :: u8
    by (rule bit_eqI) (use that byte_bit in \<open>fastforce simp: bit_simps\<close>)
  have low: "ucast (ucast e :: u32) = (ucast e :: u64)" for e :: u8
    using shift [of 0 e] by simp
  have "inet_aton s = or (push_bit 8 (or (push_bit 8 (or (push_bit 8 (ucast d)) (ucast c))) (ucast b))) (ucast a)"
    by (simp add: inet_aton_def assms Let_def)
  also have "\<dots> = ucast (of_bytes a b c d)"
    unfolding of_bytes_or by (simp add: unsigned_or_eq shift low push_bit_or ac_simps)
  finally show ?thesis .
qed

lemma length_scan_fields: "length (scan_fields k s) = k"
  by (induction k s rule: scan_fields.induct) (auto split: option.splits)

lemma inet_aton_small: "inet_aton s < 2 ^ 32"
proof -
  have "length (map ucast (scan_fields 4 s) :: u8 list) = 4" by (simp add: length_scan_fields)
  then obtain a b c d where "map ucast (scan_fields 4 s) = [a, b, c, d :: u8]"
    by (auto simp: numeral_eq_Suc length_Suc_conv)
  then have "inet_aton s = ucast (of_bytes a b c d)" by (rule inet_aton_bytes)
  moreover have "(ucast w :: u64) < 2 ^ 32" for w :: u32
    using unat_less_32 [of w] by (simp add: word_less_nat_alt unsigned_ucast_eq take_bit_nat_eq_self)
  ultimately show ?thesis by simp
qed

lemma inet_aton_dotted: "inet_aton (dotted_quad a b c d) = ucast (of_bytes a b c d)"
proof -
  have up: "ucast (ucast e :: u32) = e" for e :: u8
    by (rule bit_eqI) (auto simp: bit_simps dest: byte_bit)
  have "scan_fields 4 (dotted_quad a b c d) = [ucast a, ucast b, ucast c, ucast d]"
    using scan_fields_dotted [of "[a, b, c, d]"]
    by (simp add: dotted_quad_def numeral_eq_Suc del: scan_fields.simps)
  then show ?thesis
    by (intro inet_aton_bytes) (simp add: up)
qed

lemma inet_aton_text: "inet_aton (address_text w) = ucast w"
proof -
  obtain a b c d where "bytes_of w = [a, b, c, d]" and "of_bytes a b c d = w"
    by (simp add: bytes_of_def bytes_roundtrip)
  then show ?thesis
    using inet_aton_dotted [of a b c d] by (simp add: address_text_def dotted_quad_def)
qed

text \<open>C18: Reading the text of an address gives the address back, in network order: every address has a text, and
  different texts that are written in this way have different addresses.\<close>

theorem inet_aton_roundtrip: "inet_aton (address_text w) = ucast w \<and> (address_text v = address_text w \<longleftrightarrow> v = w)"
proof -
  have "v = w" if "address_text v = address_text w"
  proof (rule bit_eqI)
    fix n assume "possible_bit TYPE(u32) n"
    then show "bit v n \<longleftrightarrow> bit w n"
      using arg_cong [OF that, of "\<lambda>s. bit (inet_aton s) n"] by (simp add: inet_aton_text bit_simps)
  qed
  then show ?thesis by (auto simp: inet_aton_text)
qed

section \<open>The filter on the CPU\<close>

lemma scan_table_result:
  "\<forall>i\<in>set is. i < length bad_address \<Longrightarrow>
    scan_table bad_address a is = Inr (\<exists>i\<in>set is. a = inet_aton (bad_address ! i))"
  by (induction "is") auto

definition cpu_listed :: "string list \<Rightarrow> u32 \<Rightarrow> bool" where
  "cpu_listed bad_address a \<longleftrightarrow> ucast a \<in> inet_aton ` set (take 2048 bad_address)"

lemma cpu_scan:
  assumes "2048 \<le> length bad_address"
  shows "scan_table bad_address (ucast a) [0..<2048] = Inr (cpu_listed bad_address a)"
proof -
  have "set (take 2048 bad_address) = (!) bad_address ` {0..<2048}"
    using assms by (simp add: nth_image)
  then have "cpu_listed bad_address a \<longleftrightarrow> (\<exists>i\<in>set [0..<2048]. ucast a = inet_aton (bad_address ! i))"
    by (auto simp: cpu_listed_def image_iff)
  then show ?thesis
    using scan_table_result [of "[0..<2048]" bad_address "ucast a"] assms by simp
qed

lemma cpu_hook_result:
  assumes "2048 \<le> length bad_address" and "packet_id st \<le> 1024"
  shows "\<exists>st'. cpu_main_hook bad_address tt iph st =
       Inr (if is_tcp_udp iph \<and> cpu_listed bad_address (saddr iph) then NF_DROP else NF_ACCEPT, st') \<and>
     packet_id st' \<le> 1024"
proof -
  have "packet_id st + 1 \<le> 1024" if "\<not> 0 < packet_id st div 1024"
  proof -
    have "unat (packet_id st) div 1024 = 0"
      using that by (simp add: word_less_nat_alt unat_div)
    then have "unat (packet_id st) < 1024" by simp
    then have "unat (packet_id st + 1) \<le> 1024" by (simp add: unat_word_ariths)
    then show ?thesis by (simp add: word_le_nat_alt)
  qed
  then show ?thesis
    using assms by (simp add: cpu_main_hook_def cpu_scan Let_def)
qed

text \<open>C17: The hook drops exactly the TCP and UDP packets from a listed address, accepts all others, and
  counts at most 1024 packets between two messages.\<close>

theorem cpu_hook_verdict:
  assumes "2048 \<le> length bad_address" and "packet_id st \<le> 1024"
  shows "\<exists>st'. cpu_main_hook bad_address tt iph st =
       Inr (if is_tcp_udp iph \<and> cpu_listed bad_address (saddr iph) then NF_DROP else NF_ACCEPT, st') \<and>
     packet_id st' \<le> 1024"
  using assms by (rule cpu_hook_result)

theorem cpu_hook_verdict_witness:
  "\<exists>st'. cpu_main_hook (replicate 2048 (address_text 36203632)) 5 \<lparr>protocol = 6, saddr = 36203632\<rparr> cpu_init_module =
     Inr (NF_DROP, st') \<and> packet_id st' \<le> 1024"
  using cpu_hook_verdict [of "replicate 2048 (address_text 36203632)" cpu_init_module 5 "\<lparr>protocol = 6, saddr = 36203632\<rparr>"]
  by (simp add: cpu_init_module_def cpu_listed_def is_tcp_udp_def IPPROTO_TCP_def inet_aton_text)

section \<open>The list of addresses to drop\<close>

text \<open>The list has room for ten addresses, but the tenth one already makes the message read behind it; the
  first nine are kept in order.\<close>

theorem add_addr_overreads:
  "for_each as add_addr new_filter_list =
     (if length as < 10
      then Inr \<lparr>filter_addr = map inet_aton as @ replicate (10 - length as) 0, filter_addr_cnt = of_nat (length as)\<rparr>
      else Inl Out_of_bounds)"
proof (induction as rule: rev_induct)
  case Nil
  then show ?case by (simp add: new_filter_list_def)
next
  case (snoc a as)
  show ?case
  proof (cases "length as < 10")
    case True
    let ?k = "length as"
    have k: "unat (of_nat ?k :: u32) = ?k" "unat (of_nat ?k + 1 :: u32) = Suc ?k"
      using True by (simp_all add: unat_of_nat_small unat_word_ariths)
    have r: "replicate (10 - ?k) (0 :: u64) = 0 # replicate (10 - Suc ?k) 0"
      using True by (simp add: Suc_diff_Suc flip: replicate_Suc)
    show ?thesis
      using snoc True k r by (simp add: for_each_snoc add_addr_def Let_def list_update_append arr_get_def add.commute)
  next
    case False
    then show ?thesis using snoc by (simp add: for_each_snoc)
  qed
qed

end
