(* ===== verification/QH_Firewall_Gpu.thy ===== *)
theory QH_Firewall_Gpu
  imports QH_Firewall QH_Daemon
begin

text \<open>
  The packet filter on the GPU: the kernel of \<open>src/kernel/gpu_firewall_Kernels.cl\<close>, its host code
  \<open>cl_gpu_firewall.c\<close> and the service \<open>libsrv_gpu_firewall.c\<close> of \<open>src/test_module/gpu_firewall/lib\<close>, which
  collects the sources of packets, has them looked up, and answers with verdicts. The netfilter library is a
  parameter: what it delivers, and which of its calls succeed. The command queue is out of order, as in the
  shortest-path service.
\<close>

section \<open>The kernel\<close>

text \<open>The loop over the rules with its \<open>break\<close>.\<close>

fun rule_scan :: "u32 list \<Rightarrow> u32 \<Rightarrow> nat list \<Rightarrow> bool res" where
  "rule_scan rules a [] = Inr False"
| "rule_scan rules a (i # is) =
     bindR (arr_get rules i) (\<lambda>r. if a = r then Inr True else rule_scan rules a is)"

definition packet_matching :: "u32 list \<Rightarrow> u32 \<Rightarrow> nat \<Rightarrow> nat \<Rightarrow> u32 list \<Rightarrow> u32 list res" where
  "packet_matching rules PACKET_BUFF_SIZE x y packet_buff = (
     let packet_buff_index = y * 16 + x in
     if \<not> int packet_buff_index < sint PACKET_BUFF_SIZE then Inr packet_buff
     else bindR (arr_get packet_buff packet_buff_index) (\<lambda>a.
       bindR (rule_scan rules a [0..<2048]) (\<lambda>hit.
       bindR (if hit then arr_set packet_buff packet_buff_index 1 else Inr packet_buff) (\<lambda>packet_buff.
       bindR (arr_get packet_buff packet_buff_index) (\<lambda>a.
       if a \<noteq> 1 then arr_set packet_buff packet_buff_index 0 else Inr packet_buff)))))"

section \<open>State\<close>

text \<open>A command of the queue, with the buffers and the argument it was enqueued with.\<close>

datatype fcommand =
    Write_packets nat
  | Write_rules nat
  | Match gpu "nat option" "nat option" u32
  | Read_packets nat

text \<open>
  The global variables of the service; \<open>verdicts\<close> are the calls of \<open>nfq_set_verdict\<close> so far, \<open>receiver\<close> tells
  whether the thread that receives packets runs, \<open>fcmd_order\<close> how the device orders commands.
\<close>

record gpu_filter = ocl +
  f_kernel :: bool
  f_program :: bool
  mem_obj :: "nat option"
  mem_obj2 :: "nat option"
  f_pending :: "fcommand list"
  fcmd_order :: "nat \<Rightarrow> nat list"
  id_buff :: "u32 list"
  sip_buff :: "u32 list"
  u_packet_buff_index :: u32
  first_rv_time :: int
  perfo_rv_time :: int
  f_packet_id :: int
  verdicts :: "(u32 \<times> verdict) list"
  off_flag :: int
  break_flag :: bool
  receiver :: bool

section \<open>cl_gpu_firewall.c\<close>

text \<open>An \<open>unsigned long\<close> has two of the \<open>uint\<close>s that the kernel reads.\<close>

definition ulong_words :: "u64 list \<Rightarrow> u32 list" where
  "ulong_words ws = concat (map (\<lambda>w. [ucast w, ucast (drop_bit 32 w)]) ws)"

definition enqueue_on :: "nat option \<Rightarrow> nat \<Rightarrow> (nat \<Rightarrow> fcommand) \<Rightarrow> gpu_filter \<Rightarrow> bool \<times> gpu_filter" where
  "enqueue_on h n c st = (
     let (ok, st) = api st in
     case Option.bind h (buffers st) of
       Some b \<Rightarrow> if ok \<and> queue st \<and> n \<le> length b then (True, st\<lparr>f_pending := f_pending st @ [c (the h)]\<rparr>) else (False, st)
     | None \<Rightarrow> (False, st))"

definition enqueue_match :: "gpu_filter \<Rightarrow> bool \<times> gpu_filter" where
  "enqueue_match st = (
     let dev = pl_dev (plat st) (calls st); (ok, st) = api st in
     case (args st 0 0, args st 0 1, args st 0 2) of
       (Some (Buf hp), Some (Buf hr), Some (Val n)) \<Rightarrow>
         if ok \<and> queue st \<and> f_kernel st
         then (True, st\<lparr>f_pending := f_pending st @ [Match dev hp hr n]\<rparr>) else (False, st)
     | _ \<Rightarrow> (False, st))"

definition set_match_arg :: "nat \<Rightarrow> clarg \<Rightarrow> gpu_filter \<Rightarrow> bool \<times> gpu_filter" where
  "set_match_arg i a st = (if f_kernel st then set_arg 0 i a st else (False, snd (api st)))"

text \<open>What a command does when it runs; \<open>rules\<close> is the table \<open>bad_ip_address\<close>.\<close>

definition kernel_buffer :: "gpu_filter \<Rightarrow> nat option \<Rightarrow> u8 list res" where
  "kernel_buffer st h = (case h of None \<Rightarrow> Inr [] | Some m \<Rightarrow> heap_get (buffers st) m)"

definition run_fcommand :: "u64 list \<Rightarrow> fcommand \<Rightarrow> gpu_filter \<Rightarrow> gpu_filter res" where
  "run_fcommand rules c st = (case c of
     Write_packets h \<Rightarrow> bindR (heap_get (buffers st) h) (\<lambda>b.
       if length (sip_buff st) < 128 then Inl Out_of_bounds
       else Inr (st\<lparr>buffers := (buffers st)(h \<mapsto> ints_to_bytes (take 128 (sip_buff st)) @ drop 512 b)\<rparr>))
   | Write_rules h \<Rightarrow> bindR (heap_get (buffers st) h) (\<lambda>b.
       if length rules < 2048 then Inl Out_of_bounds
       else Inr (st\<lparr>buffers := (buffers st)(h \<mapsto> ints_to_bytes (ulong_words (take 2048 rules)) @ drop 16384 b)\<rparr>))
   | Match dev hp hr n \<Rightarrow> bindR (kernel_buffer st hp) (\<lambda>pk. bindR (kernel_buffer st hr) (\<lambda>rl.
       bindR (launch_2d dev (32, 32) (16, 8) (packet_matching (ints_of_bytes rl) n) (ints_of_bytes pk)) (\<lambda>pk.
       Inr (put_buf hp (ints_to_bytes pk) st))))
   | Read_packets h \<Rightarrow> bindR (heap_get (buffers st) h) (\<lambda>b.
       if length (sip_buff st) < 128 then Inl Buffer_overflow
       else Inr (st\<lparr>sip_buff := take 128 (ints_of_bytes b) @ drop 128 (sip_buff st)\<rparr>)))"

definition f_finish :: "u64 list \<Rightarrow> gpu_filter \<Rightarrow> gpu_filter res" where
  "f_finish rules st = (
     let (ok, st) = api st; cs = f_pending st in
     if ok \<and> queue st
     then for_each (fcmd_order st (length cs)) (\<lambda>i. run_fcommand rules (cs ! i)) (st\<lparr>f_pending := []\<rparr>)
     else Inr st)"

definition f_release :: "nat option \<Rightarrow> gpu_filter \<Rightarrow> gpu_filter" where
  "f_release h st = (if f_pending st = [] then snd (release_buf h st) else snd (api st))"

definition init_gpu_firewall :: "bool \<Rightarrow> gpu_filter \<Rightarrow> (bool \<times> gpu_filter) res" where
  "init_gpu_firewall ctx st = (
     if \<not> pl_file (plat st) ''gpu_firewall_Kernels.cl'' then Inr (False, st)
     else if \<not> pl_malloc (plat st) 0 then Inl Null_deref
     else
       let (ok, st) = api st; program = (ok \<and> ctx);
           (ok, st) = api st; built = (ok \<and> program);
           (ok, st) = api st; command_queue = (ok \<and> ctx);
           (ok, st) = api st; kernel = (ok \<and> built) in
       Inr (program \<and> built \<and> command_queue \<and> kernel,
         st\<lparr>f_program := program, queue := command_queue, f_kernel := kernel\<rparr>))"

text \<open>The buffer for packets has 128 \<open>int\<close>s, whatever \<open>packet_buff_size\<close> is.\<close>

definition run_gpu_firewall :: "u64 list \<Rightarrow> u32 \<Rightarrow> gpu_filter \<Rightarrow> (bool \<times> gpu_filter) res" where
  "run_gpu_firewall rules packet_buff_size st = (
     let (hp, st) = create_buf 512 None st; st = st\<lparr>mem_obj := hp\<rparr>;
         (hr, st) = create_buf 16384 None st; st = st\<lparr>mem_obj2 := hr\<rparr>;
         (ok0, st) = set_match_arg 0 (Buf hp) st;
         (ok1, st) = set_match_arg 1 (Buf hr) st;
         (ok2, st) = set_match_arg 2 (Val packet_buff_size) st;
         (ok3, st) = enqueue_on hp 512 Write_packets st;
         (ok4, st) = enqueue_on hr 16384 Write_rules st;
         (ok5, st) = enqueue_match st;
         (ok6, st) = enqueue_on hp 512 Read_packets st in
     bindR (f_finish rules st) (\<lambda>st.
     Inr (hp \<noteq> None \<and> hr \<noteq> None \<and> ok0 \<and> ok1 \<and> ok2 \<and> ok3 \<and> ok4 \<and> ok5 \<and> ok6,
       f_release (mem_obj2 st) (f_release (mem_obj st) st))))"

section \<open>libsrv_gpu_firewall.c\<close>

text \<open>
  A packet from the queue of the kernel: whether it has a header, its number, its contents (\<open>None\<close> when
  \<open>nfq_get_payload\<close> fails, which leaves the pointer unset), and the time before and after it is handled.
\<close>

record queued =
  ph_ok :: bool
  ph_id :: u32
  payload :: "iphdr option"
  rv_time :: int
  done_time :: int

definition show_packet :: "iphdr option \<Rightarrow> gpu_filter \<Rightarrow> gpu_filter res" where
  "show_packet dgram st = (case dgram of
     None \<Rightarrow> Inl Null_deref
   | Some iph \<Rightarrow> if is_tcp_udp iph
       then bindR (arr_set (sip_buff st) (unat (u_packet_buff_index st)) (saddr iph)) (\<lambda>sb. Inr (st\<lparr>sip_buff := sb\<rparr>))
       else Inr st)"

definition do_work :: "u64 list \<Rightarrow> u32 \<Rightarrow> gpu_filter \<Rightarrow> (bool \<times> gpu_filter) res" where
  "do_work rules packet_buff_size st = run_gpu_firewall rules packet_buff_size st"

definition set_verdict :: "nat \<Rightarrow> gpu_filter \<Rightarrow> gpu_filter res" where
  "set_verdict i st =
     bindR (arr_get (sip_buff st) i) (\<lambda>a. bindR (arr_get (id_buff st) i) (\<lambda>id.
     Inr (st\<lparr>verdicts := verdicts st @ [(id, if a = 0 then NF_ACCEPT else NF_DROP)]\<rparr>)))"

definition packet_buffering :: "u64 list \<Rightarrow> queued \<Rightarrow> gpu_filter \<Rightarrow> gpu_filter res" where
  "packet_buffering rules p st = bindR (
     if \<not> ph_ok p then Inr st
     else
       let st = (if 0 < f_packet_id st div 128 then st\<lparr>perfo_rv_time := 0, f_packet_id := 0\<rparr> else st);
           st = st\<lparr>f_packet_id := f_packet_id st + 1\<rparr> in
       bindR (arr_set (id_buff st) (unat (u_packet_buff_index st)) (ph_id p)) (\<lambda>ids.
       bindR (show_packet (payload p) (st\<lparr>id_buff := ids\<rparr>)) (\<lambda>st.
       let st = st\<lparr>u_packet_buff_index := u_packet_buff_index st + 1\<rparr> in
       if u_packet_buff_index st = 1024 \<or> 1000000 < rv_time p - first_rv_time st then
         bindR (do_work rules (u_packet_buff_index st) st) (\<lambda>(_, st).
         bindR (for_each [0..<unat (u_packet_buff_index st)] set_verdict st) (\<lambda>st.
         Inr (st\<lparr>u_packet_buff_index := 0, first_rv_time := rv_time p\<rparr>)))
       else Inr st)))
     (\<lambda>st. Inr (st\<lparr>perfo_rv_time := perfo_rv_time st + (done_time p - rv_time p)\<rparr>))"

text \<open>The thread: each element is the result of a call of \<open>recv\<close> with the packet it has.\<close>

fun handle_packet :: "u64 list \<Rightarrow> (int \<times> queued) list \<Rightarrow> gpu_filter \<Rightarrow> gpu_filter res" where
  "handle_packet rules [] st = Inr st"
| "handle_packet rules ((rv, p) # es) st = (
     if rv = 0 \<or> break_flag st then Inr (st\<lparr>receiver := False\<rparr>)
     else if 0 \<le> rv then bindR (packet_buffering rules p st) (handle_packet rules es)
     else handle_packet rules es st)"

text \<open>Which calls of the netfilter library and of the thread library succeed.\<close>

record nfq =
  nfq_open_ok :: bool
  nfq_bind_ok :: bool
  nfq_queue_ok :: bool
  nfq_mode_ok :: bool
  thread_ok :: bool
  thread_ends :: bool

definition netlink_init :: "nfq \<Rightarrow> gpu_filter \<Rightarrow> (int \<times> gpu_filter) res" where
  "netlink_init q st = (
     let st = st\<lparr>u_packet_buff_index := 0, f_packet_id := 0\<rparr> in
     if nfq_open_ok q \<and> nfq_bind_ok q \<and> nfq_queue_ok q \<and> nfq_mode_ok q
     then Inr (0, st\<lparr>receiver := thread_ok q\<rparr>)
     else Inl Aborted)"

text \<open>The first launch starts the thread, the next one waits for its end; \<open>None\<close> is waiting for ever.\<close>

definition gpu_firewall_launch :: "nfq \<Rightarrow> gpu_filter \<Rightarrow> (int \<times> gpu_filter) res option" where
  "gpu_firewall_launch q st = (
     if off_flag st = 0 then
       Some (bindR (netlink_init q st) (\<lambda>(_, st). Inr (0, st\<lparr>off_flag := off_flag st + 1\<rparr>)))
     else if receiver st \<and> \<not> thread_ends q then None
     else Some (Inr (0, st\<lparr>off_flag := 0, break_flag := True, receiver := False\<rparr>)))"

definition gpu_firewall_cs :: int where "gpu_firewall_cs = 0"
definition gpu_firewall_post :: int where "gpu_firewall_post = 0"

definition gpu_firewall_srv :: service where
  "gpu_firewall_srv = \<lparr>sname = ''gpu_firewall_service'', sid = 0\<rparr>"

text \<open>\<open>now\<close> is the time in microseconds; \<open>first_rv_time\<close> is set in milliseconds.\<close>

definition gpu_firewall_init ::
  "nat \<Rightarrow> nat option \<Rightarrow> nat option \<Rightarrow> bool \<Rightarrow> int \<Rightarrow> gpu_filter \<Rightarrow> registry \<Rightarrow> (int \<times> gpu_filter \<times> registry) res"
where
  "gpu_firewall_init p lh m ctx now st reg =
     bindR (init_gpu_firewall ctx (st\<lparr>perfo_rv_time := 0, first_rv_time := now div 1000\<rparr>)) (\<lambda>(ret, st).
     if \<not> ret then Inr (1, st, reg)
     else bindR (qc_register_service (Some p) lh m (reg\<lparr>srv_mem := (srv_mem reg)(p \<mapsto> gpu_firewall_srv)\<rparr>))
       (\<lambda>(r, reg). Inr (r, st\<lparr>off_flag := 0\<rparr>, reg)))"

definition gpu_firewall_finit :: "u64 list \<Rightarrow> gpu_filter \<Rightarrow> registry \<Rightarrow> (int \<times> gpu_filter \<times> registry) res option" where
  "gpu_firewall_finit rules st reg =
     bindO (Some (f_finish rules st)) (\<lambda>st.
     let (ok, st) = api st; st = (if ok then st\<lparr>f_kernel := False\<rparr> else st);
         (ok, st) = api st; st = (if ok then st\<lparr>f_program := False\<rparr> else st);
         (ok, st) = api st; st = (if ok then st\<lparr>queue := False\<rparr> else st) in
     bindO (qc_unregister_service (Some (sname gpu_firewall_srv)) reg) (\<lambda>(r, reg). Some (Inr (r, st, reg))))"

end
