(* ===== verification/QH_Firewall_Results.thy ===== *)
theory QH_Firewall_Results
  imports QH_Firewall_Gpu
begin

text \<open>
  What the filter on the GPU decides. The rules are \<open>unsigned long\<close>s but the kernel reads them as \<open>uint\<close>s, so
  that it sees half of the table and zeros in between; and for most cells two work items run, the second of
  which meets the answer of the first.
\<close>

section \<open>Rules\<close>

definition gpu_rule_set :: "u64 list \<Rightarrow> u32 set" where
  "gpu_rule_set rules = set (take 2048 (ulong_words (take 2048 rules)))"

text \<open>The answer for a cell: 1 for a rule, 0 for none; a 1 stays.\<close>

definition answer :: "u64 list \<Rightarrow> u32 \<Rightarrow> u32" where
  "answer rules a = (if a \<in> gpu_rule_set rules \<or> a = 1 then 1 else 0)"

lemma length_ulong_words: "length (ulong_words ws) = 2 * length ws"
  by (induction ws) (simp_all add: ulong_words_def)

lemma ulong_words_append: "ulong_words (us @ vs) = ulong_words us @ ulong_words vs"
  by (simp add: ulong_words_def)

lemma gpu_rule_set:
  assumes "2048 \<le> length rules" "\<forall>r\<in>set rules. r < 2 ^ 32"
  shows "gpu_rule_set rules = insert 0 (ucast ` set (take 1024 rules))"
proof -
  have "take 2048 rules = take 1024 rules @ take 1024 (drop 1024 rules)"
    using take_add [of 1024 1024 rules] by simp
  then have "take 2048 (ulong_words (take 2048 rules)) = ulong_words (take 1024 rules)"
    using assms(1) by (simp add: ulong_words_append length_ulong_words)
  moreover have "drop_bit 32 r = 0" if "r \<in> set (take 1024 rules)" for r
    using assms(2) in_set_takeD [OF that] by (simp add: drop_bit_eq_div word_less_nat_alt word_unat_eq_iff unat_div)
  moreover have "take 1024 rules \<noteq> []" using assms(1) by auto
  ultimately show ?thesis
    by (cases "take 1024 rules") (auto simp: gpu_rule_set_def ulong_words_def)
qed

lemma rule_scan_result:
  "\<forall>i\<in>set is. i < length rules \<Longrightarrow> rule_scan rules a is = Inr (\<exists>i\<in>set is. a = rules ! i)"
  by (induction "is") auto

lemma rule_scan_words:
  assumes "2048 \<le> length rules"
  shows "rule_scan (ulong_words (take 2048 rules)) a [0..<2048] = Inr (a \<in> gpu_rule_set rules)"
proof -
  let ?w = "ulong_words (take 2048 rules)"
  have len: "2048 \<le> length ?w" using assms by (simp add: length_ulong_words)
  then have "set (take 2048 ?w) = (!) ?w ` {0..<2048}" by (simp add: nth_image)
  then show ?thesis
    using rule_scan_result [of "[0..<2048]" ?w a] len by (auto simp: gpu_rule_set_def image_iff)
qed

section \<open>One launch of the kernel\<close>

lemma packet_matching_result:
  assumes "2048 \<le> length rules" "n \<le> 128" "length pk = 128"
  shows "packet_matching (ulong_words (take 2048 rules)) (of_nat n) x y pk =
    Inr (if y * 16 + x < n then pk[y * 16 + x := answer rules (pk ! (y * 16 + x))] else pk)"
proof -
  have "sint (of_nat n :: u32) = int n" using assms(2) by (intro sint_of_nat_small) simp
  moreover have "pk[i := 1] = pk" if "pk ! i = 1" for i
    using that list_update_id [of pk i] by simp
  ultimately show ?thesis
    using assms by (simp add: packet_matching_def rule_scan_words answer_def Let_def del: of_nat_add)
qed

text \<open>The number of items that work on a cell.\<close>

definition item_index :: "nat \<times> nat \<Rightarrow> nat" where
  "item_index p = snd p * 16 + fst p"

lemma items_of_cell:
  assumes "distinct ids" "set ids = {..<32} \<times> {..<32}" "c < 128"
  shows "length (filter (\<lambda>p. item_index p = c) ids) = (if c < 16 then 1 else 2)"
proof -
  have "set (filter (\<lambda>p. item_index p = c) ids) =
      (if c < 16 then {(c mod 16, c div 16)} else {(c mod 16, c div 16), (c mod 16 + 16, c div 16 - 1)})"
    (is "?L = ?R")
  proof (intro set_eqI iffI)
    fix p assume "p \<in> ?L"
    then obtain x y where p: "p = (x, y)" "x < 32" "c = y * 16 + x"
      using assms(2) by (auto simp: item_index_def)
    show "p \<in> ?R"
    proof (cases "x < 16")
      case True
      then show ?thesis using p by simp
    next
      case False
      then obtain x' where "x = 16 + x'" using le_Suc_ex [of 16 x] by auto
      then have c: "c div 16 * 16 + c mod 16 = Suc y * 16 + x'" "x' < 16" using p by simp_all
      have "c div 16 = Suc y" "c mod 16 = x'" using block_ids [OF c(1) _ c(2)] by simp_all
      then show ?thesis using p(1) \<open>x = 16 + x'\<close> c by simp
    qed
  next
    fix p assume "p \<in> ?R"
    then consider "p = (c mod 16, c div 16)" | "\<not> c < 16" "p = (c mod 16 + 16, c div 16 - 1)"
      by (simp split: if_splits) blast
    then have "fst p < 32 \<and> snd p < 32 \<and> item_index p = c"
    proof cases
      case 1
      then show ?thesis using assms(3) by (simp add: item_index_def less_mult_imp_div_less)
    next
      case 2
      then obtain q where q: "c div 16 = Suc q" by (cases "c div 16") auto
      then have "q * 16 + 16 + c mod 16 = c" using div_mult_mod_eq [of c 16] by simp
      moreover have "c div 16 < 8" using assms(3) by (simp add: less_mult_imp_div_less)
      ultimately show ?thesis using 2 q by (simp add: item_index_def)
    qed
    then show "p \<in> ?L"
      using assms(2) by (cases p) simp
  qed
  then have "card (set (filter (\<lambda>p. item_index p = c) ids)) = (if c < 16 then 1 else 2)"
    by simp
  then show ?thesis
    using distinct_card [OF distinct_filter [OF assms(1)], of "\<lambda>p. item_index p = c"] by presburger
qed

lemma matching_launch:
  assumes r: "2048 \<le> length rules" and n: "n \<le> 128" "length pk = 128" and d: "fair_gpu d"
  shows "\<exists>pk'. launch_2d d (32, 32) (16, 8) (packet_matching (ulong_words (take 2048 rules)) (of_nat n)) pk = Inr pk' \<and>
    length pk' = 128 \<and> (\<forall>c<128. pk' ! c = (if c < n
      then (if c < 16 then answer rules (pk ! c) else answer rules (answer rules (pk ! c))) else pk ! c))"
proof -
  let ?ids = "global_ids d (32, 32) (16, 8)" and ?a = "answer rules"
  have ids: "distinct ?ids" "set ?ids = {..<32} \<times> {..<32}"
    using global_ids [OF d, of 16 8 2 4] by simp_all
  let ?Inv = "\<lambda>ps t. length t = 128 \<and> (\<forall>c<128. t ! c =
    (if c < n then (?a ^^ length (filter (\<lambda>p. item_index p = c) ps)) (pk ! c) else pk ! c))"
  have "\<exists>t. for_each ?ids (\<lambda>(x, y). packet_matching (ulong_words (take 2048 rules)) (of_nat n) x y) pk = Inr t \<and> ?Inv ?ids t"
  proof (rule for_each_prefix)
    show "?Inv [] pk" using n by simp
  next
    fix ps p qs t assume inv: "?Inv ps t"
    then have t: "length t = 128" by blast
    let ?t = "if item_index p < n then t[item_index p := ?a (t ! item_index p)] else t"
    have run: "(\<lambda>(x, y). packet_matching (ulong_words (take 2048 rules)) (of_nat n) x y) p t = Inr ?t"
      using packet_matching_result [OF r n(1) t] by (simp add: case_prod_unfold item_index_def)
    have inv': "?Inv (ps @ [p]) ?t"
    proof (intro conjI allI impI)
      show "length ?t = 128" using t by simp
      fix c :: nat assume c: "c < 128"
      have old: "t ! c = (if c < n then (?a ^^ length (filter (\<lambda>p. item_index p = c) ps)) (pk ! c) else pk ! c)"
        using conjunct2 [OF inv] c by blast
      show "?t ! c = (if c < n then (?a ^^ length (filter (\<lambda>p. item_index p = c) (ps @ [p]))) (pk ! c) else pk ! c)"
        using old c t n by (cases "item_index p = c") auto
    qed
    show "\<exists>t'. (\<lambda>(x, y). packet_matching (ulong_words (take 2048 rules)) (of_nat n) x y) p t = Inr t' \<and> ?Inv (ps @ [p]) t'"
      by (rule exI, rule conjI, rule run, rule inv')
  qed
  then obtain t where t: "for_each ?ids (\<lambda>(x, y). packet_matching (ulong_words (take 2048 rules)) (of_nat n) x y) pk = Inr t"
    "length t = 128" and nth: "\<And>c. c < 128 \<Longrightarrow> t ! c =
      (if c < n then (?a ^^ length (filter (\<lambda>p. item_index p = c) ?ids)) (pk ! c) else pk ! c)"
    by blast
  have "t ! c = (if c < n then (if c < 16 then ?a (pk ! c) else ?a (?a (pk ! c))) else pk ! c)" if "c < 128" for c
    using nth [OF that] items_of_cell [OF ids that] by (simp add: numeral_2_eq_2)
  then show ?thesis
    using t by (intro exI [of _ t]) (simp add: launch_2d_flat)
qed

section \<open>Batches\<close>

text \<open>The service between two batches, on a device that keeps the order of commands.\<close>

definition filter_ready :: "gpu_filter \<Rightarrow> bool" where
  "filter_ready st \<longleftrightarrow> good_platform (plat st) \<and> queue st \<and> f_kernel st \<and> f_pending st = [] \<and>
     (\<forall>m. fcmd_order st m = [0..<m]) \<and> length (id_buff st) = 1024 \<and> length (sip_buff st) = 1024"

text \<open>The buffers and the commands of a batch.\<close>

lemma run_gpu_firewall_queue:
  assumes st: "filter_ready st"
  defines "hp \<equiv> next_buf st" and "hr \<equiv> Suc (next_buf st)"
  shows "\<exists>d st1. fair_gpu d \<and> run_gpu_firewall rules n st =
      bindR (f_finish rules st1) (\<lambda>st. Inr (True, f_release (mem_obj2 st) (f_release (mem_obj st) st))) \<and>
    f_pending st1 = [Write_packets hp, Write_rules hr, Match d (Some hp) (Some hr) n, Read_packets hp] \<and>
    buffers st1 = (buffers st)(hp \<mapsto> pl_junk (plat st) hp 512, hr \<mapsto> pl_junk (plat st) hr 16384) \<and>
    mem_obj st1 = Some hp \<and> mem_obj2 st1 = Some hr \<and>
    plat st1 = plat st \<and> queue st1 \<and> f_kernel st1 \<and> fcmd_order st1 = fcmd_order st \<and> sip_buff st1 = sip_buff st \<and>
    id_buff st1 = id_buff st \<and> u_packet_buff_index st1 = u_packet_buff_index st \<and> verdicts st1 = verdicts st \<and>
    perfo_rv_time st1 = perfo_rv_time st \<and> f_packet_id st1 = f_packet_id st"
proof -
  have ready: "pl_ok (plat st) i" "length (pl_junk (plat st) m sz) = sz" "queue st" "f_kernel st" "f_pending st = []" for i m sz
    using st by (simp_all add: filter_ready_def good_platform_def)
  have fair: "fair_gpu (pl_dev (plat st) i)" for i
    using st by (simp add: filter_ready_def good_platform_def)
  show ?thesis
    unfolding hp_def hr_def run_gpu_firewall_def create_buf_def api_def set_match_arg_def set_arg_def enqueue_on_def
      enqueue_match_def Let_def
    by (simp add: ready, intro exI conjI) (rule refl | rule fair | simp add: ready)+
qed

text \<open>What the kernel leaves in the cells of the packets.\<close>

definition answered :: "u64 list \<Rightarrow> nat \<Rightarrow> u32 list \<Rightarrow> u32 list \<Rightarrow> bool" where
  "answered rules n sips sips' \<longleftrightarrow> length sips' = length sips \<and> (\<forall>c<length sips. sips' ! c = (if c < n
     then (if c < 16 then answer rules (sips ! c) else answer rules (answer rules (sips ! c))) else sips ! c))"

lemma batch_result:
  assumes st: "filter_ready st" and r: "2048 \<le> length rules" and n: "n \<le> 128"
  shows "\<exists>st'. run_gpu_firewall rules (of_nat n) st = Inr (True, st') \<and> filter_ready st' \<and>
    answered rules n (sip_buff st) (sip_buff st') \<and> id_buff st' = id_buff st \<and>
    u_packet_buff_index st' = u_packet_buff_index st \<and> verdicts st' = verdicts st"
proof -
  let ?hp = "next_buf st" and ?hr = "Suc (next_buf st)"
  obtain d st1 where d: "fair_gpu d" and run: "run_gpu_firewall rules (of_nat n) st =
      bindR (f_finish rules st1) (\<lambda>st. Inr (True, f_release (mem_obj2 st) (f_release (mem_obj st) st)))"
    and cs: "f_pending st1 = [Write_packets ?hp, Write_rules ?hr, Match d (Some ?hp) (Some ?hr) (of_nat n), Read_packets ?hp]"
    and bufs: "buffers st1 = (buffers st)(?hp \<mapsto> pl_junk (plat st) ?hp 512, ?hr \<mapsto> pl_junk (plat st) ?hr 16384)"
    and mem: "mem_obj st1 = Some ?hp" "mem_obj2 st1 = Some ?hr"
    and same: "plat st1 = plat st" "queue st1" "f_kernel st1" "fcmd_order st1 = fcmd_order st" "sip_buff st1 = sip_buff st"
      "id_buff st1 = id_buff st" "u_packet_buff_index st1 = u_packet_buff_index st" "verdicts st1 = verdicts st"
    using run_gpu_firewall_queue [OF st, of rules "of_nat n"] by blast
  have ready: "\<And>i. pl_ok (plat st) i" "\<And>m sz. length (pl_junk (plat st) m sz) = sz" "length (sip_buff st) = 1024"
    "\<And>m. fcmd_order st m = [0..<m]"
    using st by (simp_all add: filter_ready_def good_platform_def)
  let ?pk = "take 128 (sip_buff st)"
  have pk: "length ?pk = 128" using ready(3) by simp
  obtain pk' where k: "launch_2d d (32, 32) (16, 8) (packet_matching (ulong_words (take 2048 rules)) (of_nat n)) ?pk = Inr pk'"
    "length pk' = 128" and cells: "\<And>c. c < 128 \<Longrightarrow> pk' ! c = (if c < n
      then (if c < 16 then answer rules (?pk ! c) else answer rules (answer rules (?pk ! c))) else ?pk ! c)"
    using matching_launch [OF r n pk d] by blast
  have four: "[0..<length (f_pending st1)] = [0, 1, 2, 3]" by (simp add: cs upt_rec)
  obtain st2 where st2: "f_finish rules st1 = Inr st2" "plat st2 = plat st" "queue st2" "f_kernel st2" "f_pending st2 = []"
    "fcmd_order st2 = fcmd_order st" "id_buff st2 = id_buff st" "sip_buff st2 = pk' @ drop 128 (sip_buff st)"
    "u_packet_buff_index st2 = u_packet_buff_index st" "verdicts st2 = verdicts st"
  proof -
    have "length (ulong_words (take 2048 rules)) = 4096" using r by (simp add: length_ulong_words)
    then show ?thesis
      using that four k ready r same by (simp add: f_finish_def api_def cs bufs run_fcommand_def kernel_buffer_def put_buf_def)
  qed
  have rel: "plat (f_release h s) = plat s" "queue (f_release h s) = queue s" "f_kernel (f_release h s) = f_kernel s"
    "f_pending (f_release h s) = f_pending s" "fcmd_order (f_release h s) = fcmd_order s" "id_buff (f_release h s) = id_buff s"
    "sip_buff (f_release h s) = sip_buff s" "u_packet_buff_index (f_release h s) = u_packet_buff_index s"
    "verdicts (f_release h s) = verdicts s" for h s
    by (simp_all add: f_release_def release_buf_def api_def Let_def split: option.splits)
  have "answered rules n (sip_buff st) (pk' @ drop 128 (sip_buff st))"
    using k(2) cells ready(3) n by (auto simp: answered_def nth_append)
  then show ?thesis
    using run st2 st rel k(2) ready(3) by (simp add: filter_ready_def)
qed

text \<open>The verdicts of a batch.\<close>

definition batch_verdicts :: "u32 list \<Rightarrow> u32 list \<Rightarrow> nat \<Rightarrow> (u32 \<times> verdict) list" where
  "batch_verdicts ids sips n = map (\<lambda>i. (ids ! i, if sips ! i = 0 then NF_ACCEPT else NF_DROP)) [0..<n]"

lemma set_verdicts:
  assumes "n \<le> length (id_buff st)" "n \<le> length (sip_buff st)"
  shows "for_each [0..<n] set_verdict st =
    Inr (st\<lparr>verdicts := verdicts st @ batch_verdicts (id_buff st) (sip_buff st) n\<rparr>)"
  using assms
proof (induction n)
  case (Suc n)
  then show ?case by (simp add: for_each_append set_verdict_def batch_verdicts_def)
qed (simp add: batch_verdicts_def)

section \<open>The service\<close>

text \<open>The addresses that get the answer 1: those of the first half of the table, and two of the coding.\<close>

definition gpu_listed :: "u64 list \<Rightarrow> u32 \<Rightarrow> bool" where
  "gpu_listed rules a \<longleftrightarrow> a = 0 \<or> a = 1 \<or> ucast a \<in> set (take 1024 rules)"

lemma answer_listed:
  assumes "2048 \<le> length rules" "\<forall>r\<in>set rules. r < 2 ^ 32"
  shows "answer rules a = (if gpu_listed rules a then 1 else 0)" "answer rules (answer rules a) = 1"
proof -
  have down: "ucast (ucast r :: u32) = r" if "r < 2 ^ 32" for r :: u64
    using that
    by (simp add: word_unat_eq_iff word_less_nat_alt unsigned_ucast_eq unsigned_take_bit_eq take_bit_nat_eq_self)
  have up: "ucast (ucast a :: u64) = a"
    by (rule bit_eqI) (auto simp: bit_simps dest: bit_imp_le_length)
  have "a \<in> ucast ` set (take 1024 rules) \<longleftrightarrow> ucast a \<in> set (take 1024 rules)"
  proof
    assume "a \<in> ucast ` set (take 1024 rules)"
    then obtain r where "a = ucast r" "r \<in> set (take 1024 rules)" by blast
    then show "ucast a \<in> set (take 1024 rules)" using down assms(2) in_set_takeD by force
  next
    assume "ucast a \<in> set (take 1024 rules)"
    then show "a \<in> ucast ` set (take 1024 rules)" using up by (metis image_eqI)
  qed
  then show "answer rules a = (if gpu_listed rules a then 1 else 0)"
    unfolding answer_def gpu_rule_set [OF assms] gpu_listed_def by auto
  show "answer rules (answer rules a) = 1"
    unfolding answer_def gpu_rule_set [OF assms] by simp
qed

text \<open>The part of \<open>packet_buffering\<close> before a batch is handed over.\<close>

definition buffered :: "queued \<Rightarrow> iphdr \<Rightarrow> gpu_filter \<Rightarrow> gpu_filter" where
  "buffered p iph st = (
     let st = (if 0 < f_packet_id st div 128 then st\<lparr>perfo_rv_time := 0, f_packet_id := 0\<rparr> else st) in
     st\<lparr>f_packet_id := f_packet_id st + 1, id_buff := (id_buff st)[unat (u_packet_buff_index st) := ph_id p],
       sip_buff := (sip_buff st)[unat (u_packet_buff_index st) := saddr iph],
       u_packet_buff_index := u_packet_buff_index st + 1\<rparr>)"

lemma buffered_fields:
  "filter_ready st \<Longrightarrow> filter_ready (buffered p iph st)"
  "id_buff (buffered p iph st) = (id_buff st)[unat (u_packet_buff_index st) := ph_id p]"
  "sip_buff (buffered p iph st) = (sip_buff st)[unat (u_packet_buff_index st) := saddr iph]"
  "u_packet_buff_index (buffered p iph st) = u_packet_buff_index st + 1"
  "verdicts (buffered p iph st) = verdicts st" "first_rv_time (buffered p iph st) = first_rv_time st"
  by (simp_all add: buffered_def filter_ready_def Let_def)

lemma packet_buffering_flush:
  assumes st: "filter_ready st" and k: "unat (u_packet_buff_index st) < 1024"
    and p: "ph_ok p" "payload p = Some iph" "is_tcp_udp iph" "1000000 < rv_time p - first_rv_time st"
  shows "packet_buffering rules p st = bindR
    (bindR (do_work rules (of_nat (Suc (unat (u_packet_buff_index st)))) (buffered p iph st)) (\<lambda>(_, st).
       bindR (for_each [0..<unat (u_packet_buff_index st)] set_verdict st) (\<lambda>st.
       Inr (st\<lparr>u_packet_buff_index := 0, first_rv_time := rv_time p\<rparr>))))
    (\<lambda>st. Inr (st\<lparr>perfo_rv_time := perfo_rv_time st + (done_time p - rv_time p)\<rparr>))"
proof -
  have "of_nat (Suc (unat (u_packet_buff_index st))) = u_packet_buff_index st + 1" by (simp add: add.commute)
  moreover have "length (id_buff st) = 1024" "length (sip_buff st) = 1024" using st by (simp_all add: filter_ready_def)
  ultimately show ?thesis
    using k p by (simp add: packet_buffering_def buffered_def show_packet_def Let_def del: of_nat_Suc)
qed

lemma batch_answers:
  assumes st: "filter_ready st" and r: "2048 \<le> length rules" "\<forall>r\<in>set rules. r < 2 ^ 32"
    and k: "k = unat (u_packet_buff_index st)" "k < 128"
    and p: "ph_ok p" "payload p = Some iph" "is_tcp_udp iph" "1000000 < rv_time p - first_rv_time st"
    and ids: "ids = (id_buff st)[k := ph_id p]" and sips: "sips = (sip_buff st)[k := saddr iph]"
  shows "\<exists>st'. packet_buffering rules p st = Inr st' \<and> filter_ready st' \<and> u_packet_buff_index st' = 0 \<and>
     verdicts st' = verdicts st @
       map (\<lambda>i. (ids ! i, if i < 16 \<and> \<not> gpu_listed rules (sips ! i) then NF_ACCEPT else NF_DROP)) [0..<Suc k]"
proof -
  let ?b = "buffered p iph st"
  have b: "filter_ready ?b" "id_buff ?b = ids" "sip_buff ?b = sips" "u_packet_buff_index ?b = of_nat (Suc k)"
      "verdicts ?b = verdicts st"
    using buffered_fields(1) [OF st] ids sips k by (simp_all add: buffered_fields(2-5) add.commute)
  have len: "length ids = 1024" "length sips = 1024" using b by (simp_all add: filter_ready_def)
  have n: "Suc k \<le> 128" "unat (of_nat (Suc k) :: u32) = Suc k"
    using k(2) by (simp_all add: unat_of_nat_small del: of_nat_Suc)
  obtain st' where run: "run_gpu_firewall rules (of_nat (Suc k)) ?b = Inr (True, st')" "filter_ready st'"
    "answered rules (Suc k) sips (sip_buff st')" "id_buff st' = ids" "u_packet_buff_index st' = of_nat (Suc k)"
    "verdicts st' = verdicts st"
    using batch_result [OF b(1) r(1) n(1)] b(2-5) by auto
  have len': "length (id_buff st') = 1024" "length (sip_buff st') = 1024" using run(2) by (simp_all add: filter_ready_def)
  have cell: "sip_buff st' ! i = (if i < 16 \<and> \<not> gpu_listed rules (sips ! i) then 0 else 1)" if "i < Suc k" for i
    using run(3) that k(2) len(2) answer_listed [OF r] by (simp add: answered_def)
  have v: "batch_verdicts ids (sip_buff st') (Suc k) =
      map (\<lambda>i. (ids ! i, if i < 16 \<and> \<not> gpu_listed rules (sips ! i) then NF_ACCEPT else NF_DROP)) [0..<Suc k]"
    unfolding batch_verdicts_def
  proof (intro map_cong refl)
    fix i assume "i \<in> set [0..<Suc k]"
    then have "i < Suc k" by auto
    from cell [OF this] show "(ids ! i, if sip_buff st' ! i = 0 then NF_ACCEPT else NF_DROP) =
        (ids ! i, if i < 16 \<and> \<not> gpu_listed rules (sips ! i) then NF_ACCEPT else NF_DROP)"
      by simp
  qed
  have s: "for_each [0..<Suc k] set_verdict st' = Inr (st'\<lparr>verdicts := verdicts st' @ batch_verdicts ids (sip_buff st') (Suc k)\<rparr>)"
    using set_verdicts [of "Suc k" st'] len' k(2) run(4) by simp
  have "unat (u_packet_buff_index st) < 1024" using k by simp
  note flush = packet_buffering_flush [OF st this p, of rules]
  show ?thesis
    using run(1,2,5,6) s v n(2) unfolding flush k(1) [symmetric] do_work_def
    by (simp add: filter_ready_def del: upt_Suc of_nat_Suc)
qed


text \<open>An item whose cell is behind the buffer leaves it.\<close>

lemma matching_overflow:
  assumes "2048 \<le> length rules" "128 < n" "n \<le> 1024" "length pk = 128" "p \<in> set ids" "item_index p = 128"
  shows "for_each ids (\<lambda>(x, y). packet_matching (ulong_words (take 2048 rules)) (of_nat n) x y) pk = Inl Out_of_bounds"
  using assms(4,5)
proof (induction ids arbitrary: pk)
  case (Cons q ids)
  have sn: "sint (of_nat n :: u32) = int n" using assms(3) by (intro sint_of_nat_small) simp
  let ?r = "packet_matching (ulong_words (take 2048 rules)) (of_nat n) (fst q) (snd q) pk"
  have "?r = Inl Out_of_bounds \<or> (\<exists>pk'. ?r = Inr pk' \<and> length pk' = 128 \<and> q \<noteq> p)"
  proof (cases "item_index q < n")
    case True
    show ?thesis
    proof (cases "item_index q < 128")
      case True
      then show ?thesis
        using assms(1,2,6) Cons.prems(1) sn \<open>item_index q < n\<close>
        by (auto simp: packet_matching_def rule_scan_words item_index_def Let_def)
    next
      case False
      then show ?thesis
        using Cons.prems(1) sn \<open>item_index q < n\<close>
        by (simp add: packet_matching_def item_index_def Let_def arr_get_def del: of_nat_add)
    qed
  next
    case False
    then show ?thesis
      using Cons.prems(1) sn assms(2,6) by (auto simp: packet_matching_def item_index_def Let_def simp del: of_nat_add)
  qed
  then show ?case
    using Cons by (auto simp: case_prod_unfold)
qed simp

text \<open>C30: The buffer on the device has 128 cells, but as many items work as packets have come: the 129th packet of a
  batch makes the kernel leave the buffer.\<close>

theorem gpu_batch_overflow:
  assumes st: "filter_ready st" and r: "2048 \<le> length rules"
    and k: "128 \<le> unat (u_packet_buff_index st)" "unat (u_packet_buff_index st) < 1024"
    and p: "ph_ok p" "payload p = Some iph" "is_tcp_udp iph" "1000000 < rv_time p - first_rv_time st"
  shows "packet_buffering rules p st = Inl Out_of_bounds"
proof -
  let ?b = "buffered p iph st" and ?n = "Suc (unat (u_packet_buff_index st))"
  let ?hp = "next_buf ?b" and ?hr = "Suc (next_buf ?b)"
  have b: "filter_ready ?b" by (rule buffered_fields(1) [OF st])
  obtain d st1 where d: "fair_gpu d" and run: "run_gpu_firewall rules (of_nat ?n) ?b =
      bindR (f_finish rules st1) (\<lambda>st. Inr (True, f_release (mem_obj2 st) (f_release (mem_obj st) st)))"
    and cs: "f_pending st1 = [Write_packets ?hp, Write_rules ?hr, Match d (Some ?hp) (Some ?hr) (of_nat ?n), Read_packets ?hp]"
    and bufs: "buffers st1 = (buffers ?b)(?hp \<mapsto> pl_junk (plat ?b) ?hp 512, ?hr \<mapsto> pl_junk (plat ?b) ?hr 16384)"
    and same: "plat st1 = plat ?b" "queue st1" "fcmd_order st1 = fcmd_order ?b" "sip_buff st1 = sip_buff ?b"
    using run_gpu_firewall_queue [OF b, of rules "of_nat ?n"] by blast
  have ready: "\<And>i. pl_ok (plat ?b) i" "\<And>m sz. length (pl_junk (plat ?b) m sz) = sz" "length (sip_buff ?b) = 1024"
    "\<And>m. fcmd_order ?b m = [0..<m]"
    using b by (simp_all add: filter_ready_def good_platform_def)
  have item_128: "item_index (0, 8) = 128" by (simp add: item_index_def)
  have "(0, 8) \<in> set (global_ids d (32, 32) (16, 8))"
    using global_ids(2) [OF d, of 16 8 2 4] by simp
  then have "launch_2d d (32, 32) (16, 8) (packet_matching (ulong_words (take 2048 rules)) (of_nat ?n)) (take 128 (sip_buff ?b)) =
      Inl Out_of_bounds"
    unfolding launch_2d_flat using k ready(3) by (intro matching_overflow [OF r _ _ _ _ item_128]) simp_all
  moreover have "length (ulong_words (take 2048 rules)) = 4096" using r by (simp add: length_ulong_words)
  moreover have "[0..<length (f_pending st1)] = [0, 1, 2, 3]" by (simp add: cs upt_rec)
  ultimately have "f_finish rules st1 = Inl Out_of_bounds"
    using ready same
    by (simp add: f_finish_def api_def cs bufs run_fcommand_def kernel_buffer_def del: of_nat_Suc)
  then show ?thesis
    unfolding packet_buffering_flush [OF st k(2) p] do_work_def run by simp
qed

text \<open>C34: Switching the filter off sets a flag that is never cleared: after it has been switched on again, the thread
  ends at the first packet, which gets no verdict, like all that follow.\<close>

theorem gpu_restart_dead:
  assumes "off_flag st = 0" and "nfq_open_ok q" "nfq_bind_ok q" "nfq_queue_ok q" "nfq_mode_ok q" "thread_ends q"
  shows "\<exists>st1 st2 st3 st4. gpu_firewall_launch q st = Some (Inr (0, st1)) \<and>
     gpu_firewall_launch q st1 = Some (Inr (0, st2)) \<and> gpu_firewall_launch q st2 = Some (Inr (0, st3)) \<and>
     handle_packet rules (e # es) st3 = Inr st4 \<and> verdicts st4 = verdicts st \<and> \<not> receiver st4"
  using assms by (cases e) (simp add: gpu_firewall_launch_def netlink_init_def)

section \<open>Both filters\<close>


section \<open>Concrete runs\<close>

definition example_filter :: "u32 \<Rightarrow> gpu_filter" where
  "example_filter k = \<lparr>plat = example_platform backward_gpu, calls = 0, buffers = (\<lambda>_. None), next_buf = 0,
     args = (\<lambda>_ _. None), queue = True, f_kernel = True, f_program = True, mem_obj = None, mem_obj2 = None,
     f_pending = [], fcmd_order = (\<lambda>m. [0..<m]), id_buff = replicate 1024 7, sip_buff = replicate 1024 33, u_packet_buff_index = k,
     first_rv_time = 0, perfo_rv_time = 0, f_packet_id = 0, verdicts = [], off_flag = 0, break_flag = False,
     receiver = False\<rparr>"

lemma example_filter_fields:
  "filter_ready (example_filter k)" "u_packet_buff_index (example_filter k) = k" "first_rv_time (example_filter k) = 0"
  "id_buff (example_filter k) = replicate 1024 7" "sip_buff (example_filter k) = replicate 1024 33"
  "verdicts (example_filter k) = []" "off_flag (example_filter k) = 0"
  by (simp_all add: example_filter_def filter_ready_def)

definition example_packet :: queued where
  "example_packet = \<lparr>ph_ok = True, ph_id = 8, payload = Some \<lparr>protocol = 17, saddr = 44\<rparr>, rv_time = 2000000, done_time = 2000001\<rparr>"

lemma example_packet_fields:
  "ph_ok example_packet" "payload example_packet = Some \<lparr>protocol = 17, saddr = 44\<rparr>" "rv_time example_packet = 2000000"
  "is_tcp_udp \<lparr>protocol = 17, saddr = a\<rparr>" "ph_id example_packet = 8"
  by (simp_all add: example_packet_def is_tcp_udp_def IPPROTO_UDP_def)


theorem gpu_batch_overflow_witness:
  "packet_buffering (replicate 2048 44) example_packet (example_filter 128) = Inl Out_of_bounds"
  using gpu_batch_overflow [of "example_filter 128" "replicate 2048 44" example_packet "\<lparr>protocol = 17, saddr = 44\<rparr>"]
  by (simp add: example_filter_fields example_packet_fields)

theorem gpu_restart_dead_witness:
  "\<exists>st1 st2 st3 st4. gpu_firewall_launch \<lparr>nfq_open_ok = True, nfq_bind_ok = True, nfq_queue_ok = True, nfq_mode_ok = True,
       thread_ok = True, thread_ends = True\<rparr> (example_filter 0) = Some (Inr (0, st1)) \<and>
     gpu_firewall_launch \<lparr>nfq_open_ok = True, nfq_bind_ok = True, nfq_queue_ok = True, nfq_mode_ok = True,
       thread_ok = True, thread_ends = True\<rparr> st1 = Some (Inr (0, st2)) \<and>
     gpu_firewall_launch \<lparr>nfq_open_ok = True, nfq_bind_ok = True, nfq_queue_ok = True, nfq_mode_ok = True,
       thread_ok = True, thread_ends = True\<rparr> st2 = Some (Inr (0, st3)) \<and>
     handle_packet [] [(9, example_packet)] st3 = Inr st4 \<and> verdicts st4 = verdicts (example_filter 0) \<and> \<not> receiver st4"
  by (rule gpu_restart_dead) (simp_all add: example_filter_fields)

definition example_table :: "string list" where
  "example_table = replicate 1024 (address_text 44) @ replicate 1024 (address_text 55)"

lemma example_table:
  "length example_table = 2048" "drop 1024 (map inet_aton example_table) = replicate 1024 55"
  by (simp_all add: example_table_def inet_aton_text)


end
