(* ===== verification/QH_Addresses.thy ===== *)
theory QH_Addresses
  imports QH_Firewall_Results
begin

text \<open>
  The tables of the packet filters: the texts that the hook on the CPU reads
  (\<open>bad_address\<close> of \<open>cpu_firewall_module.c\<close>) and the words that the service gives to the GPU
  (\<open>bad_ip_address.h\<close>), in parts of 128 lines, and what follows for the filters with these tables. Both
  tables are computed from the four numbers of each address, in the lists \<open>quads_...\<close>.
\<close>

section \<open>Addresses by their four numbers\<close>

type_synonym quad = "nat \<times> nat \<times> nat \<times> nat"

definition quad_text :: "quad \<Rightarrow> string" where
  "quad_text = (\<lambda>(a, b, c, d). decimal a @ CHR ''.'' # decimal b @ CHR ''.'' # decimal c @ CHR ''.'' # decimal d)"

definition quad_word :: "quad \<Rightarrow> u64" where
  "quad_word = (\<lambda>(a, b, c, d). of_nat (a + 256 * b + 65536 * c + 16777216 * d))"

definition is_quad :: "quad \<Rightarrow> bool" where
  "is_quad = (\<lambda>(a, b, c, d). a < 256 \<and> b < 256 \<and> c < 256 \<and> d < 256)"

lemma unat_quad_word:
  assumes "is_quad q"
  shows "unat (quad_word q) = (case q of (a, b, c, d) \<Rightarrow> a + 256 * b + 65536 * c + 16777216 * d)"
proof -
  obtain a b c d where q: "q = (a, b, c, d)"
    by (cases q)
  have "a + 256 * b + 65536 * c + 16777216 * d < 2 ^ LENGTH(64)"
    using assms by (simp add: q is_quad_def)
  then show ?thesis
    unfolding q quad_word_def prod.case by (rule unat_of_nat_small)
qed

lemma quad_word_first:
  assumes "is_quad q" "is_quad q'" and "quad_word q = quad_word q'"
  shows "fst q = fst q'" and "fst (snd q) = fst (snd q')"
proof -
  obtain a b c d where q: "q = (a, b, c, d)"
    by (cases q)
  obtain a' b' c' d' where q': "q' = (a', b', c', d')"
    by (cases q')
  have e: "a + 256 * (b + 256 * (c + 256 * d)) = a' + 256 * (b' + 256 * (c' + 256 * d'))"
    using arg_cong [OF assms(3), of unat] assms(1,2) by (simp add: unat_quad_word q q')
  have lt: "a < 256" "a' < 256" "b < 256" "b' < 256"
    using assms(1,2) by (simp_all add: q q' is_quad_def)
  have m: "(x + 256 * y) mod 256 = x" if "x < 256" for x y :: nat
    using that by simp
  have "a = a'"
    by (metis e m lt(1,2))
  moreover from this have "b + 256 * (c + 256 * d) = b' + 256 * (c' + 256 * d')"
    using e by simp
  then have "b = b'"
    by (metis m lt(3,4))
  ultimately show "fst q = fst q'" "fst (snd q) = fst (snd q')"
    by (simp_all add: q q')
qed

lemma inet_aton_quad:
  assumes "is_quad q"
  shows "inet_aton (quad_text q) = quad_word q"
proof -
  obtain a b c d where q: "q = (a, b, c, d)" and n: "a < 256" "b < 256" "c < 256" "d < 256"
    using assms by (cases q) (simp add: is_quad_def)
  let ?b = "of_nat :: nat \<Rightarrow> u8"
  have u: "unat (?b k) = k" if "k < 256" for k
    using that by (simp add: unat_of_nat)
  have "quad_text q = dotted_quad (?b a) (?b b) (?b c) (?b d)"
    using n by (simp add: q quad_text_def dotted_quad_def dotted_def u)
  then have "inet_aton (quad_text q) = ucast (of_bytes (?b a) (?b b) (?b c) (?b d))"
    by (simp add: inet_aton_dotted)
  also have "\<dots> = quad_word q"
  proof (rule word_unat_eq_iff [THEN iffD2])
    have "unat (ucast (of_bytes (?b a) (?b b) (?b c) (?b d)) :: u64) = a + 256 * b + 65536 * c + 16777216 * d"
      using n by (simp add: unsigned_ucast_eq take_bit_nat_eq_self unat_bytes u)
    then show "unat (ucast (of_bytes (?b a) (?b b) (?b c) (?b d)) :: u64) = unat (quad_word q)"
      using unat_quad_word [OF assms] by (simp add: q)
  qed
  finally show ?thesis .
qed

text \<open>The numbers that occur, in decimal.\<close>

lemma decimal_digits:
  "decimal 0 = ''0''"
  "decimal 1 = ''1''"
  "decimal 2 = ''2''"
  "decimal 3 = ''3''"
  "decimal 4 = ''4''"
  "decimal 5 = ''5''"
  "decimal 6 = ''6''"
  "decimal 7 = ''7''"
  "decimal 8 = ''8''"
  "decimal 9 = ''9''"
  by (simp_all add: decimal.simps char_of_def bit_iff_odd)

lemma decimal_step: "10 \<le> n \<Longrightarrow> decimal n = decimal (n div 10) @ decimal (n mod 10)"
  by (subst decimal.simps) (simp add: decimal.simps [of "n mod 10"])

lemma decimal_table:
  "decimal 10 = ''10''" "decimal 11 = ''11''" "decimal 12 = ''12''" "decimal 13 = ''13''" "decimal 14 = ''14''"
  "decimal 15 = ''15''" "decimal 16 = ''16''" "decimal 17 = ''17''" "decimal 18 = ''18''" "decimal 19 = ''19''"
  "decimal 20 = ''20''" "decimal 21 = ''21''" "decimal 22 = ''22''" "decimal 23 = ''23''" "decimal 24 = ''24''"
  "decimal 25 = ''25''" "decimal 26 = ''26''" "decimal 27 = ''27''" "decimal 28 = ''28''" "decimal 29 = ''29''"
  "decimal 30 = ''30''" "decimal 31 = ''31''" "decimal 32 = ''32''" "decimal 33 = ''33''" "decimal 34 = ''34''"
  "decimal 35 = ''35''" "decimal 36 = ''36''" "decimal 37 = ''37''" "decimal 38 = ''38''" "decimal 39 = ''39''"
  "decimal 40 = ''40''" "decimal 41 = ''41''" "decimal 42 = ''42''" "decimal 43 = ''43''" "decimal 44 = ''44''"
  "decimal 45 = ''45''" "decimal 46 = ''46''" "decimal 47 = ''47''" "decimal 48 = ''48''" "decimal 49 = ''49''"
  "decimal 50 = ''50''" "decimal 51 = ''51''" "decimal 52 = ''52''" "decimal 53 = ''53''" "decimal 54 = ''54''"
  "decimal 55 = ''55''" "decimal 56 = ''56''" "decimal 57 = ''57''" "decimal 58 = ''58''" "decimal 59 = ''59''"
  "decimal 60 = ''60''" "decimal 61 = ''61''" "decimal 62 = ''62''" "decimal 63 = ''63''" "decimal 64 = ''64''"
  "decimal 65 = ''65''" "decimal 66 = ''66''" "decimal 67 = ''67''" "decimal 68 = ''68''" "decimal 69 = ''69''"
  "decimal 70 = ''70''" "decimal 71 = ''71''" "decimal 72 = ''72''" "decimal 73 = ''73''" "decimal 74 = ''74''"
  "decimal 75 = ''75''" "decimal 76 = ''76''" "decimal 77 = ''77''" "decimal 78 = ''78''" "decimal 79 = ''79''"
  "decimal 80 = ''80''" "decimal 81 = ''81''" "decimal 82 = ''82''" "decimal 83 = ''83''" "decimal 84 = ''84''"
  "decimal 85 = ''85''" "decimal 86 = ''86''" "decimal 87 = ''87''" "decimal 88 = ''88''" "decimal 89 = ''89''"
  "decimal 90 = ''90''" "decimal 91 = ''91''" "decimal 92 = ''92''" "decimal 93 = ''93''" "decimal 94 = ''94''"
  "decimal 95 = ''95''" "decimal 96 = ''96''" "decimal 97 = ''97''" "decimal 98 = ''98''" "decimal 99 = ''99''"
  "decimal 100 = ''100''" "decimal 101 = ''101''" "decimal 102 = ''102''" "decimal 103 = ''103''"
  "decimal 104 = ''104''" "decimal 105 = ''105''" "decimal 106 = ''106''" "decimal 107 = ''107''"
  "decimal 108 = ''108''" "decimal 109 = ''109''" "decimal 110 = ''110''" "decimal 111 = ''111''"
  "decimal 112 = ''112''" "decimal 113 = ''113''" "decimal 114 = ''114''" "decimal 115 = ''115''"
  "decimal 116 = ''116''" "decimal 117 = ''117''" "decimal 118 = ''118''" "decimal 119 = ''119''"
  "decimal 120 = ''120''" "decimal 121 = ''121''" "decimal 122 = ''122''" "decimal 123 = ''123''"
  "decimal 124 = ''124''" "decimal 125 = ''125''" "decimal 126 = ''126''" "decimal 127 = ''127''"
  "decimal 128 = ''128''" "decimal 129 = ''129''" "decimal 130 = ''130''" "decimal 131 = ''131''"
  "decimal 132 = ''132''" "decimal 133 = ''133''" "decimal 134 = ''134''" "decimal 135 = ''135''"
  "decimal 136 = ''136''" "decimal 137 = ''137''" "decimal 138 = ''138''" "decimal 139 = ''139''"
  "decimal 140 = ''140''" "decimal 141 = ''141''" "decimal 142 = ''142''" "decimal 143 = ''143''"
  "decimal 144 = ''144''" "decimal 145 = ''145''" "decimal 146 = ''146''" "decimal 147 = ''147''"
  "decimal 148 = ''148''" "decimal 149 = ''149''" "decimal 150 = ''150''" "decimal 151 = ''151''"
  "decimal 152 = ''152''" "decimal 153 = ''153''" "decimal 154 = ''154''" "decimal 155 = ''155''"
  "decimal 156 = ''156''" "decimal 157 = ''157''" "decimal 158 = ''158''" "decimal 159 = ''159''"
  "decimal 160 = ''160''" "decimal 161 = ''161''" "decimal 162 = ''162''" "decimal 163 = ''163''"
  "decimal 164 = ''164''" "decimal 165 = ''165''" "decimal 166 = ''166''" "decimal 167 = ''167''"
  "decimal 168 = ''168''" "decimal 169 = ''169''" "decimal 170 = ''170''" "decimal 171 = ''171''"
  "decimal 172 = ''172''" "decimal 173 = ''173''" "decimal 174 = ''174''" "decimal 175 = ''175''"
  "decimal 176 = ''176''" "decimal 177 = ''177''" "decimal 178 = ''178''" "decimal 179 = ''179''"
  "decimal 180 = ''180''" "decimal 181 = ''181''" "decimal 182 = ''182''" "decimal 183 = ''183''"
  "decimal 184 = ''184''" "decimal 185 = ''185''" "decimal 186 = ''186''" "decimal 187 = ''187''"
  "decimal 188 = ''188''" "decimal 189 = ''189''" "decimal 190 = ''190''" "decimal 191 = ''191''"
  "decimal 192 = ''192''" "decimal 193 = ''193''" "decimal 194 = ''194''" "decimal 195 = ''195''"
  "decimal 196 = ''196''" "decimal 197 = ''197''" "decimal 198 = ''198''" "decimal 199 = ''199''"
  "decimal 200 = ''200''" "decimal 201 = ''201''" "decimal 202 = ''202''" "decimal 203 = ''203''"
  "decimal 204 = ''204''" "decimal 205 = ''205''" "decimal 206 = ''206''" "decimal 207 = ''207''"
  "decimal 208 = ''208''" "decimal 209 = ''209''" "decimal 210 = ''210''" "decimal 211 = ''211''"
  "decimal 212 = ''212''" "decimal 213 = ''213''" "decimal 214 = ''214''" "decimal 215 = ''215''"
  "decimal 216 = ''216''" "decimal 217 = ''217''" "decimal 218 = ''218''" "decimal 219 = ''219''"
  "decimal 220 = ''220''" "decimal 221 = ''221''" "decimal 222 = ''222''" "decimal 223 = ''223''"
  "decimal 224 = ''224''" "decimal 225 = ''225''" "decimal 226 = ''226''" "decimal 227 = ''227''"
  "decimal 228 = ''228''" "decimal 229 = ''229''" "decimal 230 = ''230''" "decimal 231 = ''231''"
  "decimal 232 = ''232''" "decimal 233 = ''233''" "decimal 234 = ''234''" "decimal 235 = ''235''"
  "decimal 236 = ''236''" "decimal 237 = ''237''" "decimal 238 = ''238''" "decimal 239 = ''239''"
  "decimal 240 = ''240''" "decimal 241 = ''241''" "decimal 242 = ''242''" "decimal 243 = ''243''"
  "decimal 244 = ''244''" "decimal 245 = ''245''" "decimal 246 = ''246''" "decimal 247 = ''247''"
  "decimal 248 = ''248''" "decimal 249 = ''249''" "decimal 250 = ''250''" "decimal 251 = ''251''"
  "decimal 252 = ''252''" "decimal 253 = ''253''" "decimal 254 = ''254''" "decimal 255 = ''255''"
  by (simp_all add: decimal_step decimal_digits del: One_nat_def)

lemmas quad_table = quad_text_def decimal_table decimal_digits

section \<open>The numbers\<close>

definition quads_0 :: "quad list" where
  "quads_0 =
    [(1, 36, 202, 60), (4, 18, 162, 102), (4, 36, 44, 3), (4, 38, 98, 140), (4, 53, 2, 15), (4, 65, 105, 109),
     (4, 71, 209, 63), (4, 79, 208, 59), (4, 79, 209, 63), (5, 135, 110, 169), (8, 5, 1, 255), (8, 7, 65, 255),
     (8, 7, 210, 255), (8, 8, 14, 255), (8, 9, 23, 204), (8, 11, 1, 255), (8, 15, 231, 255), (8, 15, 246, 255),
     (8, 20, 107, 255), (8, 36, 41, 66), (12, 3, 249, 255), (12, 14, 172, 204), (12, 25, 215, 191),
     (12, 29, 97, 111), (12, 30, 241, 70), (12, 30, 241, 74), (12, 30, 241, 106), (12, 36, 78, 54),
     (12, 37, 77, 151), (12, 38, 121, 255), (12, 45, 120, 255), (12, 47, 30, 63), (12, 47, 49, 103),
     (12, 47, 49, 127), (12, 47, 62, 247), (12, 62, 10, 127), (12, 62, 192, 31), (12, 62, 229, 95),
     (12, 63, 95, 255), (12, 63, 96, 255), (12, 63, 109, 159), (12, 63, 109, 255), (12, 63, 131, 191),
     (12, 63, 198, 255), (12, 63, 224, 191), (12, 107, 183, 255), (12, 129, 198, 41), (12, 129, 201, 99),
     (12, 129, 205, 167), (12, 129, 210, 127), (12, 129, 211, 125), (12, 129, 225, 165), (12, 129, 229, 191),
     (12, 129, 248, 55), (12, 129, 248, 191), (12, 130, 6, 23), (12, 130, 9, 159), (12, 130, 12, 255),
     (12, 130, 47, 255), (12, 130, 81, 255), (12, 130, 91, 8), (12, 130, 94, 255), (12, 145, 139, 167),
     (12, 148, 21, 23), (12, 152, 188, 255), (12, 153, 20, 152), (12, 153, 20, 157), (12, 153, 252, 39),
     (12, 158, 80, 10), (12, 158, 89, 255), (12, 168, 32, 90), (12, 168, 33, 58), (12, 168, 33, 194),
     (12, 170, 239, 135), (12, 170, 239, 159), (12, 180, 237, 127), (12, 185, 17, 255), (12, 191, 176, 55),
     (14, 98, 196, 83), (24, 104, 40, 39), (24, 104, 40, 52), (24, 106, 94, 101), (24, 113, 214, 99),
     (24, 155, 144, 47), (24, 155, 144, 127), (24, 155, 147, 135), (24, 173, 79, 235), (24, 242, 151, 203),
     (27, 131, 11, 255), (31, 131, 4, 129), (31, 210, 123, 140), (31, 210, 127, 55), (38, 96, 176, 111),
     (38, 96, 182, 255), (38, 97, 203, 255), (38, 98, 0, 223), (38, 98, 3, 255), (38, 98, 19, 127),
     (38, 98, 124, 255), (38, 99, 204, 151), (38, 99, 218, 119), (38, 100, 7, 255), (38, 101, 50, 7),
     (38, 101, 160, 91), (38, 101, 223, 255), (38, 102, 129, 255), (38, 102, 195, 63), (38, 102, 195, 183),
     (38, 103, 25, 191), (38, 103, 26, 255), (38, 103, 37, 207), (38, 103, 65, 171), (38, 104, 66, 67),
     (38, 104, 69, 67), (38, 105, 138, 255), (38, 107, 231, 255), (38, 112, 10, 71), (38, 112, 22, 75),
     (38, 112, 44, 79), (38, 113, 1, 80), (38, 113, 1, 111), (38, 113, 1, 151), (38, 113, 1, 155),
     (38, 113, 1, 159), (38, 113, 198, 136), (38, 114, 129, 148), (38, 117, 174, 2), (38, 117, 174, 20)]"

definition quads_1 :: "quad list" where
  "quads_1 =
    [(38, 119, 65, 135), (38, 119, 65, 138), (41, 168, 5, 140), (41, 203, 64, 251), (41, 203, 64, 254),
     (46, 17, 97, 109), (46, 152, 222, 161), (46, 246, 31, 255), (50, 19, 238, 88), (50, 19, 242, 168),
     (50, 19, 254, 139), (50, 22, 243, 55), (50, 22, 243, 55), (50, 23, 166, 199), (50, 30, 32, 39),
     (50, 56, 36, 143), (50, 62, 246, 197), (50, 63, 39, 1), (54, 208, 71, 200), (59, 53, 91, 187),
     (59, 106, 13, 26), (59, 106, 118, 239), (59, 175, 187, 36), (60, 18, 147, 78), (60, 172, 228, 100),
     (60, 190, 217, 127), (60, 234, 157, 178), (61, 8, 3, 212), (61, 32, 141, 191), (61, 35, 89, 63),
     (61, 37, 232, 127), (61, 100, 3, 191), (61, 103, 220, 159), (61, 115, 205, 23), (61, 121, 253, 127),
     (61, 129, 67, 141), (61, 129, 67, 149), (61, 129, 67, 151), (61, 129, 69, 190), (61, 132, 200, 24),
     (61, 135, 131, 23), (61, 135, 131, 34), (61, 135, 131, 37), (61, 135, 131, 39), (61, 135, 131, 43),
     (61, 135, 131, 141), (61, 138, 248, 68), (61, 145, 75, 227), (61, 145, 75, 233), (61, 150, 107, 156),
     (61, 152, 255, 255), (61, 173, 221, 148), (61, 177, 222, 222), (61, 178, 129, 7), (61, 196, 212, 39),
     (61, 202, 243, 255), (61, 208, 139, 165), (62, 23, 124, 95), (62, 23, 137, 170), (62, 26, 219, 12),
     (62, 26, 240, 99), (62, 27, 21, 101), (62, 27, 59, 3), (62, 27, 59, 63), (62, 39, 108, 98), (62, 39, 122, 21),
     (62, 56, 244, 55), (62, 65, 34, 79), (62, 65, 36, 143), (62, 93, 224, 242), (62, 96, 104, 63),
     (62, 104, 23, 57), (62, 115, 254, 26), (62, 118, 240, 27), (62, 118, 248, 72), (62, 141, 48, 86),
     (62, 142, 78, 175), (62, 146, 24, 251), (62, 146, 61, 255), (62, 146, 88, 127), (62, 146, 222, 65),
     (62, 149, 0, 12), (62, 149, 0, 140), (62, 149, 36, 255), (62, 149, 36, 64), (62, 153, 59, 95),
     (62, 160, 32, 255), (62, 161, 94, 255), (62, 161, 141, 127), (62, 161, 184, 127), (62, 161, 191, 95),
     (62, 172, 221, 47), (62, 173, 75, 91), (62, 173, 75, 111), (62, 183, 104, 5), (62, 189, 43, 239),
     (62, 189, 74, 144), (62, 192, 12, 63), (62, 193, 206, 144), (62, 206, 130, 239), (62, 210, 139, 63),
     (62, 210, 156, 223), (62, 210, 164, 84), (62, 219, 199, 210), (62, 221, 2, 59), (62, 221, 20, 255),
     (62, 233, 196, 79), (62, 233, 212, 55), (62, 233, 239, 79), (62, 245, 139, 255), (62, 250, 147, 3),
     (63, 69, 12, 31), (63, 77, 12, 175), (63, 77, 84, 14), (63, 77, 84, 31), (63, 80, 79, 63), (63, 80, 182, 159),
     (63, 81, 16, 127), (63, 85, 84, 255), (63, 89, 82, 255), (63, 91, 145, 35), (63, 99, 210, 223),
     (63, 99, 213, 255), (63, 99, 224, 255), (63, 108, 45, 2), (63, 108, 45, 7), (63, 110, 136, 251),
     (63, 111, 24, 24)]"

definition quads_2 :: "quad list" where
  "quads_2 =
    [(63, 111, 30, 114), (63, 111, 71, 203), (63, 111, 71, 206), (63, 112, 171, 69), (63, 116, 135, 245),
     (63, 117, 23, 255), (63, 117, 208, 119), (63, 119, 45, 255), (63, 119, 175, 35), (63, 121, 29, 55),
     (63, 123, 44, 189), (63, 123, 44, 198), (63, 123, 232, 243), (63, 123, 248, 63), (63, 145, 196, 33),
     (63, 146, 109, 210), (63, 146, 114, 47), (63, 149, 75, 28), (63, 150, 10, 166), (63, 150, 150, 127),
     (63, 151, 45, 144), (63, 151, 147, 200), (63, 156, 206, 38), (63, 160, 54, 255), (63, 161, 150, 21),
     (63, 166, 98, 255), (63, 168, 198, 127), (63, 195, 71, 167), (63, 198, 177, 62), (63, 200, 181, 199),
     (63, 208, 235, 8), (63, 210, 101, 220), (63, 210, 174, 175), (63, 210, 193, 4), (63, 211, 66, 69),
     (63, 211, 66, 75), (63, 211, 178, 98), (63, 211, 178, 106), (63, 211, 210, 22), (63, 211, 210, 219),
     (63, 211, 210, 225), (63, 215, 86, 196), (63, 215, 143, 207), (63, 215, 149, 58), (63, 217, 29, 115),
     (63, 218, 7, 147), (63, 219, 181, 10), (63, 225, 198, 63), (63, 229, 62, 255), (63, 236, 0, 55),
     (63, 236, 2, 236), (63, 236, 6, 201), (63, 236, 18, 117), (63, 236, 27, 111), (63, 236, 32, 63),
     (63, 236, 57, 90), (63, 236, 72, 243), (63, 236, 73, 193), (63, 236, 73, 247), (63, 236, 75, 87),
     (63, 240, 4, 141), (63, 240, 86, 20), (63, 240, 140, 119), (63, 240, 215, 83), (63, 241, 16, 133),
     (63, 241, 31, 110), (63, 241, 64, 255), (63, 241, 72, 127), (63, 241, 73, 127), (63, 241, 74, 255),
     (63, 241, 205, 207), (63, 246, 36, 14), (63, 246, 36, 181), (63, 246, 36, 197), (63, 246, 38, 98),
     (63, 246, 39, 15), (63, 246, 39, 200), (63, 246, 41, 97), (63, 246, 41, 174), (63, 246, 41, 217),
     (63, 246, 45, 23), (63, 246, 45, 54), (63, 246, 45, 231), (63, 247, 53, 2), (63, 247, 65, 85),
     (63, 247, 69, 155), (63, 247, 72, 110), (63, 251, 10, 166), (63, 251, 28, 255), (63, 251, 53, 239),
     (63, 251, 59, 4), (63, 251, 134, 255), (63, 251, 174, 255), (63, 251, 179, 63), (63, 251, 249, 63),
     (64, 0, 98, 91), (64, 4, 241, 18), (64, 5, 44, 191), (64, 5, 230, 150), (64, 7, 207, 114), (64, 7, 207, 123),
     (64, 7, 209, 58), (64, 12, 46, 11), (64, 12, 46, 24), (64, 12, 144, 53), (64, 12, 164, 153),
     (64, 12, 164, 249), (64, 12, 174, 57), (64, 12, 174, 121), (64, 12, 174, 185), (64, 12, 174, 249),
     (64, 15, 69, 127), (64, 20, 60, 109), (64, 27, 10, 50), (64, 29, 19, 71), (64, 29, 19, 73),
     (64, 29, 137, 108), (64, 29, 193, 221), (64, 29, 193, 223), (64, 30, 224, 111), (64, 30, 224, 112),
     (64, 34, 33, 223), (64, 34, 219, 40), (64, 34, 224, 15), (64, 35, 113, 133), (64, 37, 93, 133),
     (64, 39, 3, 186), (64, 39, 31, 55)]"

definition quads_3 :: "quad list" where
  "quads_3 =
    [(64, 42, 128, 47), (64, 42, 128, 55), (64, 42, 240, 226), (64, 49, 212, 207), (64, 49, 213, 239),
     (64, 49, 220, 24), (64, 49, 254, 245), (64, 52, 42, 223), (64, 55, 224, 90), (64, 57, 68, 169),
     (64, 60, 14, 63), (64, 62, 137, 235), (64, 62, 139, 123), (64, 62, 155, 144), (64, 62, 165, 142),
     (64, 62, 196, 255), (64, 62, 232, 32), (64, 69, 78, 73), (64, 69, 86, 223), (64, 70, 54, 255),
     (64, 71, 158, 37), (64, 72, 118, 11), (64, 72, 118, 13), (64, 73, 25, 70), (64, 73, 138, 118),
     (64, 74, 15, 255), (64, 74, 193, 255), (64, 74, 193, 27), (64, 74, 197, 255), (64, 74, 223, 35),
     (64, 77, 93, 15), (64, 77, 102, 191), (64, 79, 203, 191), (64, 79, 212, 95), (64, 85, 161, 4),
     (64, 88, 247, 20), (64, 89, 239, 255), (64, 90, 37, 75), (64, 90, 175, 199), (64, 92, 120, 1),
     (64, 94, 3, 47), (64, 94, 26, 1), (64, 94, 107, 255), (64, 94, 110, 11), (64, 94, 117, 227),
     (64, 94, 219, 71), (64, 94, 219, 101), (64, 94, 224, 39), (64, 94, 235, 14), (64, 95, 46, 31),
     (64, 95, 64, 197), (64, 95, 65, 50), (64, 95, 66, 74), (64, 105, 125, 223), (64, 106, 146, 243),
     (64, 106, 206, 108), (64, 111, 199, 225), (64, 111, 201, 19), (64, 119, 175, 104), (64, 122, 31, 124),
     (64, 124, 11, 63), (64, 124, 11, 175), (64, 124, 11, 255), (64, 124, 17, 39), (64, 124, 17, 167),
     (64, 124, 65, 255), (64, 124, 125, 2), (64, 124, 125, 10), (64, 124, 128, 39), (64, 125, 32, 255),
     (64, 125, 36, 255), (64, 125, 46, 255), (64, 125, 48, 255), (64, 125, 99, 196), (64, 125, 99, 209),
     (64, 125, 104, 135), (64, 125, 104, 151), (64, 127, 63, 255), (64, 127, 126, 255), (64, 136, 21, 86),
     (64, 136, 21, 94), (64, 136, 28, 49), (64, 136, 29, 94), (64, 141, 41, 9), (64, 141, 46, 196),
     (64, 145, 82, 255), (64, 146, 132, 15), (64, 148, 84, 191), (64, 151, 82, 95), (64, 151, 88, 191),
     (64, 152, 59, 175), (64, 152, 107, 19), (64, 154, 5, 101), (64, 156, 1, 160), (64, 156, 188, 7),
     (64, 156, 213, 13), (64, 156, 213, 21), (64, 156, 213, 60), (64, 156, 241, 61), (64, 157, 2, 17),
     (64, 157, 3, 255), (64, 157, 14, 4), (64, 158, 176, 225), (64, 159, 80, 186), (64, 159, 90, 255),
     (64, 163, 101, 191), (64, 172, 250, 82), (64, 179, 93, 233), (64, 185, 225, 15), (64, 186, 152, 254),
     (64, 187, 43, 63), (64, 191, 3, 101), (64, 191, 7, 233), (64, 191, 22, 152), (64, 191, 53, 115),
     (64, 191, 128, 200), (64, 191, 201, 255), (64, 191, 208, 206), (64, 191, 219, 255), (64, 200, 214, 178),
     (64, 202, 97, 102), (64, 208, 143, 255), (64, 210, 63, 255), (64, 210, 61, 215), (64, 213, 215, 255),
     (64, 214, 129, 129), (64, 225, 154, 39), (64, 227, 2, 35)]"

definition quads_4 :: "quad list" where
  "quads_4 =
    [(64, 235, 246, 62), (64, 235, 246, 121), (64, 235, 246, 143), (64, 236, 90, 31), (64, 236, 90, 83),
     (64, 236, 123, 255), (64, 236, 124, 244), (64, 237, 38, 120), (64, 237, 39, 66), (64, 237, 39, 76),
     (64, 237, 48, 240), (64, 237, 59, 127), (64, 237, 99, 81), (64, 238, 216, 255), (64, 238, 219, 255),
     (64, 239, 76, 221), (64, 245, 50, 127), (64, 246, 11, 147), (64, 246, 22, 66), (64, 246, 24, 53),
     (64, 246, 25, 209), (64, 246, 54, 62), (64, 246, 56, 19), (64, 255, 27, 124), (64, 255, 30, 254),
     (65, 17, 235, 95), (65, 19, 175, 31), (65, 38, 104, 134), (65, 39, 176, 84), (65, 39, 176, 100),
     (65, 39, 176, 118), (65, 39, 199, 127), (65, 39, 221, 218), (65, 39, 254, 101), (65, 43, 109, 87),
     (65, 49, 80, 87), (65, 54, 192, 249), (65, 54, 194, 118), (65, 54, 194, 120), (65, 57, 163, 127),
     (65, 59, 207, 255), (65, 59, 207, 13), (65, 61, 154, 138), (65, 61, 166, 78), (65, 77, 20, 201),
     (65, 83, 52, 31), (65, 91, 27, 255), (65, 105, 124, 60), (65, 105, 124, 113), (65, 105, 124, 118),
     (65, 105, 124, 141), (65, 108, 44, 167), (65, 108, 66, 192), (65, 112, 157, 22), (65, 118, 27, 70),
     (65, 118, 27, 112), (65, 124, 175, 255), (65, 126, 5, 4), (65, 162, 162, 120), (65, 164, 242, 200),
     (65, 165, 64, 131), (65, 167, 67, 255), (65, 169, 109, 23), (65, 174, 181, 72), (65, 192, 164, 255),
     (65, 198, 65, 141), (65, 205, 8, 255), (65, 205, 8, 101), (65, 205, 8, 103), (65, 209, 3, 232),
     (65, 213, 187, 43), (65, 213, 187, 119), (65, 214, 39, 8), (65, 216, 116, 114), (65, 219, 232, 127),
     (65, 240, 193, 63), (65, 242, 135, 31), (65, 244, 62, 255), (65, 245, 193, 255), (65, 254, 35, 117),
     (66, 11, 194, 223), (66, 17, 132, 173), (66, 17, 140, 20), (66, 24, 237, 176), (66, 33, 61, 127),
     (66, 33, 193, 47), (66, 33, 211, 241), (66, 33, 212, 78), (66, 36, 236, 148), (66, 36, 242, 227),
     (66, 39, 107, 248), (66, 39, 152, 45), (66, 40, 9, 153), (66, 40, 9, 230), (66, 40, 9, 245),
     (66, 40, 16, 131), (66, 40, 21, 68), (66, 40, 66, 171), (66, 43, 18, 27), (66, 45, 51, 9), (66, 45, 56, 124),
     (66, 45, 103, 239), (66, 45, 230, 135), (66, 45, 237, 127), (66, 45, 237, 212), (66, 45, 252, 171),
     (66, 46, 181, 112), (66, 48, 37, 81), (66, 48, 41, 70), (66, 48, 76, 90), (66, 48, 78, 255),
     (66, 48, 82, 127), (66, 55, 129, 149), (66, 55, 162, 59), (66, 60, 188, 100), (66, 62, 66, 255),
     (66, 63, 142, 42), (66, 70, 20, 60), (66, 70, 21, 80), (66, 70, 32, 76), (66, 70, 64, 60), (66, 70, 65, 223),
     (66, 70, 83, 82), (66, 70, 91, 40), (66, 77, 24, 5), (66, 77, 30, 255), (66, 77, 55, 255), (66, 77, 72, 63)]"

definition quads_5 :: "quad list" where
  "quads_5 =
    [(66, 77, 165, 210), (66, 77, 165, 218), (66, 77, 165, 227), (66, 77, 165, 233), (66, 77, 165, 241),
     (66, 77, 204, 243), (66, 85, 137, 34), (66, 85, 170, 199), (66, 90, 70, 241), (66, 92, 217, 255),
     (66, 93, 188, 67), (66, 94, 245, 254), (66, 97, 38, 210), (66, 98, 136, 78), (66, 98, 142, 23),
     (66, 98, 164, 14), (66, 98, 172, 15), (66, 98, 174, 16), (66, 98, 176, 41), (66, 98, 188, 54),
     (66, 98, 188, 77), (66, 98, 196, 71), (66, 98, 208, 55), (66, 98, 208, 60), (66, 98, 218, 16),
     (66, 98, 218, 39), (66, 98, 226, 205), (66, 109, 27, 140), (66, 109, 27, 150), (66, 111, 40, 193),
     (66, 111, 51, 70), (66, 111, 51, 75), (66, 111, 59, 70), (66, 113, 66, 12), (66, 113, 205, 190),
     (66, 115, 142, 31), (66, 115, 143, 129), (66, 115, 146, 207), (66, 115, 150, 29), (66, 115, 157, 178),
     (66, 115, 182, 10), (66, 115, 190, 223), (66, 117, 18, 122), (66, 118, 182, 73), (66, 118, 182, 127),
     (66, 119, 140, 211), (66, 120, 65, 231), (66, 128, 51, 199), (66, 129, 106, 209), (66, 132, 180, 30),
     (66, 132, 227, 169), (66, 132, 242, 192), (66, 135, 34, 13), (66, 147, 231, 52), (66, 147, 240, 168),
     (66, 147, 242, 94), (66, 150, 2, 71), (66, 150, 2, 101), (66, 150, 51, 160), (66, 150, 87, 255),
     (66, 150, 161, 57), (66, 151, 147, 223), (66, 151, 148, 193), (66, 151, 151, 255), (66, 151, 158, 189),
     (66, 152, 78, 141), (66, 152, 86, 218), (66, 152, 97, 228), (66, 152, 97, 242), (66, 154, 47, 163),
     (66, 159, 17, 64), (66, 160, 140, 15), (66, 161, 28, 191), (66, 161, 36, 159), (66, 161, 95, 79),
     (66, 161, 95, 255), (66, 163, 193, 1), (66, 165, 65, 213), (66, 166, 98, 191), (66, 175, 110, 255),
     (66, 179, 5, 127), (66, 179, 17, 187), (66, 179, 48, 101), (66, 179, 50, 191), (66, 179, 107, 37),
     (66, 179, 107, 41), (66, 179, 188, 127), (66, 179, 217, 255), (66, 179, 234, 169), (66, 195, 251, 174),
     (66, 197, 152, 21), (66, 197, 165, 34), (66, 201, 72, 224), (66, 201, 203, 191), (66, 201, 203, 151),
     (66, 201, 203, 154), (66, 207, 130, 78), (66, 207, 130, 81), (66, 207, 131, 111), (66, 212, 28, 53),
     (66, 213, 250, 215), (66, 216, 74, 58), (66, 216, 104, 235), (66, 216, 104, 238), (66, 216, 127, 26),
     (66, 218, 70, 227), (66, 218, 79, 157), (66, 218, 79, 169), (66, 218, 79, 171), (66, 218, 79, 179),
     (66, 220, 23, 159), (66, 220, 28, 4), (66, 220, 30, 255), (66, 223, 50, 92), (66, 225, 196, 202),
     (66, 225, 233, 90), (66, 226, 0, 25), (66, 226, 5, 172), (66, 226, 8, 150), (66, 226, 14, 31),
     (66, 230, 218, 65), (66, 230, 218, 254), (66, 230, 219, 137), (66, 230, 229, 214), (66, 230, 230, 137),
     (66, 230, 237, 76), (66, 231, 185, 95), (66, 235, 132, 91)]"

definition quads_6 :: "quad list" where
  "quads_6 =
    [(66, 235, 142, 32), (66, 235, 143, 14), (66, 235, 184, 119), (66, 235, 197, 172), (66, 235, 200, 193),
     (66, 238, 181, 67), (66, 240, 180, 176), (66, 241, 234, 221), (66, 243, 22, 223), (66, 246, 123, 70),
     (66, 248, 150, 135), (66, 249, 8, 7), (66, 250, 32, 148), (66, 250, 56, 83), (66, 250, 56, 90),
     (66, 250, 74, 4), (66, 250, 74, 70), (66, 250, 74, 75), (66, 250, 74, 80), (66, 250, 74, 146),
     (66, 250, 74, 150), (66, 250, 131, 20), (66, 250, 170, 66), (66, 250, 172, 10), (66, 250, 172, 20),
     (66, 250, 172, 106), (66, 252, 2, 42), (66, 252, 196, 227), (66, 253, 63, 223), (67, 15, 35, 238),
     (67, 15, 208, 203), (67, 18, 3, 46), (67, 18, 36, 95), (67, 18, 149, 146), (67, 18, 205, 255),
     (67, 19, 50, 223), (67, 20, 81, 43), (67, 20, 93, 36), (67, 20, 105, 40), (67, 22, 32, 200),
     (67, 52, 153, 90), (67, 67, 172, 111), (67, 88, 125, 207), (67, 96, 63, 112), (67, 98, 37, 255),
     (67, 99, 234, 255), (67, 101, 117, 190), (67, 116, 3, 23), (67, 125, 41, 59), (67, 127, 77, 47),
     (67, 131, 219, 239), (67, 133, 105, 5), (67, 134, 147, 191), (67, 134, 255, 191), (67, 151, 144, 143),
     (67, 155, 70, 170), (67, 159, 30, 207), (67, 166, 40, 246), (67, 175, 74, 110), (67, 192, 17, 71),
     (67, 192, 38, 159), (67, 192, 63, 76), (67, 192, 208, 87), (67, 201, 17, 239), (67, 202, 194, 191),
     (67, 205, 72, 39), (67, 213, 68, 47), (67, 215, 253, 255), (67, 220, 139, 255), (67, 222, 10, 128),
     (67, 222, 132, 254), (67, 228, 150, 176), (67, 228, 185, 237), (68, 16, 122, 223), (68, 67, 191, 255),
     (68, 67, 141, 255), (68, 68, 101, 79), (68, 68, 102, 103), (68, 68, 108, 255), (68, 89, 226, 179),
     (68, 89, 226, 214), (68, 123, 19, 135), (68, 125, 16, 191), (68, 142, 79, 111), (68, 142, 79, 233),
     (68, 167, 172, 100), (68, 168, 78, 26), (68, 169, 59, 199), (68, 169, 80, 78), (68, 169, 83, 31),
     (68, 178, 225, 104), (68, 178, 232, 143), (68, 178, 254, 125), (68, 195, 62, 40), (68, 208, 26, 255),
     (68, 209, 118, 21), (69, 0, 150, 247), (69, 0, 211, 71), (69, 1, 196, 108), (69, 6, 79, 255), (69, 6, 16, 15),
     (69, 6, 21, 11), (69, 6, 21, 18), (69, 6, 21, 32), (69, 6, 21, 50), (69, 6, 21, 60), (69, 6, 21, 177),
     (69, 6, 21, 191), (69, 6, 21, 229), (69, 6, 27, 255), (69, 9, 170, 150), (69, 10, 136, 136),
     (69, 10, 149, 103), (69, 12, 116, 2), (69, 13, 62, 3), (69, 13, 126, 2), (69, 18, 218, 255), (69, 20, 4, 111),
     (69, 20, 5, 164), (69, 20, 5, 183), (69, 20, 11, 26), (69, 20, 16, 43), (69, 20, 24, 247), (69, 20, 55, 134),
     (69, 20, 101, 143), (69, 22, 151, 97), (69, 22, 158, 29), (69, 25, 28, 255)]"

definition quads_7 :: "quad list" where
  "quads_7 =
    [(69, 25, 40, 47), (69, 25, 42, 255), (69, 25, 43, 255), (69, 25, 47, 164), (69, 25, 56, 71),
     (69, 25, 57, 255), (69, 28, 109, 255), (69, 28, 135, 164), (69, 30, 39, 255), (69, 30, 192, 53),
     (69, 30, 219, 63), (69, 31, 79, 146), (69, 31, 79, 178), (69, 31, 80, 129), (69, 31, 80, 226),
     (69, 31, 81, 52), (69, 31, 81, 56), (69, 31, 86, 84), (69, 31, 86, 87), (69, 31, 86, 131), (69, 31, 86, 139),
     (69, 31, 86, 147), (69, 31, 86, 221), (69, 31, 86, 223), (69, 31, 86, 226), (69, 31, 86, 240),
     (69, 31, 87, 128), (69, 31, 87, 209), (69, 31, 98, 173), (69, 39, 68, 139), (69, 42, 75, 212),
     (69, 43, 160, 255), (69, 46, 0, 97), (69, 46, 28, 87), (69, 46, 228, 255), (69, 46, 237, 255),
     (69, 48, 237, 255), (69, 49, 96, 8), (69, 50, 134, 71), (69, 50, 138, 195), (69, 50, 141, 255),
     (69, 50, 142, 255), (69, 50, 179, 217), (69, 51, 8, 4), (69, 51, 8, 31), (69, 51, 8, 33), (69, 51, 8, 39),
     (69, 56, 0, 15), (69, 56, 0, 39), (69, 56, 1, 247), (69, 56, 2, 15), (69, 56, 2, 143), (69, 56, 3, 223),
     (69, 56, 38, 79), (69, 56, 52, 231), (69, 56, 62, 47), (69, 56, 62, 58), (69, 56, 62, 111), (69, 56, 62, 119),
     (69, 56, 62, 143), (69, 56, 63, 79), (69, 56, 150, 162), (69, 56, 184, 234), (69, 56, 224, 58),
     (69, 57, 134, 85), (69, 57, 142, 54), (69, 57, 155, 106), (69, 59, 142, 120), (69, 59, 161, 243),
     (69, 59, 175, 148), (69, 64, 32, 196), (69, 64, 46, 58), (69, 64, 70, 10), (69, 64, 74, 26),
     (69, 64, 255, 255), (69, 65, 3, 173), (69, 71, 57, 93), (69, 72, 223, 164), (69, 74, 211, 255),
     (69, 74, 238, 175), (69, 89, 31, 180), (69, 90, 81, 206), (69, 90, 216, 175), (69, 93, 50, 150),
     (69, 93, 119, 98), (69, 93, 171, 85), (69, 93, 221, 87), (69, 109, 103, 55), (69, 150, 154, 127),
     (69, 162, 85, 141), (69, 163, 221, 171), (69, 164, 194, 45), (69, 167, 135, 119), (69, 167, 150, 26),
     (69, 175, 12, 190), (69, 175, 87, 111), (69, 175, 88, 28), (69, 175, 91, 162), (69, 175, 112, 7),
     (69, 175, 118, 186), (69, 194, 1, 37), (69, 230, 5, 175), (70, 19, 9, 95), (70, 42, 26, 255),
     (70, 42, 33, 255), (70, 42, 129, 255), (70, 42, 255, 223), (70, 84, 197, 167), (70, 85, 180, 79),
     (70, 86, 10, 191), (70, 86, 53, 111), (70, 86, 58, 95), (70, 86, 120, 15), (70, 86, 143, 183),
     (70, 91, 169, 183), (70, 136, 254, 207), (70, 237, 153, 191), (71, 6, 36, 255), (71, 136, 202, 23),
     (71, 140, 184, 63), (71, 153, 225, 247), (71, 196, 187, 168), (72, 1, 201, 255), (72, 3, 131, 223),
     (72, 3, 221, 161), (72, 5, 167, 159), (72, 5, 244, 95), (72, 15, 249, 118)]"

definition quads_8 :: "quad list" where
  "quads_8 =
    [(72, 21, 207, 5), (72, 32, 5, 159), (72, 32, 20, 63), (72, 32, 24, 127), (72, 32, 191, 207),
     (72, 32, 232, 111), (72, 32, 242, 255), (72, 35, 75, 99), (72, 37, 157, 36), (72, 46, 168, 255),
     (72, 51, 43, 226), (72, 52, 80, 255), (72, 52, 142, 130), (72, 52, 178, 206), (72, 52, 248, 137),
     (72, 167, 44, 147), (72, 167, 232, 152), (72, 167, 249, 165), (72, 252, 189, 198), (74, 8, 30, 127),
     (74, 43, 138, 255), (74, 43, 138, 57), (74, 52, 109, 191), (74, 52, 111, 175), (74, 52, 222, 141),
     (74, 52, 231, 255), (74, 53, 31, 159), (74, 53, 67, 187), (74, 53, 75, 95), (74, 53, 94, 79),
     (74, 53, 127, 255), (74, 53, 159, 15), (74, 53, 182, 15), (74, 53, 205, 207), (74, 54, 63, 47),
     (74, 54, 82, 229), (74, 54, 128, 82), (74, 54, 176, 226), (74, 54, 219, 242), (74, 55, 37, 2),
     (74, 55, 100, 255), (74, 55, 177, 186), (74, 63, 51, 103), (74, 82, 24, 255), (74, 82, 164, 196),
     (74, 82, 164, 197), (74, 82, 164, 198), (74, 82, 170, 53), (74, 82, 178, 35), (74, 82, 179, 22),
     (74, 86, 45, 187), (74, 86, 250, 106), (74, 93, 6, 61), (74, 112, 127, 255), (74, 115, 0, 255),
     (74, 115, 2, 255), (74, 115, 5, 255), (74, 117, 119, 255), (74, 121, 179, 255), (74, 125, 95, 148),
     (74, 126, 176, 189), (74, 127, 42, 13), (74, 202, 67, 255), (74, 204, 172, 168), (74, 204, 175, 168),
     (74, 208, 102, 8), (74, 208, 153, 44), (74, 211, 173, 31), (74, 217, 1, 127), (74, 217, 50, 255),
     (74, 217, 66, 255), (74, 217, 85, 255), (74, 217, 240, 127), (74, 220, 193, 194), (74, 220, 215, 202),
     (74, 220, 215, 219), (74, 222, 158, 163), (74, 222, 158, 164), (75, 24, 137, 63), (75, 30, 119, 7),
     (75, 44, 173, 231), (75, 52, 224, 103), (75, 64, 140, 129), (75, 73, 212, 166), (75, 98, 70, 255),
     (75, 101, 154, 123), (75, 125, 29, 255), (75, 125, 30, 31), (75, 125, 30, 95), (75, 125, 82, 127),
     (75, 126, 175, 251), (75, 126, 228, 159), (75, 194, 239, 230), (75, 224, 1, 161), (76, 13, 210, 59),
     (76, 13, 212, 11), (76, 13, 216, 11), (76, 13, 232, 32), (76, 73, 91, 82), (76, 198, 222, 47),
     (76, 225, 155, 47), (77, 60, 122, 79), (77, 66, 32, 145), (77, 67, 47, 255), (77, 72, 119, 255),
     (77, 88, 106, 127), (77, 92, 87, 122), (78, 8, 103, 28), (78, 46, 255, 31), (78, 92, 55, 41),
     (78, 100, 80, 86), (78, 109, 22, 151), (78, 109, 84, 222), (78, 137, 168, 116), (78, 140, 186, 255),
     (78, 143, 58, 78), (79, 24, 39, 128), (79, 132, 248, 3), (79, 136, 112, 223), (79, 136, 118, 15),
     (79, 185, 180, 117), (80, 15, 238, 68), (80, 65, 51, 74), (80, 67, 17, 44), (80, 67, 27, 220),
     (80, 68, 240, 57), (80, 68, 242, 99), (80, 68, 244, 5)]"

definition quads_9 :: "quad list" where
  "quads_9 =
    [(80, 69, 160, 78), (80, 69, 161, 89), (80, 69, 226, 133), (80, 77, 193, 40), (80, 79, 193, 243),
     (80, 79, 200, 63), (80, 80, 10, 235), (80, 80, 13, 255), (80, 82, 21, 163), (80, 82, 64, 70),
     (80, 82, 64, 70), (80, 92, 66, 14), (80, 93, 50, 138), (80, 93, 212, 26), (80, 94, 69, 40),
     (80, 190, 227, 20), (80, 190, 227, 52), (80, 190, 227, 60), (80, 190, 227, 92), (80, 190, 228, 10),
     (80, 190, 240, 44), (80, 237, 239, 40), (80, 239, 206, 255), (80, 239, 207, 63), (80, 247, 64, 250),
     (80, 247, 224, 206), (80, 249, 166, 255), (81, 2, 194, 155), (81, 2, 196, 76), (81, 3, 5, 18),
     (81, 3, 37, 95), (81, 4, 179, 79), (81, 5, 176, 255), (81, 9, 3, 75), (81, 19, 66, 50), (81, 19, 66, 109),
     (81, 20, 168, 21), (81, 21, 65, 10), (81, 22, 33, 114), (81, 23, 252, 161), (81, 26, 166, 255),
     (81, 29, 66, 29), (81, 31, 5, 5), (81, 31, 32, 71), (81, 31, 38, 5), (81, 52, 249, 121), (81, 80, 252, 227),
     (81, 88, 35, 21), (81, 92, 114, 255), (81, 93, 185, 145), (81, 94, 227, 4), (81, 94, 227, 9), (81, 95, 0, 38),
     (81, 176, 69, 176), (81, 182, 52, 213), (81, 196, 111, 47), (81, 200, 79, 255), (81, 208, 113, 21),
     (81, 209, 243, 10), (81, 209, 248, 3), (81, 222, 128, 2), (81, 252, 3, 247), (82, 35, 200, 132),
     (82, 80, 253, 201), (82, 98, 86, 255), (82, 99, 18, 207), (82, 99, 30, 127), (82, 100, 0, 35),
     (82, 100, 0, 51), (82, 100, 0, 87), (82, 100, 0, 147), (82, 101, 14, 47), (82, 119, 226, 57),
     (82, 129, 26, 50), (82, 131, 159, 79), (82, 165, 52, 34), (82, 192, 87, 51), (82, 196, 4, 21),
     (82, 197, 147, 103), (82, 197, 150, 255), (82, 199, 80, 191), (83, 22, 170, 198), (83, 92, 196, 23),
     (83, 149, 110, 1), (83, 149, 123, 187), (83, 167, 236, 219), (83, 221, 151, 111), (83, 223, 121, 95),
     (83, 223, 122, 70), (83, 231, 195, 23), (83, 236, 244, 213), (83, 241, 238, 66), (83, 244, 207, 95),
     (84, 2, 34, 63), (84, 22, 127, 43), (84, 45, 63, 41), (84, 131, 173, 141), (85, 17, 31, 57), (85, 17, 40, 57),
     (85, 17, 45, 21), (85, 17, 201, 1), (85, 17, 255, 79), (85, 25, 146, 60), (85, 112, 149, 168),
     (85, 159, 63, 255), (85, 183, 249, 159), (85, 214, 63, 163), (85, 214, 204, 32), (85, 221, 222, 183),
     (86, 219, 49, 127), (87, 69, 240, 94), (87, 118, 122, 23), (87, 249, 105, 255), (88, 80, 2, 43),
     (88, 97, 143, 47), (88, 190, 41, 204), (88, 191, 222, 117), (88, 208, 22, 84), (88, 208, 248, 102),
     (88, 208, 250, 66), (88, 208, 250, 85), (88, 212, 196, 101), (88, 214, 195, 115), (88, 236, 182, 123),
     (88, 242, 157, 255), (88, 246, 179, 38), (89, 21, 13, 103), (89, 22, 51, 255)]"

definition quads_10 :: "quad list" where
  "quads_10 =
    [(89, 96, 245, 107), (89, 103, 245, 159), (89, 108, 117, 87), (89, 139, 166, 248), (89, 142, 12, 111),
     (89, 145, 66, 95), (89, 145, 106, 199), (89, 145, 113, 255), (89, 167, 138, 239), (89, 167, 138, 255),
     (89, 176, 213, 43), (89, 186, 95, 222), (89, 191, 2, 111), (89, 207, 23, 255), (89, 208, 148, 151),
     (89, 234, 37, 159), (89, 255, 255, 255), (91, 103, 138, 127), (91, 103, 140, 255), (91, 103, 142, 255),
     (91, 121, 2, 134), (91, 121, 7, 133), (91, 121, 12, 109), (91, 121, 14, 71), (91, 121, 18, 44),
     (91, 121, 68, 31), (91, 195, 124, 14), (91, 195, 241, 255), (91, 196, 241, 142), (91, 199, 100, 2),
     (91, 208, 144, 133), (91, 217, 153, 193), (91, 223, 70, 255), (91, 226, 97, 66), (92, 46, 81, 178),
     (92, 51, 131, 99), (92, 61, 148, 132), (92, 128, 127, 118), (92, 240, 234, 45), (92, 242, 159, 255),
     (93, 93, 53, 255), (93, 113, 27, 111), (93, 157, 239, 255), (94, 63, 147, 183), (94, 63, 147, 187),
     (94, 63, 149, 255), (94, 63, 240, 176), (94, 63, 240, 208), (94, 76, 229, 85), (94, 87, 21, 47),
     (94, 100, 19, 191), (94, 102, 55, 198), (94, 139, 118, 154), (94, 140, 46, 187), (94, 143, 167, 255),
     (94, 199, 51, 16), (94, 199, 51, 64), (94, 229, 174, 80), (94, 236, 61, 36), (94, 249, 188, 123),
     (95, 8, 66, 221), (95, 27, 1, 119), (95, 143, 192, 40), (95, 156, 193, 2), (95, 168, 183, 20),
     (95, 172, 94, 255), (95, 211, 148, 117), (95, 221, 179, 200), (96, 0, 255, 255), (96, 17, 75, 255),
     (96, 44, 158, 96), (97, 74, 58, 254), (97, 74, 94, 131), (97, 74, 94, 135), (97, 74, 124, 159),
     (97, 74, 132, 8), (97, 74, 144, 93), (97, 74, 144, 161), (98, 24, 199, 183), (98, 124, 156, 11),
     (98, 124, 156, 54), (98, 124, 255, 255), (98, 126, 46, 179), (98, 126, 68, 34), (98, 129, 79, 207),
     (98, 129, 126, 143), (98, 130, 75, 107), (98, 130, 75, 186), (98, 130, 104, 2), (99, 54, 69, 1),
     (99, 135, 67, 167), (99, 163, 60, 239), (103, 4, 195, 255), (108, 62, 143, 255), (109, 75, 200, 105),
     (109, 168, 102, 31), (109, 169, 161, 143), (109, 201, 123, 103), (109, 205, 191, 255), (109, 233, 168, 19),
     (109, 235, 49, 85), (110, 9, 223, 170), (110, 75, 187, 42), (110, 134, 179, 217), (111, 123, 180, 10),
     (111, 123, 180, 32), (111, 252, 18, 101), (111, 255, 45, 201), (111, 255, 46, 208), (112, 140, 180, 141),
     (112, 208, 97, 101), (112, 216, 242, 123), (112, 216, 242, 125), (114, 27, 202, 138), (115, 146, 148, 255),
     (115, 241, 5, 122), (116, 93, 159, 255), (116, 213, 23, 255), (117, 58, 251, 44), (117, 103, 119, 255),
     (119, 1, 109, 6), (120, 69, 6, 208), (121, 37, 60, 178), (122, 136, 32, 100), (122, 224, 4, 127),
     (124, 248, 32, 48), (125, 53, 24, 159), (125, 100, 157, 7)]"

definition quads_11 :: "quad list" where
  "quads_11 =
    [(125, 206, 193, 119), (125, 208, 5, 139), (125, 215, 176, 111), (125, 215, 176, 207), (128, 11, 60, 127),
     (128, 11, 92, 255), (128, 121, 3, 81), (128, 121, 218, 57), (128, 121, 241, 246), (128, 177, 223, 255),
     (128, 241, 21, 48), (128, 242, 103, 35), (128, 242, 104, 137), (128, 242, 120, 23), (128, 242, 201, 147),
     (128, 242, 201, 186), (128, 242, 237, 107), (128, 242, 244, 242), (128, 242, 247, 185), (128, 242, 252, 86),
     (129, 15, 2, 123), (129, 33, 87, 51), (130, 83, 47, 128), (130, 94, 18, 7), (130, 94, 18, 23),
     (130, 94, 18, 35), (130, 94, 18, 251), (130, 94, 24, 173), (130, 94, 132, 39), (130, 94, 133, 180),
     (130, 94, 133, 187), (130, 94, 202, 34), (130, 94, 202, 39), (130, 94, 202, 45), (130, 102, 5, 40),
     (130, 160, 240, 152), (133, 205, 217, 139), (139, 223, 200, 246), (141, 8, 231, 255), (141, 136, 22, 42),
     (144, 32, 128, 74), (144, 63, 250, 13), (144, 140, 254, 209), (146, 82, 205, 41), (146, 82, 205, 47),
     (146, 82, 221, 255), (146, 145, 253, 87), (149, 75, 255, 255), (151, 138, 255, 255), (151, 193, 164, 186),
     (151, 193, 164, 189), (151, 193, 167, 136), (151, 193, 167, 147), (151, 193, 167, 150), (151, 196, 216, 221),
     (151, 196, 219, 92), (151, 197, 247, 7), (152, 52, 44, 194), (152, 163, 208, 57), (152, 163, 208, 121),
     (152, 163, 208, 185), (152, 163, 208, 249), (155, 212, 8, 18), (157, 161, 128, 22), (157, 238, 140, 99),
     (157, 238, 140, 107), (159, 25, 16, 137), (161, 58, 12, 234), (161, 58, 80, 46), (161, 58, 191, 254),
     (162, 42, 211, 3), (162, 42, 211, 167), (164, 41, 101, 34), (165, 1, 76, 60), (165, 193, 78, 255),
     (165, 193, 245, 255), (165, 236, 183, 15), (166, 90, 205, 40), (166, 90, 205, 53), (168, 143, 113, 11),
     (168, 143, 118, 120), (173, 45, 73, 119), (173, 192, 24, 127), (173, 192, 192, 55), (173, 192, 221, 175),
     (173, 192, 221, 207), (173, 192, 226, 79), (173, 192, 226, 69), (173, 192, 226, 69), (173, 193, 16, 91),
     (173, 193, 139, 250), (173, 201, 80, 109), (173, 201, 225, 78), (173, 227, 66, 255), (173, 236, 29, 202),
     (173, 241, 15, 255), (173, 241, 255, 255), (173, 245, 68, 7), (173, 245, 77, 255), (173, 247, 246, 58),
     (173, 255, 228, 164), (174, 34, 252, 11), (174, 34, 252, 12), (174, 36, 6, 58), (174, 36, 69, 127),
     (174, 36, 96, 80), (174, 36, 159, 185), (174, 36, 215, 224), (174, 36, 222, 171), (174, 37, 56, 13),
     (174, 37, 165, 137), (174, 37, 168, 63), (174, 120, 2, 98), (174, 120, 12, 175), (174, 120, 106, 34),
     (174, 120, 151, 156), (174, 120, 170, 221), (174, 120, 170, 238), (174, 120, 244, 255), (174, 120, 247, 251),
     (174, 122, 172, 15), (174, 129, 242, 189), (174, 132, 34, 23), (174, 132, 104, 34), (174, 132, 107, 81),
     (174, 132, 159, 90), (174, 133, 65, 162), (174, 133, 199, 131)]"

definition quads_12 :: "quad list" where
  "quads_12 =
    [(174, 137, 127, 255), (174, 139, 45, 148), (174, 142, 222, 196), (174, 142, 228, 223), (174, 143, 45, 101),
     (174, 143, 90, 35), (174, 143, 155, 40), (174, 143, 161, 198), (175, 116, 166, 103), (175, 116, 167, 123),
     (175, 116, 167, 236), (175, 121, 56, 39), (175, 121, 56, 68), (175, 182, 119, 221), (176, 9, 147, 227),
     (176, 53, 17, 200), (177, 106, 60, 34), (178, 16, 220, 48), (178, 18, 243, 227), (178, 73, 193, 125),
     (178, 78, 155, 101), (178, 85, 233, 183), (178, 157, 81, 245), (178, 158, 127, 255), (178, 158, 75, 153),
     (178, 164, 137, 252), (178, 164, 194, 86), (178, 165, 227, 83), (178, 170, 147, 3), (178, 190, 143, 66),
     (178, 209, 88, 105), (178, 248, 244, 25), (180, 4, 86, 52), (180, 70, 9, 78), (180, 71, 45, 76),
     (182, 50, 149, 149), (182, 177, 196, 109), (182, 182, 85, 3), (184, 22, 37, 74), (184, 82, 130, 85),
     (184, 105, 195, 231), (184, 107, 235, 231), (184, 154, 76, 6), (184, 168, 83, 159), (184, 172, 178, 64),
     (184, 173, 167, 111), (184, 173, 167, 103), (186, 52, 75, 117), (186, 105, 242, 19), (186, 146, 14, 128),
     (186, 156, 7, 119), (186, 210, 72, 227), (188, 0, 156, 156), (188, 40, 117, 12), (188, 74, 185, 2),
     (188, 74, 185, 3), (188, 92, 79, 255), (188, 119, 155, 2), (188, 121, 63, 227), (188, 130, 250, 230),
     (188, 132, 210, 61), (188, 138, 16, 10), (188, 165, 239, 138), (188, 168, 251, 177), (188, 229, 97, 255),
     (188, 232, 145, 48), (188, 233, 247, 197), (188, 235, 6, 223), (188, 241, 71, 255), (188, 241, 115, 105),
     (189, 15, 179, 56), (189, 41, 111, 108), (189, 41, 186, 96), (189, 159, 220, 74), (189, 168, 179, 126),
     (189, 172, 163, 102), (189, 182, 44, 92), (189, 193, 103, 221), (189, 195, 122, 150), (189, 198, 131, 86),
     (190, 64, 163, 66), (190, 113, 147, 78), (190, 121, 75, 153), (190, 134, 6, 97), (190, 163, 109, 96),
     (190, 172, 73, 137), (190, 193, 177, 4), (190, 229, 183, 47), (190, 235, 209, 19), (192, 36, 81, 255),
     (192, 65, 80, 255), (192, 81, 69, 255), (192, 114, 68, 50), (192, 114, 71, 10), (192, 149, 15, 15),
     (192, 165, 204, 255), (192, 173, 31, 255), (192, 190, 109, 20), (192, 190, 109, 32), (192, 216, 83, 38),
     (192, 217, 199, 127), (192, 245, 235, 4), (193, 19, 137, 248), (193, 19, 137, 251), (193, 22, 244, 48),
     (193, 34, 144, 191), (193, 41, 225, 255), (193, 45, 3, 17), (193, 45, 3, 23), (193, 82, 164, 119),
     (193, 85, 207, 202), (193, 85, 233, 23), (193, 96, 194, 143), (193, 106, 172, 95), (193, 108, 80, 106),
     (193, 110, 120, 30), (193, 110, 146, 69), (193, 111, 92, 37), (193, 111, 160, 140), (193, 118, 73, 127),
     (193, 123, 248, 15), (193, 124, 133, 53), (193, 124, 133, 175), (193, 124, 133, 180), (193, 149, 121, 11),
     (193, 162, 142, 255), (193, 172, 165, 255), (193, 184, 60, 71)]"

definition quads_13 :: "quad list" where
  "quads_13 =
    [(193, 188, 136, 255), (193, 211, 83, 255), (193, 226, 244, 137), (193, 252, 117, 12), (193, 252, 117, 15),
     (193, 254, 184, 86), (194, 1, 129, 227), (194, 2, 190, 223), (194, 5, 30, 100), (194, 9, 94, 100),
     (194, 17, 24, 143), (194, 19, 240, 232), (194, 28, 44, 57), (194, 51, 147, 199), (194, 51, 186, 191),
     (194, 64, 249, 244), (194, 67, 1, 166), (194, 67, 23, 224), (194, 67, 23, 226), (194, 67, 35, 205),
     (194, 67, 246, 3), (194, 87, 5, 34), (194, 87, 6, 246), (194, 87, 8, 246), (194, 87, 10, 60),
     (194, 87, 10, 246), (194, 87, 11, 246), (194, 87, 12, 129), (194, 87, 14, 246), (194, 90, 36, 179),
     (194, 96, 227, 43), (194, 98, 19, 255), (194, 109, 154, 168), (194, 109, 218, 35), (194, 117, 102, 48),
     (194, 117, 210, 254), (194, 126, 31, 255), (194, 126, 143, 255), (194, 131, 239, 255), (194, 135, 19, 13),
     (194, 145, 56, 65), (194, 149, 235, 48), (194, 151, 105, 185), (194, 164, 32, 90), (194, 186, 36, 130),
     (194, 186, 36, 222), (194, 207, 35, 255), (194, 213, 53, 208), (194, 213, 53, 211), (194, 213, 62, 35),
     (194, 213, 62, 40), (194, 213, 62, 44), (194, 228, 200, 88), (194, 228, 200, 92), (194, 237, 107, 255),
     (194, 237, 110, 191), (194, 245, 101, 90), (194, 247, 192, 52), (194, 247, 192, 180), (195, 2, 82, 4),
     (195, 6, 155, 201), (195, 7, 66, 21), (195, 12, 224, 15), (195, 12, 228, 191), (195, 14, 20, 11),
     (195, 20, 224, 129), (195, 20, 225, 24), (195, 36, 162, 14), (195, 36, 166, 14), (195, 42, 162, 174),
     (195, 42, 179, 163), (195, 42, 218, 167), (195, 52, 218, 15), (195, 52, 218, 235), (195, 54, 209, 141),
     (195, 60, 12, 141), (195, 67, 71, 64), (195, 70, 35, 3), (195, 74, 113, 181), (195, 95, 155, 13),
     (195, 95, 155, 16), (195, 101, 94, 105), (195, 121, 7, 193), (195, 125, 111, 109), (195, 126, 227, 207),
     (195, 131, 4, 166), (195, 133, 58, 246), (195, 137, 27, 255), (195, 141, 34, 36), (195, 146, 100, 29),
     (195, 146, 192, 192), (195, 149, 157, 57), (195, 149, 158, 7), (195, 149, 159, 143), (195, 153, 29, 143),
     (195, 153, 199, 70), (195, 154, 180, 191), (195, 154, 204, 63), (195, 154, 216, 255), (195, 154, 219, 159),
     (195, 154, 220, 255), (195, 154, 244, 127), (195, 161, 118, 8), (195, 161, 119, 224), (195, 161, 119, 240),
     (195, 184, 109, 255), (195, 184, 237, 95), (195, 189, 47, 255), (195, 191, 103, 255), (195, 193, 141, 40),
     (195, 198, 203, 111), (195, 208, 185, 176), (195, 210, 180, 255), (195, 217, 139, 255), (195, 224, 235, 182),
     (195, 224, 240, 143), (195, 225, 2, 64), (195, 225, 2, 107), (195, 225, 176, 15), (195, 225, 177, 21),
     (195, 226, 104, 136), (195, 228, 4, 255), (195, 234, 240, 226), (195, 241, 74, 227), (195, 241, 77, 2),
     (195, 241, 78, 68), (195, 242, 9, 13), (195, 242, 99, 196)]"

definition quads_14 :: "quad list" where
  "quads_14 =
    [(195, 243, 66, 95), (195, 249, 15, 6), (195, 249, 15, 19), (195, 249, 15, 29), (195, 250, 147, 210),
     (196, 2, 63, 180), (196, 40, 45, 18), (198, 5, 148, 13), (198, 7, 61, 118), (198, 17, 5, 255),
     (198, 31, 63, 255), (198, 49, 147, 255), (198, 56, 127, 255), (198, 64, 139, 114), (198, 64, 149, 47),
     (198, 65, 107, 28), (198, 65, 116, 34), (198, 65, 137, 241), (198, 65, 164, 80), (198, 65, 220, 114),
     (198, 65, 220, 232), (198, 65, 220, 238), (198, 65, 220, 245), (198, 65, 220, 250), (198, 73, 214, 23),
     (198, 76, 213, 143), (198, 77, 71, 38), (198, 87, 215, 255), (198, 87, 214, 23), (198, 104, 150, 205),
     (198, 104, 159, 65), (198, 143, 27, 16), (198, 161, 157, 218), (198, 172, 202, 250), (198, 184, 159, 255),
     (198, 199, 226, 255), (198, 200, 237, 255), (198, 204, 78, 255), (198, 247, 208, 110), (199, 59, 243, 255),
     (199, 66, 219, 52), (199, 95, 210, 255), (199, 101, 192, 255), (199, 107, 237, 207), (199, 127, 195, 255),
     (199, 166, 0, 255), (199, 171, 54, 0), (199, 174, 105, 167), (199, 181, 132, 78), (199, 181, 132, 80),
     (199, 193, 10, 90), (199, 193, 10, 150), (199, 193, 13, 90), (199, 221, 131, 110), (199, 232, 255, 255),
     (199, 239, 136, 245), (199, 239, 137, 200), (199, 239, 137, 229), (199, 243, 92, 127), (199, 243, 127, 127),
     (199, 243, 163, 108), (199, 246, 67, 114), (199, 246, 67, 241), (199, 246, 67, 248), (199, 246, 67, 251),
     (199, 249, 170, 20), (200, 16, 144, 230), (200, 41, 126, 143), (200, 46, 235, 147), (200, 59, 91, 10),
     (200, 63, 45, 11), (200, 63, 45, 127), (200, 69, 192, 225), (200, 69, 192, 232), (200, 69, 192, 242),
     (200, 80, 18, 186), (200, 90, 138, 22), (200, 91, 115, 75), (200, 92, 31, 152), (200, 96, 107, 155),
     (200, 102, 78, 219), (200, 102, 214, 103), (200, 163, 190, 151), (200, 176, 3, 142), (200, 176, 3, 208),
     (200, 185, 15, 91), (200, 188, 191, 8), (200, 203, 43, 161), (200, 221, 6, 6), (200, 221, 6, 10),
     (200, 221, 6, 13), (200, 221, 6, 16), (200, 221, 6, 20), (200, 221, 6, 23), (200, 221, 6, 37),
     (200, 225, 157, 92), (200, 226, 139, 20), (200, 226, 139, 38), (200, 226, 139, 43), (201, 75, 74, 193),
     (201, 164, 169, 99), (201, 165, 245, 61), (201, 199, 0, 170), (201, 231, 46, 114), (202, 27, 17, 118),
     (202, 43, 163, 66), (202, 53, 23, 95), (202, 58, 56, 78), (202, 64, 245, 183), (202, 67, 9, 47),
     (202, 67, 194, 73), (202, 73, 41, 83), (202, 76, 88, 133), (202, 85, 141, 138), (202, 94, 81, 78),
     (202, 94, 83, 139), (202, 96, 140, 18), (202, 99, 11, 52), (202, 99, 11, 104), (202, 99, 223, 139),
     (202, 101, 43, 68), (202, 106, 168, 68), (202, 106, 168, 109), (202, 106, 168, 126), (202, 106, 187, 110),
     (202, 108, 34, 51), (202, 108, 36, 153), (202, 108, 36, 156)]"

definition quads_15 :: "quad list" where
  "quads_15 =
    [(202, 108, 36, 167), (202, 108, 36, 172), (202, 108, 36, 196), (202, 108, 36, 204), (202, 127, 9, 150),
     (202, 131, 123, 82), (202, 131, 196, 111), (202, 139, 106, 172), (202, 142, 20, 138), (202, 143, 71, 127),
     (202, 143, 92, 255), (202, 150, 222, 186), (202, 157, 161, 221), (202, 157, 186, 26), (202, 172, 112, 12),
     (202, 187, 175, 162), (203, 8, 8, 255), (203, 21, 205, 35), (203, 26, 5, 11), (203, 26, 51, 42),
     (203, 26, 51, 61), (203, 31, 42, 28), (203, 86, 166, 46), (203, 89, 189, 17), (203, 93, 173, 3),
     (203, 96, 118, 133), (203, 97, 44, 24), (203, 130, 242, 55), (203, 150, 231, 240), (203, 167, 236, 228),
     (203, 169, 8, 255), (203, 190, 122, 255), (203, 190, 125, 63), (203, 191, 234, 127), (203, 194, 164, 69),
     (203, 199, 124, 54), (203, 208, 133, 255), (203, 211, 131, 149), (203, 226, 255, 12), (203, 233, 237, 107),
     (204, 0, 5, 27), (204, 1, 28, 140), (204, 11, 111, 255), (204, 11, 227, 32), (204, 13, 71, 255),
     (204, 13, 160, 17), (204, 13, 160, 20), (204, 16, 158, 255), (204, 45, 62, 117), (204, 51, 98, 255),
     (204, 51, 186, 147), (204, 92, 5, 132), (204, 92, 5, 138), (204, 152, 186, 140), (204, 176, 88, 255),
     (204, 178, 112, 191), (204, 179, 240, 9), (204, 179, 240, 41), (204, 179, 240, 77), (204, 213, 246, 2),
     (204, 225, 48, 40), (204, 228, 229, 168), (204, 228, 229, 172), (204, 228, 229, 179), (204, 228, 229, 185),
     (204, 251, 10, 41), (204, 251, 10, 205), (204, 251, 10, 209), (204, 251, 10, 211), (204, 251, 10, 216),
     (204, 251, 10, 220), (204, 251, 13, 11), (204, 253, 105, 255), (204, 255, 155, 255), (205, 134, 161, 157),
     (205, 134, 161, 166), (205, 134, 163, 4), (205, 134, 165, 70), (205, 134, 179, 231), (205, 134, 182, 230),
     (205, 134, 183, 200), (205, 134, 188, 163), (205, 140, 192, 31), (205, 147, 80, 38), (205, 150, 0, 50),
     (205, 150, 0, 191), (205, 150, 6, 255), (205, 150, 79, 191), (205, 158, 27, 118), (205, 178, 189, 129),
     (205, 180, 85, 15), (205, 180, 85, 19), (205, 180, 85, 21), (205, 180, 85, 49), (205, 180, 85, 54),
     (205, 180, 85, 57), (205, 180, 85, 60), (205, 180, 85, 99), (205, 180, 85, 126), (205, 180, 86, 14),
     (205, 180, 159, 7), (205, 188, 165, 57), (205, 188, 165, 121), (205, 188, 165, 185), (205, 188, 165, 249),
     (205, 188, 248, 25), (205, 189, 131, 255), (205, 205, 48, 132), (205, 205, 48, 138), (205, 205, 150, 159),
     (205, 209, 139, 191), (205, 209, 148, 1), (205, 209, 176, 21), (205, 234, 158, 142), (205, 234, 224, 143),
     (205, 234, 230, 255), (205, 236, 34, 88), (205, 243, 144, 8), (205, 246, 203, 37), (206, 14, 106, 10),
     (206, 14, 215, 13), (206, 16, 0, 29), (206, 16, 5, 111), (206, 16, 59, 127), (206, 50, 181, 10),
     (206, 64, 128, 239), (206, 65, 169, 132), (206, 65, 169, 151)]"

section \<open>The table of the hook (cpu_firewall_module.c)\<close>

definition bad_address_0 :: "string list" where
  "bad_address_0 =
    [''1.36.202.60'', ''4.18.162.102'', ''4.36.44.3'', ''4.38.98.140'', ''4.53.2.15'', ''4.65.105.109'',
     ''4.71.209.63'', ''4.79.208.59'', ''4.79.209.63'', ''5.135.110.169'', ''8.5.1.255'', ''8.7.65.255'',
     ''8.7.210.255'', ''8.8.14.255'', ''8.9.23.204'', ''8.11.1.255'', ''8.15.231.255'', ''8.15.246.255'',
     ''8.20.107.255'', ''8.36.41.66'', ''12.3.249.255'', ''12.14.172.204'', ''12.25.215.191'', ''12.29.97.111'',
     ''12.30.241.70'', ''12.30.241.74'', ''12.30.241.106'', ''12.36.78.54'', ''12.37.77.151'', ''12.38.121.255'',
     ''12.45.120.255'', ''12.47.30.63'', ''12.47.49.103'', ''12.47.49.127'', ''12.47.62.247'', ''12.62.10.127'',
     ''12.62.192.31'', ''12.62.229.95'', ''12.63.95.255'', ''12.63.96.255'', ''12.63.109.159'', ''12.63.109.255'',
     ''12.63.131.191'', ''12.63.198.255'', ''12.63.224.191'', ''12.107.183.255'', ''12.129.198.41'',
     ''12.129.201.99'', ''12.129.205.167'', ''12.129.210.127'', ''12.129.211.125'', ''12.129.225.165'',
     ''12.129.229.191'', ''12.129.248.55'', ''12.129.248.191'', ''12.130.6.23'', ''12.130.9.159'',
     ''12.130.12.255'', ''12.130.47.255'', ''12.130.81.255'', ''12.130.91.8'', ''12.130.94.255'',
     ''12.145.139.167'', ''12.148.21.23'', ''12.152.188.255'', ''12.153.20.152'', ''12.153.20.157'',
     ''12.153.252.39'', ''12.158.80.10'', ''12.158.89.255'', ''12.168.32.90'', ''12.168.33.58'', ''12.168.33.194'',
     ''12.170.239.135'', ''12.170.239.159'', ''12.180.237.127'', ''12.185.17.255'', ''12.191.176.55'',
     ''14.98.196.83'', ''24.104.40.39'', ''24.104.40.52'', ''24.106.94.101'', ''24.113.214.99'', ''24.155.144.47'',
     ''24.155.144.127'', ''24.155.147.135'', ''24.173.79.235'', ''24.242.151.203'', ''27.131.11.255'',
     ''31.131.4.129'', ''31.210.123.140'', ''31.210.127.55'', ''38.96.176.111'', ''38.96.182.255'',
     ''38.97.203.255'', ''38.98.0.223'', ''38.98.3.255'', ''38.98.19.127'', ''38.98.124.255'', ''38.99.204.151'',
     ''38.99.218.119'', ''38.100.7.255'', ''38.101.50.7'', ''38.101.160.91'', ''38.101.223.255'',
     ''38.102.129.255'', ''38.102.195.63'', ''38.102.195.183'', ''38.103.25.191'', ''38.103.26.255'',
     ''38.103.37.207'', ''38.103.65.171'', ''38.104.66.67'', ''38.104.69.67'', ''38.105.138.255'',
     ''38.107.231.255'', ''38.112.10.71'', ''38.112.22.75'', ''38.112.44.79'', ''38.113.1.80'', ''38.113.1.111'',
     ''38.113.1.151'', ''38.113.1.155'', ''38.113.1.159'', ''38.113.198.136'', ''38.114.129.148'',
     ''38.117.174.2'', ''38.117.174.20'']"

definition bad_address_1 :: "string list" where
  "bad_address_1 =
    [''38.119.65.135'', ''38.119.65.138'', ''41.168.5.140'', ''41.203.64.251'', ''41.203.64.254'',
     ''46.17.97.109'', ''46.152.222.161'', ''46.246.31.255'', ''50.19.238.88'', ''50.19.242.168'',
     ''50.19.254.139'', ''50.22.243.55'', ''50.22.243.55'', ''50.23.166.199'', ''50.30.32.39'', ''50.56.36.143'',
     ''50.62.246.197'', ''50.63.39.1'', ''54.208.71.200'', ''59.53.91.187'', ''59.106.13.26'', ''59.106.118.239'',
     ''59.175.187.36'', ''60.18.147.78'', ''60.172.228.100'', ''60.190.217.127'', ''60.234.157.178'',
     ''61.8.3.212'', ''61.32.141.191'', ''61.35.89.63'', ''61.37.232.127'', ''61.100.3.191'', ''61.103.220.159'',
     ''61.115.205.23'', ''61.121.253.127'', ''61.129.67.141'', ''61.129.67.149'', ''61.129.67.151'',
     ''61.129.69.190'', ''61.132.200.24'', ''61.135.131.23'', ''61.135.131.34'', ''61.135.131.37'',
     ''61.135.131.39'', ''61.135.131.43'', ''61.135.131.141'', ''61.138.248.68'', ''61.145.75.227'',
     ''61.145.75.233'', ''61.150.107.156'', ''61.152.255.255'', ''61.173.221.148'', ''61.177.222.222'',
     ''61.178.129.7'', ''61.196.212.39'', ''61.202.243.255'', ''61.208.139.165'', ''62.23.124.95'',
     ''62.23.137.170'', ''62.26.219.12'', ''62.26.240.99'', ''62.27.21.101'', ''62.27.59.3'', ''62.27.59.63'',
     ''62.39.108.98'', ''62.39.122.21'', ''62.56.244.55'', ''62.65.34.79'', ''62.65.36.143'', ''62.93.224.242'',
     ''62.96.104.63'', ''62.104.23.57'', ''62.115.254.26'', ''62.118.240.27'', ''62.118.248.72'', ''62.141.48.86'',
     ''62.142.78.175'', ''62.146.24.251'', ''62.146.61.255'', ''62.146.88.127'', ''62.146.222.65'',
     ''62.149.0.12'', ''62.149.0.140'', ''62.149.36.255'', ''62.149.36.64'', ''62.153.59.95'', ''62.160.32.255'',
     ''62.161.94.255'', ''62.161.141.127'', ''62.161.184.127'', ''62.161.191.95'', ''62.172.221.47'',
     ''62.173.75.91'', ''62.173.75.111'', ''62.183.104.5'', ''62.189.43.239'', ''62.189.74.144'', ''62.192.12.63'',
     ''62.193.206.144'', ''62.206.130.239'', ''62.210.139.63'', ''62.210.156.223'', ''62.210.164.84'',
     ''62.219.199.210'', ''62.221.2.59'', ''62.221.20.255'', ''62.233.196.79'', ''62.233.212.55'',
     ''62.233.239.79'', ''62.245.139.255'', ''62.250.147.3'', ''63.69.12.31'', ''63.77.12.175'', ''63.77.84.14'',
     ''63.77.84.31'', ''63.80.79.63'', ''63.80.182.159'', ''63.81.16.127'', ''63.85.84.255'', ''63.89.82.255'',
     ''63.91.145.35'', ''63.99.210.223'', ''63.99.213.255'', ''63.99.224.255'', ''63.108.45.2'', ''63.108.45.7'',
     ''63.110.136.251'', ''63.111.24.24'']"

definition bad_address_2 :: "string list" where
  "bad_address_2 =
    [''63.111.30.114'', ''63.111.71.203'', ''63.111.71.206'', ''63.112.171.69'', ''63.116.135.245'',
     ''63.117.23.255'', ''63.117.208.119'', ''63.119.45.255'', ''63.119.175.35'', ''63.121.29.55'',
     ''63.123.44.189'', ''63.123.44.198'', ''63.123.232.243'', ''63.123.248.63'', ''63.145.196.33'',
     ''63.146.109.210'', ''63.146.114.47'', ''63.149.75.28'', ''63.150.10.166'', ''63.150.150.127'',
     ''63.151.45.144'', ''63.151.147.200'', ''63.156.206.38'', ''63.160.54.255'', ''63.161.150.21'',
     ''63.166.98.255'', ''63.168.198.127'', ''63.195.71.167'', ''63.198.177.62'', ''63.200.181.199'',
     ''63.208.235.8'', ''63.210.101.220'', ''63.210.174.175'', ''63.210.193.4'', ''63.211.66.69'',
     ''63.211.66.75'', ''63.211.178.98'', ''63.211.178.106'', ''63.211.210.22'', ''63.211.210.219'',
     ''63.211.210.225'', ''63.215.86.196'', ''63.215.143.207'', ''63.215.149.58'', ''63.217.29.115'',
     ''63.218.7.147'', ''63.219.181.10'', ''63.225.198.63'', ''63.229.62.255'', ''63.236.0.55'', ''63.236.2.236'',
     ''63.236.6.201'', ''63.236.18.117'', ''63.236.27.111'', ''63.236.32.63'', ''63.236.57.90'', ''63.236.72.243'',
     ''63.236.73.193'', ''63.236.73.247'', ''63.236.75.87'', ''63.240.4.141'', ''63.240.86.20'',
     ''63.240.140.119'', ''63.240.215.83'', ''63.241.16.133'', ''63.241.31.110'', ''63.241.64.255'',
     ''63.241.72.127'', ''63.241.73.127'', ''63.241.74.255'', ''63.241.205.207'', ''63.246.36.14'',
     ''63.246.36.181'', ''63.246.36.197'', ''63.246.38.98'', ''63.246.39.15'', ''63.246.39.200'', ''63.246.41.97'',
     ''63.246.41.174'', ''63.246.41.217'', ''63.246.45.23'', ''63.246.45.54'', ''63.246.45.231'', ''63.247.53.2'',
     ''63.247.65.85'', ''63.247.69.155'', ''63.247.72.110'', ''63.251.10.166'', ''63.251.28.255'',
     ''63.251.53.239'', ''63.251.59.4'', ''63.251.134.255'', ''63.251.174.255'', ''63.251.179.63'',
     ''63.251.249.63'', ''64.0.98.91'', ''64.4.241.18'', ''64.5.44.191'', ''64.5.230.150'', ''64.7.207.114'',
     ''64.7.207.123'', ''64.7.209.58'', ''64.12.46.11'', ''64.12.46.24'', ''64.12.144.53'', ''64.12.164.153'',
     ''64.12.164.249'', ''64.12.174.57'', ''64.12.174.121'', ''64.12.174.185'', ''64.12.174.249'',
     ''64.15.69.127'', ''64.20.60.109'', ''64.27.10.50'', ''64.29.19.71'', ''64.29.19.73'', ''64.29.137.108'',
     ''64.29.193.221'', ''64.29.193.223'', ''64.30.224.111'', ''64.30.224.112'', ''64.34.33.223'',
     ''64.34.219.40'', ''64.34.224.15'', ''64.35.113.133'', ''64.37.93.133'', ''64.39.3.186'', ''64.39.31.55'']"

definition bad_address_3 :: "string list" where
  "bad_address_3 =
    [''64.42.128.47'', ''64.42.128.55'', ''64.42.240.226'', ''64.49.212.207'', ''64.49.213.239'', ''64.49.220.24'',
     ''64.49.254.245'', ''64.52.42.223'', ''64.55.224.90'', ''64.57.68.169'', ''64.60.14.63'', ''64.62.137.235'',
     ''64.62.139.123'', ''64.62.155.144'', ''64.62.165.142'', ''64.62.196.255'', ''64.62.232.32'', ''64.69.78.73'',
     ''64.69.86.223'', ''64.70.54.255'', ''64.71.158.37'', ''64.72.118.11'', ''64.72.118.13'', ''64.73.25.70'',
     ''64.73.138.118'', ''64.74.15.255'', ''64.74.193.255'', ''64.74.193.27'', ''64.74.197.255'', ''64.74.223.35'',
     ''64.77.93.15'', ''64.77.102.191'', ''64.79.203.191'', ''64.79.212.95'', ''64.85.161.4'', ''64.88.247.20'',
     ''64.89.239.255'', ''64.90.37.75'', ''64.90.175.199'', ''64.92.120.1'', ''64.94.3.47'', ''64.94.26.1'',
     ''64.94.107.255'', ''64.94.110.11'', ''64.94.117.227'', ''64.94.219.71'', ''64.94.219.101'', ''64.94.224.39'',
     ''64.94.235.14'', ''64.95.46.31'', ''64.95.64.197'', ''64.95.65.50'', ''64.95.66.74'', ''64.105.125.223'',
     ''64.106.146.243'', ''64.106.206.108'', ''64.111.199.225'', ''64.111.201.19'', ''64.119.175.104'',
     ''64.122.31.124'', ''64.124.11.63'', ''64.124.11.175'', ''64.124.11.255'', ''64.124.17.39'',
     ''64.124.17.167'', ''64.124.65.255'', ''64.124.125.2'', ''64.124.125.10'', ''64.124.128.39'',
     ''64.125.32.255'', ''64.125.36.255'', ''64.125.46.255'', ''64.125.48.255'', ''64.125.99.196'',
     ''64.125.99.209'', ''64.125.104.135'', ''64.125.104.151'', ''64.127.63.255'', ''64.127.126.255'',
     ''64.136.21.86'', ''64.136.21.94'', ''64.136.28.49'', ''64.136.29.94'', ''64.141.41.9'', ''64.141.46.196'',
     ''64.145.82.255'', ''64.146.132.15'', ''64.148.84.191'', ''64.151.82.95'', ''64.151.88.191'',
     ''64.152.59.175'', ''64.152.107.19'', ''64.154.5.101'', ''64.156.1.160'', ''64.156.188.7'', ''64.156.213.13'',
     ''64.156.213.21'', ''64.156.213.60'', ''64.156.241.61'', ''64.157.2.17'', ''64.157.3.255'', ''64.157.14.4'',
     ''64.158.176.225'', ''64.159.80.186'', ''64.159.90.255'', ''64.163.101.191'', ''64.172.250.82'',
     ''64.179.93.233'', ''64.185.225.15'', ''64.186.152.254'', ''64.187.43.63'', ''64.191.3.101'',
     ''64.191.7.233'', ''64.191.22.152'', ''64.191.53.115'', ''64.191.128.200'', ''64.191.201.255'',
     ''64.191.208.206'', ''64.191.219.255'', ''64.200.214.178'', ''64.202.97.102'', ''64.208.143.255'',
     ''64.210.63.255'', ''64.210.61.215'', ''64.213.215.255'', ''64.214.129.129'', ''64.225.154.39'',
     ''64.227.2.35'']"

definition bad_address_4 :: "string list" where
  "bad_address_4 =
    [''64.235.246.62'', ''64.235.246.121'', ''64.235.246.143'', ''64.236.90.31'', ''64.236.90.83'',
     ''64.236.123.255'', ''64.236.124.244'', ''64.237.38.120'', ''64.237.39.66'', ''64.237.39.76'',
     ''64.237.48.240'', ''64.237.59.127'', ''64.237.99.81'', ''64.238.216.255'', ''64.238.219.255'',
     ''64.239.76.221'', ''64.245.50.127'', ''64.246.11.147'', ''64.246.22.66'', ''64.246.24.53'',
     ''64.246.25.209'', ''64.246.54.62'', ''64.246.56.19'', ''64.255.27.124'', ''64.255.30.254'', ''65.17.235.95'',
     ''65.19.175.31'', ''65.38.104.134'', ''65.39.176.84'', ''65.39.176.100'', ''65.39.176.118'',
     ''65.39.199.127'', ''65.39.221.218'', ''65.39.254.101'', ''65.43.109.87'', ''65.49.80.87'', ''65.54.192.249'',
     ''65.54.194.118'', ''65.54.194.120'', ''65.57.163.127'', ''65.59.207.255'', ''65.59.207.13'',
     ''65.61.154.138'', ''65.61.166.78'', ''65.77.20.201'', ''65.83.52.31'', ''65.91.27.255'', ''65.105.124.60'',
     ''65.105.124.113'', ''65.105.124.118'', ''65.105.124.141'', ''65.108.44.167'', ''65.108.66.192'',
     ''65.112.157.22'', ''65.118.27.70'', ''65.118.27.112'', ''65.124.175.255'', ''65.126.5.4'',
     ''65.162.162.120'', ''65.164.242.200'', ''65.165.64.131'', ''65.167.67.255'', ''65.169.109.23'',
     ''65.174.181.72'', ''65.192.164.255'', ''65.198.65.141'', ''65.205.8.255'', ''65.205.8.101'',
     ''65.205.8.103'', ''65.209.3.232'', ''65.213.187.43'', ''65.213.187.119'', ''65.214.39.8'',
     ''65.216.116.114'', ''65.219.232.127'', ''65.240.193.63'', ''65.242.135.31'', ''65.244.62.255'',
     ''65.245.193.255'', ''65.254.35.117'', ''66.11.194.223'', ''66.17.132.173'', ''66.17.140.20'',
     ''66.24.237.176'', ''66.33.61.127'', ''66.33.193.47'', ''66.33.211.241'', ''66.33.212.78'', ''66.36.236.148'',
     ''66.36.242.227'', ''66.39.107.248'', ''66.39.152.45'', ''66.40.9.153'', ''66.40.9.230'', ''66.40.9.245'',
     ''66.40.16.131'', ''66.40.21.68'', ''66.40.66.171'', ''66.43.18.27'', ''66.45.51.9'', ''66.45.56.124'',
     ''66.45.103.239'', ''66.45.230.135'', ''66.45.237.127'', ''66.45.237.212'', ''66.45.252.171'',
     ''66.46.181.112'', ''66.48.37.81'', ''66.48.41.70'', ''66.48.76.90'', ''66.48.78.255'', ''66.48.82.127'',
     ''66.55.129.149'', ''66.55.162.59'', ''66.60.188.100'', ''66.62.66.255'', ''66.63.142.42'', ''66.70.20.60'',
     ''66.70.21.80'', ''66.70.32.76'', ''66.70.64.60'', ''66.70.65.223'', ''66.70.83.82'', ''66.70.91.40'',
     ''66.77.24.5'', ''66.77.30.255'', ''66.77.55.255'', ''66.77.72.63'']"

definition bad_address_5 :: "string list" where
  "bad_address_5 =
    [''66.77.165.210'', ''66.77.165.218'', ''66.77.165.227'', ''66.77.165.233'', ''66.77.165.241'',
     ''66.77.204.243'', ''66.85.137.34'', ''66.85.170.199'', ''66.90.70.241'', ''66.92.217.255'', ''66.93.188.67'',
     ''66.94.245.254'', ''66.97.38.210'', ''66.98.136.78'', ''66.98.142.23'', ''66.98.164.14'', ''66.98.172.15'',
     ''66.98.174.16'', ''66.98.176.41'', ''66.98.188.54'', ''66.98.188.77'', ''66.98.196.71'', ''66.98.208.55'',
     ''66.98.208.60'', ''66.98.218.16'', ''66.98.218.39'', ''66.98.226.205'', ''66.109.27.140'', ''66.109.27.150'',
     ''66.111.40.193'', ''66.111.51.70'', ''66.111.51.75'', ''66.111.59.70'', ''66.113.66.12'', ''66.113.205.190'',
     ''66.115.142.31'', ''66.115.143.129'', ''66.115.146.207'', ''66.115.150.29'', ''66.115.157.178'',
     ''66.115.182.10'', ''66.115.190.223'', ''66.117.18.122'', ''66.118.182.73'', ''66.118.182.127'',
     ''66.119.140.211'', ''66.120.65.231'', ''66.128.51.199'', ''66.129.106.209'', ''66.132.180.30'',
     ''66.132.227.169'', ''66.132.242.192'', ''66.135.34.13'', ''66.147.231.52'', ''66.147.240.168'',
     ''66.147.242.94'', ''66.150.2.71'', ''66.150.2.101'', ''66.150.51.160'', ''66.150.87.255'', ''66.150.161.57'',
     ''66.151.147.223'', ''66.151.148.193'', ''66.151.151.255'', ''66.151.158.189'', ''66.152.78.141'',
     ''66.152.86.218'', ''66.152.97.228'', ''66.152.97.242'', ''66.154.47.163'', ''66.159.17.64'',
     ''66.160.140.15'', ''66.161.28.191'', ''66.161.36.159'', ''66.161.95.79'', ''66.161.95.255'',
     ''66.163.193.1'', ''66.165.65.213'', ''66.166.98.191'', ''66.175.110.255'', ''66.179.5.127'',
     ''66.179.17.187'', ''66.179.48.101'', ''66.179.50.191'', ''66.179.107.37'', ''66.179.107.41'',
     ''66.179.188.127'', ''66.179.217.255'', ''66.179.234.169'', ''66.195.251.174'', ''66.197.152.21'',
     ''66.197.165.34'', ''66.201.72.224'', ''66.201.203.191'', ''66.201.203.151'', ''66.201.203.154'',
     ''66.207.130.78'', ''66.207.130.81'', ''66.207.131.111'', ''66.212.28.53'', ''66.213.250.215'',
     ''66.216.74.58'', ''66.216.104.235'', ''66.216.104.238'', ''66.216.127.26'', ''66.218.70.227'',
     ''66.218.79.157'', ''66.218.79.169'', ''66.218.79.171'', ''66.218.79.179'', ''66.220.23.159'',
     ''66.220.28.4'', ''66.220.30.255'', ''66.223.50.92'', ''66.225.196.202'', ''66.225.233.90'', ''66.226.0.25'',
     ''66.226.5.172'', ''66.226.8.150'', ''66.226.14.31'', ''66.230.218.65'', ''66.230.218.254'',
     ''66.230.219.137'', ''66.230.229.214'', ''66.230.230.137'', ''66.230.237.76'', ''66.231.185.95'',
     ''66.235.132.91'']"

definition bad_address_6 :: "string list" where
  "bad_address_6 =
    [''66.235.142.32'', ''66.235.143.14'', ''66.235.184.119'', ''66.235.197.172'', ''66.235.200.193'',
     ''66.238.181.67'', ''66.240.180.176'', ''66.241.234.221'', ''66.243.22.223'', ''66.246.123.70'',
     ''66.248.150.135'', ''66.249.8.7'', ''66.250.32.148'', ''66.250.56.83'', ''66.250.56.90'', ''66.250.74.4'',
     ''66.250.74.70'', ''66.250.74.75'', ''66.250.74.80'', ''66.250.74.146'', ''66.250.74.150'', ''66.250.131.20'',
     ''66.250.170.66'', ''66.250.172.10'', ''66.250.172.20'', ''66.250.172.106'', ''66.252.2.42'',
     ''66.252.196.227'', ''66.253.63.223'', ''67.15.35.238'', ''67.15.208.203'', ''67.18.3.46'', ''67.18.36.95'',
     ''67.18.149.146'', ''67.18.205.255'', ''67.19.50.223'', ''67.20.81.43'', ''67.20.93.36'', ''67.20.105.40'',
     ''67.22.32.200'', ''67.52.153.90'', ''67.67.172.111'', ''67.88.125.207'', ''67.96.63.112'', ''67.98.37.255'',
     ''67.99.234.255'', ''67.101.117.190'', ''67.116.3.23'', ''67.125.41.59'', ''67.127.77.47'',
     ''67.131.219.239'', ''67.133.105.5'', ''67.134.147.191'', ''67.134.255.191'', ''67.151.144.143'',
     ''67.155.70.170'', ''67.159.30.207'', ''67.166.40.246'', ''67.175.74.110'', ''67.192.17.71'',
     ''67.192.38.159'', ''67.192.63.76'', ''67.192.208.87'', ''67.201.17.239'', ''67.202.194.191'',
     ''67.205.72.39'', ''67.213.68.47'', ''67.215.253.255'', ''67.220.139.255'', ''67.222.10.128'',
     ''67.222.132.254'', ''67.228.150.176'', ''67.228.185.237'', ''68.16.122.223'', ''68.67.191.255'',
     ''68.67.141.255'', ''68.68.101.79'', ''68.68.102.103'', ''68.68.108.255'', ''68.89.226.179'',
     ''68.89.226.214'', ''68.123.19.135'', ''68.125.16.191'', ''68.142.79.111'', ''68.142.79.233'',
     ''68.167.172.100'', ''68.168.78.26'', ''68.169.59.199'', ''68.169.80.78'', ''68.169.83.31'',
     ''68.178.225.104'', ''68.178.232.143'', ''68.178.254.125'', ''68.195.62.40'', ''68.208.26.255'',
     ''68.209.118.21'', ''69.0.150.247'', ''69.0.211.71'', ''69.1.196.108'', ''69.6.79.255'', ''69.6.16.15'',
     ''69.6.21.11'', ''69.6.21.18'', ''69.6.21.32'', ''69.6.21.50'', ''69.6.21.60'', ''69.6.21.177'',
     ''69.6.21.191'', ''69.6.21.229'', ''69.6.27.255'', ''69.9.170.150'', ''69.10.136.136'', ''69.10.149.103'',
     ''69.12.116.2'', ''69.13.62.3'', ''69.13.126.2'', ''69.18.218.255'', ''69.20.4.111'', ''69.20.5.164'',
     ''69.20.5.183'', ''69.20.11.26'', ''69.20.16.43'', ''69.20.24.247'', ''69.20.55.134'', ''69.20.101.143'',
     ''69.22.151.97'', ''69.22.158.29'', ''69.25.28.255'']"

definition bad_address_7 :: "string list" where
  "bad_address_7 =
    [''69.25.40.47'', ''69.25.42.255'', ''69.25.43.255'', ''69.25.47.164'', ''69.25.56.71'', ''69.25.57.255'',
     ''69.28.109.255'', ''69.28.135.164'', ''69.30.39.255'', ''69.30.192.53'', ''69.30.219.63'', ''69.31.79.146'',
     ''69.31.79.178'', ''69.31.80.129'', ''69.31.80.226'', ''69.31.81.52'', ''69.31.81.56'', ''69.31.86.84'',
     ''69.31.86.87'', ''69.31.86.131'', ''69.31.86.139'', ''69.31.86.147'', ''69.31.86.221'', ''69.31.86.223'',
     ''69.31.86.226'', ''69.31.86.240'', ''69.31.87.128'', ''69.31.87.209'', ''69.31.98.173'', ''69.39.68.139'',
     ''69.42.75.212'', ''69.43.160.255'', ''69.46.0.97'', ''69.46.28.87'', ''69.46.228.255'', ''69.46.237.255'',
     ''69.48.237.255'', ''69.49.96.8'', ''69.50.134.71'', ''69.50.138.195'', ''69.50.141.255'', ''69.50.142.255'',
     ''69.50.179.217'', ''69.51.8.4'', ''69.51.8.31'', ''69.51.8.33'', ''69.51.8.39'', ''69.56.0.15'',
     ''69.56.0.39'', ''69.56.1.247'', ''69.56.2.15'', ''69.56.2.143'', ''69.56.3.223'', ''69.56.38.79'',
     ''69.56.52.231'', ''69.56.62.47'', ''69.56.62.58'', ''69.56.62.111'', ''69.56.62.119'', ''69.56.62.143'',
     ''69.56.63.79'', ''69.56.150.162'', ''69.56.184.234'', ''69.56.224.58'', ''69.57.134.85'', ''69.57.142.54'',
     ''69.57.155.106'', ''69.59.142.120'', ''69.59.161.243'', ''69.59.175.148'', ''69.64.32.196'', ''69.64.46.58'',
     ''69.64.70.10'', ''69.64.74.26'', ''69.64.255.255'', ''69.65.3.173'', ''69.71.57.93'', ''69.72.223.164'',
     ''69.74.211.255'', ''69.74.238.175'', ''69.89.31.180'', ''69.90.81.206'', ''69.90.216.175'', ''69.93.50.150'',
     ''69.93.119.98'', ''69.93.171.85'', ''69.93.221.87'', ''69.109.103.55'', ''69.150.154.127'',
     ''69.162.85.141'', ''69.163.221.171'', ''69.164.194.45'', ''69.167.135.119'', ''69.167.150.26'',
     ''69.175.12.190'', ''69.175.87.111'', ''69.175.88.28'', ''69.175.91.162'', ''69.175.112.7'',
     ''69.175.118.186'', ''69.194.1.37'', ''69.230.5.175'', ''70.19.9.95'', ''70.42.26.255'', ''70.42.33.255'',
     ''70.42.129.255'', ''70.42.255.223'', ''70.84.197.167'', ''70.85.180.79'', ''70.86.10.191'', ''70.86.53.111'',
     ''70.86.58.95'', ''70.86.120.15'', ''70.86.143.183'', ''70.91.169.183'', ''70.136.254.207'',
     ''70.237.153.191'', ''71.6.36.255'', ''71.136.202.23'', ''71.140.184.63'', ''71.153.225.247'',
     ''71.196.187.168'', ''72.1.201.255'', ''72.3.131.223'', ''72.3.221.161'', ''72.5.167.159'', ''72.5.244.95'',
     ''72.15.249.118'']"

definition bad_address_8 :: "string list" where
  "bad_address_8 =
    [''72.21.207.5'', ''72.32.5.159'', ''72.32.20.63'', ''72.32.24.127'', ''72.32.191.207'', ''72.32.232.111'',
     ''72.32.242.255'', ''72.35.75.99'', ''72.37.157.36'', ''72.46.168.255'', ''72.51.43.226'', ''72.52.80.255'',
     ''72.52.142.130'', ''72.52.178.206'', ''72.52.248.137'', ''72.167.44.147'', ''72.167.232.152'',
     ''72.167.249.165'', ''72.252.189.198'', ''74.8.30.127'', ''74.43.138.255'', ''74.43.138.57'',
     ''74.52.109.191'', ''74.52.111.175'', ''74.52.222.141'', ''74.52.231.255'', ''74.53.31.159'',
     ''74.53.67.187'', ''74.53.75.95'', ''74.53.94.79'', ''74.53.127.255'', ''74.53.159.15'', ''74.53.182.15'',
     ''74.53.205.207'', ''74.54.63.47'', ''74.54.82.229'', ''74.54.128.82'', ''74.54.176.226'', ''74.54.219.242'',
     ''74.55.37.2'', ''74.55.100.255'', ''74.55.177.186'', ''74.63.51.103'', ''74.82.24.255'', ''74.82.164.196'',
     ''74.82.164.197'', ''74.82.164.198'', ''74.82.170.53'', ''74.82.178.35'', ''74.82.179.22'', ''74.86.45.187'',
     ''74.86.250.106'', ''74.93.6.61'', ''74.112.127.255'', ''74.115.0.255'', ''74.115.2.255'', ''74.115.5.255'',
     ''74.117.119.255'', ''74.121.179.255'', ''74.125.95.148'', ''74.126.176.189'', ''74.127.42.13'',
     ''74.202.67.255'', ''74.204.172.168'', ''74.204.175.168'', ''74.208.102.8'', ''74.208.153.44'',
     ''74.211.173.31'', ''74.217.1.127'', ''74.217.50.255'', ''74.217.66.255'', ''74.217.85.255'',
     ''74.217.240.127'', ''74.220.193.194'', ''74.220.215.202'', ''74.220.215.219'', ''74.222.158.163'',
     ''74.222.158.164'', ''75.24.137.63'', ''75.30.119.7'', ''75.44.173.231'', ''75.52.224.103'',
     ''75.64.140.129'', ''75.73.212.166'', ''75.98.70.255'', ''75.101.154.123'', ''75.125.29.255'',
     ''75.125.30.31'', ''75.125.30.95'', ''75.125.82.127'', ''75.126.175.251'', ''75.126.228.159'',
     ''75.194.239.230'', ''75.224.1.161'', ''76.13.210.59'', ''76.13.212.11'', ''76.13.216.11'', ''76.13.232.32'',
     ''76.73.91.82'', ''76.198.222.47'', ''76.225.155.47'', ''77.60.122.79'', ''77.66.32.145'', ''77.67.47.255'',
     ''77.72.119.255'', ''77.88.106.127'', ''77.92.87.122'', ''78.8.103.28'', ''78.46.255.31'', ''78.92.55.41'',
     ''78.100.80.86'', ''78.109.22.151'', ''78.109.84.222'', ''78.137.168.116'', ''78.140.186.255'',
     ''78.143.58.78'', ''79.24.39.128'', ''79.132.248.3'', ''79.136.112.223'', ''79.136.118.15'',
     ''79.185.180.117'', ''80.15.238.68'', ''80.65.51.74'', ''80.67.17.44'', ''80.67.27.220'', ''80.68.240.57'',
     ''80.68.242.99'', ''80.68.244.5'']"

definition bad_address_9 :: "string list" where
  "bad_address_9 =
    [''80.69.160.78'', ''80.69.161.89'', ''80.69.226.133'', ''80.77.193.40'', ''80.79.193.243'', ''80.79.200.63'',
     ''80.80.10.235'', ''80.80.13.255'', ''80.82.21.163'', ''80.82.64.70'', ''80.82.64.70'', ''80.92.66.14'',
     ''80.93.50.138'', ''80.93.212.26'', ''80.94.69.40'', ''80.190.227.20'', ''80.190.227.52'', ''80.190.227.60'',
     ''80.190.227.92'', ''80.190.228.10'', ''80.190.240.44'', ''80.237.239.40'', ''80.239.206.255'',
     ''80.239.207.63'', ''80.247.64.250'', ''80.247.224.206'', ''80.249.166.255'', ''81.2.194.155'',
     ''81.2.196.76'', ''81.3.5.18'', ''81.3.37.95'', ''81.4.179.79'', ''81.5.176.255'', ''81.9.3.75'',
     ''81.19.66.50'', ''81.19.66.109'', ''81.20.168.21'', ''81.21.65.10'', ''81.22.33.114'', ''81.23.252.161'',
     ''81.26.166.255'', ''81.29.66.29'', ''81.31.5.5'', ''81.31.32.71'', ''81.31.38.5'', ''81.52.249.121'',
     ''81.80.252.227'', ''81.88.35.21'', ''81.92.114.255'', ''81.93.185.145'', ''81.94.227.4'', ''81.94.227.9'',
     ''81.95.0.38'', ''81.176.69.176'', ''81.182.52.213'', ''81.196.111.47'', ''81.200.79.255'', ''81.208.113.21'',
     ''81.209.243.10'', ''81.209.248.3'', ''81.222.128.2'', ''81.252.3.247'', ''82.35.200.132'', ''82.80.253.201'',
     ''82.98.86.255'', ''82.99.18.207'', ''82.99.30.127'', ''82.100.0.35'', ''82.100.0.51'', ''82.100.0.87'',
     ''82.100.0.147'', ''82.101.14.47'', ''82.119.226.57'', ''82.129.26.50'', ''82.131.159.79'', ''82.165.52.34'',
     ''82.192.87.51'', ''82.196.4.21'', ''82.197.147.103'', ''82.197.150.255'', ''82.199.80.191'',
     ''83.22.170.198'', ''83.92.196.23'', ''83.149.110.1'', ''83.149.123.187'', ''83.167.236.219'',
     ''83.221.151.111'', ''83.223.121.95'', ''83.223.122.70'', ''83.231.195.23'', ''83.236.244.213'',
     ''83.241.238.66'', ''83.244.207.95'', ''84.2.34.63'', ''84.22.127.43'', ''84.45.63.41'', ''84.131.173.141'',
     ''85.17.31.57'', ''85.17.40.57'', ''85.17.45.21'', ''85.17.201.1'', ''85.17.255.79'', ''85.25.146.60'',
     ''85.112.149.168'', ''85.159.63.255'', ''85.183.249.159'', ''85.214.63.163'', ''85.214.204.32'',
     ''85.221.222.183'', ''86.219.49.127'', ''87.69.240.94'', ''87.118.122.23'', ''87.249.105.255'',
     ''88.80.2.43'', ''88.97.143.47'', ''88.190.41.204'', ''88.191.222.117'', ''88.208.22.84'', ''88.208.248.102'',
     ''88.208.250.66'', ''88.208.250.85'', ''88.212.196.101'', ''88.214.195.115'', ''88.236.182.123'',
     ''88.242.157.255'', ''88.246.179.38'', ''89.21.13.103'', ''89.22.51.255'']"

definition bad_address_10 :: "string list" where
  "bad_address_10 =
    [''89.96.245.107'', ''89.103.245.159'', ''89.108.117.87'', ''89.139.166.248'', ''89.142.12.111'',
     ''89.145.66.95'', ''89.145.106.199'', ''89.145.113.255'', ''89.167.138.239'', ''89.167.138.255'',
     ''89.176.213.43'', ''89.186.95.222'', ''89.191.2.111'', ''89.207.23.255'', ''89.208.148.151'',
     ''89.234.37.159'', ''89.255.255.255'', ''91.103.138.127'', ''91.103.140.255'', ''91.103.142.255'',
     ''91.121.2.134'', ''91.121.7.133'', ''91.121.12.109'', ''91.121.14.71'', ''91.121.18.44'', ''91.121.68.31'',
     ''91.195.124.14'', ''91.195.241.255'', ''91.196.241.142'', ''91.199.100.2'', ''91.208.144.133'',
     ''91.217.153.193'', ''91.223.70.255'', ''91.226.97.66'', ''92.46.81.178'', ''92.51.131.99'',
     ''92.61.148.132'', ''92.128.127.118'', ''92.240.234.45'', ''92.242.159.255'', ''93.93.53.255'',
     ''93.113.27.111'', ''93.157.239.255'', ''94.63.147.183'', ''94.63.147.187'', ''94.63.149.255'',
     ''94.63.240.176'', ''94.63.240.208'', ''94.76.229.85'', ''94.87.21.47'', ''94.100.19.191'', ''94.102.55.198'',
     ''94.139.118.154'', ''94.140.46.187'', ''94.143.167.255'', ''94.199.51.16'', ''94.199.51.64'',
     ''94.229.174.80'', ''94.236.61.36'', ''94.249.188.123'', ''95.8.66.221'', ''95.27.1.119'', ''95.143.192.40'',
     ''95.156.193.2'', ''95.168.183.20'', ''95.172.94.255'', ''95.211.148.117'', ''95.221.179.200'',
     ''96.0.255.255'', ''96.17.75.255'', ''96.44.158.96'', ''97.74.58.254'', ''97.74.94.131'', ''97.74.94.135'',
     ''97.74.124.159'', ''97.74.132.8'', ''97.74.144.93'', ''97.74.144.161'', ''98.24.199.183'', ''98.124.156.11'',
     ''98.124.156.54'', ''98.124.255.255'', ''98.126.46.179'', ''98.126.68.34'', ''98.129.79.207'',
     ''98.129.126.143'', ''98.130.75.107'', ''98.130.75.186'', ''98.130.104.2'', ''99.54.69.1'', ''99.135.67.167'',
     ''99.163.60.239'', ''103.4.195.255'', ''108.62.143.255'', ''109.75.200.105'', ''109.168.102.31'',
     ''109.169.161.143'', ''109.201.123.103'', ''109.205.191.255'', ''109.233.168.19'', ''109.235.49.85'',
     ''110.9.223.170'', ''110.75.187.42'', ''110.134.179.217'', ''111.123.180.10'', ''111.123.180.32'',
     ''111.252.18.101'', ''111.255.45.201'', ''111.255.46.208'', ''112.140.180.141'', ''112.208.97.101'',
     ''112.216.242.123'', ''112.216.242.125'', ''114.27.202.138'', ''115.146.148.255'', ''115.241.5.122'',
     ''116.93.159.255'', ''116.213.23.255'', ''117.58.251.44'', ''117.103.119.255'', ''119.1.109.6'',
     ''120.69.6.208'', ''121.37.60.178'', ''122.136.32.100'', ''122.224.4.127'', ''124.248.32.48'',
     ''125.53.24.159'', ''125.100.157.7'']"

definition bad_address_11 :: "string list" where
  "bad_address_11 =
    [''125.206.193.119'', ''125.208.5.139'', ''125.215.176.111'', ''125.215.176.207'', ''128.11.60.127'',
     ''128.11.92.255'', ''128.121.3.81'', ''128.121.218.57'', ''128.121.241.246'', ''128.177.223.255'',
     ''128.241.21.48'', ''128.242.103.35'', ''128.242.104.137'', ''128.242.120.23'', ''128.242.201.147'',
     ''128.242.201.186'', ''128.242.237.107'', ''128.242.244.242'', ''128.242.247.185'', ''128.242.252.86'',
     ''129.15.2.123'', ''129.33.87.51'', ''130.83.47.128'', ''130.94.18.7'', ''130.94.18.23'', ''130.94.18.35'',
     ''130.94.18.251'', ''130.94.24.173'', ''130.94.132.39'', ''130.94.133.180'', ''130.94.133.187'',
     ''130.94.202.34'', ''130.94.202.39'', ''130.94.202.45'', ''130.102.5.40'', ''130.160.240.152'',
     ''133.205.217.139'', ''139.223.200.246'', ''141.8.231.255'', ''141.136.22.42'', ''144.32.128.74'',
     ''144.63.250.13'', ''144.140.254.209'', ''146.82.205.41'', ''146.82.205.47'', ''146.82.221.255'',
     ''146.145.253.87'', ''149.75.255.255'', ''151.138.255.255'', ''151.193.164.186'', ''151.193.164.189'',
     ''151.193.167.136'', ''151.193.167.147'', ''151.193.167.150'', ''151.196.216.221'', ''151.196.219.92'',
     ''151.197.247.7'', ''152.52.44.194'', ''152.163.208.57'', ''152.163.208.121'', ''152.163.208.185'',
     ''152.163.208.249'', ''155.212.8.18'', ''157.161.128.22'', ''157.238.140.99'', ''157.238.140.107'',
     ''159.25.16.137'', ''161.58.12.234'', ''161.58.80.46'', ''161.58.191.254'', ''162.42.211.3'',
     ''162.42.211.167'', ''164.41.101.34'', ''165.1.76.60'', ''165.193.78.255'', ''165.193.245.255'',
     ''165.236.183.15'', ''166.90.205.40'', ''166.90.205.53'', ''168.143.113.11'', ''168.143.118.120'',
     ''173.45.73.119'', ''173.192.24.127'', ''173.192.192.55'', ''173.192.221.175'', ''173.192.221.207'',
     ''173.192.226.79'', ''173.192.226.69'', ''173.192.226.69'', ''173.193.16.91'', ''173.193.139.250'',
     ''173.201.80.109'', ''173.201.225.78'', ''173.227.66.255'', ''173.236.29.202'', ''173.241.15.255'',
     ''173.241.255.255'', ''173.245.68.7'', ''173.245.77.255'', ''173.247.246.58'', ''173.255.228.164'',
     ''174.34.252.11'', ''174.34.252.12'', ''174.36.6.58'', ''174.36.69.127'', ''174.36.96.80'',
     ''174.36.159.185'', ''174.36.215.224'', ''174.36.222.171'', ''174.37.56.13'', ''174.37.165.137'',
     ''174.37.168.63'', ''174.120.2.98'', ''174.120.12.175'', ''174.120.106.34'', ''174.120.151.156'',
     ''174.120.170.221'', ''174.120.170.238'', ''174.120.244.255'', ''174.120.247.251'', ''174.122.172.15'',
     ''174.129.242.189'', ''174.132.34.23'', ''174.132.104.34'', ''174.132.107.81'', ''174.132.159.90'',
     ''174.133.65.162'', ''174.133.199.131'']"

definition bad_address_12 :: "string list" where
  "bad_address_12 =
    [''174.137.127.255'', ''174.139.45.148'', ''174.142.222.196'', ''174.142.228.223'', ''174.143.45.101'',
     ''174.143.90.35'', ''174.143.155.40'', ''174.143.161.198'', ''175.116.166.103'', ''175.116.167.123'',
     ''175.116.167.236'', ''175.121.56.39'', ''175.121.56.68'', ''175.182.119.221'', ''176.9.147.227'',
     ''176.53.17.200'', ''177.106.60.34'', ''178.16.220.48'', ''178.18.243.227'', ''178.73.193.125'',
     ''178.78.155.101'', ''178.85.233.183'', ''178.157.81.245'', ''178.158.127.255'', ''178.158.75.153'',
     ''178.164.137.252'', ''178.164.194.86'', ''178.165.227.83'', ''178.170.147.3'', ''178.190.143.66'',
     ''178.209.88.105'', ''178.248.244.25'', ''180.4.86.52'', ''180.70.9.78'', ''180.71.45.76'',
     ''182.50.149.149'', ''182.177.196.109'', ''182.182.85.3'', ''184.22.37.74'', ''184.82.130.85'',
     ''184.105.195.231'', ''184.107.235.231'', ''184.154.76.6'', ''184.168.83.159'', ''184.172.178.64'',
     ''184.173.167.111'', ''184.173.167.103'', ''186.52.75.117'', ''186.105.242.19'', ''186.146.14.128'',
     ''186.156.7.119'', ''186.210.72.227'', ''188.0.156.156'', ''188.40.117.12'', ''188.74.185.2'',
     ''188.74.185.3'', ''188.92.79.255'', ''188.119.155.2'', ''188.121.63.227'', ''188.130.250.230'',
     ''188.132.210.61'', ''188.138.16.10'', ''188.165.239.138'', ''188.168.251.177'', ''188.229.97.255'',
     ''188.232.145.48'', ''188.233.247.197'', ''188.235.6.223'', ''188.241.71.255'', ''188.241.115.105'',
     ''189.15.179.56'', ''189.41.111.108'', ''189.41.186.96'', ''189.159.220.74'', ''189.168.179.126'',
     ''189.172.163.102'', ''189.182.44.92'', ''189.193.103.221'', ''189.195.122.150'', ''189.198.131.86'',
     ''190.64.163.66'', ''190.113.147.78'', ''190.121.75.153'', ''190.134.6.97'', ''190.163.109.96'',
     ''190.172.73.137'', ''190.193.177.4'', ''190.229.183.47'', ''190.235.209.19'', ''192.36.81.255'',
     ''192.65.80.255'', ''192.81.69.255'', ''192.114.68.50'', ''192.114.71.10'', ''192.149.15.15'',
     ''192.165.204.255'', ''192.173.31.255'', ''192.190.109.20'', ''192.190.109.32'', ''192.216.83.38'',
     ''192.217.199.127'', ''192.245.235.4'', ''193.19.137.248'', ''193.19.137.251'', ''193.22.244.48'',
     ''193.34.144.191'', ''193.41.225.255'', ''193.45.3.17'', ''193.45.3.23'', ''193.82.164.119'',
     ''193.85.207.202'', ''193.85.233.23'', ''193.96.194.143'', ''193.106.172.95'', ''193.108.80.106'',
     ''193.110.120.30'', ''193.110.146.69'', ''193.111.92.37'', ''193.111.160.140'', ''193.118.73.127'',
     ''193.123.248.15'', ''193.124.133.53'', ''193.124.133.175'', ''193.124.133.180'', ''193.149.121.11'',
     ''193.162.142.255'', ''193.172.165.255'', ''193.184.60.71'']"

definition bad_address_13 :: "string list" where
  "bad_address_13 =
    [''193.188.136.255'', ''193.211.83.255'', ''193.226.244.137'', ''193.252.117.12'', ''193.252.117.15'',
     ''193.254.184.86'', ''194.1.129.227'', ''194.2.190.223'', ''194.5.30.100'', ''194.9.94.100'',
     ''194.17.24.143'', ''194.19.240.232'', ''194.28.44.57'', ''194.51.147.199'', ''194.51.186.191'',
     ''194.64.249.244'', ''194.67.1.166'', ''194.67.23.224'', ''194.67.23.226'', ''194.67.35.205'',
     ''194.67.246.3'', ''194.87.5.34'', ''194.87.6.246'', ''194.87.8.246'', ''194.87.10.60'', ''194.87.10.246'',
     ''194.87.11.246'', ''194.87.12.129'', ''194.87.14.246'', ''194.90.36.179'', ''194.96.227.43'',
     ''194.98.19.255'', ''194.109.154.168'', ''194.109.218.35'', ''194.117.102.48'', ''194.117.210.254'',
     ''194.126.31.255'', ''194.126.143.255'', ''194.131.239.255'', ''194.135.19.13'', ''194.145.56.65'',
     ''194.149.235.48'', ''194.151.105.185'', ''194.164.32.90'', ''194.186.36.130'', ''194.186.36.222'',
     ''194.207.35.255'', ''194.213.53.208'', ''194.213.53.211'', ''194.213.62.35'', ''194.213.62.40'',
     ''194.213.62.44'', ''194.228.200.88'', ''194.228.200.92'', ''194.237.107.255'', ''194.237.110.191'',
     ''194.245.101.90'', ''194.247.192.52'', ''194.247.192.180'', ''195.2.82.4'', ''195.6.155.201'',
     ''195.7.66.21'', ''195.12.224.15'', ''195.12.228.191'', ''195.14.20.11'', ''195.20.224.129'',
     ''195.20.225.24'', ''195.36.162.14'', ''195.36.166.14'', ''195.42.162.174'', ''195.42.179.163'',
     ''195.42.218.167'', ''195.52.218.15'', ''195.52.218.235'', ''195.54.209.141'', ''195.60.12.141'',
     ''195.67.71.64'', ''195.70.35.3'', ''195.74.113.181'', ''195.95.155.13'', ''195.95.155.16'',
     ''195.101.94.105'', ''195.121.7.193'', ''195.125.111.109'', ''195.126.227.207'', ''195.131.4.166'',
     ''195.133.58.246'', ''195.137.27.255'', ''195.141.34.36'', ''195.146.100.29'', ''195.146.192.192'',
     ''195.149.157.57'', ''195.149.158.7'', ''195.149.159.143'', ''195.153.29.143'', ''195.153.199.70'',
     ''195.154.180.191'', ''195.154.204.63'', ''195.154.216.255'', ''195.154.219.159'', ''195.154.220.255'',
     ''195.154.244.127'', ''195.161.118.8'', ''195.161.119.224'', ''195.161.119.240'', ''195.184.109.255'',
     ''195.184.237.95'', ''195.189.47.255'', ''195.191.103.255'', ''195.193.141.40'', ''195.198.203.111'',
     ''195.208.185.176'', ''195.210.180.255'', ''195.217.139.255'', ''195.224.235.182'', ''195.224.240.143'',
     ''195.225.2.64'', ''195.225.2.107'', ''195.225.176.15'', ''195.225.177.21'', ''195.226.104.136'',
     ''195.228.4.255'', ''195.234.240.226'', ''195.241.74.227'', ''195.241.77.2'', ''195.241.78.68'',
     ''195.242.9.13'', ''195.242.99.196'']"

definition bad_address_14 :: "string list" where
  "bad_address_14 =
    [''195.243.66.95'', ''195.249.15.6'', ''195.249.15.19'', ''195.249.15.29'', ''195.250.147.210'',
     ''196.2.63.180'', ''196.40.45.18'', ''198.5.148.13'', ''198.7.61.118'', ''198.17.5.255'', ''198.31.63.255'',
     ''198.49.147.255'', ''198.56.127.255'', ''198.64.139.114'', ''198.64.149.47'', ''198.65.107.28'',
     ''198.65.116.34'', ''198.65.137.241'', ''198.65.164.80'', ''198.65.220.114'', ''198.65.220.232'',
     ''198.65.220.238'', ''198.65.220.245'', ''198.65.220.250'', ''198.73.214.23'', ''198.76.213.143'',
     ''198.77.71.38'', ''198.87.215.255'', ''198.87.214.23'', ''198.104.150.205'', ''198.104.159.65'',
     ''198.143.27.16'', ''198.161.157.218'', ''198.172.202.250'', ''198.184.159.255'', ''198.199.226.255'',
     ''198.200.237.255'', ''198.204.78.255'', ''198.247.208.110'', ''199.59.243.255'', ''199.66.219.52'',
     ''199.95.210.255'', ''199.101.192.255'', ''199.107.237.207'', ''199.127.195.255'', ''199.166.0.255'',
     ''199.171.54.0'', ''199.174.105.167'', ''199.181.132.78'', ''199.181.132.80'', ''199.193.10.90'',
     ''199.193.10.150'', ''199.193.13.90'', ''199.221.131.110'', ''199.232.255.255'', ''199.239.136.245'',
     ''199.239.137.200'', ''199.239.137.229'', ''199.243.92.127'', ''199.243.127.127'', ''199.243.163.108'',
     ''199.246.67.114'', ''199.246.67.241'', ''199.246.67.248'', ''199.246.67.251'', ''199.249.170.20'',
     ''200.16.144.230'', ''200.41.126.143'', ''200.46.235.147'', ''200.59.91.10'', ''200.63.45.11'',
     ''200.63.45.127'', ''200.69.192.225'', ''200.69.192.232'', ''200.69.192.242'', ''200.80.18.186'',
     ''200.90.138.22'', ''200.91.115.75'', ''200.92.31.152'', ''200.96.107.155'', ''200.102.78.219'',
     ''200.102.214.103'', ''200.163.190.151'', ''200.176.3.142'', ''200.176.3.208'', ''200.185.15.91'',
     ''200.188.191.8'', ''200.203.43.161'', ''200.221.6.6'', ''200.221.6.10'', ''200.221.6.13'', ''200.221.6.16'',
     ''200.221.6.20'', ''200.221.6.23'', ''200.221.6.37'', ''200.225.157.92'', ''200.226.139.20'',
     ''200.226.139.38'', ''200.226.139.43'', ''201.75.74.193'', ''201.164.169.99'', ''201.165.245.61'',
     ''201.199.0.170'', ''201.231.46.114'', ''202.27.17.118'', ''202.43.163.66'', ''202.53.23.95'',
     ''202.58.56.78'', ''202.64.245.183'', ''202.67.9.47'', ''202.67.194.73'', ''202.73.41.83'', ''202.76.88.133'',
     ''202.85.141.138'', ''202.94.81.78'', ''202.94.83.139'', ''202.96.140.18'', ''202.99.11.52'',
     ''202.99.11.104'', ''202.99.223.139'', ''202.101.43.68'', ''202.106.168.68'', ''202.106.168.109'',
     ''202.106.168.126'', ''202.106.187.110'', ''202.108.34.51'', ''202.108.36.153'', ''202.108.36.156'']"

definition bad_address_15 :: "string list" where
  "bad_address_15 =
    [''202.108.36.167'', ''202.108.36.172'', ''202.108.36.196'', ''202.108.36.204'', ''202.127.9.150'',
     ''202.131.123.82'', ''202.131.196.111'', ''202.139.106.172'', ''202.142.20.138'', ''202.143.71.127'',
     ''202.143.92.255'', ''202.150.222.186'', ''202.157.161.221'', ''202.157.186.26'', ''202.172.112.12'',
     ''202.187.175.162'', ''203.8.8.255'', ''203.21.205.35'', ''203.26.5.11'', ''203.26.51.42'', ''203.26.51.61'',
     ''203.31.42.28'', ''203.86.166.46'', ''203.89.189.17'', ''203.93.173.3'', ''203.96.118.133'',
     ''203.97.44.24'', ''203.130.242.55'', ''203.150.231.240'', ''203.167.236.228'', ''203.169.8.255'',
     ''203.190.122.255'', ''203.190.125.63'', ''203.191.234.127'', ''203.194.164.69'', ''203.199.124.54'',
     ''203.208.133.255'', ''203.211.131.149'', ''203.226.255.12'', ''203.233.237.107'', ''204.0.5.27'',
     ''204.1.28.140'', ''204.11.111.255'', ''204.11.227.32'', ''204.13.71.255'', ''204.13.160.17'',
     ''204.13.160.20'', ''204.16.158.255'', ''204.45.62.117'', ''204.51.98.255'', ''204.51.186.147'',
     ''204.92.5.132'', ''204.92.5.138'', ''204.152.186.140'', ''204.176.88.255'', ''204.178.112.191'',
     ''204.179.240.9'', ''204.179.240.41'', ''204.179.240.77'', ''204.213.246.2'', ''204.225.48.40'',
     ''204.228.229.168'', ''204.228.229.172'', ''204.228.229.179'', ''204.228.229.185'', ''204.251.10.41'',
     ''204.251.10.205'', ''204.251.10.209'', ''204.251.10.211'', ''204.251.10.216'', ''204.251.10.220'',
     ''204.251.13.11'', ''204.253.105.255'', ''204.255.155.255'', ''205.134.161.157'', ''205.134.161.166'',
     ''205.134.163.4'', ''205.134.165.70'', ''205.134.179.231'', ''205.134.182.230'', ''205.134.183.200'',
     ''205.134.188.163'', ''205.140.192.31'', ''205.147.80.38'', ''205.150.0.50'', ''205.150.0.191'',
     ''205.150.6.255'', ''205.150.79.191'', ''205.158.27.118'', ''205.178.189.129'', ''205.180.85.15'',
     ''205.180.85.19'', ''205.180.85.21'', ''205.180.85.49'', ''205.180.85.54'', ''205.180.85.57'',
     ''205.180.85.60'', ''205.180.85.99'', ''205.180.85.126'', ''205.180.86.14'', ''205.180.159.7'',
     ''205.188.165.57'', ''205.188.165.121'', ''205.188.165.185'', ''205.188.165.249'', ''205.188.248.25'',
     ''205.189.131.255'', ''205.205.48.132'', ''205.205.48.138'', ''205.205.150.159'', ''205.209.139.191'',
     ''205.209.148.1'', ''205.209.176.21'', ''205.234.158.142'', ''205.234.224.143'', ''205.234.230.255'',
     ''205.236.34.88'', ''205.243.144.8'', ''205.246.203.37'', ''206.14.106.10'', ''206.14.215.13'',
     ''206.16.0.29'', ''206.16.5.111'', ''206.16.59.127'', ''206.50.181.10'', ''206.64.128.239'',
     ''206.65.169.132'', ''206.65.169.151'']"

section \<open>The table of the service (bad_ip_address.h)\<close>

definition bad_ip_address_0 :: "u64 list" where
  "bad_ip_address_0 =
    [1019880449, 1721897476, 53224452, 2355242500, 251802884, 1835614468, 1070679812, 1003507460, 1070681860,
     2842593029, 4278256904, 4282451720, 4291954440, 4279109640, 3424061704, 4278258440, 4293332744, 4294315784,
     4285207560, 1109992456, 4294509324, 3433827852, 3218544908, 1868635404, 1190206988, 1257315852, 1794186764,
     911090700, 2538415372, 4286129676, 4286065932, 1058942732, 1731276556, 2133929740, 4148047628, 2131377676,
     532692492, 1608859148, 4284432140, 4284497676, 2674736908, 4285349644, 3213049612, 4291182348, 3219144460,
     4290210572, 700875020, 1674150156, 2815262988, 2144502028, 2111013132, 2783019276, 3219489036, 939032844,
     3220734220, 386302476, 2668200460, 4279009804, 4281303564, 4283531788, 140214796, 4284383756, 2810941708,
     387290124, 4290549772, 2551486732, 2635372812, 670865676, 173055500, 4284063244, 1512089612, 975284236,
     3256985612, 2280630796, 2683283980, 2146284556, 4279351564, 934330124, 1405379086, 656959512, 875063320,
     1700686360, 1674998040, 798006040, 2140183320, 2274597656, 3947867416, 3415732760, 4278944539, 2164556575,
     2356924959, 931123743, 1873829926, 4290142246, 4291518758, 3741344294, 4278411814, 2131976742, 4286341670,
     2546754342, 2010800934, 4278674470, 120743206, 1537238310, 4292830502, 4286670374, 1069770278, 3083036198,
     3206113062, 4279920422, 3475334950, 2873190182, 1128425510, 1128622118, 4287260966, 4293356326, 1191866406,
     1259761702, 1328312358, 1342271782, 1862365478, 2533454118, 2600562982, 2667671846, 2294706470, 2491511334,
     44987686, 346977574]"

definition bad_ip_address_1 :: "u64 list" where
  "bad_ip_address_1 =
    [2269214502, 2319546150, 2349180969, 4215327529, 4265659177, 1835077934, 2715719726, 4280284718, 1491997490,
     2834436914, 2348684082, 938677810, 938677810, 3349550898, 656416306, 2401515570, 3321249330, 19349298,
     3360149558, 3143316795, 437086779, 4017515067, 616279867, 1318261308, 1692707900, 2144976444, 2996693564,
     3556968509, 3213697085, 1062806333, 2145920317, 3204670525, 2682021693, 399340349, 2147318077, 2370011453,
     2504229181, 2537783613, 3192226109, 415794237, 394495805, 579045181, 629376829, 662931261, 730040125,
     2374207293, 1157139005, 3813380413, 3914043709, 2624296509, 4294940733, 2497555773, 3739136317, 125940285,
     668255293, 4294167101, 2777403453, 1601967934, 2861111102, 215685694, 1676679742, 1695882046, 54205246,
     1060838206, 1651255102, 360326974, 938752062, 1327644990, 2401517886, 4074790206, 1063804990, 957835326,
     452883262, 468743742, 1224242750, 1446022462, 2941161022, 4212691518, 4282225214, 2136511038, 1105105470,
     201364798, 2348848446, 4280587582, 1076139326, 1597741374, 4280328254, 4284391742, 2139988286, 2142806334,
     1606394174, 803056702, 1531686206, 1867230526, 90748734, 4012621118, 2420817214, 1057800254, 2429468990,
     4018327102, 1066127934, 3751596606, 1420087870, 3536313150, 990043454, 4279557438, 1338304830, 936700222,
     1341122878, 4287362366, 60029502, 520897855, 2936819007, 240405823, 525618495, 1062162495, 2679525439,
     2131775807, 4283716927, 4283586879, 596728639, 3755107135, 4292174655, 4292895551, 36531263, 120417343,
     4220022335, 404254527]"

definition bad_ip_address_2 :: "u64 list" where
  "bad_ip_address_2 =
    [1914597183, 3410456383, 3460788031, 1168863295, 4119295039, 4279727423, 2010150207, 4281169727, 598701887,
     924678463, 3173808959, 3324803903, 4092099391, 1073249087, 566530367, 3530396223, 796037695, 474715455,
     2785711679, 2140575295, 2418906943, 3365115711, 651074623, 4281770047, 362193215, 4284655167, 2143725631,
     2806498111, 1051838015, 3350579263, 149671999, 3697660479, 2947469887, 79811135, 1162007359, 1262670655,
     1655886655, 1790104383, 382915391, 3688026943, 3788690239, 3294025535, 3482310463, 982898495, 1931335999,
     2466765375, 179690303, 1069998399, 4282311999, 922807359, 3959614527, 3372674111, 1964174399, 1864100927,
     1059122239, 1513745471, 4081642559, 3242847295, 4148816959, 1464593471, 2365911103, 341241919, 2005725247,
     1406660671, 2232480063, 1847587135, 4282446143, 2135486783, 2135552319, 4283101503, 3486380351, 237303359,
     3039098431, 3307533887, 1646720575, 254277183, 3358062143, 1630139967, 2921985599, 3643405887, 388888127,
     908981823, 3878549055, 37091135, 1430386495, 2605053759, 1850275647, 2785737535, 4280089407, 4013292351,
     71039807, 4287036223, 4289657663, 1068759871, 1073347391, 1533149248, 317785152, 3207333184, 2531657024,
     1926170432, 2077165376, 986777408, 187567168, 405670976, 898632768, 2577665088, 4188277824, 967707712,
     2041449536, 3115191360, 4188933184, 2135232320, 1832653888, 839523136, 1192435008, 1225989440, 1820925248,
     3720420672, 3753975104, 1876958784, 1893736000, 3743490624, 685449792, 266347072, 2238784320, 2237474112,
     3120768832, 924788544]"

definition bad_ip_address_3 :: "u64 list" where
  "bad_ip_address_3 =
    [796928576, 931146304, 3807390272, 3486789952, 4023726400, 417083712, 4127076672, 3744085056, 1524643648,
     2839820608, 1057897536, 3951640128, 2072723008, 2426093120, 2393194048, 4291051072, 552091200, 1229866304,
     3746972992, 4281747008, 631129920, 192301120, 225855552, 1176062272, 1988774208, 4279192128, 4290857536,
     465652288, 4291119680, 601836096, 257772864, 3211152704, 3217772352, 1607749440, 77681984, 351754304,
     4293876032, 1260739136, 3350157888, 24665152, 788749888, 18505280, 4285226560, 191782464, 3816119872,
     1205558848, 1708875328, 669015616, 250306112, 523132736, 3309330240, 843145024, 1245863744, 3749538112,
     4086458944, 1825466944, 3787943744, 331968320, 1756329792, 2082437696, 1057717312, 2936765504, 4278942784,
     655457344, 2802940992, 4282481728, 41778240, 175995968, 662731840, 4280319296, 4280581440, 4281236800,
     4281367872, 3294854464, 3512958272, 2271771968, 2540207424, 4282351424, 4286480192, 1444251712, 1578469440,
     823953472, 1578993728, 153718080, 3291385152, 4283601216, 260346432, 3209991232, 1599248192, 3210254144,
     2939918400, 325818432, 1694865984, 2684460096, 129801280, 232102976, 366320704, 1020632128, 1039244352,
     285384000, 4278426944, 68066624, 3786448448, 3125845824, 4284129088, 3211109184, 1392159808, 3915232064,
     266451264, 4271422016, 1059830592, 1694744384, 3909599040, 2551627584, 1932902208, 3363880768, 4291411776,
     3469786944, 4292591424, 3000420416, 1717684800, 4287615040, 4282372672, 3611152960, 4292334912, 2172769856,
     664461632, 587391808]"

definition bad_ip_address_4 :: "u64 list" where
  "bad_ip_address_4 =
    [1056369472, 2046225216, 2415323968, 526052416, 1398467648, 4286311488, 4101827648, 2015817024, 1109912896,
     1277685056, 4029738304, 2134633792, 1365503296, 4292406848, 4292603456, 3712806720, 2134046016, 2467034688,
     1108801088, 890828352, 3508139584, 1043789376, 322500160, 2082209600, 4263444288, 1609240897, 531567425,
     2254972481, 1420830529, 1689265985, 1991255873, 2143758145, 3671926593, 1711155009, 1466772289, 1464873281,
     4190123585, 1992439361, 2025993793, 2141403457, 4291771201, 231684929, 2325364033, 1319517505, 3373550913,
     523522881, 4279982913, 1014786369, 1903978817, 1987864897, 2373740865, 2804706369, 3225578561, 379416641,
     1176204865, 1880847937, 4289690689, 67468865, 2023924289, 3371344961, 2202051905, 4282623809, 393062721,
     1219866177, 4288987201, 2369898049, 4278766913, 1695075649, 1728630081, 3892564289, 733730113, 2008798529,
     136828481, 1920260161, 2145966913, 1069674561, 529003073, 4282315841, 4290901313, 1965293121, 3754036034,
     2911113538, 344723778, 2968328258, 2134712642, 801186114, 4057145666, 1322524994, 2498503746, 3824297026,
     4167771970, 764946242, 2567514178, 3859359810, 4111018050, 2198874178, 1142237250, 2873239618, 454175554,
     154348866, 2084056386, 4016516418, 2280009026, 2146250050, 3572313410, 2885430594, 1890922050, 1361391682,
     1177104450, 1514942530, 4283314242, 2136092738, 2508273474, 1000486722, 1690057794, 4282531394, 713965378,
     1007961666, 1343571522, 1277183554, 1010845250, 3745596994, 1381189186, 677070402, 85478722, 4280175938,
     4281814338, 1061702978]"

definition bad_ip_address_5 :: "u64 list" where
  "bad_ip_address_5 =
    [3534048578, 3668266306, 3819261250, 3919924546, 4054142274, 4090252610, 579425602, 3349828930, 4047919682,
     4292435010, 1136418114, 4277493314, 3525730626, 1317560898, 395207234, 245654082, 262955586, 279863874,
     699425346, 918315586, 1304191554, 1204052546, 936403522, 1020289602, 282747458, 668623426, 3454165570,
     2350607682, 2518379842, 3240652610, 1177775938, 1261662018, 1178300226, 205680962, 3201134914, 529429314,
     2173662018, 3482481474, 496399170, 2996663106, 179729218, 3753800514, 2048030018, 1236694594, 2142664258,
     3549198146, 3879827522, 3342041154, 3513418050, 515146818, 2850260034, 3237119042, 220366658, 887591746,
     2834338626, 1592955714, 1191351874, 1694668354, 2687735362, 4283930178, 966891074, 3750991682, 3247740738,
     4288124738, 3181287234, 2370738242, 3663108162, 3831601218, 4066482242, 2737805890, 1074896706, 260874306,
     3206324546, 2669977922, 1331667266, 4284457282, 29467458, 3577849154, 3210913346, 4285443906, 2131080002,
     3138499394, 1697690434, 3207770946, 627815234, 694924098, 2143073090, 4292457282, 2850730818, 2935735106,
     362333506, 581289282, 3762866498, 3217803586, 2546714946, 2597046594, 1317195586, 1367527234, 1870909250,
     891081794, 3623540034, 977983554, 3949516866, 3999848514, 444586050, 3813071426, 2639256130, 2840582722,
     2874137154, 3008354882, 2669141058, 69000258, 4280212546, 1546837826, 3401900354, 1525276994, 419488322,
     2886066754, 2517164610, 521069122, 1104864834, 4275758658, 2312889922, 3605390914, 2313610818, 1290659394,
     1606018882, 1535437634]"

definition bad_ip_address_6 :: "u64 list" where
  "bad_ip_address_6 =
    [546237250, 244312898, 2008607554, 2898651970, 3251170114, 1135996482, 2964648002, 3723161922, 3742823234,
     1182529090, 2274818114, 118028610, 2485189186, 1396243010, 1513683522, 72022594, 1179318850, 1263204930,
     1347091010, 2454387266, 2521496130, 344193602, 1118501442, 179108418, 346880578, 1789721154, 704838722,
     3821337666, 3745512770, 3995275075, 3419410243, 771953219, 1596199491, 2459243075, 4291629635, 3744600899,
     726733891, 610079811, 677975107, 3357546051, 1519989827, 1873560387, 3481098307, 1883201603, 4280640067,
     4293550915, 3195364675, 386102339, 992574787, 793608003, 4024140611, 90801475, 3214116419, 3221194307,
     2408617795, 2856753987, 3474890563, 4129859139, 1850388291, 1192345667, 2670116931, 1279246403, 1473298499,
     4010920259, 3217214019, 659082563, 793040195, 4294825795, 4287355971, 2148195907, 4270120515, 2962678851,
     3988382787, 3749318724, 4290724676, 4287447876, 1332036676, 1734755396, 4285285444, 3017955652, 3605158212,
     2266200900, 3205528900, 1867484740, 3914305092, 1689036612, 441362500, 3342575940, 1313909060, 525576516,
     1759621700, 2414391876, 2113843780, 675201860, 4279947332, 360108356, 4153802821, 1205010501, 1824784709,
     4283369029, 252708421, 185927237, 303367749, 538248773, 840238661, 1008010821, 2970945093, 3205826117,
     3843360325, 4279961157, 2527725893, 2290616901, 1737820741, 41159749, 54398277, 41815365, 4292481605,
     1862538309, 2751796293, 3070563397, 436933701, 722474053, 4145550405, 2251756613, 2405766213, 1637291589,
     496899653, 4280031557]"

definition bad_ip_address_7 :: "u64 list" where
  "bad_ip_address_7 =
    [791157061, 4280949061, 4281014597, 2754550085, 1194858821, 4281932101, 4285340741, 2760318021, 4280753733,
     901783109, 1071324741, 2454658885, 2991529797, 2169511749, 3796901701, 877731653, 944840517, 1414930245,
     1465261893, 2203459397, 2337677125, 2471894853, 3713408837, 3746963269, 3797294917, 4032175941, 2153193285,
     3512147781, 2908888901, 2336499525, 3561695813, 4288686917, 1627401797, 1461464645, 4293144133, 4293733957,
     4293734469, 140521797, 1199977029, 3280613957, 4287443525, 4287509061, 3652399685, 67646277, 520631109,
     554185541, 654848837, 251672645, 654325829, 4144052293, 251803717, 2399287365, 3741530181, 1327904837,
     3878959173, 792606789, 977156165, 1866348613, 2000566341, 2403219525, 1329543237, 2727753797, 3937941573,
     987772997, 1434859845, 915290437, 1788557637, 2022587205, 4087429957, 2494511941, 3290447941, 976109637,
     172376133, 441073733, 4294918213, 2902671685, 1564034885, 2766096453, 4292037189, 2951629381, 3021953349,
     3461438021, 2950191685, 2519883077, 1651989829, 1437293893, 1474125125, 929525061, 2140837445, 2371199557,
     2883429189, 767730757, 2005378885, 446080837, 3188502341, 1868017477, 475574085, 2723917637, 124825413,
     3128340293, 620872261, 2936399429, 1594430278, 4279904838, 4280363590, 4286655046, 3758041670, 2814727238,
     1337218374, 3205125702, 1865766470, 1597658694, 259544646, 3079624262, 3081329478, 3489564742, 3214536006,
     4280550983, 399149127, 1069059143, 4158757191, 2830877767, 4291363144, 3749905224, 2715616072, 2678523208,
     1609827656, 1996033864]"

definition bad_ip_address_8 :: "u64 list" where
  "bad_ip_address_8 =
    [97457480, 2667913288, 1058283592, 2132287560, 3485409352, 1877483592, 4294058056, 1665868616, 614278472,
     4289211976, 3794481992, 4283446344, 2190357576, 3467785288, 2314744904, 2469177160, 2565384008, 2784601928,
     3334339656, 2132674634, 4287245130, 965356362, 3211605066, 2943300682, 2380149834, 4293342282, 2669622602,
     3141743946, 1598764362, 1331574090, 4286526794, 262092106, 263599434, 3486332234, 792671818, 3847370314,
     1384134218, 3803199050, 4074452554, 35993418, 4284757834, 3132176202, 1731411786, 4279784010, 3299103306,
     3315880522, 3332657738, 900354634, 598889034, 380850762, 3140310602, 1794790986, 1023827274, 4286541898,
     4278219594, 4278350666, 4278547274, 4286018890, 4289952074, 2489285962, 3182460490, 220888906, 4282632778,
     2829896778, 2830093386, 140955722, 748277834, 531485514, 2130827594, 4281522506, 4282571082, 4283816266,
     2146490698, 3267484746, 3403144266, 3688356938, 2745097802, 2761875018, 1065949259, 125247051, 3886885963,
     1742746699, 2173452363, 2798930251, 4282802763, 2073716043, 4280122699, 522091851, 1595833675, 2136112459,
     4222582347, 2682551883, 3874472523, 2701254731, 1003621708, 198446412, 198708556, 552078668, 1381714252,
     803128908, 798744908, 1333410893, 2434810445, 4281287501, 4286007373, 2137675853, 2052545613, 476514382,
     536817230, 691493966, 1448109134, 2534829390, 3730074958, 1957202254, 4290415694, 1312460622, 2150045775,
     66618447, 3748694095, 259426383, 1974778191, 1156452176, 1244873040, 739328848, 3692774224, 972047440,
     1676821584, 99894352]"

definition bad_ip_address_9 :: "u64 list" where
  "bad_ip_address_9 =
    [1319126352, 1503741264, 2246198608, 683756880, 4089532240, 1070092112, 3943321680, 4279062608, 2736083536,
     1178620496, 1178620496, 239230032, 2318556496, 450125136, 675634768, 350469712, 887340624, 1021558352,
     1558429264, 182763088, 753974864, 686812496, 4291751760, 1070591824, 4198561616, 3470849872, 4289132880,
     2613183057, 1287914065, 302318417, 1596261201, 1337132113, 4289725777, 1258490193, 843191121, 1833046865,
     363336785, 172037457, 1914771025, 2717652817, 4289075793, 490872145, 84221777, 1193287505, 86384465,
     2046374993, 3824963665, 354637905, 4285684817, 2444844369, 82009681, 165895761, 637558609, 2957357137,
     3577001553, 795853905, 4283418705, 359780433, 183750993, 66638161, 41999953, 4144233553, 2227708754,
     3388821586, 4283851346, 3474088786, 2132697938, 587228242, 855663698, 1459643474, 2466276434, 789472594,
     971142994, 840597842, 1335853906, 573875538, 861388882, 352633938, 1737737554, 4288070994, 3209742162,
     3333035603, 398744659, 24024403, 3145438547, 3689719635, 1872223571, 1601822547, 1182457683, 398714707,
     3589598291, 1122955603, 1607464019, 1059193428, 729749076, 692006228, 2376958804, 958337365, 958927189,
     355275093, 29954389, 1342116181, 1016207701, 2828365909, 4282359637, 2683942741, 2738869845, 550295125,
     3084836181, 2133973846, 1592804695, 393901655, 4285135191, 721571928, 797925720, 3425287768, 1977532248,
     1410781272, 1727582296, 1123733592, 1442500696, 1707398232, 1942214232, 2075585624, 4288541272, 649328216,
     1728910681, 4281538137]"

definition bad_ip_address_10 :: "u64 list" where
  "bad_ip_address_10 =
    [1811243097, 2683660121, 1467313241, 4171664217, 1863093849, 1598198105, 3345650009, 4285632857, 4018841433,
     4287276889, 735424601, 3730815577, 1862451033, 4279750489, 2543112281, 2670062169, 4294967129, 2139776859,
     4287391579, 4287522651, 2248309083, 2231859547, 1829534043, 1192130907, 739408219, 524581211, 243057499,
     4294034267, 2398209115, 40159067, 2240860251, 3248085339, 4282834779, 1113711195, 2991664732, 1669542748,
     2224307548, 1988067420, 770371676, 4288672348, 4281687389, 1864069469, 4293893469, 3079880542, 3146989406,
     4287971166, 2968534878, 3505405790, 1441090654, 789927774, 3205719134, 3325519454, 2591460190, 3140389982,
     4289171294, 271828830, 1077135198, 1353639262, 608037982, 2075982174, 3712092255, 1996561247, 683708255,
     46242911, 347580511, 4284394591, 1972687711, 3367230815, 4294901856, 4283109728, 1620978784, 4265232993,
     2203994721, 2271103585, 2675722849, 142887521, 1569737313, 2710588001, 3083278434, 194804834, 916225122,
     4294933602, 3006168674, 574914146, 3478094178, 2407432546, 1800110690, 3125510754, 40403554, 21313123,
     2806220643, 4013728611, 4290970727, 4287577708, 1774734189, 526821485, 2409736557, 1736165741, 4290760045,
     329836909, 1429334893, 2866743662, 716917614, 3652421230, 179600239, 548698991, 1695743087, 3375234927,
     3492740975, 2377419888, 1700909168, 2079512688, 2113067120, 2328501106, 4287926899, 2047209843, 4288634228,
     4279752052, 754662005, 4286015349, 107807095, 3490071928, 2990286201, 1679853690, 2131026042, 807467132,
     2669163901, 127755389]"

definition bad_ip_address_11 :: "u64 list" where
  "bad_ip_address_11 =
    [2009190013, 2332414077, 1873860477, 3484473213, 2134641536, 4284222336, 1359182208, 970619264, 4143020416,
     4292850048, 806744448, 594014848, 2305356416, 393802368, 2479485568, 3133796992, 1810756224, 4076139136,
     3120034432, 1459417728, 2063732609, 861348225, 2150585218, 118644354, 387079810, 588406402, 4212285058,
     2904055426, 662986370, 3028639362, 3146079874, 583687810, 667573890, 768237186, 671442562, 2565906562,
     2346306949, 4140359563, 4293331085, 706119821, 1249910928, 234504080, 3523120272, 701321874, 801985170,
     4292694674, 1476235666, 4294921109, 4294937239, 3131359639, 3181691287, 2292695447, 2477244823, 2527576471,
     3721970839, 1557906583, 133678487, 3257676952, 969974680, 2043716504, 3117458328, 4191200152, 302568603,
     377528733, 1670180509, 1804398237, 2299533727, 3926669985, 777009825, 4273945249, 64170658, 2815634082,
     577055140, 1011614117, 4283351461, 4294295973, 263711909, 684546726, 902650534, 191991720, 2021035944,
     2001284525, 2132328621, 935379117, 2950545581, 3487416493, 1340260525, 1172488365, 1172488365, 1527824813,
     4203463085, 1834011053, 1323420077, 4282573741, 3390958765, 4279234989, 4294963629, 121959853, 4283299245,
     989263789, 2766471085, 201073326, 217850542, 973481134, 2135237806, 1348478126, 3114214574, 3772196014,
     2883462318, 221783470, 2309301678, 1067984302, 1644329134, 2936830126, 577403054, 2627172526, 3718936750,
     4004149422, 4294211758, 4227299502, 262961838, 3186786734, 388138158, 577275054, 1366000814, 1520403630,
     2722203054, 2210891182]"

definition bad_ip_address_12 :: "u64 list" where
  "bad_ip_address_12 =
    [4286548398, 2486012846, 3302919854, 3756297902, 1697484718, 593137582, 681283502, 3332476846, 1738962095,
     2074571951, 3970397359, 658012591, 1144551855, 3715610287, 3818064304, 3356571056, 574384817, 819728562,
     3824358066, 2109819314, 1704677042, 3085522354, 4115766706, 4286553778, 2571869874, 4236879026, 1455596722,
     1407428018, 60009138, 1116716722, 1767428530, 435484850, 878052532, 1309230772, 1278035892, 2509583030,
     1841607094, 55948982, 1243944632, 1434604216, 3888343480, 3890965432, 105683640, 2673060024, 1085451448,
     1873259960, 1739042232, 1967862970, 334653882, 2148438714, 1996987578, 3813200570, 2627469500, 209004732,
     45697724, 62474940, 4283391164, 43743164, 3812587964, 3875177148, 1037206716, 168856252, 2330961340,
     2986059964, 4284605884, 814868668, 3321358780, 3741772732, 4282905020, 1769206204, 951259069, 1819224509,
     1622813117, 1255972797, 2125703357, 1722002621, 1546434237, 3714564541, 2524627901, 1451476669, 1117995198,
     1318285758, 2571860414, 1627817662, 1617798078, 2303306942, 78758334, 800581054, 332524478, 4283507904,
     4283449792, 4282732992, 843346624, 172454592, 252679616, 4291601856, 4280266176, 342736576, 544063168,
     643029184, 2143803840, 82572736, 4169733057, 4220064705, 821302977, 3213894337, 4292946369, 285420993,
     386084289, 2007257793, 3402585537, 401167809, 2411880641, 1605135041, 1783655617, 511209153, 1167224513,
     626814913, 2359324609, 2135520961, 267942849, 897940673, 2944761025, 3028647105, 192517569, 4287537857,
     4289047745, 1195161793]"

definition bad_ip_address_13 :: "u64 list" where
  "bad_ip_address_13 =
    [4287151297, 4283683777, 2314527425, 209059009, 259390657, 1454964417, 3816882626, 3753771714, 1679689154,
     1683884482, 2400719298, 3908047810, 959192258, 3348313026, 3216651202, 4109975746, 2785100738, 3759621058,
     3793175490, 3441640386, 66470850, 570775490, 4127610818, 4127741890, 1007310786, 4127872962, 4127938498,
     2165069762, 4128135106, 3005504194, 736321730, 4279460546, 2828692930, 601517506, 812021186, 4275205570,
     4280254146, 4287594178, 4293886914, 219383746, 1094226370, 820745666, 3110705090, 1512088770, 2183445186,
     3726949058, 4280537026, 3493189058, 3543520706, 591320514, 675206594, 742315458, 1489560770, 1556669634,
     4285263298, 3211718082, 1516631490, 885061570, 3032545218, 72483523, 3382380227, 356648899, 266341571,
     3219393731, 185863875, 2178946243, 417404099, 245507267, 245769411, 2929863363, 2746428099, 2816092867,
     265958595, 3956946115, 2379298499, 2366389443, 1078412227, 52643523, 3044100803, 228286403, 278618051,
     1767794115, 3238492611, 1836023235, 3487792835, 2785313731, 4131030467, 4279994819, 606244291, 493130435,
     3233845955, 966628803, 127833539, 2409600451, 2401081795, 1187486147, 3216284355, 1070373571, 4292385475,
     2681969347, 4292647619, 2146736835, 141992387, 3765936579, 4034372035, 4285380803, 1609414851, 4281318851,
     4284989379, 680378819, 1875625667, 2964967619, 4290040515, 4287355331, 3068911811, 2414928067, 1073930691,
     1795350979, 263250371, 363979203, 2288575171, 4278510787, 3807439555, 3813339587, 38662595, 1146024387,
     218755779, 3294884547]"

definition bad_ip_address_14 :: "u64 list" where
  "bad_ip_address_14 =
    [1598223299, 101710275, 319814083, 487586243, 3532913347, 3024028356, 304949444, 227804614, 1983711174,
     4278522310, 4282326982, 4287836614, 4286527686, 1921728710, 798310598, 476791238, 578044358, 4052304326,
     1352942022, 1927037382, 3906748870, 4007412166, 4124852678, 4208738758, 399919558, 2413120710, 642207174,
     4292302790, 399923142, 3449186502, 1100966086, 270241734, 3667763654, 4207586502, 4288657606, 4293052358,
     4293773510, 4283354310, 1859188678, 4294130631, 886784711, 4291977159, 4290799047, 3488443335, 4291002311,
     4278232775, 3582919, 2808721095, 1317320135, 1350874567, 1510654407, 2517287367, 1510851015, 1854135751,
     4294961351, 4119392199, 3364483015, 3851022279, 2136798151, 2139091911, 1822684103, 1917056711, 4047763143,
     4165203655, 4215535303, 346749383, 3868201160, 2407410120, 2481663688, 173751240, 187514824, 2133671880,
     3787474376, 3904914888, 4072687048, 3121762504, 378165960, 1265851336, 2552192200, 2607505608, 3679348424,
     1742104264, 2545853384, 2382606536, 3489902792, 1527757256, 146783432, 2704001992, 101113288, 168222152,
     218553800, 268885448, 335994312, 386325960, 621206984, 1553850824, 344711880, 646701768, 730587848,
     3242871753, 1672062153, 1039508937, 2852177865, 1915676617, 1980832714, 1117989834, 1595356618, 1312307914,
     3086303434, 789136330, 1237468106, 1395214794, 2237156554, 2324518346, 1313955530, 2337496778, 311189706,
     873161674, 1745576906, 2346673098, 1143694794, 1151888074, 1839753930, 2124966602, 1857776330, 857894090,
     2569301194, 2619632842]"

definition bad_ip_address_15 :: "u64 list" where
  "bad_ip_address_15 =
    [2804182218, 2888068298, 3290721482, 3424939210, 2517204938, 1383826378, 1875149770, 2892663754, 2316603082,
     2135396298, 4284256202, 3135149770, 3718356426, 448437706, 208710858, 2729425866, 4278716619, 600643019,
     184883915, 707992267, 1026759371, 472522699, 782653131, 297621963, 61693387, 2239127755, 405561803, 938640075,
     4041709259, 3840714699, 4278757835, 4286234315, 1065205451, 2146090955, 1168425675, 914147275, 4286959819,
     2508444619, 218096331, 1810753995, 453312716, 2350645708, 4285467596, 551750604, 4282846668, 295701964,
     346033612, 4288549068, 1967009228, 4284625868, 2478453708, 2214943948, 2315607244, 2361039052, 4284002508,
     3211834060, 166769612, 703640524, 1307620300, 49731020, 674292172, 2833638604, 2900747468, 3018187980,
     3118851276, 688585676, 3440049100, 3507157964, 3540712396, 3624598476, 3691707340, 185465804, 4285136332,
     4288413644, 2644608717, 2795603661, 77825741, 1185253069, 3887302349, 3870721741, 3367470797, 2747041485,
     532712653, 642814925, 838899405, 3204486861, 4278621901, 3209664205, 1981521613, 2176692941, 257275085,
     324383949, 357938381, 827700429, 911586509, 961918157, 1012249805, 1666561229, 2119546061, 240563405,
     127907021, 967163085, 2040904909, 3114646733, 4188388557, 435731661, 4286823885, 2217790925, 2318454221,
     2677460429, 3213611469, 26530253, 363909581, 2392779469, 2413882061, 4293323469, 1478683853, 143717325,
     634123981, 174722766, 232197838, 486543566, 1862602958, 2134577358, 179647182, 4018159822, 2225684942,
     2544452046]"

section \<open>The parts\<close>

lemma part_0:
  "bad_address_0 = map quad_text quads_0"
  "bad_ip_address_0 = map quad_word quads_0"
  "list_all (\<lambda>q. is_quad q \<and> (case q of (a, b, _) \<Rightarrow> a * 256 + b < 18450)) quads_0"
  "length quads_0 = 128"
proof -
  show "bad_address_0 = map quad_text quads_0"
    by (simp add: bad_address_0_def quads_0_def quad_table del: One_nat_def)
  show "bad_ip_address_0 = map quad_word quads_0"
    by (simp add: bad_ip_address_0_def quads_0_def quad_word_def)
  show "list_all (\<lambda>q. is_quad q \<and> (case q of (a, b, _) \<Rightarrow> a * 256 + b < 18450)) quads_0"
    by (simp add: quads_0_def is_quad_def)
  show "length quads_0 = 128"
    by (simp add: quads_0_def)
qed

lemma part_1:
  "bad_address_1 = map quad_text quads_1"
  "bad_ip_address_1 = map quad_word quads_1"
  "list_all (\<lambda>q. is_quad q \<and> (case q of (a, b, _) \<Rightarrow> a * 256 + b < 18450)) quads_1"
  "length quads_1 = 128"
proof -
  show "bad_address_1 = map quad_text quads_1"
    by (simp add: bad_address_1_def quads_1_def quad_table del: One_nat_def)
  show "bad_ip_address_1 = map quad_word quads_1"
    by (simp add: bad_ip_address_1_def quads_1_def quad_word_def)
  show "list_all (\<lambda>q. is_quad q \<and> (case q of (a, b, _) \<Rightarrow> a * 256 + b < 18450)) quads_1"
    by (simp add: quads_1_def is_quad_def)
  show "length quads_1 = 128"
    by (simp add: quads_1_def)
qed

lemma part_2:
  "bad_address_2 = map quad_text quads_2"
  "bad_ip_address_2 = map quad_word quads_2"
  "list_all (\<lambda>q. is_quad q \<and> (case q of (a, b, _) \<Rightarrow> a * 256 + b < 18450)) quads_2"
  "length quads_2 = 128"
proof -
  show "bad_address_2 = map quad_text quads_2"
    by (simp add: bad_address_2_def quads_2_def quad_table del: One_nat_def)
  show "bad_ip_address_2 = map quad_word quads_2"
    by (simp add: bad_ip_address_2_def quads_2_def quad_word_def)
  show "list_all (\<lambda>q. is_quad q \<and> (case q of (a, b, _) \<Rightarrow> a * 256 + b < 18450)) quads_2"
    by (simp add: quads_2_def is_quad_def)
  show "length quads_2 = 128"
    by (simp add: quads_2_def)
qed

lemma part_3:
  "bad_address_3 = map quad_text quads_3"
  "bad_ip_address_3 = map quad_word quads_3"
  "list_all (\<lambda>q. is_quad q \<and> (case q of (a, b, _) \<Rightarrow> a * 256 + b < 18450)) quads_3"
  "length quads_3 = 128"
proof -
  show "bad_address_3 = map quad_text quads_3"
    by (simp add: bad_address_3_def quads_3_def quad_table del: One_nat_def)
  show "bad_ip_address_3 = map quad_word quads_3"
    by (simp add: bad_ip_address_3_def quads_3_def quad_word_def)
  show "list_all (\<lambda>q. is_quad q \<and> (case q of (a, b, _) \<Rightarrow> a * 256 + b < 18450)) quads_3"
    by (simp add: quads_3_def is_quad_def)
  show "length quads_3 = 128"
    by (simp add: quads_3_def)
qed

lemma part_4:
  "bad_address_4 = map quad_text quads_4"
  "bad_ip_address_4 = map quad_word quads_4"
  "list_all (\<lambda>q. is_quad q \<and> (case q of (a, b, _) \<Rightarrow> a * 256 + b < 18450)) quads_4"
  "length quads_4 = 128"
proof -
  show "bad_address_4 = map quad_text quads_4"
    by (simp add: bad_address_4_def quads_4_def quad_table del: One_nat_def)
  show "bad_ip_address_4 = map quad_word quads_4"
    by (simp add: bad_ip_address_4_def quads_4_def quad_word_def)
  show "list_all (\<lambda>q. is_quad q \<and> (case q of (a, b, _) \<Rightarrow> a * 256 + b < 18450)) quads_4"
    by (simp add: quads_4_def is_quad_def)
  show "length quads_4 = 128"
    by (simp add: quads_4_def)
qed

lemma part_5:
  "bad_address_5 = map quad_text quads_5"
  "bad_ip_address_5 = map quad_word quads_5"
  "list_all (\<lambda>q. is_quad q \<and> (case q of (a, b, _) \<Rightarrow> a * 256 + b < 18450)) quads_5"
  "length quads_5 = 128"
proof -
  show "bad_address_5 = map quad_text quads_5"
    by (simp add: bad_address_5_def quads_5_def quad_table del: One_nat_def)
  show "bad_ip_address_5 = map quad_word quads_5"
    by (simp add: bad_ip_address_5_def quads_5_def quad_word_def)
  show "list_all (\<lambda>q. is_quad q \<and> (case q of (a, b, _) \<Rightarrow> a * 256 + b < 18450)) quads_5"
    by (simp add: quads_5_def is_quad_def)
  show "length quads_5 = 128"
    by (simp add: quads_5_def)
qed

lemma part_6:
  "bad_address_6 = map quad_text quads_6"
  "bad_ip_address_6 = map quad_word quads_6"
  "list_all (\<lambda>q. is_quad q \<and> (case q of (a, b, _) \<Rightarrow> a * 256 + b < 18450)) quads_6"
  "length quads_6 = 128"
proof -
  show "bad_address_6 = map quad_text quads_6"
    by (simp add: bad_address_6_def quads_6_def quad_table del: One_nat_def)
  show "bad_ip_address_6 = map quad_word quads_6"
    by (simp add: bad_ip_address_6_def quads_6_def quad_word_def)
  show "list_all (\<lambda>q. is_quad q \<and> (case q of (a, b, _) \<Rightarrow> a * 256 + b < 18450)) quads_6"
    by (simp add: quads_6_def is_quad_def)
  show "length quads_6 = 128"
    by (simp add: quads_6_def)
qed

lemma part_7:
  "bad_address_7 = map quad_text quads_7"
  "bad_ip_address_7 = map quad_word quads_7"
  "list_all (\<lambda>q. is_quad q \<and> (case q of (a, b, _) \<Rightarrow> a * 256 + b < 18450)) quads_7"
  "length quads_7 = 128"
proof -
  show "bad_address_7 = map quad_text quads_7"
    by (simp add: bad_address_7_def quads_7_def quad_table del: One_nat_def)
  show "bad_ip_address_7 = map quad_word quads_7"
    by (simp add: bad_ip_address_7_def quads_7_def quad_word_def)
  show "list_all (\<lambda>q. is_quad q \<and> (case q of (a, b, _) \<Rightarrow> a * 256 + b < 18450)) quads_7"
    by (simp add: quads_7_def is_quad_def)
  show "length quads_7 = 128"
    by (simp add: quads_7_def)
qed

lemma part_8:
  "bad_address_8 = map quad_text quads_8"
  "bad_ip_address_8 = map quad_word quads_8"
  "list_all (\<lambda>q. is_quad q \<and> (case q of (a, b, _) \<Rightarrow> 18450 \<le> a * 256 + b)) quads_8"
  "length quads_8 = 128"
proof -
  show "bad_address_8 = map quad_text quads_8"
    by (simp add: bad_address_8_def quads_8_def quad_table del: One_nat_def)
  show "bad_ip_address_8 = map quad_word quads_8"
    by (simp add: bad_ip_address_8_def quads_8_def quad_word_def)
  show "list_all (\<lambda>q. is_quad q \<and> (case q of (a, b, _) \<Rightarrow> 18450 \<le> a * 256 + b)) quads_8"
    by (simp add: quads_8_def is_quad_def)
  show "length quads_8 = 128"
    by (simp add: quads_8_def)
qed

lemma part_9:
  "bad_address_9 = map quad_text quads_9"
  "bad_ip_address_9 = map quad_word quads_9"
  "list_all (\<lambda>q. is_quad q \<and> (case q of (a, b, _) \<Rightarrow> 18450 \<le> a * 256 + b)) quads_9"
  "length quads_9 = 128"
proof -
  show "bad_address_9 = map quad_text quads_9"
    by (simp add: bad_address_9_def quads_9_def quad_table del: One_nat_def)
  show "bad_ip_address_9 = map quad_word quads_9"
    by (simp add: bad_ip_address_9_def quads_9_def quad_word_def)
  show "list_all (\<lambda>q. is_quad q \<and> (case q of (a, b, _) \<Rightarrow> 18450 \<le> a * 256 + b)) quads_9"
    by (simp add: quads_9_def is_quad_def)
  show "length quads_9 = 128"
    by (simp add: quads_9_def)
qed

lemma part_10:
  "bad_address_10 = map quad_text quads_10"
  "bad_ip_address_10 = map quad_word quads_10"
  "list_all (\<lambda>q. is_quad q \<and> (case q of (a, b, _) \<Rightarrow> 18450 \<le> a * 256 + b)) quads_10"
  "length quads_10 = 128"
proof -
  show "bad_address_10 = map quad_text quads_10"
    by (simp add: bad_address_10_def quads_10_def quad_table del: One_nat_def)
  show "bad_ip_address_10 = map quad_word quads_10"
    by (simp add: bad_ip_address_10_def quads_10_def quad_word_def)
  show "list_all (\<lambda>q. is_quad q \<and> (case q of (a, b, _) \<Rightarrow> 18450 \<le> a * 256 + b)) quads_10"
    by (simp add: quads_10_def is_quad_def)
  show "length quads_10 = 128"
    by (simp add: quads_10_def)
qed

lemma part_11:
  "bad_address_11 = map quad_text quads_11"
  "bad_ip_address_11 = map quad_word quads_11"
  "list_all (\<lambda>q. is_quad q \<and> (case q of (a, b, _) \<Rightarrow> 18450 \<le> a * 256 + b)) quads_11"
  "length quads_11 = 128"
proof -
  show "bad_address_11 = map quad_text quads_11"
    by (simp add: bad_address_11_def quads_11_def quad_table del: One_nat_def)
  show "bad_ip_address_11 = map quad_word quads_11"
    by (simp add: bad_ip_address_11_def quads_11_def quad_word_def)
  show "list_all (\<lambda>q. is_quad q \<and> (case q of (a, b, _) \<Rightarrow> 18450 \<le> a * 256 + b)) quads_11"
    by (simp add: quads_11_def is_quad_def)
  show "length quads_11 = 128"
    by (simp add: quads_11_def)
qed

lemma part_12:
  "bad_address_12 = map quad_text quads_12"
  "bad_ip_address_12 = map quad_word quads_12"
  "list_all (\<lambda>q. is_quad q \<and> (case q of (a, b, _) \<Rightarrow> 18450 \<le> a * 256 + b)) quads_12"
  "length quads_12 = 128"
proof -
  show "bad_address_12 = map quad_text quads_12"
    by (simp add: bad_address_12_def quads_12_def quad_table del: One_nat_def)
  show "bad_ip_address_12 = map quad_word quads_12"
    by (simp add: bad_ip_address_12_def quads_12_def quad_word_def)
  show "list_all (\<lambda>q. is_quad q \<and> (case q of (a, b, _) \<Rightarrow> 18450 \<le> a * 256 + b)) quads_12"
    by (simp add: quads_12_def is_quad_def)
  show "length quads_12 = 128"
    by (simp add: quads_12_def)
qed

lemma part_13:
  "bad_address_13 = map quad_text quads_13"
  "bad_ip_address_13 = map quad_word quads_13"
  "list_all (\<lambda>q. is_quad q \<and> (case q of (a, b, _) \<Rightarrow> 18450 \<le> a * 256 + b)) quads_13"
  "length quads_13 = 128"
proof -
  show "bad_address_13 = map quad_text quads_13"
    by (simp add: bad_address_13_def quads_13_def quad_table del: One_nat_def)
  show "bad_ip_address_13 = map quad_word quads_13"
    by (simp add: bad_ip_address_13_def quads_13_def quad_word_def)
  show "list_all (\<lambda>q. is_quad q \<and> (case q of (a, b, _) \<Rightarrow> 18450 \<le> a * 256 + b)) quads_13"
    by (simp add: quads_13_def is_quad_def)
  show "length quads_13 = 128"
    by (simp add: quads_13_def)
qed

lemma part_14:
  "bad_address_14 = map quad_text quads_14"
  "bad_ip_address_14 = map quad_word quads_14"
  "list_all (\<lambda>q. is_quad q \<and> (case q of (a, b, _) \<Rightarrow> 18450 \<le> a * 256 + b)) quads_14"
  "length quads_14 = 128"
proof -
  show "bad_address_14 = map quad_text quads_14"
    by (simp add: bad_address_14_def quads_14_def quad_table del: One_nat_def)
  show "bad_ip_address_14 = map quad_word quads_14"
    by (simp add: bad_ip_address_14_def quads_14_def quad_word_def)
  show "list_all (\<lambda>q. is_quad q \<and> (case q of (a, b, _) \<Rightarrow> 18450 \<le> a * 256 + b)) quads_14"
    by (simp add: quads_14_def is_quad_def)
  show "length quads_14 = 128"
    by (simp add: quads_14_def)
qed

lemma part_15:
  "bad_address_15 = map quad_text quads_15"
  "bad_ip_address_15 = map quad_word quads_15"
  "list_all (\<lambda>q. is_quad q \<and> (case q of (a, b, _) \<Rightarrow> 18450 \<le> a * 256 + b)) quads_15"
  "length quads_15 = 128"
proof -
  show "bad_address_15 = map quad_text quads_15"
    by (simp add: bad_address_15_def quads_15_def quad_table del: One_nat_def)
  show "bad_ip_address_15 = map quad_word quads_15"
    by (simp add: bad_ip_address_15_def quads_15_def quad_word_def)
  show "list_all (\<lambda>q. is_quad q \<and> (case q of (a, b, _) \<Rightarrow> 18450 \<le> a * 256 + b)) quads_15"
    by (simp add: quads_15_def is_quad_def)
  show "length quads_15 = 128"
    by (simp add: quads_15_def)
qed

definition bad_address :: "string list" where
  "bad_address =
     bad_address_0 @ bad_address_1 @ bad_address_2 @ bad_address_3 @
     bad_address_4 @ bad_address_5 @ bad_address_6 @ bad_address_7 @
     bad_address_8 @ bad_address_9 @ bad_address_10 @ bad_address_11 @
     bad_address_12 @ bad_address_13 @ bad_address_14 @ bad_address_15"

definition bad_ip_address :: "u64 list" where
  "bad_ip_address =
     bad_ip_address_0 @ bad_ip_address_1 @ bad_ip_address_2 @ bad_ip_address_3 @
     bad_ip_address_4 @ bad_ip_address_5 @ bad_ip_address_6 @ bad_ip_address_7 @
     bad_ip_address_8 @ bad_ip_address_9 @ bad_ip_address_10 @ bad_ip_address_11 @
     bad_ip_address_12 @ bad_ip_address_13 @ bad_ip_address_14 @ bad_ip_address_15"

text \<open>The half of the addresses that the kernel sees, and the other one.\<close>

definition quads_low :: "quad list" where
  "quads_low =
     quads_0 @ quads_1 @ quads_2 @ quads_3 @
     quads_4 @ quads_5 @ quads_6 @ quads_7"

definition quads_high :: "quad list" where
  "quads_high =
     quads_8 @ quads_9 @ quads_10 @ quads_11 @
     quads_12 @ quads_13 @ quads_14 @ quads_15"

lemmas parts =
  part_0 part_1 part_2 part_3 part_4 part_5 part_6 part_7
  part_8 part_9 part_10 part_11 part_12 part_13 part_14 part_15

lemma table_quads:
  "bad_address = map quad_text (quads_low @ quads_high)"
  "bad_ip_address = map quad_word (quads_low @ quads_high)"
  "length quads_low = 1024" "length quads_high = 1024"
  by (simp_all add: bad_address_def bad_ip_address_def quads_low_def quads_high_def parts)

lemma quads_list_all:
  "list_all (\<lambda>q. is_quad q \<and> (case q of (a, b, _) \<Rightarrow> a * 256 + b < 18450)) quads_low"
  "list_all (\<lambda>q. is_quad q \<and> (case q of (a, b, _) \<Rightarrow> 18450 \<le> a * 256 + b)) quads_high"
  unfolding quads_low_def quads_high_def list_all_append by (intro conjI parts)+

lemma quads_range:
  "q \<in> set quads_low \<Longrightarrow> is_quad q \<and> fst q * 256 + fst (snd q) < 18450"
  "q \<in> set quads_high \<Longrightarrow> is_quad q \<and> 18450 \<le> fst q * 256 + fst (snd q)"
  using quads_list_all by (auto simp: list_all_iff)

text \<open>The tables have the same addresses in the same order, and the second half repeats none of the first.\<close>

lemma tables_agree: "map inet_aton bad_address = bad_ip_address"
  using quads_range inet_aton_quad unfolding table_quads by auto

lemma halves_disjoint:
  assumes "q \<in> set quads_low" and "q' \<in> set quads_high"
  shows "quad_word q \<noteq> quad_word q'"
  using quads_range(1) [OF assms(1)] quads_range(2) [OF assms(2)] quad_word_first [of q q'] by auto

end
