(* ===== verification/QH_Firewall_Tables.thy ===== *)
theory QH_Firewall_Tables
  imports QH_Addresses
begin

text \<open>
  The filters with the tables of the repository: what the hook on the CPU and the service on the GPU do to
  packets from the listed addresses.
\<close>

lemma bad_ip_address_facts:
  shows "length bad_address = 2048" and "length bad_ip_address = 2048" and "\<forall>r\<in>set bad_ip_address. r < 2 ^ 32"
    and "set (take 1024 bad_ip_address) = quad_word ` set quads_low"
proof -
  show "length bad_address = 2048" "length bad_ip_address = 2048"
    by (simp_all add: table_quads)
  show "\<forall>r\<in>set bad_ip_address. r < 2 ^ 32"
    unfolding tables_agree [symmetric] using inet_aton_small by auto
  show "set (take 1024 bad_ip_address) = quad_word ` set quads_low"
    by (simp add: table_quads)
qed

lemma rule_word:
  assumes "r \<in> set bad_ip_address"
  shows "ucast (ucast r :: u32) = r"
proof -
  have "r < 2 ^ 32"
    using assms bad_ip_address_facts(3) by simp
  then show ?thesis
    by (simp add: word_unat_eq_iff word_less_nat_alt unsigned_ucast_eq unsigned_take_bit_eq take_bit_nat_eq_self)
qed

text \<open>Of the listed addresses the kernel finds those of the first half.\<close>

lemma gpu_listed_rule:
  assumes "j < 2048"
  shows "gpu_listed bad_ip_address (ucast (bad_ip_address ! j)) \<longleftrightarrow> j < 1024"
proof -
  have w: "ucast (ucast (bad_ip_address ! j) :: u32) = bad_ip_address ! j"
    using assms by (intro rule_word nth_mem) (simp add: bad_ip_address_facts)
  show ?thesis
  proof (cases "j < 1024")
    case True
    then have "bad_ip_address ! j \<in> set (take 1024 bad_ip_address)"
      unfolding bad_ip_address_facts(4) by (simp add: table_quads nth_append)
    then show ?thesis
      using True by (simp add: gpu_listed_def w)
  next
    case False
    define q where "q = quads_high ! (j - 1024)"
    have q: "bad_ip_address ! j = quad_word q" "q \<in> set quads_high"
      using False assms by (simp_all add: q_def table_quads nth_append)
    have "quad_word q \<noteq> quad_word (a, 0, 0, 0)" if "a < 2" for a
      using quad_word_first [of q "(a, 0, 0, 0)"] quads_range(2) [OF q(2)] that by (auto simp: is_quad_def)
    from this [of 0] this [of 1] have "quad_word q \<noteq> 0" "quad_word q \<noteq> 1"
      by (simp_all add: quad_word_def)
    then have "(ucast (bad_ip_address ! j) :: u32) \<noteq> 0" "(ucast (bad_ip_address ! j) :: u32) \<noteq> 1"
      using w q(1) by auto
    moreover have "bad_ip_address ! j \<notin> quad_word ` set quads_low"
      using halves_disjoint [OF _ q(2)] q(1) by (metis imageE)
    ultimately show ?thesis
      using False by (simp add: gpu_listed_def w bad_ip_address_facts(4))
  qed
qed

lemma cpu_listed_rule:
  assumes "j < 2048"
  shows "cpu_listed bad_address (ucast (bad_ip_address ! j))"
proof -
  have "ucast (ucast (bad_ip_address ! j) :: u32) = bad_ip_address ! j"
    using assms by (intro rule_word nth_mem) (simp add: bad_ip_address_facts)
  moreover have "bad_ip_address ! j \<in> inet_aton ` set bad_address"
    using assms bad_ip_address_facts(2) nth_mem [of j bad_ip_address] unfolding tables_agree [symmetric] by simp
  ultimately show ?thesis
    by (simp add: cpu_listed_def bad_ip_address_facts(1))
qed

text \<open>C16: The two tables of the repository list the same 2048 addresses. The hook on the CPU drops a packet
  from any of them. The service drops it, as the first of a batch, when the address is in the first half of the
  table and accepts it when it is in the second.\<close>

theorem second_half_not_filtered:
  assumes "filter_ready st" and "u_packet_buff_index st = 0"
    and "ph_ok p" and "payload p = Some iph" and "is_tcp_udp iph" and "1000000 < rv_time p - first_rv_time st"
    and "j < 2048" and "saddr iph = ucast (bad_ip_address ! j)" and "packet_id cf \<le> 1024"
  shows "map inet_aton bad_address = bad_ip_address \<and>
    (\<exists>cf'. cpu_main_hook bad_address tt iph cf = Inr (NF_DROP, cf')) \<and>
    (\<exists>st'. packet_buffering bad_ip_address p st = Inr st' \<and>
      verdicts st' = verdicts st @ [(ph_id p, if j < 1024 then NF_DROP else NF_ACCEPT)])"
proof (intro conjI)
  show "map inet_aton bad_address = bad_ip_address"
    by (rule tables_agree)
  show "\<exists>cf'. cpu_main_hook bad_address tt iph cf = Inr (NF_DROP, cf')"
    using cpu_hook_result [of bad_address cf tt iph] assms(5,7-9) cpu_listed_rule [of j] bad_ip_address_facts(1) by auto
  have len: "0 < length (id_buff st)" "0 < length (sip_buff st)"
    using assms(1) by (simp_all add: filter_ready_def)
  obtain st' where "packet_buffering bad_ip_address p st = Inr st'"
    "verdicts st' = verdicts st @ map (\<lambda>i. ((id_buff st)[0 := ph_id p] ! i,
       if i < 16 \<and> \<not> gpu_listed bad_ip_address ((sip_buff st)[0 := saddr iph] ! i) then NF_ACCEPT else NF_DROP)) [0..<Suc 0]"
    using batch_answers [OF assms(1) _ bad_ip_address_facts(3) _ _ assms(3-6) refl refl, of 0] assms(2) bad_ip_address_facts(2)
    by auto
  then show "\<exists>st'. packet_buffering bad_ip_address p st = Inr st' \<and>
      verdicts st' = verdicts st @ [(ph_id p, if j < 1024 then NF_DROP else NF_ACCEPT)]"
    using len gpu_listed_rule [OF assms(7)] assms(8) by simp
qed

definition listed_packet :: queued where
  "listed_packet = example_packet\<lparr>payload := Some \<lparr>protocol = 17, saddr = ucast (bad_ip_address ! 2000)\<rparr>\<rparr>"

theorem second_half_not_filtered_witness:
  "map inet_aton bad_address = bad_ip_address \<and>
    (\<exists>cf'. cpu_main_hook bad_address 3 \<lparr>protocol = 17, saddr = ucast (bad_ip_address ! 2000)\<rparr> cpu_init_module =
      Inr (NF_DROP, cf')) \<and>
    (\<exists>st'. packet_buffering bad_ip_address listed_packet (example_filter 0) = Inr st' \<and>
      verdicts st' = verdicts (example_filter 0) @
        [(ph_id listed_packet, if (2000 :: nat) < 1024 then NF_DROP else NF_ACCEPT)])"
  by (rule second_half_not_filtered)
    (simp_all add: listed_packet_def example_filter_fields example_packet_fields example_packet_def is_tcp_udp_def
      IPPROTO_UDP_def cpu_init_module_def)

end
