(* ===== verification/QH_Netfilter.thy ===== *)
theory QH_Netfilter
  imports QH_Firewall
begin

text \<open>
  The program \<open>src/test_module/netfilter_firewall/lib/libsrv_netfilter_firewall.c\<close>, which takes packets from the
  queue of the kernel, keeps copies of up to eight of them, and accepts them all. The theorem follows a packet
  from its arrival to its verdict: none is lost and none overtakes another, as long as no packet is longer than
  the copy has room for.
\<close>

section \<open>The program\<close>

text \<open>A packet of the queue: its header, its number, the result of \<open>nfq_get_payload\<close>, its bytes, and the time.\<close>

record nf_packet =
  nf_ph :: bool
  nf_id :: u32
  nf_len :: int
  nf_bytes :: "u8 list"
  nf_time :: int

text \<open>\<open>struct u_packet\<close>, and the global variables with the verdicts given so far.\<close>

record u_packet =
  up_id :: u32
  up_payload :: "u8 list"
  up_len :: int

record nf_state =
  u_packet_buff :: "u_packet list"
  nf_index :: u32
  nf_first_time :: int
  nf_verdicts :: "(u32 \<times> verdict) list"

text \<open>\<open>show_packet\<close> prints, and accepts every packet.\<close>

definition nf_show_packet :: "u8 list \<Rightarrow> verdict" where
  "nf_show_packet dgram = NF_ACCEPT"

text \<open>The copy of the payload into an array of 576 bytes; a negative length is a huge one for \<open>memcpy\<close>.\<close>

definition copy_payload :: "nf_packet \<Rightarrow> u8 list \<Rightarrow> u8 list res" where
  "copy_payload p dest = (
     if nf_len p < 0 \<or> int (length dest) < nf_len p then Inl Buffer_overflow
     else if int (length (nf_bytes p)) < nf_len p then Inl Out_of_bounds
     else Inr (take (nat (nf_len p)) (nf_bytes p) @ drop (nat (nf_len p)) dest))"

definition nf_verdict :: "nat \<Rightarrow> nf_state \<Rightarrow> nf_state res" where
  "nf_verdict i st = bindR (arr_get (u_packet_buff st) i) (\<lambda>u.
     let POLICY = nf_show_packet (up_payload u); POLICY = NF_ACCEPT in
     Inr (st\<lparr>nf_verdicts := nf_verdicts st @ [(up_id u, POLICY)]\<rparr>))"

definition nf_packet_buffering :: "nf_packet \<Rightarrow> nf_state \<Rightarrow> nf_state res" where
  "nf_packet_buffering p st = (
     if \<not> nf_ph p then Inr st
     else
       let i = unat (nf_index st) in
       bindR (arr_get (u_packet_buff st) i) (\<lambda>u.
       bindR (copy_payload p (up_payload u)) (\<lambda>bs.
       bindR (arr_set (u_packet_buff st) i \<lparr>up_id = nf_id p, up_payload = bs, up_len = nf_len p\<rparr>) (\<lambda>buff.
       let st = st\<lparr>u_packet_buff := buff, nf_index := nf_index st + 1\<rparr> in
       if nf_index st = 8 \<or> 1000 < nf_time p - nf_first_time st then
         bindR (for_each [0..<unat (nf_index st)] nf_verdict st) (\<lambda>st.
         Inr (st\<lparr>nf_index := 0, nf_first_time := nf_time p\<rparr>))
       else Inr st))))"

text \<open>The handler that answers at once, which is not registered.\<close>

definition nf_work_do :: "nf_packet \<Rightarrow> nf_state \<Rightarrow> nf_state res" where
  "nf_work_do p st = (
     if \<not> nf_ph p then Inl Null_deref
     else Inr (st\<lparr>nf_verdicts := nf_verdicts st @ [(nf_id p, nf_show_packet (nf_bytes p))]\<rparr>))"

text \<open>The loop over the results of \<open>recv\<close>, and the set-up before it; a failed step ends the process.\<close>

fun nf_loop :: "(int \<times> nf_packet) list \<Rightarrow> nf_state \<Rightarrow> nf_state res" where
  "nf_loop [] st = Inr st"
| "nf_loop ((rv, p) # es) st = (if rv \<le> 0 then Inr st else bindR (nf_packet_buffering p st) (nf_loop es))"

definition nf_netlink_init :: "bool list \<Rightarrow> (int \<times> nf_packet) list \<Rightarrow> nf_state \<Rightarrow> (int \<times> nf_state) res" where
  "nf_netlink_init steps es st = (
     let st = st\<lparr>nf_index := 0\<rparr> in
     if steps = [True, True, True, True] then bindR (nf_loop es st) (\<lambda>st. Inr (0, st)) else Inl Aborted)"

section \<open>Packets and verdicts\<close>

text \<open>The packets that wait, and the state between two packets.\<close>

definition waiting :: "nf_state \<Rightarrow> u32 list" where
  "waiting st = map up_id (take (unat (nf_index st)) (u_packet_buff st))"

definition nf_ok :: "nf_state \<Rightarrow> bool" where
  "nf_ok st \<longleftrightarrow> length (u_packet_buff st) = 16 \<and> (\<forall>u\<in>set (u_packet_buff st). length (up_payload u) = 576) \<and>
     unat (nf_index st) < 8"

definition fits :: "nf_packet \<Rightarrow> bool" where
  "fits p \<longleftrightarrow> 0 \<le> nf_len p \<and> nf_len p \<le> 576 \<and> nf_len p \<le> int (length (nf_bytes p))"

lemma nf_verdicts_result:
  assumes "n \<le> length (u_packet_buff st)"
  shows "for_each [0..<n] nf_verdict st =
    Inr (st\<lparr>nf_verdicts := nf_verdicts st @ map (\<lambda>u. (up_id u, NF_ACCEPT)) (take n (u_packet_buff st))\<rparr>)"
  using assms
proof (induction n)
  case (Suc n)
  then show ?case by (simp add: for_each_append nf_verdict_def Let_def take_Suc_conv_app_nth)
qed simp

text \<open>The packets answered so far, and those that wait, with their verdicts.\<close>

definition settled :: "nf_state \<Rightarrow> (u32 \<times> verdict) list" where
  "settled st = nf_verdicts st @ map (\<lambda>i. (i, NF_ACCEPT)) (waiting st)"

lemma nf_packet_result:
  assumes st: "nf_ok st" and p: "fits p" "nf_ph p"
  shows "\<exists>st'. nf_packet_buffering p st = Inr st' \<and> nf_ok st' \<and> settled st' = settled st @ [(nf_id p, NF_ACCEPT)]"
proof -
  let ?i = "unat (nf_index st)"
  let ?u = "u_packet_buff st ! ?i"
  have i: "?i < 8" "?i < 16" "length (u_packet_buff st) = 16" using st by (simp_all add: nf_ok_def)
  have u: "length (up_payload ?u) = 576" using st i by (simp add: nf_ok_def)
  obtain bs where bs: "copy_payload p (up_payload ?u) = Inr bs" "length bs = 576"
    using p(1) u by (simp add: copy_payload_def fits_def nat_le_iff)
  let ?new = "\<lparr>up_id = nf_id p, up_payload = bs, up_len = nf_len p\<rparr>"
  let ?buff = "(u_packet_buff st)[?i := ?new]"
  let ?st = "st\<lparr>u_packet_buff := ?buff, nf_index := nf_index st + 1\<rparr>"
  have n: "unat (nf_index st + 1) = Suc ?i" using i(1) by (simp add: unat_word_ariths)
  have take: "take (Suc ?i) ?buff = take ?i (u_packet_buff st) @ [?new]"
    using i by (simp add: take_Suc_conv_app_nth)
  have w: "waiting ?st = waiting st @ [nf_id p]"
    by (simp add: waiting_def n take)
  have buff: "length ?buff = 16" "\<forall>u\<in>set ?buff. length (up_payload u) = 576"
    using st bs(2) i set_update_subset_insert [of "u_packet_buff st" ?i ?new] by (auto simp: nf_ok_def)
  have run: "nf_packet_buffering p st = (
      if nf_index st + 1 = 8 \<or> 1000 < nf_time p - nf_first_time st
      then bindR (for_each [0..<Suc ?i] nf_verdict ?st) (\<lambda>st. Inr (st\<lparr>nf_index := 0, nf_first_time := nf_time p\<rparr>))
      else Inr ?st)"
    using i bs(1) p(2) by (simp add: nf_packet_buffering_def Let_def n)
  show ?thesis
  proof (cases "nf_index st + 1 = 8 \<or> 1000 < nf_time p - nf_first_time st")
    case True
    let ?done = "?st\<lparr>nf_verdicts := nf_verdicts st @ map (\<lambda>u. (up_id u, NF_ACCEPT)) (take (Suc ?i) ?buff),
      nf_index := 0, nf_first_time := nf_time p\<rparr>"
    have "nf_packet_buffering p st = Inr ?done"
      unfolding run using True nf_verdicts_result [of "Suc ?i" ?st] i(2) buff(1) by simp
    moreover have "settled ?done = settled st @ [(nf_id p, NF_ACCEPT)]"
      unfolding take by (simp add: settled_def waiting_def)
    moreover have "nf_ok ?done" using buff by (simp add: nf_ok_def)
    ultimately show ?thesis by blast
  next
    case False
    then have "Suc ?i \<noteq> 8" using n by (simp add: word_unat_eq_iff)
    then have "nf_ok ?st" using buff n i(1) by (simp add: nf_ok_def)
    then show ?thesis unfolding run using False w by (simp add: settled_def)
  qed
qed

text \<open>C21: Packets without errors and of at most 576 bytes are all accepted, in the order of their arrival, and at most
  seven of them wait; a longer packet overflows the copy.\<close>

theorem nf_packets_accepted_in_order:
  assumes "nf_ok st" "waiting st = []" and "\<forall>p\<in>set ps. fits p \<and> nf_ph p"
  shows "\<exists>st'. for_each ps nf_packet_buffering st = Inr st' \<and>
     nf_verdicts st' @ map (\<lambda>i. (i, NF_ACCEPT)) (waiting st') = nf_verdicts st @ map (\<lambda>p. (nf_id p, NF_ACCEPT)) ps \<and>
     length (waiting st') < 8 \<and>
     (576 < nf_len q \<and> nf_ph q \<longrightarrow> nf_packet_buffering q st' = Inl Buffer_overflow)"
proof -
  have "\<exists>st'. for_each ps nf_packet_buffering st = Inr st' \<and> nf_ok st' \<and>
      settled st' = settled st @ map (\<lambda>p. (nf_id p, NF_ACCEPT)) ps"
  proof (rule for_each_prefix)
    show "nf_ok st \<and> settled st = settled st @ map (\<lambda>p. (nf_id p, NF_ACCEPT)) []" using assms(1) by simp
    fix ys p zs s assume "ps = ys @ p # zs" "nf_ok s \<and> settled s = settled st @ map (\<lambda>p. (nf_id p, NF_ACCEPT)) ys"
    then show "\<exists>s'. nf_packet_buffering p s = Inr s' \<and> nf_ok s' \<and>
        settled s' = settled st @ map (\<lambda>p. (nf_id p, NF_ACCEPT)) (ys @ [p])"
      using nf_packet_result [of s p] assms(3) by auto
  qed
  then obtain st' where st': "for_each ps nf_packet_buffering st = Inr st'" "nf_ok st'"
    "settled st' = settled st @ map (\<lambda>p. (nf_id p, NF_ACCEPT)) ps"
    by blast
  have "nf_packet_buffering q st' = Inl Buffer_overflow" if "576 < nf_len q" "nf_ph q"
    using that st'(2) by (simp add: nf_packet_buffering_def nf_ok_def copy_payload_def Let_def)
  moreover have "length (waiting st') < 8" using st'(2) by (simp add: waiting_def nf_ok_def)
  ultimately show ?thesis using st'(1,3) assms(2) by (simp add: settled_def)
qed

text \<open>Ten packets, of which two wait.\<close>

definition example_nf :: nf_state where
  "example_nf = \<lparr>u_packet_buff = replicate 16 \<lparr>up_id = 0, up_payload = replicate 576 0, up_len = 0\<rparr>, nf_index = 0,
     nf_first_time = 0, nf_verdicts = []\<rparr>"

theorem nf_packets_accepted_in_order_witness:
  "\<exists>st'. for_each (map (\<lambda>i. \<lparr>nf_ph = True, nf_id = of_nat i, nf_len = 1, nf_bytes = [5], nf_time = 6\<rparr>) [0..<10])
       nf_packet_buffering example_nf = Inr st' \<and>
     nf_verdicts st' @ map (\<lambda>i. (i, NF_ACCEPT)) (waiting st') = map (\<lambda>i. (of_nat i, NF_ACCEPT)) [0..<10] \<and>
     nf_packet_buffering \<lparr>nf_ph = True, nf_id = 3, nf_len = 600, nf_bytes = [], nf_time = 0\<rparr> st' = Inl Buffer_overflow"
  using nf_packets_accepted_in_order [of example_nf
      "map (\<lambda>i. \<lparr>nf_ph = True, nf_id = of_nat i, nf_len = 1, nf_bytes = [5], nf_time = 6\<rparr>) [0..<10]"
      "\<lparr>nf_ph = True, nf_id = 3, nf_len = 600, nf_bytes = [], nf_time = 0\<rparr>"]
  by (auto simp: example_nf_def nf_ok_def waiting_def fits_def comp_def)

end
