(* ===== verification/QH_Radix_Client.thy ===== *)
theory QH_Radix_Client
  imports QH_Radix_Service "HOL-Library.Signed_Division"
begin

text \<open>
  The client of the radix sort (\<open>radix_sort_module.c\<close>): the keys it generates, its own radix sort on
  the CPU, its check, and the run of the module. The sort on the CPU is a second instance of
  \<open>stable_passes\<close>, so that both programs can be compared.
\<close>

section \<open>The sort on the CPU\<close>

text \<open>\<open>pow\<close>: \<open>int\<close> as its bit pattern, the products wrap.\<close>

definition pow_int :: "u32 \<Rightarrow> nat \<Rightarrow> u32" where
  "pow_int k n = foldl (\<lambda>ret _. ret * k) 1 [0..<n]"

text \<open>The array of the caller and the two global arrays.\<close>

record rx_arrays =
  rx_data :: "u32 list"
  rx_counts :: "u32 list"
  rx_temp :: "u32 list"

text \<open>\<open>(int)(data[j] / pval) % k\<close>, with the division of \<open>int\<close>: by 0, and of the least number by
  \<open>-1\<close>, it traps.\<close>

definition rx_digit :: "u32 \<Rightarrow> u32 \<Rightarrow> nat \<Rightarrow> int res" where
  "rx_digit x pval k =
     (if pval = 0 \<or> k = 0 \<or> pval = -1 \<and> sint x = - (2 ^ 31) then Inl Div_by_zero
      else Inr ((sint x sdiv sint pval) smod int k))"

definition rx_clear :: "nat \<Rightarrow> u32 list \<Rightarrow> u32 list res" where
  "rx_clear k counts = for_each [0..<k] (\<lambda>i counts. arr_set counts i 0) counts"

definition rx_tally :: "nat \<Rightarrow> u32 \<Rightarrow> nat \<Rightarrow> u32 list \<Rightarrow> u32 list \<Rightarrow> u32 list res" where
  "rx_tally cnt pval k data counts =
     for_each [0..<cnt] (\<lambda>j counts.
       bindR (arr_get data j) (\<lambda>x. bindR (rx_digit x pval k) (\<lambda>i. bindR (idx i) (\<lambda>i.
       bindR (arr_get counts i) (\<lambda>c. arr_set counts i (c + 1)))))) counts"

definition rx_sums :: "nat \<Rightarrow> u32 list \<Rightarrow> u32 list res" where
  "rx_sums k counts =
     for_each [1..<k] (\<lambda>i counts.
       bindR (arr_get counts i) (\<lambda>c. bindR (arr_get counts (i - 1)) (\<lambda>c'. arr_set counts i (c + c')))) counts"

text \<open>From the last entry to the first; \<open>counts[index] - 1\<close> is \<open>unsigned\<close>.\<close>

definition rx_place :: "nat \<Rightarrow> u32 \<Rightarrow> nat \<Rightarrow> u32 list \<Rightarrow> u32 list \<times> u32 list \<Rightarrow> (u32 list \<times> u32 list) res" where
  "rx_place cnt pval k data =
     for_each (rev [0..<cnt]) (\<lambda>j (counts, temp).
       bindR (arr_get data j) (\<lambda>x. bindR (rx_digit x pval k) (\<lambda>i. bindR (idx i) (\<lambda>i.
       bindR (arr_get counts i) (\<lambda>c. bindR (arr_set temp (unat (c - 1)) x) (\<lambda>temp.
       bindR (arr_set counts i (c - 1)) (\<lambda>counts. Inr (counts, temp))))))))"

text \<open>\<open>memcpy(data, temp, size * sizeof(int))\<close>\<close>

definition rx_copy :: "nat \<Rightarrow> u32 list \<Rightarrow> u32 list \<Rightarrow> u32 list res" where
  "rx_copy cnt data temp =
     (if cnt \<le> length data \<and> cnt \<le> length temp then Inr (take cnt temp @ drop cnt data)
      else Inl Buffer_overflow)"

definition rx_pass :: "nat \<Rightarrow> nat \<Rightarrow> nat \<Rightarrow> rx_arrays \<Rightarrow> rx_arrays res" where
  "rx_pass cnt k n s =
     bindR (rx_clear k (rx_counts s)) (\<lambda>counts.
     let pval = pow_int (of_nat k) n in
     bindR (rx_tally cnt pval k (rx_data s) counts) (\<lambda>counts.
     bindR (rx_sums k counts) (\<lambda>counts.
     bindR (rx_place cnt pval k (rx_data s) (counts, rx_temp s)) (\<lambda>(counts, temp).
     bindR (rx_copy cnt (rx_data s) temp) (\<lambda>data.
     Inr \<lparr>rx_data = data, rx_counts = counts, rx_temp = temp\<rparr>)))))"

definition rxSort :: "nat \<Rightarrow> nat \<Rightarrow> nat \<Rightarrow> rx_arrays \<Rightarrow> rx_arrays res" where
  "rxSort cnt p k s = for_each [0..<p] (rx_pass cnt k) s"

section \<open>Ranks\<close>

text \<open>The place of the next key with digit \<open>d\<close> in the sorted list, after \<open>i\<close> keys.\<close>

definition rank_of :: "('a \<Rightarrow> nat) \<Rightarrow> 'a list \<Rightarrow> nat \<Rightarrow> nat \<Rightarrow> nat" where
  "rank_of f xs d i =
     (\<Sum>r<d. length (filter (\<lambda>x. f x = r) xs)) + length (filter (\<lambda>x. f x = d) (take i xs))"

lemma rank_Suc: "i < length xs \<Longrightarrow> rank_of f xs d (Suc i) = rank_of f xs d i + (if f (xs ! i) = d then 1 else 0)"
  by (simp add: rank_of_def take_Suc_conv_app_nth)

lemma rank_end: "rank_of f xs d (length xs) = rank_of f xs (Suc d) 0"
  by (simp add: rank_of_def)

lemma rank_mono: "i \<le> j \<Longrightarrow> j \<le> length xs \<Longrightarrow> rank_of f xs d i \<le> rank_of f xs d j"
  by (induction j rule: dec_induct) (simp_all add: rank_Suc)

lemma rank_digits_mono: "d \<le> e \<Longrightarrow> rank_of f xs d 0 \<le> rank_of f xs e 0"
  by (auto simp: rank_of_def intro!: sum_mono2)

lemma rank_all:
  assumes "\<And>x. x \<in> set xs \<Longrightarrow> f x < R"
  shows "rank_of f xs R 0 = length xs"
proof -
  have "sort_key f xs = concat (map (\<lambda>r. filter (\<lambda>x. f x = r) xs) [0..<R])"
    by (rule sort_key_by_rows) (rule assms)
  then have "length xs = length (concat (map (\<lambda>r. filter (\<lambda>x. f x = r) xs) [0..<R]))"
    by (metis length_sort)
  also have "\<dots> = (\<Sum>r<R. length (filter (\<lambda>x. f x = r) xs))"
    by (simp add: length_concat sum_list_sum_nth atLeast0LessThan)
  finally have "length xs = (\<Sum>r<R. length (filter (\<lambda>x. f x = r) xs))" .
  then show ?thesis
    by (simp add: rank_of_def)
qed

lemma rank_less:
  assumes "\<And>x. x \<in> set xs \<Longrightarrow> f x < R" and "i < length xs"
  shows "rank_of f xs (f (xs ! i)) i < length xs"
proof -
  have "f (xs ! i) < R"
    using assms by simp
  have "Suc (rank_of f xs (f (xs ! i)) i) = rank_of f xs (f (xs ! i)) (Suc i)"
    using assms(2) by (simp add: rank_Suc)
  also have "\<dots> \<le> rank_of f xs (f (xs ! i)) (length xs)"
    using assms(2) by (intro rank_mono) simp_all
  also have "\<dots> = rank_of f xs (Suc (f (xs ! i))) 0"
    by (rule rank_end)
  also have "\<dots> \<le> rank_of f xs R 0"
    using \<open>f (xs ! i) < R\<close> by (intro rank_digits_mono) simp
  also have "\<dots> = length xs"
    using rank_all [of xs f R] assms(1) by simp
  finally show ?thesis
    by simp
qed

lemma rank_nth:
  assumes "\<And>x. x \<in> set xs \<Longrightarrow> f x < R" and "i < length xs"
  shows "sort_key f xs ! rank_of f xs (f (xs ! i)) i = xs ! i"
proof -
  have d: "f (xs ! i) < R"
    using assms by simp
  note p = filter_nth_position [OF assms(2), of "\<lambda>x. f x = f (xs ! i)", OF refl]
  have "sort_key f xs = concat (map (\<lambda>r. filter (\<lambda>x. f x = r) xs) [0..<R])"
    by (rule sort_key_by_rows) (rule assms(1))
  then show ?thesis
    using concat_rows_nth [OF d, of _ "\<lambda>r. filter (\<lambda>x. f x = r) xs", OF p(2)] p(1)
    unfolding rank_of_def by metis
qed

lemma rank_cover:
  assumes "m < rank_of f xs R 0"
  shows "\<exists>d<R. rank_of f xs d 0 \<le> m \<and> m < rank_of f xs d (length xs)"
  using assms
proof (induction R)
  case 0
  then show ?case
    by (simp add: rank_of_def)
next
  case (Suc R)
  show ?case
  proof (cases "m < rank_of f xs R 0")
    case True
    then show ?thesis
      using Suc.IH less_Suc_eq by blast
  next
    case False
    then show ?thesis
      using Suc.prems by (intro exI [of _ R]) (simp add: rank_end)
  qed
qed

section \<open>A pass of the CPU sort\<close>

text \<open>The digit of pass \<open>n\<close> in base \<open>k\<close>.\<close>

definition base_digit :: "nat \<Rightarrow> nat \<Rightarrow> u32 \<Rightarrow> nat" where
  "base_digit k n x = unat x div k ^ n mod k"

lemma base_digit_less: "0 < k \<Longrightarrow> base_digit k n x < k"
  by (simp add: base_digit_def)

lemma pow_int_eq: "pow_int k n = k ^ n"
  by (induction n) (simp_all add: pow_int_def)

lemma signed_div_nonneg:
  fixes a b :: int
  assumes "0 \<le> a" and "0 < b"
  shows "a sdiv b = a div b" and "a smod b = a mod b"
  using assms by (auto simp: signed_divide_int_def signed_modulo_int_def sgn_if)

lemma rx_digit_ok:
  assumes "0 < k" and "k ^ n < 2 ^ 31" and "unat x < 2 ^ 31"
  shows "rx_digit x (pow_int (of_nat k) n) k = Inr (int (base_digit k n x))"
proof -
  have p: "pow_int (of_nat k) n = (of_nat (k ^ n) :: u32)" "sint (of_nat (k ^ n) :: u32) = int (k ^ n)"
    using assms(2) sint_of_nat_small [of "k ^ n"] by (simp_all add: pow_int_eq)
  have x: "sint x = int (unat x)"
    using sint_of_nat_small [of "unat x"] assms(3) by simp
  have "0 < k ^ n"
    using assms(1) by simp
  then have "(of_nat (k ^ n) :: u32) \<noteq> 0"
    using p(2) by (metis of_nat_0_eq_iff sint_0 less_irrefl)
  moreover have "0 \<le> sint x"
    unfolding x by (rule of_nat_0_le_iff)
  then have "sint x \<noteq> - (2 ^ 31)"
    by (intro notI) simp
  moreover have "(int (unat x) sdiv int (k ^ n)) smod int k = int (base_digit k n x)"
    using signed_div_nonneg(1) [of "int (unat x)" "int (k ^ n)"]
      signed_div_nonneg(2) [of "int (unat x) div int (k ^ n)" "int k"] assms(1) \<open>0 < k ^ n\<close>
    by (simp add: base_digit_def zdiv_int zmod_int pos_imp_zdiv_nonneg_iff del: of_nat_power)
  ultimately show ?thesis
    using assms(1) unfolding rx_digit_def p x by simp
qed

lemma rx_clear_ok:
  assumes "k \<le> length counts"
  shows "\<exists>c. rx_clear k counts = Inr c \<and> length c = length counts \<and> (\<forall>d<k. c ! d = 0)"
  unfolding rx_clear_def
  by (rule for_range_invariant [where Inv = "\<lambda>i c. length c = length counts \<and> (\<forall>d<i. c ! d = 0)"])
    (use assms in \<open>auto simp: nth_list_update less_Suc_eq\<close>)

lemma rx_tally_ok:
  fixes k n cnt :: nat and data :: "u32 list"
  defines "xs \<equiv> take cnt data" and "f \<equiv> base_digit k n"
  assumes k: "0 < k" "k ^ n < 2 ^ 31" and len: "cnt \<le> length data" "k \<le> length counts"
    and keys: "\<And>x. x \<in> set xs \<Longrightarrow> unat x < 2 ^ 31" and zero: "\<forall>d<k. counts ! d = 0"
  shows "\<exists>c. rx_tally cnt (pow_int (of_nat k) n) k data counts = Inr c \<and> length c = length counts \<and>
    (\<forall>d<k. c ! d = of_nat (length (filter (\<lambda>x. f x = d) xs)))"
proof -
  have l: "length xs = cnt"
    using len(1) by (simp add: xs_def)
  have "\<exists>c. rx_tally cnt (pow_int (of_nat k) n) k data counts = Inr c \<and> length c = length counts \<and>
    (\<forall>d<k. c ! d = of_nat (length (filter (\<lambda>x. f x = d) (take cnt xs))))"
    unfolding rx_tally_def
  proof (rule for_range_invariant [where Inv = "\<lambda>i c. length c = length counts \<and>
      (\<forall>d<k. c ! d = of_nat (length (filter (\<lambda>x. f x = d) (take i xs))))"])
    fix i and c :: "u32 list"
    assume i: "i < cnt" and c: "length c = length counts \<and>
      (\<forall>d<k. c ! d = of_nat (length (filter (\<lambda>x. f x = d) (take i xs))))"
    have x: "xs ! i = data ! i" "i < length data"
      using i len(1) by (simp_all add: xs_def)
    have u: "unat (data ! i) < 2 ^ 31"
      unfolding x(1) [symmetric] by (rule keys, rule nth_mem) (use i l in simp)
    have d: "f (data ! i) < k"
      using k(1) by (simp add: f_def base_digit_less)
    show "\<exists>c'. bindR (arr_get data i) (\<lambda>x. bindR (rx_digit x (pow_int (of_nat k) n) k) (\<lambda>i. bindR (idx i) (\<lambda>i.
        bindR (arr_get c i) (\<lambda>v. arr_set c i (v + 1))))) = Inr c' \<and> length c' = length counts \<and>
        (\<forall>d<k. c' ! d = of_nat (length (filter (\<lambda>x. f x = d) (take (Suc i) xs))))"
      using x d c i l len(2) rx_digit_ok [OF k u]
      by (auto simp: f_def nth_list_update take_Suc_conv_app_nth)
  qed (use zero in simp_all)
  then show ?thesis
    using l by simp
qed

lemma rx_sums_ok:
  assumes "0 < k" and "k \<le> length counts" and "\<forall>d<k. counts ! d = of_nat (g d)"
  shows "\<exists>c. rx_sums k counts = Inr c \<and> length c = length counts \<and> (\<forall>d<k. c ! d = of_nat (\<Sum>r<Suc d. g r))"
proof -
  have "\<exists>c. rx_sums k counts = Inr c \<and> length c = length counts \<and> (\<forall>d<k. c ! d =
      (if d < k then of_nat (\<Sum>r<Suc d. g r) else of_nat (g d)))"
    unfolding rx_sums_def
  proof (rule for_range_invariant [where Inv = "\<lambda>i c. length c = length counts \<and> (\<forall>d<k. c ! d =
      (if d < i then of_nat (\<Sum>r<Suc d. g r) else of_nat (g d)))"])
    fix i and c :: "u32 list"
    assume i: "1 \<le> i" "i < k" and c: "length c = length counts \<and> (\<forall>d<k. c ! d =
      (if d < i then of_nat (\<Sum>r<Suc d. g r) else of_nat (g d)))"
    obtain j where j: "i = Suc j"
      using i(1) by (cases i) auto
    have v: "c ! i = of_nat (g i)" "c ! (i - 1) = of_nat (\<Sum>r<i. g r)"
      using c i by (simp_all add: j)
    then show "\<exists>c'. bindR (arr_get c i) (\<lambda>v. bindR (arr_get c (i - 1)) (\<lambda>w. arr_set c i (v + w))) = Inr c' \<and>
        length c' = length counts \<and> (\<forall>d<k. c' ! d =
          (if d < Suc i then of_nat (\<Sum>r<Suc d. g r) else of_nat (g d)))"
      using c i assms(2) by (auto simp: nth_list_update less_Suc_eq)
  qed (use assms in auto)
  then show ?thesis
    by simp
qed

lemma for_down_invariant:
  assumes "Inv n s" and "\<And>i s. i < n \<Longrightarrow> Inv (Suc i) s \<Longrightarrow> \<exists>s'. f i s = Inr s' \<and> Inv i s'"
  shows "\<exists>s'. for_each (rev [0..<n]) f s = Inr s' \<and> Inv 0 s'"
  using assms
proof (induction n arbitrary: s)
  case (Suc n)
  obtain s1 where "f n s = Inr s1" "Inv n s1"
    using Suc.prems(1) Suc.prems(2) [of n s] by auto
  then show ?case
    using Suc.IH [of s1] Suc.prems(2) by simp
qed simp

text \<open>Writing the key that belongs there does no harm to the part that is filled.\<close>

definition filled :: "(u32 \<Rightarrow> nat) \<Rightarrow> u32 list \<Rightarrow> nat \<Rightarrow> nat \<Rightarrow> u32 list \<Rightarrow> bool" where
  "filled f xs k i temp \<longleftrightarrow> (\<forall>d<k. \<forall>m. rank_of f xs d i \<le> m \<and> m < rank_of f xs d (length xs) \<longrightarrow>
     temp ! m = sort_key f xs ! m)"

lemma filled_step:
  assumes "filled f xs k (Suc i) t" and "i < length xs" and "length xs \<le> length t"
    and f: "\<And>x. x \<in> set xs \<Longrightarrow> f x < k"
  shows "filled f xs k i (t[rank_of f xs (f (xs ! i)) i := xs ! i])"
  unfolding filled_def
proof (intro allI impI)
  fix d m
  assume d: "d < k" and m: "rank_of f xs d i \<le> m \<and> m < rank_of f xs d (length xs)"
  have r: "rank_of f xs (f (xs ! i)) i < length t"
    using rank_less [of xs f k i, OF f assms(2)] assms(3) by simp
  show "t[rank_of f xs (f (xs ! i)) i := xs ! i] ! m = sort_key f xs ! m"
  proof (cases "m = rank_of f xs (f (xs ! i)) i")
    case True
    then show ?thesis
      using r rank_nth [of xs f k i, OF f assms(2)] by simp
  next
    case False
    then have "rank_of f xs d (Suc i) \<le> m"
      using m assms(2) by (auto simp: rank_Suc)
    then show ?thesis
      using False assms(1) d m by (simp add: filled_def)
  qed
qed

lemma filled_all:
  assumes "filled f xs k 0 t" and "\<And>x. x \<in> set xs \<Longrightarrow> f x < k" and "length xs \<le> length t"
  shows "take (length xs) t = sort_key f xs"
proof (rule nth_equalityI)
  fix m
  assume "m < length (take (length xs) t)"
  then have "m < rank_of f xs k 0"
    using rank_all [of xs f k] assms(2) by simp
  then show "take (length xs) t ! m = sort_key f xs ! m"
    using rank_cover [of m f xs k] assms(1) \<open>m < length (take (length xs) t)\<close> by (auto simp: filled_def)
qed (use assms(3) in simp)

lemma rx_place_ok:
  fixes k n cnt :: nat and data :: "u32 list"
  defines "xs \<equiv> take cnt data" and "f \<equiv> base_digit k n"
  assumes k: "0 < k" "k ^ n < 2 ^ 31" and len: "cnt \<le> length data" "k \<le> length counts" "cnt \<le> length temp"
    and small: "cnt < 2 ^ 31" and keys: "\<And>x. x \<in> set xs \<Longrightarrow> unat x < 2 ^ 31"
    and sums: "\<forall>d<k. counts ! d = of_nat (rank_of f xs d cnt)"
  shows "\<exists>c t. rx_place cnt (pow_int (of_nat k) n) k data (counts, temp) = Inr (c, t) \<and>
    length c = length counts \<and> length t = length temp \<and> take cnt t = sort_key f xs"
proof -
  have l: "length xs = cnt"
    using len(1) by (simp add: xs_def)
  have fk: "f x < k" for x
    using k(1) by (simp add: f_def base_digit_less)
  define Inv where "Inv = (\<lambda>i (c :: u32 list, t). length c = length counts \<and> length t = length temp \<and>
    (\<forall>d<k. c ! d = of_nat (rank_of f xs d i)) \<and> filled f xs k i t)"
  have "\<exists>r. rx_place cnt (pow_int (of_nat k) n) k data (counts, temp) = Inr r \<and> Inv 0 r"
    unfolding rx_place_def
  proof (rule for_down_invariant)
    show "Inv cnt (counts, temp)"
      using sums l by (auto simp: Inv_def filled_def)
    fix i and r :: "u32 list \<times> u32 list"
    assume i: "i < cnt" and inv: "Inv (Suc i) r"
    obtain c t where r: "r = (c, t)"
      by (cases r)
    have x: "xs ! i = data ! i" "i < length data" "i < length xs"
      using i len(1) by (simp_all add: xs_def)
    have u: "unat (data ! i) < 2 ^ 31"
      unfolding x(1) [symmetric] by (rule keys, rule nth_mem) (rule x(3))
    let ?d = "f (data ! i)"
    let ?p = "rank_of f xs ?d i"
    have p: "?p < cnt"
      using rank_less [of xs f k i] fk x l by simp
    have c: "length c = length counts" "length t = length temp" "filled f xs k (Suc i) t"
      "\<And>d. d < k \<Longrightarrow> c ! d = of_nat (rank_of f xs d (Suc i))"
      using inv by (simp_all add: Inv_def r)
    have v: "c ! ?d - 1 = of_nat ?p" "unat (of_nat ?p :: u32) = ?p"
      using c(4) [OF fk] x(1,3) p small by (simp_all add: rank_Suc unat_of_nat_small)
    have dl: "?d < length c" "?p < length t"
      using fk [of "data ! i"] len c p by simp_all
    have e: "(case r of (counts, temp) \<Rightarrow> bindR (arr_get data i) (\<lambda>x. bindR (rx_digit x (pow_int (of_nat k) n) k)
        (\<lambda>i. bindR (idx i) (\<lambda>i. bindR (arr_get counts i) (\<lambda>c. bindR (arr_set temp (unat (c - 1)) x) (\<lambda>temp.
        bindR (arr_set counts i (c - 1)) (\<lambda>counts. Inr (counts, temp)))))))) =
      Inr (c[?d := of_nat ?p], t[?p := data ! i])"
      using x(2) dl v by (simp add: r rx_digit_ok [OF k u] flip: f_def)
    have "c[?d := of_nat ?p] ! d = of_nat (rank_of f xs d i)" if "d < k" for d
      using c(4) [OF that] dl(1) x by (cases "d = ?d") (auto simp: rank_Suc)
    then have "Inv i (c[?d := of_nat ?p], t[?p := data ! i])"
      using c filled_step [OF c(3) x(3) _ fk] x(1) len(3) l by (simp add: Inv_def)
    then show "\<exists>s'. (case r of (counts, temp) \<Rightarrow> bindR (arr_get data i) (\<lambda>x. bindR (rx_digit x (pow_int (of_nat k) n) k)
        (\<lambda>i. bindR (idx i) (\<lambda>i. bindR (arr_get counts i) (\<lambda>c. bindR (arr_set temp (unat (c - 1)) x) (\<lambda>temp.
        bindR (arr_set counts i (c - 1)) (\<lambda>counts. Inr (counts, temp)))))))) = Inr s' \<and> Inv i s'"
      unfolding e by blast
  qed
  then obtain c t where "rx_place cnt (pow_int (of_nat k) n) k data (counts, temp) = Inr (c, t)" "Inv 0 (c, t)"
    by auto
  then show ?thesis
    using filled_all [of f xs k t] fk l len(3) by (auto simp: Inv_def)
qed

section \<open>The passes of the CPU sort\<close>

text \<open>What \<open>rxSort\<close> needs of its arrays: room, and no negative keys.\<close>

definition rx_ok :: "nat \<Rightarrow> nat \<Rightarrow> rx_arrays \<Rightarrow> bool" where
  "rx_ok cnt k s \<longleftrightarrow> cnt \<le> length (rx_data s) \<and> k \<le> length (rx_counts s) \<and> cnt \<le> length (rx_temp s) \<and>
     (\<forall>x\<in>set (take cnt (rx_data s)). unat x < 2 ^ 31)"

lemma rx_pass_ok:
  assumes ok: "rx_ok cnt k s" and k: "0 < k" "k ^ n < 2 ^ 31" and small: "cnt < 2 ^ 31"
  shows "\<exists>s'. rx_pass cnt k n s = Inr s' \<and> rx_ok cnt k s' \<and> drop cnt (rx_data s') = drop cnt (rx_data s) \<and>
    take cnt (rx_data s') = sort_key (base_digit k n) (take cnt (rx_data s))"
proof -
  let ?xs = "take cnt (rx_data s)" and ?f = "base_digit k n"
  have len: "cnt \<le> length (rx_data s)" "k \<le> length (rx_counts s)" "cnt \<le> length (rx_temp s)"
    and keys: "\<And>x. x \<in> set ?xs \<Longrightarrow> unat x < 2 ^ 31"
    using ok by (simp_all add: rx_ok_def)
  obtain c0 where c0: "rx_clear k (rx_counts s) = Inr c0" "k \<le> length c0" "\<forall>d<k. c0 ! d = 0"
    using rx_clear_ok [OF len(2)] len(2) by auto
  obtain c1 where c1: "rx_tally cnt (pow_int (of_nat k) n) k (rx_data s) c0 = Inr c1" "k \<le> length c1"
      "\<forall>d<k. c1 ! d = of_nat (length (filter (\<lambda>x. ?f x = d) ?xs))"
    using rx_tally_ok [OF k len(1) c0(2) keys c0(3)] c0(2) by auto
  obtain c2 where c2: "rx_sums k c1 = Inr c2" "k \<le> length c2"
      "\<forall>d<k. c2 ! d = of_nat (\<Sum>r<Suc d. length (filter (\<lambda>x. ?f x = r) ?xs))"
    using rx_sums_ok [OF k(1) c1(2,3)] c1(2) by auto
  have ranks: "\<forall>d<k. c2 ! d = of_nat (rank_of ?f ?xs d cnt)"
    using c2(3) by (simp add: rank_of_def)
  obtain c t where r: "rx_place cnt (pow_int (of_nat k) n) k (rx_data s) (c2, rx_temp s) = Inr (c, t)"
      "k \<le> length c" "cnt \<le> length t" "take cnt t = sort_key ?f ?xs"
    using rx_place_ok [OF k len(1) c2(2) len(3) small keys ranks] c2(2) len(3) by auto
  have "rx_pass cnt k n s = Inr \<lparr>rx_data = sort_key ?f ?xs @ drop cnt (rx_data s), rx_counts = c, rx_temp = t\<rparr>"
    using len(1) r c0(1) c1(1) c2(1) by (simp add: rx_pass_def rx_copy_def)
  then show ?thesis
    using len r keys by (simp add: rx_ok_def)
qed

lemma rx_stable_passes:
  assumes "0 < k" and "\<And>n. n < p \<Longrightarrow> k ^ n < 2 ^ 31" and "cnt < 2 ^ 31"
  shows "stable_passes (rx_pass cnt k) (\<lambda>s. take cnt (rx_data s)) (rx_ok cnt k) (\<lambda>s. drop cnt (rx_data s))
    (\<lambda>_. True) (base_digit k) k p"
proof
  show "base_digit k n x < k" for n x
    by (rule base_digit_less) (rule assms(1))
  show "outcome True (rx_pass cnt k n s) (\<lambda>s'. rx_ok cnt k s' \<and> drop cnt (rx_data s') = drop cnt (rx_data s) \<and>
      take cnt (rx_data s') = sort_key (base_digit k n) (take cnt (rx_data s)))" if "rx_ok cnt k s" "n < p" for n s
    unfolding outcome_strict by (rule rx_pass_ok [OF that(1) assms(1) assms(2) [OF that(2)] assms(3)])
qed

lemma base_digits: "(\<Sum>n<m. base_digit k n x * k ^ n) = unat x mod k ^ m"
proof (induction m)
  case (Suc m)
  then show ?case
    using mod_mult2_eq [of "unat x" "k ^ m" k] by (simp add: base_digit_def mult.commute)
qed simp

lemma rxSort_result:
  assumes "rx_ok cnt k s" and "0 < k" and "\<And>n. n < p \<Longrightarrow> k ^ n < 2 ^ 31" and "cnt < 2 ^ 31"
  shows "\<exists>s'. rxSort cnt p k s = Inr s' \<and>
    rx_data s' = sort_key (\<lambda>x. unat x mod k ^ p) (take cnt (rx_data s)) @ drop cnt (rx_data s)"
proof -
  obtain s' where s': "rxSort cnt p k s = Inr s'" "drop cnt (rx_data s') = drop cnt (rx_data s)"
    "take cnt (rx_data s') = sort_key (\<lambda>x. unat x mod k ^ p) (take cnt (rx_data s))"
    using stable_passes.all_passes [OF rx_stable_passes [of k p cnt] assms(1) order_refl] assms(2-4)
    by (auto simp: outcome_strict rxSort_def base_digits)
  then show ?thesis
    using append_take_drop_id [of cnt "rx_data s'"] by auto
qed

text \<open>The passes of the module: 29 binary digits.\<close>

interpretation cpu: stable_passes "rx_pass cnt 2" "\<lambda>s. take cnt (rx_data s)"
  "\<lambda>s. rx_ok cnt 2 s \<and> cnt < 2 ^ 31" "\<lambda>s. drop cnt (rx_data s)" "\<lambda>_. True" "base_digit 2" 2 29 for cnt
proof
  show "base_digit 2 n x < 2" for n x
    by (simp add: base_digit_less)
  fix s n
  assume s: "rx_ok cnt 2 s \<and> cnt < 2 ^ 31" and n: "n < (29 :: nat)"
  have "(2 :: nat) ^ n < 2 ^ 31"
    by (rule power_strict_increasing) (use n in simp_all)
  then show "outcome True (rx_pass cnt 2 n s) (\<lambda>s'. (rx_ok cnt 2 s' \<and> cnt < 2 ^ 31) \<and>
      drop cnt (rx_data s') = drop cnt (rx_data s) \<and>
      take cnt (rx_data s') = sort_key (base_digit 2 n) (take cnt (rx_data s)))"
    unfolding outcome_strict using rx_pass_ok [of cnt 2 s n] s by auto
qed

section \<open>The other parts of the module\<close>

text \<open>
  \<open>RadixSort\<close>, which nothing calls. Its table \<open>mIndex\<close> has a row of \<open>2 ^ _BITS\<close> counters for
  every pass and is not initialised: its contents are an argument. The code takes bytes for digits. A
  shift by 32 acts as the processor does it, modulo 32.
\<close>

definition byte_of :: "u32 \<Rightarrow> nat \<Rightarrow> nat" where
  "byte_of u j = unat (take_bit 8 (signed_drop_bit (8 * j mod 32) u))"

definition bump :: "u64 list list \<Rightarrow> nat \<Rightarrow> nat \<Rightarrow> (u64 \<times> u64 list list) res" where
  "bump m j b =
     bindR (arr_get m j) (\<lambda>row. bindR (arr_get row b) (\<lambda>v. bindR (arr_set row b (v + 1)) (\<lambda>row.
     Inr (v, m[j := row]))))"

definition rs_histograms :: "nat \<Rightarrow> u32 list \<Rightarrow> u64 list list \<Rightarrow> u64 list list res" where
  "rs_histograms cnt data =
     for_each [0..<cnt] (\<lambda>i m. bindR (arr_get data i) (\<lambda>u.
       for_each [0..<PASS] (\<lambda>j m. bindR (bump m j (unat (take_bit 8 (signed_drop_bit (8 * j) u)))) (\<lambda>(_, m). Inr m)) m))"

definition rs_indices :: "u64 list list \<Rightarrow> u64 list list res" where
  "rs_indices =
     for_each [0..<PASS] (\<lambda>j m. bindR (arr_get m j) (\<lambda>row.
       bindR (for_each [0..<2 ^ BITS] (\<lambda>i (row, n). bindR (arr_get row i) (\<lambda>v.
         bindR (arr_set row i n) (\<lambda>row. Inr (row, n + v)))) (row, 0)) (\<lambda>(row, n). Inr (m[j := row]))))"

definition rs_pass :: "nat \<Rightarrow> nat \<Rightarrow> u32 list \<times> u32 list \<times> u64 list list \<Rightarrow>
    (u32 list \<times> u32 list \<times> u64 list list) res" where
  "rs_pass cnt j = (\<lambda>(src, dst, m).
     bindR (for_each [0..<cnt] (\<lambda>i (dst, m). bindR (arr_get src i) (\<lambda>u.
       bindR (bump m j (byte_of u j)) (\<lambda>(p, m). bindR (arr_set dst (unat p) u) (\<lambda>dst. Inr (dst, m)))))
       (dst, m)) (\<lambda>(dst, m). Inr (dst, src, m)))"

definition RadixSort :: "u64 list list \<Rightarrow> u32 list \<Rightarrow> u32 list \<Rightarrow> nat \<Rightarrow> u32 list res" where
  "RadixSort mIndex pData pTemp cnt =
     bindR (rs_histograms cnt pData mIndex) (\<lambda>m. bindR (rs_indices m) (\<lambda>m.
     bindR (for_each [0..<PASS] (rs_pass cnt) (pData, pTemp, m)) (\<lambda>(src, dst, m). Inr src)))"

text \<open>\<open>check\<close>: the index it prints, or \<open>None\<close> for ``test OK''.\<close>

definition check_keys :: "nat \<Rightarrow> u32 list \<Rightarrow> nat option res" where
  "check_keys cnt keys =
     for_each [0..<cnt - 1] (\<lambda>i r. case r of Some _ \<Rightarrow> Inr r | None \<Rightarrow>
       bindR (arr_get keys i) (\<lambda>a. bindR (arr_get keys (i + 1)) (\<lambda>b.
       Inr (if a \<le> b then None else Some i)))) None"

text \<open>The keys are random numbers below \<open>_MAXINT\<close>; \<open>rnd\<close> is what \<open>get_random_bytes\<close> gives.\<close>

definition fill_keys :: "nat \<Rightarrow> (nat \<Rightarrow> u32) \<Rightarrow> u32 list \<Rightarrow> u32 list res" where
  "fill_keys n rnd = for_each [0..<n] (\<lambda>i keys. arr_set keys i (rnd i mod MAXINT))"

definition print_keys :: "nat \<Rightarrow> nat \<Rightarrow> u32 list \<Rightarrow> u32 list res" where
  "print_keys a b keys = for_each [a..<b] (\<lambda>i out. bindR (arr_get keys i) (\<lambda>x. Inr (out @ [x]))) []"

datatype radix_msg =
    Request_null
  | Keys "u32 list"
  | Test_ok
  | Err_entry nat
  | Malloc_fail

definition N_KEYS :: nat where "N_KEYS = 2 ^ 20"

text \<open>
  The part of \<open>minit\<close> on the CPU: \<open>__get_free_pages\<close> for the two arrays, then for the keys. A time of
  0 microseconds is a division by 0 in the message.
\<close>

definition radix_minit_cpu ::
  "(nat \<Rightarrow> u32) \<Rightarrow> u32 list option \<Rightarrow> u32 list option \<Rightarrow> u32 list option \<Rightarrow> int \<Rightarrow> radix_msg list res" where
  "radix_minit_cpu rnd counts temp cpu_keys tt =
     (case (counts, temp) of
        (Some counts, Some temp) \<Rightarrow>
          (case cpu_keys of
             None \<Rightarrow> Inr [Malloc_fail]
           | Some keys \<Rightarrow>
               bindR (fill_keys N_KEYS rnd keys) (\<lambda>keys.
               bindR (rxSort N_KEYS 29 2 \<lparr>rx_data = keys, rx_counts = counts, rx_temp = temp\<rparr>) (\<lambda>s.
               if tt = 0 then Inl Div_by_zero
               else bindR (print_keys 0 50 (rx_data s)) (\<lambda>out. Inr [Keys out]))))
      | _ \<Rightarrow> Inr [])"

text \<open>
  \<open>req\<close> tells whether there is a request, \<open>area\<close> is the memory it shares with the helper and \<open>call\<close> what
  the synchronous call leaves there; \<open>cpu\<close> is the part above.
\<close>

definition radix_minit ::
  "bool \<Rightarrow> (nat \<Rightarrow> u32) \<Rightarrow> u32 list \<Rightarrow> (u32 list \<Rightarrow> u32 list res) \<Rightarrow> int \<Rightarrow> radix_msg list res \<Rightarrow>
   radix_msg list res" where
  "radix_minit req rnd area call tt cpu =
     (if \<not> req then Inr [Request_null]
      else bindR (fill_keys N_KEYS rnd area) (\<lambda>area.
        bindR (print_keys 0 50 area) (\<lambda>before.
        bindR (call area) (\<lambda>area.
        if tt = 0 then Inl Div_by_zero
        else bindR (print_keys 0 50 area) (\<lambda>first.
        bindR (print_keys (N_KEYS - 51) N_KEYS area) (\<lambda>last.
        bindR (check_keys N_KEYS area) (\<lambda>r.
        bindR cpu (\<lambda>msgs.
        Inr ([Keys before, Keys first, Keys last,
              (case r of None \<Rightarrow> Test_ok | Some i \<Rightarrow> Err_entry i)] @ msgs)))))))))"

lemma find_snoc:
  "find P (xs @ [x]) = (case find P xs of None \<Rightarrow> if P x then Some x else None | Some y \<Rightarrow> Some y)"
  by (induction xs) simp_all

lemma check_keys_result:
  assumes "cnt \<le> length keys"
  shows "check_keys cnt keys = Inr (find (\<lambda>i. keys ! i > keys ! (i + 1)) [0..<cnt - 1])"
proof -
  have "\<exists>r. check_keys cnt keys = Inr r \<and> r = find (\<lambda>i. keys ! i > keys ! (i + 1)) [0..<cnt - 1]"
    unfolding check_keys_def
    by (rule for_range_invariant [where Inv = "\<lambda>j r. r = find (\<lambda>i. keys ! i > keys ! (i + 1)) [0..<j]"])
      (use assms in \<open>auto simp: find_snoc split: option.splits\<close>)
  then show ?thesis
    by blast
qed

lemma find_none_iff_sorted:
  fixes keys :: "u32 list"
  assumes "cnt \<le> length keys"
  shows "find (\<lambda>i. keys ! i > keys ! (i + 1)) [0..<cnt - 1] = None \<longleftrightarrow> sorted (take cnt keys)"
  using assms by (simp add: find_None_iff sorted_iff_nth_Suc not_less less_diff_conv Ball_def) (metis not_le)

lemma fill_keys_result:
  assumes "n \<le> length keys"
  shows "fill_keys n rnd keys = Inr (map (\<lambda>i. rnd i mod MAXINT) [0..<n] @ drop n keys)"
proof -
  have "\<exists>r. fill_keys n rnd keys = Inr r \<and> r = map (\<lambda>i. rnd i mod MAXINT) [0..<n] @ drop n keys"
    unfolding fill_keys_def
  proof (rule for_range_invariant [where Inv = "\<lambda>i r. r = map (\<lambda>i. rnd i mod MAXINT) [0..<i] @ drop i keys"])
    fix i and r :: "u32 list"
    assume "i < n" and "r = map (\<lambda>i. rnd i mod MAXINT) [0..<i] @ drop i keys"
    then show "\<exists>r'. arr_set r i (rnd i mod MAXINT) = Inr r' \<and>
        r' = map (\<lambda>i. rnd i mod MAXINT) [0..<Suc i] @ drop (Suc i) keys"
      using arr_set_prefix [of "map (\<lambda>i. rnd i mod MAXINT) [0..<i]" i keys] assms by simp
  qed simp_all
  then show ?thesis
    by blast
qed

lemma print_keys_result:
  assumes "a \<le> b" "b \<le> length keys"
  shows "print_keys a b keys = Inr (drop a (take b keys))"
proof -
  have "\<exists>r. print_keys a b keys = Inr r \<and> r = map ((!) keys) [a..<b]"
    unfolding print_keys_def
    by (rule for_range_invariant [where Inv = "\<lambda>j r. r = map ((!) keys) [a..<j]"]) (use assms in auto)
  moreover have "map ((!) keys) [a..<b] = drop a (take b keys)"
    using assms by (intro nth_equalityI) simp_all
  ultimately show ?thesis
    by simp
qed

section \<open>Properties\<close>

lemma below_MAXINT: "unat (x mod MAXINT) < 2 ^ 24"
  by (simp add: MAXINT_def TOTALBITS_def unat_mod)

lemma cpu_sort_result:
  assumes "rx_ok cnt 2 s" and "cnt < 2 ^ 31" and "\<And>x. x \<in> set (take cnt (rx_data s)) \<Longrightarrow> unat x < 2 ^ 29"
  shows "\<exists>s'. rxSort cnt 29 2 s = Inr s' \<and> rx_data s' = sort (take cnt (rx_data s)) @ drop cnt (rx_data s)"
proof -
  obtain s' where s': "rxSort cnt 29 2 s = Inr s'" "drop cnt (rx_data s') = drop cnt (rx_data s)"
    "take cnt (rx_data s') = sort_key (\<lambda>x. unat x mod 2 ^ 29) (take cnt (rx_data s))"
    using cpu.all_passes [of cnt s 29] assms(1,2) by (auto simp: outcome_strict rxSort_def base_digits)
  moreover have "sort_key (\<lambda>x. unat x mod 2 ^ 29) (take cnt (rx_data s)) = sort (take cnt (rx_data s))"
    by (rule sort_key_is_sort) (use assms(3) in simp)
  ultimately show ?thesis
    using append_take_drop_id [of cnt "rx_data s'"] by auto
qed

text \<open>\<open>rxSort\<close> in any base \<open>k\<close> with enough passes sorts the first keys of its array stably by
  their last \<open>p\<close> digits and keeps the rest; every index it uses is inside its arrays.\<close>

theorem rxSort_sorts:
  assumes "rx_ok cnt k s" and "0 < k" and "\<And>n. n < p \<Longrightarrow> k ^ n < 2 ^ 31" and "cnt < 2 ^ 31"
  shows "\<exists>s'. rxSort cnt p k s = Inr s' \<and>
    rx_data s' = sort_key (\<lambda>x. unat x mod k ^ p) (take cnt (rx_data s)) @ drop cnt (rx_data s)"
  by (rule rxSort_result [OF assms])

theorem rxSort_sorts_witness:
  "\<exists>s'. rxSort 3 2 10 \<lparr>rx_data = [253, 17, 99, 4], rx_counts = replicate 10 7, rx_temp = [0, 0, 0]\<rparr> = Inr s' \<and>
    rx_data s' = sort_key (\<lambda>x. unat x mod 10 ^ 2) (take 3 [253, 17, 99, 4]) @ drop 3 [253, 17, 99, 4]"
proof -
  have "(10 :: nat) ^ n < 2 ^ 31" if "n < 2" for n
    using that by (cases n) simp_all
  then show ?thesis
    using rxSort_sorts [of 3 10 "\<lparr>rx_data = [253, 17, 99, 4], rx_counts = replicate 10 7, rx_temp = [0, 0, 0]\<rparr>" 2]
    by (simp add: rx_ok_def)
qed

text \<open>C4: The radix sort of the module on the CPU, 29 passes over binary digits, and the radix sort of the
  service on the GPU leave the same keys, for all keys below \<open>2 ^ 25\<close>: both are the sorted list.\<close>

theorem radix_programs_agree:
  assumes "ready n (st\<lparr>h_keys := data\<rparr>)" and "all_ok st"
    and "\<And>x. x \<in> set (take n data) \<Longrightarrow> unat x < 2 ^ TOTALBITS"
    and "2 \<le> length counts" and "n \<le> length temp"
  shows "\<exists>st' s'. radix_launch data n st = Inr (0, st') \<and>
    rxSort n 29 2 \<lparr>rx_data = data, rx_counts = counts, rx_temp = temp\<rparr> = Inr s' \<and>
    h_keys st' = rx_data s' \<and> rx_data s' = sort (take n data) @ drop n data"
proof -
  have n: "n \<le> length data" "n < 2 ^ 31"
    using assms(1) by (simp_all add: ready_def)
  have small: "unat x < 2 ^ 25" if "x \<in> set (take n data)" for x
    using assms(3) [OF that] by (simp add: TOTALBITS_def)
  then have "unat x < 2 ^ 29" "unat x < 2 ^ 31" if "x \<in> set (take n data)" for x
    using that by fastforce+
  then obtain s' where "rxSort n 29 2 \<lparr>rx_data = data, rx_counts = counts, rx_temp = temp\<rparr> = Inr s'"
    "rx_data s' = sort (take n data) @ drop n data"
    using cpu_sort_result [of n "\<lparr>rx_data = data, rx_counts = counts, rx_temp = temp\<rparr>"] n assms(4,5)
    by (auto simp: rx_ok_def)
  moreover obtain st' where "radix_launch data n st = Inr (0, st')"
    "h_keys st' = sort_key low_bits (take n data) @ drop n data"
    using radix_launch_outcome [OF assms(1)] assms(2) by (auto simp: outcome_strict)
  ultimately show ?thesis
    using sort_by_low_bits [of "take n data"] assms(3) by auto
qed

theorem radix_programs_agree_witness:
  "\<exists>st' s'. radix_launch (replicate 1024 9) 1024 (sample_radix (\<lambda>_. True)) = Inr (0, st') \<and>
    rxSort 1024 29 2 \<lparr>rx_data = replicate 1024 9, rx_counts = [5, 5], rx_temp = replicate 1024 0\<rparr> = Inr s' \<and>
    h_keys st' = rx_data s' \<and> rx_data s' = sort (take 1024 (replicate 1024 9)) @ drop 1024 (replicate 1024 9)"
  by (rule radix_programs_agree [OF ready_sample all_ok_sample]) (simp_all add: host_params TOTALBITS_def)

text \<open>C22: A run of the module, with the service behind its synchronous call. It prints the first keys
  it made, the first and last keys of the sorted memory, ``test OK'', and the first keys of its own
  sort of other keys.\<close>

theorem radix_module_run:
  fixes rnd rnd2 :: "nat \<Rightarrow> u32"
  defines "ks \<equiv> map (\<lambda>i. rnd i mod MAXINT) [0..<N_KEYS]" and "ks2 \<equiv> map (\<lambda>i. rnd2 i mod MAXINT) [0..<N_KEYS]"
  assumes "ready N_KEYS (st\<lparr>h_keys := ks @ drop N_KEYS area\<rparr>)" and "all_ok st"
    and "N_KEYS \<le> length area" and "N_KEYS \<le> length keys" and "N_KEYS \<le> length temp" and "2 \<le> length counts"
    and "tt \<noteq> 0" and "tt2 \<noteq> 0"
  shows "radix_minit True rnd area (\<lambda>a. map_res (\<lambda>(_, st). h_keys st) (radix_launch a N_KEYS st)) tt
      (radix_minit_cpu rnd2 (Some counts) (Some temp) (Some keys) tt2) =
    Inr [Keys (take 50 ks), Keys (take 50 (sort ks)), Keys (drop (N_KEYS - 51) (sort ks)), Test_ok,
      Keys (take 50 (sort ks2))]"
proof -
  have N: "length ks = N_KEYS" "length ks2 = N_KEYS" "50 \<le> N_KEYS" "N_KEYS < 2 ^ 31"
    by (simp_all add: ks_def ks2_def N_KEYS_def)
  have b: "unat x < 2 ^ 24" if "x \<in> set ks \<union> set ks2" for x
    using that below_MAXINT by (auto simp: ks_def ks2_def)
  then have b': "unat x < 2 ^ TOTALBITS" "unat x < 2 ^ 29" "unat x < 2 ^ 31" if "x \<in> set ks \<union> set ks2" for x
    using that unfolding TOTALBITS_def by fastforce+
  obtain st' where g: "radix_launch (ks @ drop N_KEYS area) N_KEYS st = Inr (0, st')"
    "h_keys st' = sort ks @ drop N_KEYS area"
    using radix_launch_outcome [OF assms(3)] assms(4) sort_by_low_bits [of ks] b'(1) N(1)
    by (auto simp: outcome_strict)
  obtain s' where c: "rxSort N_KEYS 29 2 \<lparr>rx_data = ks2 @ drop N_KEYS keys, rx_counts = counts, rx_temp = temp\<rparr> = Inr s'"
    "rx_data s' = sort ks2 @ drop N_KEYS keys"
    using cpu_sort_result [of N_KEYS "\<lparr>rx_data = ks2 @ drop N_KEYS keys, rx_counts = counts, rx_temp = temp\<rparr>"]
      N b'(2,3) assms(7,8) by (auto simp: rx_ok_def)
  have p: "print_keys 0 50 (l @ r) = Inr (take 50 l)" "print_keys (N_KEYS - 51) N_KEYS (l @ r) = Inr (drop (N_KEYS - 51) l)"
    "check_keys N_KEYS (sort l @ r) = Inr None" if "length l = N_KEYS" for l r :: "u32 list"
    using that N(3) print_keys_result [of 0 50 "l @ r"] print_keys_result [of "N_KEYS - 51" N_KEYS "l @ r"]
      check_keys_result [of N_KEYS "sort l @ r"] find_none_iff_sorted [of N_KEYS "sort l @ r"]
    by simp_all
  have "radix_minit_cpu rnd2 (Some counts) (Some temp) (Some keys) tt2 = Inr [Keys (take 50 (sort ks2))]"
    using fill_keys_result [OF assms(6), of rnd2] c p(1) [of "sort ks2"] N(2) assms(10)
    by (simp add: radix_minit_cpu_def flip: ks2_def)
  then show ?thesis
    using fill_keys_result [OF assms(5), of rnd] g p(1) [of ks] p(1,2) [of "sort ks"] p(3) [of ks] N(1) assms(9)
    by (simp add: radix_minit_def flip: ks_def)
qed

theorem radix_module_run_witness:
  "radix_minit True (\<lambda>_. 5) (replicate N_KEYS 1)
      (\<lambda>a. map_res (\<lambda>(_, st). h_keys st) (radix_launch a N_KEYS (sample_radix (\<lambda>_. True)))) 900
      (radix_minit_cpu (\<lambda>_. 5) (Some [0, 0]) (Some (replicate N_KEYS 2)) (Some (replicate N_KEYS 3)) 70000) =
    Inr [Keys (take 50 (map (\<lambda>i. 5 mod MAXINT) [0..<N_KEYS])),
      Keys (take 50 (sort (map (\<lambda>i. 5 mod MAXINT) [0..<N_KEYS]))),
      Keys (drop (N_KEYS - 51) (sort (map (\<lambda>i. 5 mod MAXINT) [0..<N_KEYS]))), Test_ok,
      Keys (take 50 (sort (map (\<lambda>i. 5 mod MAXINT) [0..<N_KEYS])))]"
proof (rule radix_module_run [OF ready_sample all_ok_sample])
  show "GROUPS * ITEMS dvd N_KEYS" "N_KEYS < 2 ^ 31"
    by (simp_all add: host_params N_KEYS_def)
qed simp_all

text \<open>\<open>RadixSort\<close> takes whole bytes for digits but has only \<open>2 ^ _BITS\<close> counters in a row: a first key
  whose low byte is at least 32 takes it out of the row.\<close>

theorem RadixSort_leaves_row:
  assumes "0 < cnt" and "data \<noteq> []" and "32 \<le> unat (data ! 0) mod 256"
    and "length mIndex = PASS" and "\<And>row. row \<in> set mIndex \<Longrightarrow> length row = 2 ^ BITS"
  shows "RadixSort mIndex data temp cnt = Inl Out_of_bounds"
proof -
  have P: "[0..<PASS] = 0 # [1..<PASS]" and cnt: "[0..<cnt] = 0 # [1..<cnt]"
    using assms(1) by (simp_all add: upt_conv_Cons param_defs)
  have "unat (take_bit 8 (signed_drop_bit 0 (data ! 0))) = unat (data ! 0) mod 256"
    by (simp add: take_bit_eq_mod unat_mod)
  moreover have "length (mIndex ! 0) = 32"
    using assms(4,5) by (simp add: param_defs)
  ultimately have "bump mIndex 0 (unat (take_bit 8 (signed_drop_bit (8 * 0) (data ! 0)))) = Inl Out_of_bounds"
    using assms(3,4) by (simp add: bump_def arr_get_def param_defs)
  then show ?thesis
    using assms(2) unfolding RadixSort_def rs_histograms_def P cnt by simp
qed

theorem RadixSort_leaves_row_witness:
  "RadixSort (replicate PASS (replicate (2 ^ BITS) 0)) [40] [0] 1 = Inl Out_of_bounds"
  by (rule RadixSort_leaves_row) simp_all

end
