(* ===== verification/QH_Batch.thy ===== *)
theory QH_Batch
  imports QH_Radix_Client QH_Connector
begin

text \<open>
  The radix sort in batches (\<open>libsrv_batch.c\<close>, \<open>batch_test_module.c\<close>): the service collects the keys of
  a request block by block through the shared memory, asking the client for the next block by an
  ioctl, sorts them as the radix service does and hands the sorted blocks back in the same way. The
  ioctls are those of the device; they call functions of the client.
\<close>

section \<open>The service\<close>

text \<open>
  The device, the shared memory, the state of the client and that of the radix sort. The client answers
  the calls of the device, which are events; it may change the shared memory.
\<close>

record 'c batch =
  bt_dev :: dev
  bt_area :: "u32 list"
  bt_client :: 'c
  bt_radix :: radix

type_synonym 'c client = "event \<Rightarrow> u32 list \<times> 'c \<Rightarrow> (u32 list \<times> 'c) res"

text \<open>An ioctl on \<open>sr->devfd\<close> with the identifier of the request.\<close>

definition batch_ioctl ::
  "ioctl_env \<Rightarrow> 'c client \<Rightarrow> u32 \<Rightarrow> int \<Rightarrow> 'c batch \<Rightarrow> (int \<times> 'c batch) res" where
  "batch_ioctl env client cmd i st =
     bindR (qhgpu_ioctl env cmd (word_of_int i) (bt_dev st)) (\<lambda>(r, d).
     bindR (for_each (drop (length (events (bt_dev st))) (events d)) client (bt_area st, bt_client st)) (\<lambda>(a, c).
     Inr (r, st\<lparr>bt_dev := d, bt_area := a, bt_client := c\<rparr>)))"

definition BATCH :: nat where "BATCH = 2 ^ 18"

text \<open>\<open>cpy_size\<close> of the block \<open>i\<close>\<close>

definition cpy_size :: "nat \<Rightarrow> nat \<Rightarrow> nat \<Rightarrow> nat" where
  "cpy_size batch_size mmap_size i =
     (let c = (if batch_size = i + 1 then mmap_size mod BATCH else BATCH) in if c = 0 then BATCH else c)"

text \<open>\<open>memcpy\<close> of \<open>c\<close> keys to the offset \<open>d\<close> from the offset \<open>s\<close>\<close>

definition copy_keys :: "u32 list \<Rightarrow> nat \<Rightarrow> u32 list \<Rightarrow> nat \<Rightarrow> nat \<Rightarrow> u32 list res" where
  "copy_keys dst d src s c =
     (if s + c \<le> length src \<and> d + c \<le> length dst
      then Inr (take d dst @ take c (drop s src) @ drop (d + c) dst) else Inl Buffer_overflow)"

definition batch_load ::
  "ioctl_env \<Rightarrow> 'c client \<Rightarrow> service_request \<Rightarrow> u32 list \<times> 'c batch \<Rightarrow> (u32 list \<times> 'c batch) res" where
  "batch_load env client sr = (\<lambda>(keys, st).
     (let n = unat (sr_mmap_size sr); b = unat (sr_batch_size sr) in
      bindR (for_each [0..<b] (\<lambda>i (offset, keys, st).
        bindR (copy_keys keys offset (bt_area st) 0 (cpy_size b n i)) (\<lambda>keys.
        if i + 1 \<noteq> b
        then bindR (batch_ioctl env client QHGPU_IOC_BATCH_H2D (sr_id sr) st) (\<lambda>(r, st).
             if r < 0 then Inl Aborted else Inr (offset + cpy_size b n i, keys, st))
        else Inr (offset + cpy_size b n i, keys, st))) (0, keys, st)) (\<lambda>(_, keys, st).
      Inr (keys, st))))"

definition batch_store ::
  "ioctl_env \<Rightarrow> 'c client \<Rightarrow> service_request \<Rightarrow> u32 list \<Rightarrow> 'c batch \<Rightarrow> 'c batch res" where
  "batch_store env client sr keys st =
     (let n = unat (sr_mmap_size sr); b = unat (sr_batch_size sr) in
      bindR (for_each [0..<b] (\<lambda>i (offset, st).
        bindR (copy_keys (bt_area st) 0 keys offset (cpy_size b n i)) (\<lambda>area.
        bindR (batch_ioctl env client QHGPU_IOC_BATCH_D2H (sr_id sr) (st\<lparr>bt_area := area\<rparr>)) (\<lambda>(r, st).
        if r < 0 then Inl Aborted else Inr (offset + cpy_size b n i, st)))) (0, st)) (\<lambda>(_, st).
      Inr st))"

text \<open>
  The keys are collected in new memory of \<open>malloc\<close>, which is not tested and not freed. The sort is the text of the radix
  service, with the same parameters.
\<close>

definition batch_launch ::
  "ioctl_env \<Rightarrow> 'c client \<Rightarrow> service_request \<Rightarrow> 'c batch \<Rightarrow> (int \<times> 'c batch) res" where
  "batch_launch env client sr st =
     (let n = unat (sr_mmap_size sr); rx = rx_cl (bt_radix st) in
      if \<not> malloc_ok rx 3 then Inl Null_deref
      else bindR (batch_load env client sr (fresh rx 3 n, st)) (\<lambda>(keys, st).
        bindR (init_cl_radix_sort n ((bt_radix st)\<lparr>h_keys := keys\<rparr>)) (\<lambda>rx.
        bindR (cl_radix_sort rx) (\<lambda>rx.
        bindR (cl_radix_recup_gpu rx) (\<lambda>rx.
        bindR (batch_store env client sr (h_keys rx) (st\<lparr>bt_radix := rx\<rparr>)) (\<lambda>st.
        Inr (0, st)))))))"

definition batch_cs :: int where "batch_cs = 0"
definition batch_post :: int where "batch_post = 0"

definition batch_srv :: service where
  "batch_srv = \<lparr>sname = ''batch_service'', sid = 1\<rparr>"

definition batch_init_service ::
  "nat \<Rightarrow> nat option \<Rightarrow> nat option \<Rightarrow> radix \<Rightarrow> registry \<Rightarrow> (int \<times> radix \<times> registry) res" where
  "batch_init_service p lh m st reg =
     bindR (build_cl_radix_sort st) (\<lambda>st.
     bindR (qc_register_service (Some p) lh m (reg\<lparr>srv_mem := (srv_mem reg)(p \<mapsto> batch_srv)\<rparr>)) (\<lambda>(r, reg).
     Inr (r, st, reg)))"

definition batch_finit_service :: "registry \<Rightarrow> (int \<times> registry) res option" where
  "batch_finit_service reg = qc_unregister_service (Some (sname batch_srv)) reg"

section \<open>The client\<close>

text \<open>
  The functions of the client module: the loader makes new keys in the whole shared memory, the other
  prints the first keys of a sorted block. \<open>rnd j\<close> are the random numbers of call \<open>j\<close>; the state is the
  number of calls and what has been printed.
\<close>

definition batch_data_loader :: "(nat \<Rightarrow> u32) \<Rightarrow> u32 list \<Rightarrow> (u32 list \<times> radix_msg) res" where
  "batch_data_loader rnd area =
     bindR (fill_keys N_KEYS rnd area) (\<lambda>area. bindR (print_keys 0 50 area) (\<lambda>out. Inr (area, Keys out)))"

definition batch_data_result :: "u32 list \<Rightarrow> radix_msg res" where
  "batch_data_result area = bindR (print_keys 0 50 area) (\<lambda>out. Inr (Keys out))"

definition test_client :: "(nat \<Rightarrow> nat \<Rightarrow> u32) \<Rightarrow> (nat \<times> radix_msg list) client" where
  "test_client rnd ev = (\<lambda>(area, j, msgs).
     case ev of
       Batch_loader _ \<Rightarrow> bindR (batch_data_loader (rnd j) area) (\<lambda>(area, m). Inr (area, j + 1, msgs @ [m]))
     | Batch_result _ \<Rightarrow> bindR (batch_data_result area) (\<lambda>m. Inr (area, j, msgs @ [m]))
     | _ \<Rightarrow> Inr (area, j, msgs))"

text \<open>\<open>minit\<close>: \<open>call\<close> is the synchronous call with the memory it leaves and the messages of the functions above.\<close>

definition batch_minit ::
  "bool \<Rightarrow> (nat \<Rightarrow> u32) \<Rightarrow> u32 list \<Rightarrow> (u32 list \<Rightarrow> (u32 list \<times> radix_msg list) res) \<Rightarrow> int \<Rightarrow>
   radix_msg list res" where
  "batch_minit req rnd area call tt =
     (if \<not> req then Inr [Request_null]
      else bindR (fill_keys N_KEYS rnd area) (\<lambda>area.
        bindR (print_keys 0 50 area) (\<lambda>before.
        bindR (call area) (\<lambda>(area, msgs).
        if tt = 0 then Inl Div_by_zero else Inr (Keys before # msgs)))))"

section \<open>Blocks\<close>

text \<open>The block \<open>i\<close> of a list of keys.\<close>

definition block :: "nat \<Rightarrow> 'a list \<Rightarrow> 'a list" where
  "block i xs = take BATCH (drop (i * BATCH) xs)"

definition blocks :: "nat \<Rightarrow> nat" where
  "blocks n = (n + BATCH - 1) div BATCH"

text \<open>A client that loads given contents one after the other and keeps what it is shown.\<close>

definition recording_client :: "(u32 list list \<times> u32 list list) client" where
  "recording_client ev = (\<lambda>(area, later, shown).
     case ev of
       Batch_loader _ \<Rightarrow> (case later of [] \<Rightarrow> Inr (area, [], shown) | a # later \<Rightarrow> Inr (a, later, shown))
     | Batch_result _ \<Rightarrow> Inr (area, later, shown @ [area])
     | _ \<Rightarrow> Inr (area, later, shown))"

lemma BATCH_pos: "0 < BATCH"
  by (simp add: BATCH_def)

lemma blocks_eq: "blocks n = (if n mod BATCH = 0 then n div BATCH else n div BATCH + 1)"
proof -
  have q: "(r + BATCH - 1 + q * BATCH) div BATCH = (if r = 0 then q else q + 1)" if "r < BATCH" for q r
    using that BATCH_pos by (auto intro!: div_nat_eqI simp: mult.commute)
  have n: "n + BATCH - 1 = n mod BATCH + BATCH - 1 + n div BATCH * BATCH"
    using BATCH_pos by simp
  show ?thesis
    unfolding blocks_def n by (rule q) (rule mod_less_divisor [OF BATCH_pos])
qed

text \<open>A number as whole blocks and a rest.\<close>

lemma split_blocks:
  obtains q r where "n = q * BATCH + r" and "r < BATCH" and "n mod BATCH = r"
    and "blocks n = (if r = 0 then q else q + 1)"
  using that [of "n div BATCH" "n mod BATCH"] BATCH_pos by (simp add: blocks_eq)

text \<open>The number of blocks is the one that the kernel module puts into a request.\<close>

lemma blocks_batch_count: "batch_count (int n) = int (blocks n)"
proof -
  have "int n sdiv 262144 = int n div 262144" "int n smod 262144 = int n mod 262144"
    using signed_div_nonneg [of "int n" 262144] by simp_all
  moreover have "int n mod 262144 = 0 \<longleftrightarrow> n mod 262144 = 0"
    by presburger
  ultimately show ?thesis
    by (simp add: batch_count_def blocks_eq MAX_BATCH_SIZE_def BATCH_def zdiv_int)
qed

lemma cpy_size_eq:
  assumes "i < blocks n"
  shows "cpy_size (blocks n) n i = min BATCH (n - i * BATCH)" and "i * BATCH < n"
proof -
  obtain q r where n: "n = q * BATCH + r" and r: "r < BATCH" "n mod BATCH = r"
    and b: "blocks n = (if r = 0 then q else q + 1)"
    by (rule split_blocks)
  have le: "i * BATCH + BATCH \<le> q * BATCH" if "i < q"
    using mult_le_mono1 [of "i + 1" q BATCH] that by simp
  have "i + 1 < blocks n \<and> i < q \<or> i + 1 = blocks n \<and> r = 0 \<and> q = i + 1 \<or> i + 1 = blocks n \<and> 0 < r \<and> q = i"
    using assms b by (cases "r = 0") auto
  then consider "i + 1 < blocks n" "i < q" | "i + 1 = blocks n" "r = 0" "q = i + 1"
    | "i + 1 = blocks n" "0 < r" "q = i"
    by blast
  then have "cpy_size (blocks n) n i = min BATCH (n - i * BATCH) \<and> i * BATCH < n"
  proof cases
    case 1
    then show ?thesis
      using n le BATCH_pos by (simp add: cpy_size_def Let_def)
  next
    case 2
    have "n mod BATCH = 0" "n - i * BATCH = BATCH" "i * BATCH < n"
      using 2(2,3) n r(2) BATCH_pos by simp_all
    then show ?thesis
      using 2(1) by (simp add: cpy_size_def Let_def)
  next
    case 3
    then show ?thesis
      using n r by (simp add: cpy_size_def Let_def)
  qed
  then show "cpy_size (blocks n) n i = min BATCH (n - i * BATCH)" and "i * BATCH < n"
    by simp_all
qed

lemma length_block: "length (block i xs) = min BATCH (length xs - i * BATCH)"
  by (simp add: block_def min.commute)

text \<open>Where the block \<open>i\<close> begins: at \<open>n\<close> when there is none.\<close>

definition start :: "nat \<Rightarrow> nat \<Rightarrow> nat" where
  "start n i = min (i * BATCH) n"

lemma start_Suc:
  assumes "i < blocks n"
  shows "start n (Suc i) = start n i + cpy_size (blocks n) n i" and "start n i = i * BATCH"
  using cpy_size_eq [OF assms] by (auto simp: start_def min_def)

lemma start_end: "start n (blocks n) = n"
proof -
  obtain q r where "n = q * BATCH + r" "r < BATCH" "blocks n = (if r = 0 then q else q + 1)"
    by (rule split_blocks)
  then show ?thesis
    by (simp add: start_def)
qed

lemma copy_block:
  assumes "d + c \<le> length dst" and "c \<le> length src" and "take d dst = take d data" and "take c src = take c (drop d data)"
    and "d + c \<le> length data"
  shows "copy_keys dst d src 0 c = Inr (take (d + c) data @ drop (d + c) dst)"
  using assms by (simp add: copy_keys_def take_add)

section \<open>The calls of the device\<close>

text \<open>The request has a client, and the kernel takes its identifier for a good user address.\<close>

definition batch_dev_ok :: "ioctl_env \<Rightarrow> int \<Rightarrow> dev \<Rightarrow> bool" where
  "batch_dev_ok env i d \<longleftrightarrow> io_access_ok env True (word_of_int i) 16 \<and>
     unat (word_of_int i :: u64) < length (module_arr d) \<and> module_arr d ! unat (word_of_int i :: u64) \<noteq> None"

lemma batch_cmds:
  "IOC_TYPE QHGPU_IOC_BATCH_H2D = QHGPU_IOC_MAGIC" "IOC_TYPE QHGPU_IOC_BATCH_D2H = QHGPU_IOC_MAGIC"
  "\<not> QHGPU_IOC_MAXNR < IOC_NR QHGPU_IOC_BATCH_H2D" "\<not> QHGPU_IOC_MAXNR < IOC_NR QHGPU_IOC_BATCH_D2H"
  "and (IOC_DIR QHGPU_IOC_BATCH_H2D) IOC_READ \<noteq> 0" "and (IOC_DIR QHGPU_IOC_BATCH_D2H) IOC_READ \<noteq> 0"
  "IOC_SIZE QHGPU_IOC_BATCH_H2D = 16" "IOC_SIZE QHGPU_IOC_BATCH_D2H = 16"
  "QHGPU_IOC_BATCH_H2D \<noteq> QHGPU_IOC_SET_GPU_BUFS" "QHGPU_IOC_BATCH_D2H \<noteq> QHGPU_IOC_SET_GPU_BUFS"
  "QHGPU_IOC_BATCH_H2D \<noteq> QHGPU_IOC_SET_MMAP" "QHGPU_IOC_BATCH_D2H \<noteq> QHGPU_IOC_SET_MMAP"
  "QHGPU_IOC_BATCH_D2H \<noteq> QHGPU_IOC_BATCH_H2D"
  by (simp_all add: ioc_defs)

lemma qhgpu_ioctl_batch:
  assumes "batch_dev_ok env i d"
  shows "\<exists>k. qhgpu_ioctl env QHGPU_IOC_BATCH_H2D (word_of_int i) d = Inr (0, emit (Batch_loader k) d)"
    and "\<exists>k. qhgpu_ioctl env QHGPU_IOC_BATCH_D2H (word_of_int i) d = Inr (0, emit (Batch_result k) d)"
  using assms by (auto simp: qhgpu_ioctl_def batch_cmds ioctl_access_def ioctl_batch_def batch_dev_ok_def)

lemma batch_ioctl_load:
  assumes "batch_dev_ok env i (bt_dev st)" and "bt_client st = (a # later, shown)"
  shows "\<exists>d. batch_ioctl env recording_client QHGPU_IOC_BATCH_H2D i st =
      Inr (0, st\<lparr>bt_dev := d, bt_area := a, bt_client := (later, shown)\<rparr>) \<and> batch_dev_ok env i d"
proof -
  obtain k where "qhgpu_ioctl env QHGPU_IOC_BATCH_H2D (word_of_int i) (bt_dev st) = Inr (0, emit (Batch_loader k) (bt_dev st))"
    using qhgpu_ioctl_batch(1) [OF assms(1)] by blast
  then show ?thesis
    using assms by (intro exI [of _ "emit (Batch_loader k) (bt_dev st)"])
      (simp add: batch_ioctl_def recording_client_def emit_def batch_dev_ok_def)
qed

lemma batch_ioctl_store:
  assumes "batch_dev_ok env i (bt_dev st)" and "bt_client st = (later, shown)"
  shows "\<exists>d. batch_ioctl env recording_client QHGPU_IOC_BATCH_D2H i st =
      Inr (0, st\<lparr>bt_dev := d, bt_area := bt_area st, bt_client := (later, shown @ [bt_area st])\<rparr>) \<and>
      batch_dev_ok env i d"
proof -
  obtain k where "qhgpu_ioctl env QHGPU_IOC_BATCH_D2H (word_of_int i) (bt_dev st) = Inr (0, emit (Batch_result k) (bt_dev st))"
    using qhgpu_ioctl_batch(2) [OF assms(1)] by blast
  then show ?thesis
    using assms by (intro exI [of _ "emit (Batch_result k) (bt_dev st)"])
      (simp add: batch_ioctl_def recording_client_def emit_def batch_dev_ok_def)
qed

section \<open>Collecting the keys\<close>

text \<open>The contents of the shared memory give the keys block by block.\<close>

definition gives :: "u32 list list \<Rightarrow> u32 list \<Rightarrow> bool" where
  "gives areas data \<longleftrightarrow> length areas = blocks (length data) \<and>
     (\<forall>i<length areas. take (length (block i data)) (areas ! i) = block i data)"

lemma gives_block:
  assumes "gives areas data" and "i < blocks (length data)"
  defines "d \<equiv> start (length data) i" and "c \<equiv> cpy_size (blocks (length data)) (length data) i"
  shows "take c (areas ! i) = take c (drop d data)" and "c \<le> length (areas ! i)" and "d + c \<le> length data"
    and "start (length data) (Suc i) = d + c"
proof -
  have c: "length (block i data) = c"
    using cpy_size_eq(1) [OF assms(2)] by (simp add: length_block c_def)
  have d: "d = i * BATCH"
    using start_Suc(2) [OF assms(2)] by (simp add: d_def)
  have "take c (drop d data) = block i data"
    using cpy_size_eq(1) [OF assms(2)] by (simp add: block_def c_def d min_def)
  moreover have "take (length (block i data)) (areas ! i) = block i data"
    using assms(1,2) by (simp add: gives_def)
  ultimately show t: "take c (areas ! i) = take c (drop d data)"
    unfolding c by simp
  show s: "start (length data) (Suc i) = d + c"
    using start_Suc(1) [OF assms(2)] by (simp add: d_def c_def)
  then show "d + c \<le> length data"
    by (simp add: start_def flip: s)
  then show "c \<le> length (areas ! i)"
    using arg_cong [OF t, of length] by simp
qed

definition loaded :: "ioctl_env \<Rightarrow> int \<Rightarrow> u32 list list \<Rightarrow> nat \<Rightarrow>
    (u32 list list \<times> u32 list list) batch \<Rightarrow> (u32 list list \<times> u32 list list) batch \<Rightarrow> bool" where
  "loaded env rid areas i st s \<longleftrightarrow> (\<exists>d. batch_dev_ok env rid d \<and>
     s = st\<lparr>bt_dev := d, bt_area := areas ! i, bt_client := (drop (Suc i) areas, [])\<rparr>)"

lemma loaded_next:
  assumes "loaded env rid areas i st s" and "Suc i < length areas"
  shows "\<exists>s'. batch_ioctl env recording_client QHGPU_IOC_BATCH_H2D rid s = Inr (0, s') \<and>
    loaded env rid areas (Suc i) st s'"
proof -
  obtain d where d: "batch_dev_ok env rid d"
    "s = st\<lparr>bt_dev := d, bt_area := areas ! i, bt_client := (drop (Suc i) areas, [])\<rparr>"
    using assms(1) by (auto simp: loaded_def)
  obtain d' where "batch_ioctl env recording_client QHGPU_IOC_BATCH_H2D rid s =
      Inr (0, s\<lparr>bt_dev := d', bt_area := areas ! Suc i, bt_client := (drop (Suc (Suc i)) areas, [])\<rparr>)"
      "batch_dev_ok env rid d'"
    using batch_ioctl_load [of env rid s "areas ! Suc i" "drop (Suc (Suc i)) areas" "[]"] d
      Cons_nth_drop_Suc [OF assms(2)] by auto
  then show ?thesis
    by (auto simp: loaded_def d(2))
qed

lemma batch_load_result:
  fixes data :: "u32 list"
  defines "n \<equiv> length data"
  assumes size: "unat (sr_mmap_size sr) = n" "unat (sr_batch_size sr) = blocks n" "length fr = n" "data \<noteq> []"
    and areas: "gives areas data" and st: "loaded env (sr_id sr) areas 0 st st"
  shows "\<exists>s. batch_load env recording_client sr (fr, st) = Inr (data, s) \<and>
    loaded env (sr_id sr) areas (blocks n - 1) st s"
proof -
  let ?b = "blocks n"
  have b: "length areas = ?b" "0 < ?b"
    using areas size(4) start_end [of n] by (auto simp: gives_def n_def start_def intro: Nat.gr0I)
  define Inv where "Inv = (\<lambda>i (off, keys, s). off = start n i \<and> keys = take off data @ drop off fr \<and>
    loaded env (sr_id sr) areas (min i (?b - 1)) st s)"
  define body where "body = (\<lambda>i (offset, keys, st). bindR (copy_keys keys offset (bt_area st) 0 (cpy_size ?b n i)) (\<lambda>keys.
        if i + 1 \<noteq> ?b
        then bindR (batch_ioctl env recording_client QHGPU_IOC_BATCH_H2D (sr_id sr) st) (\<lambda>(r, st).
             if r < 0 then Inl Aborted else Inr (offset + cpy_size ?b n i, keys, st))
        else Inr (offset + cpy_size ?b n i, keys, st)))"
  have "\<exists>r. for_each [0..<?b] body (0, fr, st) = Inr r \<and> Inv ?b r"
  proof (rule for_range_invariant)
    show "Inv 0 (0, fr, st)"
      using st by (simp add: Inv_def start_def)
    fix i r
    assume i: "0 \<le> i" "i < ?b" and inv: "Inv i r"
    obtain off keys s where r: "r = (off, keys, s)"
      by (cases r)
    define c where "c = cpy_size ?b n i"
    note gb = gives_block [OF areas, of i, folded n_def, OF i(2), folded c_def]
    have m: "min i (?b - 1) = i"
      using i(2) by auto
    have v: "off = start n i" "keys = take off data @ drop off fr" "loaded env (sr_id sr) areas i st s"
      using inv m by (simp_all add: Inv_def r)
    have area: "bt_area s = areas ! i"
      using v(3) by (auto simp: loaded_def)
    have oc: "off + c \<le> n"
      using gb(3) v(1) by (simp add: n_def)
    then have "copy_keys keys off (areas ! i) 0 c = Inr (take (off + c) data @ drop (off + c) keys)"
      by (intro copy_block) (use gb v size(3) in \<open>simp_all add: n_def\<close>)
    moreover have "length (take off data) = off"
      using oc by (simp add: n_def)
    then have "drop (off + c) keys = drop (off + c) fr"
      unfolding v(2) drop_append by (simp add: add.commute)
    ultimately have k: "copy_keys keys off (areas ! i) 0 c = Inr (take (off + c) data @ drop (off + c) fr)"
      by simp
    show "\<exists>r'. body i r = Inr r' \<and> Inv (Suc i) r'"
    proof (cases "i + 1 = ?b")
      case True
      have "min (Suc i) (?b - 1) = i"
        unfolding True [symmetric] by simp
      then have "Inv (Suc i) (off + c, take (off + c) data @ drop (off + c) fr, s)"
        using v gb(4) by (simp add: Inv_def n_def)
      then show ?thesis
        using k area True by (simp add: body_def r c_def)
    next
      case False
      then have "Suc i < length areas"
        using i b(1) by simp
      then obtain s' where s': "batch_ioctl env recording_client QHGPU_IOC_BATCH_H2D (sr_id sr) s = Inr (0, s')"
        "loaded env (sr_id sr) areas (Suc i) st s'"
        using loaded_next [OF v(3)] by blast
      moreover have "min (Suc i) (?b - 1) = Suc i"
        using False i by auto
      ultimately have "Inv (Suc i) (off + c, take (off + c) data @ drop (off + c) fr, s')"
        using v(1) gb(4) by (simp add: Inv_def n_def)
      then show ?thesis
        using k area False s'(1) by (simp add: body_def r c_def)
    qed
  qed simp
  then obtain off keys s where r: "for_each [0..<?b] body (0, fr, st) = Inr (off, keys, s)" "Inv ?b (off, keys, s)"
    by auto
  then have "keys = data" "loaded env (sr_id sr) areas (?b - 1) st s"
    using size(3) by (auto simp: Inv_def start_end n_def)
  then show ?thesis
    using r(1) size(1,2) by (auto simp: batch_load_def Let_def body_def)
qed

section \<open>Handing the keys back\<close>

definition handed :: "ioctl_env \<Rightarrow> int \<Rightarrow> u32 list \<Rightarrow> nat \<Rightarrow> (u32 list list \<times> u32 list list) batch \<Rightarrow>
    (u32 list list \<times> u32 list list) batch \<Rightarrow> bool" where
  "handed env rid keys i st s \<longleftrightarrow> (\<exists>d a shown. batch_dev_ok env rid d \<and> length a = length (bt_area st) \<and>
     s = st\<lparr>bt_dev := d, bt_area := a, bt_client := (fst (bt_client st), shown)\<rparr> \<and> length shown = i \<and>
     (\<forall>j<i. take (length (block j keys)) (shown ! j) = block j keys))"

lemma handed_next:
  assumes "handed env rid keys i st s" and "i < blocks (length keys)"
    and "min BATCH (length keys) \<le> length (bt_area st)"
  defines "d \<equiv> start (length keys) i" and "c \<equiv> cpy_size (blocks (length keys)) (length keys) i"
  shows "\<exists>a s'. copy_keys (bt_area s) 0 keys d c = Inr a \<and>
    batch_ioctl env recording_client QHGPU_IOC_BATCH_D2H rid (s\<lparr>bt_area := a\<rparr>) = Inr (0, s') \<and>
    handed env rid keys (Suc i) st s'"
proof -
  obtain dv a shown where s: "batch_dev_ok env rid dv" "length a = length (bt_area st)"
    "s = st\<lparr>bt_dev := dv, bt_area := a, bt_client := (fst (bt_client st), shown)\<rparr>" "length shown = i"
    "\<forall>j<i. take (length (block j keys)) (shown ! j) = block j keys"
    using assms(1) by (auto simp: handed_def)
  have c: "c = min BATCH (length keys - i * BATCH)" and d: "d = i * BATCH"
    using cpy_size_eq(1) [OF assms(2)] start_Suc(2) [OF assms(2)] by (simp_all add: c_def d_def)
  have b: "take c (drop d keys) = block i keys" "length (block i keys) = c"
    by (simp_all add: c d length_block) (simp add: block_def min_def)
  have "d + c \<le> length keys" "c \<le> length a"
    using cpy_size_eq(2) [OF assms(2)] assms(3) s(2) by (auto simp: c d)
  then have copy: "copy_keys (bt_area s) 0 keys d c = Inr (block i keys @ drop c a)" (is "_ = Inr ?a")
    by (simp add: copy_keys_def s(3) b(1))
  obtain d' where io: "batch_ioctl env recording_client QHGPU_IOC_BATCH_D2H rid (s\<lparr>bt_area := ?a\<rparr>) =
      Inr (0, s\<lparr>bt_area := ?a, bt_dev := d', bt_area := ?a, bt_client := (fst (bt_client st), shown @ [?a])\<rparr>)"
      "batch_dev_ok env rid d'"
    using batch_ioctl_store [of env rid "s\<lparr>bt_area := ?a\<rparr>" "fst (bt_client st)" shown] s(1) by (auto simp: s(3))
  let ?s = "st\<lparr>bt_dev := d', bt_area := ?a, bt_client := (fst (bt_client st), shown @ [?a])\<rparr>"
  have "length ?a = length (bt_area st)"
    using s(2) b(2) \<open>c \<le> length a\<close> by simp
  moreover have "\<forall>j<Suc i. take (length (block j keys)) ((shown @ [?a]) ! j) = block j keys"
    using s(4,5) b(2) by (auto simp: less_Suc_eq nth_append)
  ultimately have "handed env rid keys (Suc i) st ?s"
    unfolding handed_def
    by (intro exI [of _ d'] exI [of _ ?a] exI [of _ "shown @ [?a]"]) (use io(2) s(4) in simp)
  moreover have "s\<lparr>bt_area := ?a, bt_dev := d', bt_area := ?a, bt_client := (fst (bt_client st), shown @ [?a])\<rparr> = ?s"
    by (simp add: s(3))
  ultimately show ?thesis
    using copy io(1) by metis
qed

lemma batch_store_result:
  fixes keys :: "u32 list"
  defines "n \<equiv> length keys"
  assumes size: "unat (sr_mmap_size sr) = n" "unat (sr_batch_size sr) = blocks n"
    and area: "min BATCH n \<le> length (bt_area st)"
    and st: "batch_dev_ok env (sr_id sr) (bt_dev st)" "snd (bt_client st) = []"
  shows "\<exists>s. batch_store env recording_client sr keys st = Inr s \<and> bt_radix s = bt_radix st \<and>
    gives (snd (bt_client s)) keys"
proof -
  let ?b = "blocks n"
  define body where "body = (\<lambda>i (offset, st). bindR (copy_keys (bt_area st) 0 keys offset (cpy_size ?b n i)) (\<lambda>area.
        bindR (batch_ioctl env recording_client QHGPU_IOC_BATCH_D2H (sr_id sr) (st\<lparr>bt_area := area\<rparr>)) (\<lambda>(r, st).
        if r < 0 then Inl Aborted else Inr (offset + cpy_size ?b n i, st))))"
  have "\<exists>r. for_each [0..<?b] body (0, st) = Inr r \<and>
      fst r = start n ?b \<and> handed env (sr_id sr) keys ?b st (snd r)"
  proof (rule for_range_invariant [where Inv = "\<lambda>i r. fst r = start n i \<and> handed env (sr_id sr) keys i st (snd r)"])
    have "bt_client st = (fst (bt_client st), [])"
      using st(2) by (cases "bt_client st") simp
    then have "st = st\<lparr>bt_dev := bt_dev st, bt_area := bt_area st, bt_client := (fst (bt_client st), [])\<rparr>"
      by simp
    then have "handed env (sr_id sr) keys 0 st st"
      unfolding handed_def using st(1) by blast
    then show "fst (0 :: nat, st) = start n 0 \<and> handed env (sr_id sr) keys 0 st (snd (0 :: nat, st))"
      by (simp add: start_def)
    fix i and r :: "nat \<times> (u32 list list \<times> u32 list list) batch"
    assume i: "i < ?b" and inv: "fst r = start n i \<and> handed env (sr_id sr) keys i st (snd r)"
    obtain a s' where n: "copy_keys (bt_area (snd r)) 0 keys (start n i) (cpy_size ?b n i) = Inr a"
      "batch_ioctl env recording_client QHGPU_IOC_BATCH_D2H (sr_id sr) ((snd r)\<lparr>bt_area := a\<rparr>) = Inr (0, s')"
      "handed env (sr_id sr) keys (Suc i) st s'"
      using handed_next [of env "sr_id sr" keys i st "snd r"] inv i area by (auto simp: n_def)
    then have "body i r = Inr (start n (Suc i), s')"
      using inv start_Suc(1) [OF i] by (cases r) (simp add: body_def)
    then show "\<exists>r'. body i r = Inr r' \<and> fst r' = start n (Suc i) \<and> handed env (sr_id sr) keys (Suc i) st (snd r')"
      using n(3) by simp
  qed simp
  then obtain off s where r: "for_each [0..<?b] body (0, st) = Inr (off, s)" "handed env (sr_id sr) keys ?b st s"
    by auto
  have "batch_store env recording_client sr keys st = bindR (for_each [0..<?b] body (0, st)) (\<lambda>(_, st). Inr st)"
    by (simp add: batch_store_def Let_def body_def size)
  moreover have "bt_radix s = bt_radix st \<and> gives (snd (bt_client s)) keys"
    using r(2) by (auto simp: handed_def gives_def n_def)
  ultimately show ?thesis
    using r(1) by simp
qed

end
