(* ===== verification/QH_Batch_Results.thy ===== *)
theory QH_Batch_Results
  imports QH_Batch QH_Kernel
begin

text \<open>
  What the radix sort in batches does for a request that says how many batches there are, and for the
  requests that the helper really makes.
\<close>

text \<open>The sort between the transfers is the one of the radix service.\<close>

lemma batch_launch_eq:
  "batch_launch env client sr st =
     (let n = unat (sr_mmap_size sr); rx = rx_cl (bt_radix st) in
      if \<not> malloc_ok rx 3 then Inl Null_deref
      else bindR (batch_load env client sr (fresh rx 3 n, st)) (\<lambda>(keys, st).
        bindR (radix_launch keys n (bt_radix st)) (\<lambda>(_, rx).
        bindR (batch_store env client sr (h_keys rx) (st\<lparr>bt_radix := rx\<rparr>)) (\<lambda>st. Inr (0, st)))))"
  by (simp add: batch_launch_def radix_launch_def bindR_assoc Let_def)


text \<open>A request of one block and a half: the client loads the second block when it is asked.\<close>

definition sample_batch :: "u32 list list \<Rightarrow> (u32 list list \<times> u32 list list) batch" where
  "sample_batch areas = \<lparr>bt_dev = static_dev\<lparr>module_arr := [Some 64]\<rparr>, bt_area = hd areas,
     bt_client = (tl areas, []), bt_radix = sample_radix (\<lambda>_. True)\<rparr>"

lemma batch_sample_facts:
  "blocks (BATCH + 1024) = 2" "1024 \<le> BATCH" "GROUPS * ITEMS dvd BATCH + 1024" "BATCH + 1024 < 2 ^ 31"
  "unat (of_nat (BATCH + 1024) :: u64) = BATCH + 1024" "(0 :: nat) < BATCH + 1024"
  by (simp_all add: blocks_def BATCH_def host_params)

lemma gives_sample:
  "gives [replicate BATCH 9, replicate BATCH 9] (replicate (BATCH + 1024) 9)"
proof -
  have "[replicate BATCH 9, replicate BATCH 9] ! i = replicate BATCH (9 :: u32)" if "i < 2" for i
    using that by (auto simp: less_2_cases_iff)
  then show ?thesis
    using batch_sample_facts(2) by (auto simp: gives_def batch_sample_facts(1) block_def min_def simp flip: numeral_2_eq_2)
qed

lemma batch_count_sample: "nat (batch_count (int BATCH + 1024)) = 2"
  using blocks_batch_count [of "BATCH + 1024"] batch_sample_facts(1) by simp

lemma batch_dev_ok_sample: "batch_dev_ok sample_ioctl_env 0 (bt_dev (sample_batch areas))"
  by (simp add: batch_dev_ok_def sample_ioctl_env_def sample_batch_def static_dev_def)

lemma sample_malloc: "malloc_ok (rx_cl (sample_radix ok)) i"
  by (simp add: sample_radix_def sample_platform_def)


text \<open>C32: The helper does not copy the number of batches from the request, it is 0: \<open>batch_launch\<close> then sorts
  the contents of fresh memory, makes no ioctl, and neither reads nor writes the shared memory, whatever the
  client asked for.\<close>

theorem batches_never_requested:
  assumes "unat (ku_mmap_size k) = n" and "ready n ((bt_radix st)\<lparr>h_keys := fresh (rx_cl (bt_radix st)) 3 n\<rparr>)"
    and "all_ok (bt_radix st)" and "malloc_ok (rx_cl (bt_radix st)) 3"
  shows "\<exists>rx. batch_launch env client (sr_of_kureq fd k) st = Inr (0, st\<lparr>bt_radix := rx\<rparr>) \<and>
    h_keys rx = sort_key low_bits (fresh (rx_cl (bt_radix st)) 3 n)"
proof -
  let ?fr = "fresh (rx_cl (bt_radix st)) 3 n"
  have "length ?fr = n"
    using assms(2) by (simp add: ready_def fair_platform_def)
  then obtain rx where "radix_launch ?fr n (bt_radix st) = Inr (0, rx)" "h_keys rx = sort_key low_bits ?fr"
    using radix_launch_outcome [OF assms(2)] assms(3) by (auto simp: outcome_strict)
  then show ?thesis
    using assms(1,4)
    by (intro exI [of _ rx]) (simp add: batch_launch_eq batch_load_def batch_store_def sr_of_kureq_def zero_sr_def Let_def)
qed

theorem batches_never_requested_witness:
  "\<exists>rx. batch_launch sample_ioctl_env recording_client
        (sr_of_kureq 3 (sample_junk\<lparr>ku_mmap_size := 1024, ku_batch_size := 1\<rparr>)) (sample_batch [replicate 1024 9]) =
      Inr (0, (sample_batch [replicate 1024 9])\<lparr>bt_radix := rx\<rparr>) \<and>
    h_keys rx = sort_key low_bits (fresh (rx_cl (bt_radix (sample_batch [replicate 1024 9]))) 3 1024)"
proof (rule batches_never_requested)
  have "length (fresh (rx_cl (sample_radix (\<lambda>_. True))) 3 1024) = 1024"
    by (simp add: sample_radix_def sample_platform_def)
  then show "ready 1024 ((bt_radix (sample_batch [replicate 1024 9]))\<lparr>h_keys :=
      fresh (rx_cl (bt_radix (sample_batch [replicate 1024 9]))) 3 1024\<rparr>)"
    unfolding sample_batch_def by (simp del: One_nat_def) (rule ready_sample, simp_all add: host_params)
qed (use all_ok_sample sample_malloc in \<open>simp_all add: sample_batch_def sample_junk_def\<close>)

end
