(* ===== verification/QH_Slots.thy ===== *)
theory QH_Slots
  imports QH_Kernel QH_Firewall
begin

text \<open>
  What the end of a synchronous call means for the shared memory of a request: the slot is given back
  although the client still uses the memory and the identifier. Two clients are concerned: the radix sort module,
  which reads its keys after the call, and \<open>gpu_firewall_module.c\<close>, whose unloading submits the same request again.
\<close>

section \<open>Loading and unloading the filter module (gpu_firewall_module.c)\<close>

text \<open>Both functions up to the wait of the synchronous call. \<open>cb\<close> is the function \<open>gpu_firewall_module_callback\<close>.\<close>

definition gpu_init_module ::
  "(nat \<times> request) option \<Rightarrow> nat \<Rightarrow> nat option \<Rightarrow> bool \<Rightarrow> dev \<Rightarrow> (nat \<times> sync_outcome \<times> dev) res" where
  "gpu_init_module obj cb dalloc ialloc s =
     bindR (qhgpu_alloc_request obj 0 ''gpu_firewall_service'' s) (\<lambda>(r, s).
     bindR (heap_get (rheap s) r) (\<lambda>req.
     bindR (qhgpu_call_sync dalloc ialloc r (s\<lparr>rheap := (rheap s)(r \<mapsto> req\<lparr>rq_callback := Cb_user cb\<rparr>)\<rparr>)) (\<lambda>(out, s).
     Inr (r, out, s))))"

definition gpu_cleanup_module :: "nat \<Rightarrow> nat option \<Rightarrow> bool \<Rightarrow> dev \<Rightarrow> (sync_outcome \<times> dev) res" where
  "gpu_cleanup_module r dalloc ialloc s = qhgpu_call_sync dalloc ialloc r s"

section \<open>Slots\<close>

lemma return_mmap_frees:
  assumes "i < length (module_active_checker s)"
  shows "qhgpu_return_mmap (int i) s = Inr (s\<lparr>module_active_checker := (module_active_checker s)[i := 0]\<rparr>)"
  using assms by (simp add: qhgpu_return_mmap_def)

lemma mmap_id_first_free:
  assumes "i < nat (module_cnt s)" and "nat (module_cnt s) \<le> length (module_active_checker s)"
    and "module_active_checker s ! i = 0" and "\<forall>j<i. module_active_checker s ! j \<noteq> 0"
  shows "qhgpu_mmap_id s = Inr (int i, s\<lparr>module_active_checker := (module_active_checker s)[i := 1]\<rparr>)"
proof -
  have "find (\<lambda>j. module_active_checker s ! j = 0) [0..<nat (module_cnt s)] = Some i"
    using assms by (auto simp: find_Some_iff intro!: exI [of _ i])
  then show ?thesis
    using mmap_id_least_free_or_zero [OF assms(2)] by simp
qed

text \<open>The state after a synchronous call of the request \<open>r\<close>, and a request that another client then allocates.\<close>

lemma resume_frees_slot:
  assumes "qhgpu_call_sync_resume d r s = Inr (0, s1)" and "rheap s r = Some req" and "rq_id req = int i"
  shows "i < length (module_active_checker s)" and "module_active_checker s1 = (module_active_checker s)[i := 0]"
    and "module_cnt s1 = module_cnt s" and "kmmap_addr_arr s1 = kmmap_addr_arr s"
    and "\<exists>q. rheap s1 r = Some q \<and> rq_id q = rq_id req \<and> rq_kmmap_addr q = rq_kmmap_addr req"
  using assms by (auto simp: qhgpu_call_sync_resume_def qhgpu_return_mmap_def arr_set_Inr)

text \<open>C20: After a synchronous call the next request that any client allocates may have the identifier and the shared
  memory of the request of the call, which still points to them: this happens whenever no slot before it is
  free. The first client reads its results from memory that the other one writes.\<close>

theorem slot_reused_after_sync_call:
  assumes "qhgpu_call_sync_resume d r s = Inr (0, s1)" and "rheap s r = Some req" and "rq_id req = int i"
    and "i < nat (module_cnt s)" and "nat (module_cnt s) \<le> length (module_active_checker s)"
    and "\<forall>j<i. module_active_checker s ! j \<noteq> 0" and "i < length (kmmap_addr_arr s)"
    and "kmmap_addr_arr s ! i = rq_kmmap_addr req" and "r2 \<noteq> r" and "length name < SERVICE_NAME_SIZE"
  shows "\<exists>s2 req2 q. qhgpu_alloc_request (Some (r2, obj)) n name s1 = Inr (r2, s2) \<and>
    rheap s2 r2 = Some req2 \<and> rq_id req2 = rq_id req \<and> rq_kmmap_addr req2 = rq_kmmap_addr req \<and>
    rheap s2 r = Some q \<and> rq_id q = rq_id req \<and> rq_kmmap_addr q = rq_kmmap_addr req"
proof -
  note f = resume_frees_slot [OF assms(1-3)]
  have "qhgpu_mmap_id s1 = Inr (int i, s1\<lparr>module_active_checker := (module_active_checker s1)[i := 1]\<rparr>)"
    by (rule mmap_id_first_free) (use assms(4-6) f(1-3) in simp_all)
  moreover have "qhgpu_mmap_addr_pass (int i) (s1\<lparr>module_active_checker := (module_active_checker s1)[i := 1]\<rparr>) =
      Inr (rq_kmmap_addr req)"
    using assms(7,8) f(4) by (simp add: qhgpu_mmap_addr_pass_def)
  ultimately show ?thesis
    using f(5) assms(3,9,10) by (auto simp: qhgpu_alloc_request_def)
qed

definition sample_called :: dev where
  "sample_called = sample_waiting\<lparr>module_cnt := 1, kmmap_addr_arr := [0x5000],
     rheap := [0 \<mapsto> zero_request\<lparr>rq_kdata := KSync 3, rq_callback := Cb_sync, rq_kmmap_addr := 0x5000\<rparr>]\<rparr>"

definition sample_resumed :: dev where
  "sample_resumed = sample_called\<lparr>sheap := Map.empty, module_active_checker := [0],
     rheap := [0 \<mapsto> zero_request\<lparr>rq_kmmap_addr := 0x5000\<rparr>]\<rparr>"

lemma sample_resume: "qhgpu_call_sync_resume 3 0 sample_called = Inr (0, sample_resumed)"
  by (simp add: qhgpu_call_sync_resume_def qhgpu_return_mmap_def sample_resumed_def sample_called_def sample_waiting_def
    static_dev_def zero_request_def arr_set_def)

theorem slot_reused_after_sync_call_witness:
  "\<exists>s2 req2 q. qhgpu_alloc_request (Some (1, zero_request)) 1048576 ''radix_service'' sample_resumed = Inr (1, s2) \<and>
    rheap s2 1 = Some req2 \<and> rq_id req2 = 0 \<and> rq_kmmap_addr req2 = 0x5000 \<and>
    rheap s2 0 = Some q \<and> rq_id q = 0 \<and> rq_kmmap_addr q = 0x5000"
  using slot_reused_after_sync_call [OF sample_resume, of
      "zero_request\<lparr>rq_kdata := KSync 3, rq_callback := Cb_sync, rq_kmmap_addr := 0x5000\<rparr>" 0 1 "''radix_service''"
      zero_request 1048576]
  by (simp add: sample_called_def sample_waiting_def zero_request_def SERVICE_NAME_SIZE_def)

section \<open>Loading and unloading\<close>

text \<open>Loading submits a request without data; unloading submits it again, with the identifier of the slot that was given back.\<close>

lemma gpu_init_submits:
  assumes "gpu_init_module (Some (r, obj)) cb (Some d) True s = Inr (r', out, s')" and "dev_state s \<noteq> QHGPU_TERMINATED"
  shows "r' = r \<and> out = Sync_waiting d \<and> reqs s' = reqs s @ [r] \<and>
    (\<exists>q. rheap s' r = Some q \<and> rq_service_name q = ''gpu_firewall_service'' \<and> rq_mmap_size q = 0)"
  using assms
  by (auto simp: gpu_init_module_def qhgpu_alloc_request_def qhgpu_call_sync_def qhgpu_mmap_id_def enqueue_def emit_def
    Let_def split: if_splits prod.splits)

lemma gpu_cleanup_resubmits:
  assumes "gpu_cleanup_module r (Some d) True s = Inr (out, s')" and "dev_state s \<noteq> QHGPU_TERMINATED"
  shows "out = Sync_waiting d \<and> reqs s' = reqs s @ [r] \<and> map_option rq_id (rheap s' r) = map_option rq_id (rheap s r) \<and>
    module_active_checker s' = module_active_checker s"
  using assms
  by (auto simp: gpu_cleanup_module_def qhgpu_call_sync_def enqueue_def emit_def Let_def)

end
