(* ===== verification/Spec2Isabelle.thy ===== *)
theory Spec2Isabelle
  imports QH_List QH_Daemon QH_Mempool QH_Kernel QH_System QH_Startup QH_Radix_Service QH_Bfs_Results QH_Module_Runs QH_Firewall_Tables QH_Netfilter QH_Batch_Results QH_Slots
begin

text \<open>
  A verification development for QH-GPU, a framework that lets Linux kernel modules run work on a GPU.

  \<^bold>\<open>The program.\<close> A kernel module (\<open>src/qhgpu/main.c\<close>) exports calls with which client modules allocate
  requests, share memory with user space and submit requests, synchronously or with a callback. It keeps
  the submitted requests in two queues behind the character device \<open>/dev/qhgpu\<close>. A helper process in
  user space (\<open>src/qhgpu/connector.c\<close>) reads requests from the device, looks up the named service in
  its registry (\<open>src/qhgpu/qhgpu_daemon.c\<close>), takes the request through its states in intrusive lists
  (\<open>src/qhgpu/list.h\<close>), runs the service, and writes a response, on which the kernel module completes the
  request. Services are shared libraries that run OpenCL programs; the radix sort
  (\<open>src/test_module/radix_sort/lib\<close>, \<open>src/kernel/cl_radix_sort.cl\<close>) is one of them.

  \<^bold>\<open>Machine.\<close> \<open>QH_Prelude\<close> has the machine integers and the type of outcomes: code that may read a bad
  pointer, leave an array, fail an \<open>assert\<close> or abort returns \<open>Inl\<close> of the fault; error returns of the
  code are ordinary results. Code that may not return is of type \<open>_ res option\<close>, \<open>None\<close> for not
  returning. The operating system, the C library's allocator, the dynamic linker, the kernel's services
  and the OpenCL platform are parameters: records of functions, or arguments.

  \<^bold>\<open>The lists\<close> (\<open>QH_List\<close>, for \<open>list.h\<close>). Nodes of an explicit store with \<open>prev\<close> and \<open>next\<close> pointers; the
  operations are the assignments of the C text. \<open>family\<close> relates the store to the sequences of
  several list heads. The locale \<open>queue_family\<close> is the interface of a family of queues, interpreted on
  the pointer operations. Loops over a list are \<open>partial_function (option)\<close>; they are shown to end on
  every well-formed list and to visit every entry.

  \<^bold>\<open>The registry\<close> (\<open>QH_Daemon\<close>, for \<open>qhgpu_daemon.c\<close>). Registration, lookup, loading and unloading,
  over the interpreted list interface; lookup returns what registration and removal suggest.

  \<^bold>\<open>The buffer pool\<close> (\<open>QH_Mempool\<close>, for \<open>set_gpu_mempool\<close>, \<open>qhgpu_vmalloc\<close>, \<open>qhgpu_vfree\<close>). A bitmap
  of units and a table of sizes implement the map \<open>live\<close> from the first unit of a run to its length. The
  locale \<open>unit_allocator\<close> states what clients of an allocator may use; it is interpreted on the pool.

  \<^bold>\<open>The device\<close> (\<open>QH_Device\<close>, \<open>QH_Requests\<close>, \<open>QH_Kernel\<close>, for the rest of \<open>main.c\<close>). The global variables
  are the record \<open>dev\<close>; every file operation and exported call is a definition. A section under a
  spin lock is one atomic operation. \<open>dev_step\<close> is the step relation of the module under the
  discipline of its clients, \<open>dev_ok\<close> its invariant, proved by rule induction; the locale
  \<open>request_broker\<close> is what the helper relies on. \<open>QH_Kernel\<close> has the properties: no request is lost, no
  operation faults, reads and writes serve requests in order, calls give the request back. \<open>QH_Slots\<close> shows
  what becomes of the shared memory of a request after its call.

  \<^bold>\<open>The helper\<close> (\<open>QH_Connector\<close>, \<open>QH_Queues\<close>, \<open>QH_Progress\<close>, \<open>QH_Startup\<close>, for \<open>connector.c\<close>,
  \<open>cl_operator.c\<close> and \<open>qhgpu_log.c\<close>). A request item is linked into two lists; \<open>conn_rep\<close> relates the
  pointers to the sequence of items in each queue, and every operation is shown to act on the sequences.
  The locales \<open>helper_world\<close>, \<open>helper_os\<close> and \<open>reliable_services\<close> collect what a round of the main loop
  relies on. \<open>QH_Progress\<close> counts the rounds until a request is answered. \<open>QH_Startup\<close> has the start of
  the process, up to the state in which the main loop begins.

  \<^bold>\<open>Both together\<close> (\<open>QH_System\<close>). The system calls of the helper are the file operations of the device, and
  clients run between them. The locales of the helper are interpreted on this composition, which gives
  safety of the whole system and an answer to every request within a number of rounds.

  \<^bold>\<open>The GPU\<close> (\<open>QH_Gpu\<close>). A kernel runs groups of work items in phases between barriers. The device
  chooses the order of groups, the order of items in every phase and the contents of local memory;
  theorems hold for every choice. \<open>phase_result\<close> turns freedom from races into a result. Items of a
  phase run one after the other: a finer interleaving is not modelled, and makes no difference for items
  that touch disjoint cells, which is what the proofs show.

  \<^bold>\<open>The radix sort\<close> (\<open>QH_Radix_Kernels\<close>, \<open>QH_Scan\<close>, \<open>QH_Radix_Pass\<close>, \<open>QH_Radix_Order\<close>,
  \<open>QH_Radix_Host\<close>, \<open>QH_Radix\<close>, \<open>QH_Radix_Service\<close>). The kernels; the up and down sweep as exclusive
  prefix sums; one pass as the stable sort by a digit; the passes together as a sort by all digits, in the
  locale \<open>stable_passes\<close>, which is interpreted on the host code; the host code over an OpenCL API in which
  every call may fail; and the service, with its set-up, transfers and check.

  \<^bold>\<open>The breadth-first search\<close> (\<open>QH_OpenCL\<close>, \<open>QH_Bfs\<close>, \<open>QH_Bfs_Levels\<close>, \<open>QH_Bfs_Gpu\<close>, \<open>QH_Bfs_Host\<close>,
  \<open>QH_Bfs_Run\<close>, \<open>QH_Bfs_Service\<close>, \<open>QH_Bfs_Module\<close>, \<open>QH_Bfs_Convert\<close>, \<open>QH_Bfs_Results\<close>, for
  \<open>src/test_module/bfs\<close> and \<open>src/kernel/bfs_kernels.cl\<close>). \<open>QH_OpenCL\<close> is the part of the API that the host
  code uses, over buffers of bytes. The search of the client on the CPU and the search by the two kernels
  are both instances of the locale \<open>level_search\<close>, which finds the distances level by level; the module
  theories have the way of a graph from the matrix through the memory of the request to the device.

  \<^bold>\<open>The clients of the radix sort\<close> (\<open>QH_Radix_Client\<close>, \<open>QH_Batch\<close>, \<open>QH_Batch_Results\<close>, for
  \<open>radix_sort_module.c\<close>, \<open>libsrv_batch.c\<close>, \<open>batch_test_module.c\<close>). The counting sort of the client on the
  CPU is a second interpretation of \<open>stable_passes\<close>, which gives that both programs leave the same keys. The
  service for large requests collects the keys block by block through ioctls of the device, which call
  the client; the blocks of the kernel module, of the service and of the results are shown to be the same.

  \<^bold>\<open>The shortest paths\<close> (\<open>QH_Floyd\<close>, \<open>QH_Floyd_Pass\<close>, \<open>QH_Floyd_Host\<close>, \<open>QH_Floyd_Results\<close>,
  \<open>QH_Floyd_Module\<close>, for \<open>src/test_module/floyd_warshall\<close> and its kernel). The host code gives its commands to
  a queue that may reorder them: a command is atomic, the device chooses the order. \<open>fw_pass\<close> is the effect of
  one pass, \<open>least_walk\<close> the specification; the theorems say when the result is the one of the program on
  the CPU, and what the order of commands can spoil. \<open>QH_Module_Runs\<close> has the runs of this client and of the client of
  the breadth-first search, with the services behind their calls.

  \<^bold>\<open>The packet filters\<close> (\<open>QH_Firewall\<close>, \<open>QH_Firewall_Gpu\<close>, \<open>QH_Firewall_Results\<close>, \<open>QH_Netfilter\<close>,
  \<open>QH_Addresses\<close>, \<open>QH_Firewall_Tables\<close>, for \<open>cpu_firewall\<close>, \<open>gpu_firewall\<close> and \<open>netfilter_firewall\<close>). The
  hook that looks an address up on the CPU, the service that decides batches of packets on the GPU, and the
  program that reads the packets of the netfilter queue; the netfilter library and \<open>recv\<close> are
  parameters. The tables of addresses are definitions of 128 entries each, in \<open>QH_Addresses\<close>; they are
  compared through lists of the four numbers of each address, and the filters are then compared on them.

  \<^bold>\<open>Bounds.\<close> There is no fuel in the development: loops are structural, have a measure, or are
  \<open>partial_function (option)\<close> with a proof that they return. Sizes and indices of kernels are natural numbers where
  the code keeps them below \<open>2 ^ 31\<close>; identifiers, keys and pointers keep their width.

  \<^bold>\<open>Not modelled.\<close> Messages other than those of the radix clients, and timers; code that is commented out
  (\<open>cl_helper.h\<close>, \<open>test_module.c\<close>, \<open>corput\<close>); the remaining demonstration modules, which submit requests through
  the modelled calls and print times and memory; the default service, whose functions print and return 0; the copies of
  the radix sort in \<open>radix_sort2\<close> and \<open>batch_test_module\<close>, which are the same text but for the names of the
  service and of the kernel file, so that the definitions of the radix sort are their model as well.
\<close>

end
